(* ===== verification/Syn_Prelude.thy ===== *)
theory Syn_Prelude
  imports Main "HOL-Library.Char_ord" "HOL-Library.List_Lexorder"
begin

text \<open>
  Shared vocabulary of the development.

  \<^item> Rust's \<open>Result<T, E>\<close> is the sum \<open>'e + 'a\<close> (\<open>Inl\<close> the error, \<open>Inr\<close> the value);
    \<open>res_bind\<close> is the question-mark operator, \<open>ensure\<close> a guard with an early return,
    \<open>try_each\<close> a loop whose body may return early and \<open>try_map\<close> the collection of a
    fallible iterator into a \<open>Result<Vec<_>, _>\<close>.
  \<^item> Rust's \<open>String\<close> is its UTF-8 byte sequence, a \<open>string\<close> whose characters are bytes:
    \<open>len()\<close> is \<open>length\<close>, the derived \<open>Ord\<close> is the byte-wise lexicographic order of
    \<open>List_Lexorder\<close>. White space and control characters are recognised on their UTF-8
    encodings.
  \<^item> \<open>Duration\<close> and \<open>Instant\<close> are natural numbers of nanoseconds; \<open>usize\<close> and \<open>u64\<close> are
    natural numbers with the 64-bit saturation or wrap-around written out where the source
    performs arithmetic that can reach it.
  \<^item> The locale \<open>transition_system\<close> carries the reachability and invariant argument that
    every state machine of the development shares.
\<close>

named_theorems result_simps \<open>inversion of the Result combinators\<close>
named_theorems guard_defs \<open>definitions of validation functions, unfolded by their proofs\<close>

section \<open>Results\<close>

type_synonym ('e, 'a) result = "'e + 'a"

definition res_bind :: "('e, 'a) result \<Rightarrow> ('a \<Rightarrow> ('e, 'b) result) \<Rightarrow> ('e, 'b) result" where
  "res_bind r f = (case r of Inl e \<Rightarrow> Inl e | Inr x \<Rightarrow> f x)"

definition ensure :: "bool \<Rightarrow> 'e \<Rightarrow> ('e, unit) result" where
  "ensure c e = (if c then Inr () else Inl e)"

definition map_err :: "('e \<Rightarrow> 'f) \<Rightarrow> ('e, 'a) result \<Rightarrow> ('f, 'a) result" where
  "map_err f r = (case r of Inl e \<Rightarrow> Inl (f e) | Inr x \<Rightarrow> Inr x)"

definition ok_or :: "'a option \<Rightarrow> 'e \<Rightarrow> ('e, 'a) result" where
  "ok_or v e = (case v of None \<Rightarrow> Inl e | Some x \<Rightarrow> Inr x)"

definition is_ok :: "('e, 'a) result \<Rightarrow> bool" where
  "is_ok r = (case r of Inl _ \<Rightarrow> False | Inr _ \<Rightarrow> True)"

fun try_each :: "('a \<Rightarrow> ('e, unit) result) \<Rightarrow> 'a list \<Rightarrow> ('e, unit) result" where
  "try_each f [] = Inr ()"
| "try_each f (x # xs) = res_bind (f x) (\<lambda>_. try_each f xs)"

fun try_map :: "('a \<Rightarrow> ('e, 'b) result) \<Rightarrow> 'a list \<Rightarrow> ('e, 'b list) result" where
  "try_map f [] = Inr []"
| "try_map f (x # xs) = res_bind (f x) (\<lambda>y. res_bind (try_map f xs) (\<lambda>ys. Inr (y # ys)))"

lemma res_bind_simps [simp]:
  "res_bind (Inl e) f = Inl e"
  "res_bind (Inr x) f = f x"
  by (simp_all add: res_bind_def)

lemma res_bind_eq_Inr [result_simps]:
  "res_bind r f = Inr y \<longleftrightarrow> (\<exists>x. r = Inr x \<and> f x = Inr y)"
  by (cases r) auto

lemma res_bind_eq_Inl [result_simps]:
  "res_bind r f = Inl e \<longleftrightarrow> r = Inl e \<or> (\<exists>x. r = Inr x \<and> f x = Inl e)"
  by (cases r) auto

lemma ensure_simps [simp]:
  "ensure True e = Inr ()"
  "ensure False e = Inl e"
  by (simp_all add: ensure_def)

lemma ensure_eq_Inr [result_simps]: "ensure c e = Inr u \<longleftrightarrow> c"
  by (cases c) auto

lemma ensure_eq_Inl [result_simps]: "ensure c e = Inl e' \<longleftrightarrow> \<not> c \<and> e' = e"
  by (cases c) auto

lemma map_err_simps [simp]:
  "map_err f (Inl e) = Inl (f e)"
  "map_err f (Inr x) = Inr x"
  by (simp_all add: map_err_def)

lemma map_err_eq_Inr [result_simps]: "map_err f r = Inr y \<longleftrightarrow> r = Inr y"
  by (cases r) auto

lemma map_err_eq_Inl [result_simps]: "map_err f r = Inl e' \<longleftrightarrow> (\<exists>e. r = Inl e \<and> e' = f e)"
  by (cases r) auto

lemma ok_or_simps [simp]:
  "ok_or None e = Inl e"
  "ok_or (Some x) e = Inr x"
  by (simp_all add: ok_or_def)

lemma ok_or_eq_Inr [result_simps]: "ok_or v e = Inr y \<longleftrightarrow> v = Some y"
  by (cases v) auto

lemma ok_or_eq_Inl [result_simps]: "ok_or v e = Inl e' \<longleftrightarrow> v = None \<and> e' = e"
  by (cases v) auto

lemma is_ok_simps [simp]: "is_ok (Inr x)" "\<not> is_ok (Inl e)"
  by (simp_all add: is_ok_def)

lemma is_ok_iff: "is_ok r \<longleftrightarrow> (\<exists>x. r = Inr x)"
  by (cases r) auto

lemma try_each_eq_Inr [result_simps]:
  "try_each f xs = Inr u \<longleftrightarrow> (\<forall>x \<in> set xs. f x = Inr ())"
  by (induction xs) (auto simp: result_simps)

lemma try_each_eq_Inl:
  "try_each f xs = Inl e \<Longrightarrow> \<exists>x \<in> set xs. f x = Inl e"
  by (induction xs) (auto simp: result_simps)

lemma try_map_eq_Inr:
  "try_map f xs = Inr ys \<longleftrightarrow> list_all2 (\<lambda>x y. f x = Inr y) xs ys"
  by (induction xs arbitrary: ys) (auto simp: result_simps list_all2_Cons1)

lemma try_map_elem: "try_map f xs = Inr ys \<Longrightarrow> x \<in> set xs \<Longrightarrow> \<exists>y. f x = Inr y"
  by (induction xs arbitrary: ys) (auto simp: result_simps)

lemma try_map_inverse:
  assumes "\<And>x. x \<in> set xs \<Longrightarrow> f (g x) = Inr x"
  shows "try_map f (map g xs) = Inr xs"
  using assms by (induction xs) auto

text \<open>The two outcomes of a call that returns a result together with the state it leaves.\<close>

lemma outcome_cases:
  obtains (Err) e s' where "x = (Inl e, s')" | (Ok) v s' where "x = (Inr v, s')"
  by (cases x; cases "fst x") auto

section \<open>Options and lists\<close>

lemma find_Some_set: "List.find P xs = Some x \<Longrightarrow> x \<in> set xs \<and> P x"
  by (auto simp: find_Some_iff)

lemma find_exists: "\<exists>x \<in> set xs. P x \<Longrightarrow> \<exists>y. List.find P xs = Some y"
  by (cases "List.find P xs") (auto simp: find_None_iff)

section \<open>Saturating arithmetic at 64 bits\<close>

definition u64_max :: nat where
  "u64_max = 2 ^ 64 - 1"

definition saturating_add :: "nat \<Rightarrow> nat \<Rightarrow> nat" where
  "saturating_add a b = min (a + b) u64_max"

definition wrapping_add :: "nat \<Rightarrow> nat \<Rightarrow> nat" where
  "wrapping_add a b = (a + b) mod 2 ^ 64"

definition saturating_sub :: "nat \<Rightarrow> nat \<Rightarrow> nat" where
  "saturating_sub a b = a - b"

lemma saturating_add_le_iff:
  "b < u64_max \<Longrightarrow> saturating_add a n \<le> b \<longleftrightarrow> a + n \<le> b"
  by (auto simp: saturating_add_def min_def)

lemma saturating_add_gt_iff:
  "b < u64_max \<Longrightarrow> b < saturating_add a n \<longleftrightarrow> b < a + n"
  by (auto simp: saturating_add_def min_def)

section \<open>Strings as UTF-8 bytes\<close>

abbreviation byte_of :: "char \<Rightarrow> nat" where
  "byte_of c \<equiv> of_char c"

definition is_ascii_alphanumeric :: "char \<Rightarrow> bool" where
  "is_ascii_alphanumeric c \<longleftrightarrow>
     (48 \<le> byte_of c \<and> byte_of c \<le> 57) \<or> (65 \<le> byte_of c \<and> byte_of c \<le> 90) \<or>
     (97 \<le> byte_of c \<and> byte_of c \<le> 122)"

text \<open>The byte length of the white-space character a byte sequence starts with, 0 if none:
  the White\_Space code points U+0009 to U+000D, U+0020, U+0085, U+00A0, U+1680,
  U+2000 to U+200A, U+2028, U+2029, U+202F, U+205F and U+3000.\<close>

definition ws1 :: "nat \<Rightarrow> bool" where
  "ws1 b \<longleftrightarrow> (9 \<le> b \<and> b \<le> 13) \<or> b = 32"

definition ws2 :: "nat \<Rightarrow> nat \<Rightarrow> bool" where
  "ws2 b c \<longleftrightarrow> b = 194 \<and> (c = 133 \<or> c = 160)"

definition ws3 :: "nat \<Rightarrow> nat \<Rightarrow> nat \<Rightarrow> bool" where
  "ws3 b c d \<longleftrightarrow>
     (b = 225 \<and> c = 154 \<and> d = 128) \<or>
     (b = 226 \<and> c = 128 \<and> ((128 \<le> d \<and> d \<le> 138) \<or> d = 168 \<or> d = 169 \<or> d = 175)) \<or>
     (b = 226 \<and> c = 129 \<and> d = 159) \<or>
     (b = 227 \<and> c = 128 \<and> d = 128)"

fun ws_front :: "nat list \<Rightarrow> nat" where
  "ws_front (b # c # d # bs) =
     (if ws1 b then 1 else if ws2 b c then 2 else if ws3 b c d then 3 else 0)"
| "ws_front [b, c] = (if ws1 b then 1 else if ws2 b c then 2 else 0)"
| "ws_front [b] = (if ws1 b then 1 else 0)"
| "ws_front [] = 0"

text \<open>The same at the end of a byte sequence, read backwards.\<close>

fun ws_back :: "nat list \<Rightarrow> nat" where
  "ws_back (d # c # b # bs) =
     (if ws1 d then 1 else if ws2 c d then 2 else if ws3 b c d then 3 else 0)"
| "ws_back [d, c] = (if ws1 d then 1 else if ws2 c d then 2 else 0)"
| "ws_back [d] = (if ws1 d then 1 else 0)"
| "ws_back [] = 0"

function drop_ws :: "(nat list \<Rightarrow> nat) \<Rightarrow> nat list \<Rightarrow> nat list" where
  "drop_ws f bs = (if bs = [] \<or> f bs = 0 then bs else drop_ws f (drop (f bs) bs))"
  by pat_completeness auto
termination
  by (relation "measure (\<lambda>(f, bs). length bs)") auto

declare drop_ws.simps [simp del]

definition trim_bytes :: "nat list \<Rightarrow> nat list" where
  "trim_bytes bs = rev (drop_ws ws_back (rev (drop_ws ws_front bs)))"

definition trim :: "string \<Rightarrow> string" where
  "trim s = map char_of (trim_bytes (map of_char s))"

definition is_blank :: "string \<Rightarrow> bool" where
  "is_blank s \<longleftrightarrow> trim s = []"

text \<open>\<open>char::is_control\<close> holds for U+0000 to U+001F and U+007F to U+009F.\<close>

fun has_control_bytes :: "nat list \<Rightarrow> bool" where
  "has_control_bytes [] = False"
| "has_control_bytes [b] = (b < 32 \<or> b = 127)"
| "has_control_bytes (b # c # bs) =
     (b < 32 \<or> b = 127 \<or> (b = 194 \<and> 128 \<le> c \<and> c \<le> 159) \<or> has_control_bytes (c # bs))"

definition has_control :: "string \<Rightarrow> bool" where
  "has_control s = has_control_bytes (map of_char s)"

lemma drop_ws_Nil [simp]: "drop_ws f [] = []"
  by (simp add: drop_ws.simps)

lemma drop_ws_stop: "f bs = 0 \<Longrightarrow> drop_ws f bs = bs"
  by (simp add: drop_ws.simps)

lemma is_blank_Nil [simp]: "is_blank []"
  by (simp add: is_blank_def trim_def trim_bytes_def)

definition ident_char :: "char \<Rightarrow> bool" where
  "ident_char c \<longleftrightarrow> is_ascii_alphanumeric c \<or> c = CHR ''-'' \<or> c = CHR ''_'' \<or> c = CHR ''.''"

lemma ident_char_byte: "ident_char c \<Longrightarrow> byte_of c < 128 \<and> \<not> ws1 (byte_of c)"
  unfolding ident_char_def is_ascii_alphanumeric_def ws1_def
  by (elim disjE conjE) simp_all

lemma ws_front_low: "b < 128 \<Longrightarrow> \<not> ws1 b \<Longrightarrow> ws_front (b # bs) = 0"
  by (cases "b # bs" rule: ws_front.cases) (simp_all add: ws2_def ws3_def)

lemma ws_back_low: "b < 128 \<Longrightarrow> \<not> ws1 b \<Longrightarrow> ws_back (b # bs) = 0"
  by (cases "b # bs" rule: ws_back.cases) (simp_all add: ws2_def ws3_def)

text \<open>A non-empty identifier over the ASCII identifier alphabet is never blank.\<close>

lemma not_blank_if_ident:
  assumes "s \<noteq> []"
    and "\<forall>c \<in> set s. ident_char c"
  shows "\<not> is_blank s"
proof -
  from assms(1) obtain c cs where s: "s = c # cs" by (cases s) auto
  obtain ds d where r: "s = ds @ [d]" using assms(1) by (cases s rule: rev_cases) auto
  have front: "drop_ws ws_front (map of_char s) = map of_char s"
    using assms(2) s by (simp add: drop_ws_stop ws_front_low ident_char_byte)
  have "drop_ws ws_back (rev (map of_char s)) = rev (map of_char s)"
    using assms(2) r by (simp add: drop_ws_stop ws_back_low ident_char_byte)
  then have "trim_bytes (map of_char s) = map of_char s"
    by (simp add: trim_bytes_def front)
  then show ?thesis using assms(1) by (simp add: is_blank_def trim_def)
qed

section \<open>State machines\<close>

text \<open>
  A deterministic component with operations: \<open>apply_op\<close> is what one call does to the state
  (including a call that is refused), \<open>initial\<close> its constructor's states and \<open>inv\<close> what every
  call keeps. Its clients learn that the invariant holds after any sequence of calls.
\<close>

inductive reaches :: "('s \<Rightarrow> 'o \<Rightarrow> 's) \<Rightarrow> 's \<Rightarrow> 's \<Rightarrow> bool" for f s where
  reaches_refl: "reaches f s s"
| reaches_step: "reaches f s t \<Longrightarrow> reaches f s (f t o')"

inductive_cases reaches_cases: "reaches f s t"

lemma reaches_trans: "reaches f t u \<Longrightarrow> reaches f s t \<Longrightarrow> reaches f s u"
  by (induction rule: reaches.induct) (auto intro: reaches.intros)

lemma reaches_foldl: "reaches f s (foldl f s ops)"
proof (induction ops rule: rev_induct)
  case Nil
  show ?case by (simp add: reaches_refl)
next
  case (snoc x xs)
  then show ?case by (auto intro: reaches_step)
qed

lemma reaches_iff_foldl: "reaches f s t \<longleftrightarrow> (\<exists>ops. t = foldl f s ops)"
proof
  assume "reaches f s t"
  then show "\<exists>ops. t = foldl f s ops"
  proof (induction rule: reaches.induct)
    case reaches_refl
    show ?case by (rule exI [where x = "[]"]) simp
  next
    case (reaches_step t o')
    then obtain ops where "t = foldl f s ops" by blast
    then show ?case by (intro exI [where x = "ops @ [o']"]) simp
  qed
qed (auto intro: reaches_foldl)

locale transition_system =
  fixes apply_op :: "'s \<Rightarrow> 'o \<Rightarrow> 's"
    and initial :: "'s \<Rightarrow> bool"
    and inv :: "'s \<Rightarrow> bool"
  assumes inv_init: "initial s \<Longrightarrow> inv s"
    and inv_step: "inv s \<Longrightarrow> inv (apply_op s o')"
begin

lemma inv_reaches: "reaches apply_op s t \<Longrightarrow> inv s \<Longrightarrow> inv t"
  by (induction rule: reaches.induct) (auto intro: inv_step)

lemma inv_run: "initial s \<Longrightarrow> inv (foldl apply_op s ops)"
  using inv_reaches [OF reaches_foldl] inv_init by blast

end

text \<open>A state machine some of whose states are final: no call leaves them.\<close>

locale terminating_system = transition_system +
  fixes final :: "'s \<Rightarrow> bool"
  assumes final_step: "inv s \<Longrightarrow> final s \<Longrightarrow> apply_op s o' = s"
begin

lemma final_reaches: "reaches apply_op s t \<Longrightarrow> inv s \<Longrightarrow> final s \<Longrightarrow> t = s"
  by (induction rule: reaches.induct) (auto simp: final_step)

lemma final_run: "inv s \<Longrightarrow> final s \<Longrightarrow> foldl apply_op s ops = s"
  using final_reaches [OF reaches_foldl] by blast

end

end
