(* ===== verification/Orch_Domain.thy ===== *)
theory Orch_Domain
  imports Syn_Prelude "HOL-Library.Word"
begin

text \<open>
  The domain values of the orchestration crate (\<open>codex-rs/orchestration/src\<close>): bounded
  identifiers and texts, modes and state dimensions, access ceilings and permission
  envelopes, the fixed-point usage multiplier, routes, handoffs, evidence, forecasts and
  recommendations. Every validating constructor of the crate is a definition returning a
  result; the locale \<open>validated_text\<close> states the contract the string newtypes share and
  \<open>ceiling_order\<close> the laws of access ceilings.
\<close>

section \<open>Validated string newtypes\<close>

text \<open>
  A newtype over \<open>String\<close> with a validating constructor: \<open>make\<close> wraps, \<open>new\<close> validates,
  \<open>as_str\<close> reads back. Deserialisation goes through \<open>new\<close>, so the round trip through the
  text is exact on every value that was ever constructed.
\<close>

locale validated_text =
  fixes make :: "string \<Rightarrow> 'i"
    and as_str :: "'i \<Rightarrow> string"
    and new :: "string \<Rightarrow> ('e, 'i) result"
    and valid :: "string \<Rightarrow> bool"
  assumes as_str_make: "as_str (make s) = s"
    and new_ok: "valid s \<Longrightarrow> new s = Inr (make s)"
    and new_err: "\<not> valid s \<Longrightarrow> \<exists>e. new s = Inl e"
begin

lemma new_iff: "new s = Inr i \<longleftrightarrow> valid s \<and> i = make s"
  using new_ok new_err by (cases "valid s") fastforce+

lemma new_as_str: "new s = Inr i \<Longrightarrow> as_str i = s"
  by (simp add: new_iff as_str_make)

lemma reparse: "new s = Inr i \<Longrightarrow> new (as_str i) = Inr i"
  by (simp add: new_iff as_str_make)

lemma new_inj: "new s = Inr i \<Longrightarrow> new t = Inr i \<Longrightarrow> s = t"
  using new_as_str by blast

end

definition MAX_IDENTIFIER_LENGTH :: nat where
  "MAX_IDENTIFIER_LENGTH = 128"

datatype IdentifierError = Identifier_Empty | Identifier_TooLong

text \<open>The body of the \<open>domain_id!\<close> macro's \<open>new\<close>, shared by the three identifier types.\<close>

definition domain_id_new :: "(string \<Rightarrow> 'i) \<Rightarrow> string \<Rightarrow> (IdentifierError, 'i) result" where
  "domain_id_new make s =
     (if s = [] then Inl Identifier_Empty
      else if length s > MAX_IDENTIFIER_LENGTH then Inl Identifier_TooLong
      else Inr (make s))"

definition valid_identifier :: "string \<Rightarrow> bool" where
  "valid_identifier s \<longleftrightarrow> s \<noteq> [] \<and> length s \<le> MAX_IDENTIFIER_LENGTH"

datatype WorkflowId = WorkflowId (WorkflowId_as_str: string)
datatype TaskId = TaskId (TaskId_as_str: string)
datatype AgentId = AgentId (AgentId_as_str: string)

definition WorkflowId_new :: "string \<Rightarrow> (IdentifierError, WorkflowId) result" where
  "WorkflowId_new = domain_id_new WorkflowId"

definition TaskId_new :: "string \<Rightarrow> (IdentifierError, TaskId) result" where
  "TaskId_new = domain_id_new TaskId"

definition AgentId_new :: "string \<Rightarrow> (IdentifierError, AgentId) result" where
  "AgentId_new = domain_id_new AgentId"

lemma domain_id_new_ok: "valid_identifier s \<Longrightarrow> domain_id_new make s = Inr (make s)"
  by (simp add: domain_id_new_def valid_identifier_def)

lemma domain_id_new_err: "\<not> valid_identifier s \<Longrightarrow> \<exists>e. domain_id_new make s = Inl e"
  by (auto simp: domain_id_new_def valid_identifier_def)

interpretation workflow_id: validated_text WorkflowId WorkflowId_as_str WorkflowId_new valid_identifier
  by unfold_locales (simp_all add: WorkflowId_new_def domain_id_new_ok domain_id_new_err)

interpretation task_id: validated_text TaskId TaskId_as_str TaskId_new valid_identifier
  by unfold_locales (simp_all add: TaskId_new_def domain_id_new_ok domain_id_new_err)

interpretation agent_id: validated_text AgentId AgentId_as_str AgentId_new valid_identifier
  by unfold_locales (simp_all add: AgentId_new_def domain_id_new_ok domain_id_new_err)

definition MAX_HANDOFF_TEXT_BYTES :: nat where
  "MAX_HANDOFF_TEXT_BYTES = 4096"

datatype BoundedText = BoundedText (BoundedText_as_str: string)

datatype BoundedTextError = BoundedText_TooLong

definition BoundedText_new :: "string \<Rightarrow> (BoundedTextError, BoundedText) result" where
  "BoundedText_new s =
     (if length s > MAX_HANDOFF_TEXT_BYTES then Inl BoundedText_TooLong else Inr (BoundedText s))"

definition valid_bounded_text :: "string \<Rightarrow> bool" where
  "valid_bounded_text s \<longleftrightarrow> length s \<le> MAX_HANDOFF_TEXT_BYTES"

interpretation bounded_text: validated_text BoundedText BoundedText_as_str BoundedText_new valid_bounded_text
  by unfold_locales (auto simp: BoundedText_new_def valid_bounded_text_def)

section \<open>Modes and independent state dimensions\<close>

datatype OrchestrationMode = Mode_Single | Mode_Manual | Mode_Recommended | Mode_Automatic | Mode_Adaptive

datatype WorkflowStage =
  Stage_Planning | Stage_Exploring | Stage_Executing | Stage_Verifying | Stage_Repairing

datatype RunLifecycleState =
  Run_Created | Run_Ready | Run_Running | Run_Waiting | Run_Succeeded | Run_Failed

datatype WaitReason =
  Wait_UserConfirmation | Wait_Approval | Wait_AgentCompletion | Wait_ToolCompletion
  | Wait_BudgetDecision | Wait_RetryDelay | Wait_ExternalDependency

datatype CancellationState =
  Cancel_NotRequested | Cancel_Requested | Cancel_Cancelling | Cancel_Cancelled

datatype VerificationState =
  Verification_NotRequired | Verification_Pending | Verification_Running | Verification_Passed
  | Verification_Failed | Verification_Blocked | Verification_Inconclusive

datatype DataQuality = Quality_Exact | Quality_Derived | Quality_Estimated | Quality_Unavailable

section \<open>Roles and access ceilings\<close>

datatype AgentRole = Role_Planner | Role_Explorer | Role_Executor | Role_Verifier

datatype WorkAccess = ReadOnly | Writer

definition WorkAccess_allows :: "WorkAccess \<Rightarrow> WorkAccess \<Rightarrow> bool" where
  "WorkAccess_allows ceiling requested \<longleftrightarrow> ceiling = Writer \<or> requested = ReadOnly"

text \<open>What a ceiling check promises: ceilings form a total order, so a chain of checks
  bounds the last request by the first ceiling.\<close>

locale ceiling_order =
  fixes allows :: "'a \<Rightarrow> 'a \<Rightarrow> bool"
  assumes allows_refl: "allows a a"
    and allows_trans: "allows a b \<Longrightarrow> allows b c \<Longrightarrow> allows a c"
    and allows_antisym: "allows a b \<Longrightarrow> allows b a \<Longrightarrow> a = b"
    and allows_total: "allows a b \<or> allows b a"
begin

lemma not_allows: "\<not> allows a b \<Longrightarrow> allows b a \<and> a \<noteq> b"
  using allows_total allows_refl by metis

lemma chain_bound: "successively allows (a # as) \<Longrightarrow> b \<in> set as \<Longrightarrow> allows a b"
proof (induction as arbitrary: a)
  case Nil
  then show ?case by simp
next
  case (Cons c cs)
  then have "allows a c" and tail: "successively allows (c # cs)" by simp_all
  show ?case
  proof (cases "b = c")
    case True
    with \<open>allows a c\<close> show ?thesis by simp
  next
    case False
    then have "allows c b" using Cons.IH [OF tail] Cons.prems(2) by simp
    with \<open>allows a c\<close> show ?thesis by (rule allows_trans)
  qed
qed

end

interpretation access: ceiling_order WorkAccess_allows
  by unfold_locales (auto simp: WorkAccess_allows_def intro: WorkAccess.exhaust)

lemma allows_simps [simp]:
  "WorkAccess_allows Writer a"
  "WorkAccess_allows a ReadOnly"
  "\<not> WorkAccess_allows ReadOnly Writer"
  by (simp_all add: WorkAccess_allows_def)

lemma allows_ReadOnly_iff [simp]: "WorkAccess_allows ReadOnly a \<longleftrightarrow> a = ReadOnly"
  by (cases a) simp_all

lemma allows_Writer_iff [simp]: "WorkAccess_allows a Writer \<longleftrightarrow> a = Writer"
  by (cases a) simp_all

datatype PermissionEnvelopeError =
  ParentExceedsWorkflow | AssignmentExceedsWorkflow | AssignmentExceedsParent

record PermissionEnvelope =
  workflow_ceiling :: WorkAccess
  parent_ceiling :: WorkAccess
  assignment_access :: WorkAccess

definition PermissionEnvelope_new ::
  "WorkAccess \<Rightarrow> WorkAccess \<Rightarrow> WorkAccess \<Rightarrow> (PermissionEnvelopeError, PermissionEnvelope) result" where
  "PermissionEnvelope_new wf_ceiling par_ceiling access =
     (if \<not> WorkAccess_allows wf_ceiling par_ceiling then Inl ParentExceedsWorkflow
      else if \<not> WorkAccess_allows wf_ceiling access then Inl AssignmentExceedsWorkflow
      else if \<not> WorkAccess_allows par_ceiling access then Inl AssignmentExceedsParent
      else Inr \<lparr>workflow_ceiling = wf_ceiling, parent_ceiling = par_ceiling,
                assignment_access = access\<rparr>)"

text \<open>The wire form and its conversion: deserialising an envelope re-validates it.\<close>

record PermissionEnvelopeWire =
  wire_workflow_ceiling :: WorkAccess
  wire_parent_ceiling :: WorkAccess
  wire_assignment_access :: WorkAccess

definition PermissionEnvelope_try_from ::
  "PermissionEnvelopeWire \<Rightarrow> (PermissionEnvelopeError, PermissionEnvelope) result" where
  "PermissionEnvelope_try_from w =
     PermissionEnvelope_new (wire_workflow_ceiling w) (wire_parent_ceiling w)
       (wire_assignment_access w)"

definition envelope_wf :: "PermissionEnvelope \<Rightarrow> bool" where
  "envelope_wf e \<longleftrightarrow>
     successively WorkAccess_allows [workflow_ceiling e, parent_ceiling e, assignment_access e]"

lemma PermissionEnvelope_new_iff:
  "PermissionEnvelope_new w p a = Inr e \<longleftrightarrow>
     e = \<lparr>workflow_ceiling = w, parent_ceiling = p, assignment_access = a\<rparr> \<and> envelope_wf e"
  by (cases w; cases p; cases a) (auto simp: PermissionEnvelope_new_def envelope_wf_def)

lemma envelope_wf_assignment:
  "envelope_wf e \<Longrightarrow> WorkAccess_allows (workflow_ceiling e) (assignment_access e)"
  unfolding envelope_wf_def
  using access.chain_bound [of "workflow_ceiling e" "[parent_ceiling e, assignment_access e]"]
  by simp

section \<open>Usage quantities and the fixed-point multiplier\<close>

type_synonym u16 = "16 word"

datatype UsageQuantity = UsageQuantity (UsageQuantity_value: nat)

datatype MultiplierError = BelowMinimum | AboveMaximum

definition MIN_MULTIPLIER_BASIS_POINTS :: u16 where
  "MIN_MULTIPLIER_BASIS_POINTS = 10000"

definition MAX_MULTIPLIER_BASIS_POINTS :: u16 where
  "MAX_MULTIPLIER_BASIS_POINTS = 20000"

datatype UsageBudgetMultiplier = UsageBudgetMultiplier (basis_points: u16)

definition new_basis_points :: "u16 \<Rightarrow> (MultiplierError, UsageBudgetMultiplier) result" where
  "new_basis_points v =
     (if v < MIN_MULTIPLIER_BASIS_POINTS then Inl BelowMinimum
      else if v > MAX_MULTIPLIER_BASIS_POINTS then Inl AboveMaximum
      else Inr (UsageBudgetMultiplier v))"

definition MULTIPLIER_SINGLE :: UsageBudgetMultiplier where
  "MULTIPLIER_SINGLE = UsageBudgetMultiplier 10000"
definition MULTIPLIER_LIGHT_ACCELERATION :: UsageBudgetMultiplier where
  "MULTIPLIER_LIGHT_ACCELERATION = UsageBudgetMultiplier 11000"
definition MULTIPLIER_BALANCED :: UsageBudgetMultiplier where
  "MULTIPLIER_BALANCED = UsageBudgetMultiplier 12500"
definition MULTIPLIER_AGGRESSIVE :: UsageBudgetMultiplier where
  "MULTIPLIER_AGGRESSIVE = UsageBudgetMultiplier 15000"
definition MULTIPLIER_MAXIMUM :: UsageBudgetMultiplier where
  "MULTIPLIER_MAXIMUM = UsageBudgetMultiplier 20000"

lemma new_basis_points_iff:
  "new_basis_points v = Inr m \<longleftrightarrow> m = UsageBudgetMultiplier v \<and> 10000 \<le> v \<and> v \<le> 20000"
  by (auto simp: new_basis_points_def MIN_MULTIPLIER_BASIS_POINTS_def
      MAX_MULTIPLIER_BASIS_POINTS_def not_less)

datatype EfficiencyPosture = Posture_Conservative | Posture_Balanced | Posture_Aggressive

record WorkflowBudget =
  baseline_estimate :: "UsageQuantity option"
  selected_multiplier :: UsageBudgetMultiplier
  maximum_permitted_usage :: "UsageQuantity option"
  actual_attributed_usage :: "UsageQuantity option"
  remaining_workflow_usage :: "UsageQuantity option"
  projected_final_usage :: "UsageQuantity option"
  optional_work_allowance :: "UsageQuantity option"
  protected_reserve :: "UsageQuantity option"
  budget_data_quality :: DataQuality

section \<open>Routes\<close>

datatype ReasoningEffort =
  Effort_None | Effort_Minimal | Effort_Low | Effort_Medium | Effort_High | Effort_XHigh
  | Effort_Max | Effort_Ultra | Effort_Custom string

definition ReasoningEffort_as_str :: "ReasoningEffort \<Rightarrow> string" where
  "ReasoningEffort_as_str e = (case e of
     Effort_None \<Rightarrow> ''none'' | Effort_Minimal \<Rightarrow> ''minimal'' | Effort_Low \<Rightarrow> ''low''
   | Effort_Medium \<Rightarrow> ''medium'' | Effort_High \<Rightarrow> ''high'' | Effort_XHigh \<Rightarrow> ''xhigh''
   | Effort_Max \<Rightarrow> ''max'' | Effort_Ultra \<Rightarrow> ''ultra'' | Effort_Custom s \<Rightarrow> s)"

datatype RouteSource = Source_User | Source_Policy | Source_Inherited | Source_Fallback

datatype RouteStatus = Route_Requested | Route_Resolved | Route_Rerouted

record ModelRoute =
  model_requested :: "string option"
  model_resolved :: "string option"
  model_source :: RouteSource
  model_status :: RouteStatus
  model_data_quality :: DataQuality

record EffortRoute =
  effort_requested :: "ReasoningEffort option"
  effort_resolved :: "ReasoningEffort option"
  effort_source :: RouteSource
  effort_status :: RouteStatus
  effort_data_quality :: DataQuality

record AgentProfile =
  profile_role :: AgentRole
  profile_requested_model :: "ModelRoute option"
  profile_requested_effort :: "EffortRoute option"
  profile_access :: WorkAccess
  profile_role_label :: "string option"

section \<open>Forecasts and recommendations\<close>

datatype ForecastConfidence = Confidence_Low | Confidence_Medium | Confidence_High

record Forecast =
  predicted_usage :: "UsageQuantity option"
  predicted_orchestration_overhead :: "UsageQuantity option"
  predicted_completion_time_ms :: "nat option"
  predicted_latency_ms :: "nat option"
  forecast_confidence :: ForecastConfidence
  forecast_data_quality :: DataQuality

definition MAX_RECOMMENDATION_NOTES :: nat where
  "MAX_RECOMMENDATION_NOTES = 16"

datatype RecommendationError = TooManyNotes

record Recommendation =
  rec_mode :: OrchestrationMode
  rec_proposed_profiles :: "AgentProfile list"
  rec_resolved_model_routes :: "ModelRoute list"
  rec_resolved_effort_routes :: "EffortRoute list"
  rec_proposed_concurrency :: u16
  rec_proposed_multiplier :: UsageBudgetMultiplier
  rec_forecast :: Forecast
  rec_reasons :: "BoundedText list"
  rec_uncertainties :: "BoundedText list"

text \<open>The wire form has the fields of the value; the conversion checks the two bounded lists.\<close>

definition Recommendation_try_from ::
  "Recommendation \<Rightarrow> (RecommendationError, Recommendation) result" where
  "Recommendation_try_from w =
     (if length (rec_reasons w) > MAX_RECOMMENDATION_NOTES
         \<or> length (rec_uncertainties w) > MAX_RECOMMENDATION_NOTES
      then Inl TooManyNotes else Inr w)"

section \<open>Evidence\<close>

datatype EvidenceKind =
  Evidence_Test | Evidence_Build | Evidence_Lint | Evidence_Formatter | Evidence_Snapshot
  | Evidence_CommandResult | Evidence_Diff | Evidence_RepositoryStatus | Evidence_FileExistence
  | Evidence_Manual

datatype EvidenceResult =
  Result_Passed | Result_Failed | Result_Blocked | Result_Inconclusive

record VerificationRequirement =
  requirement_kind :: EvidenceKind
  requirement_mandatory :: bool
  requirement_description :: BoundedText

record VerificationEvidence =
  evidence_kind :: EvidenceKind
  evidence_source_reference :: BoundedText
  evidence_observed_result :: EvidenceResult
  evidence_data_quality :: DataQuality

section \<open>Handoffs\<close>

record StructuredHandoff =
  handoff_workflow_id :: WorkflowId
  handoff_task_id :: TaskId
  handoff_source_agent_id :: AgentId
  handoff_destination_role :: AgentRole
  handoff_task_summary :: BoundedText
  handoff_assigned_objective :: BoundedText
  handoff_scope :: BoundedText
  handoff_findings :: "BoundedText list"
  handoff_files_inspected :: "BoundedText list"
  handoff_files_changed :: "BoundedText list"
  handoff_commands_run :: "BoundedText list"
  handoff_command_outcomes :: "BoundedText list"
  handoff_verification_evidence_references :: "BoundedText list"
  handoff_blockers :: "BoundedText list"
  handoff_risks :: "BoundedText list"
  handoff_confidence :: ForecastConfidence
  handoff_unresolved_questions :: "BoundedText list"
  handoff_recommended_next_action :: BoundedText
  handoff_detailed_evidence_references :: "BoundedText list"
  handoff_evidence_quality :: DataQuality

section \<open>Workflow runs and events\<close>

record WorkClaim =
  claim_agent_id :: AgentId
  claim_task_id :: TaskId
  claim_access :: WorkAccess

record AgentAssignment =
  assignment_agent_id :: AgentId
  assignment_task_id :: TaskId
  assignment_profile :: AgentProfile
  assignment_claim :: "WorkClaim option"

record WorkflowRun =
  run_workflow_id :: WorkflowId
  run_mode :: OrchestrationMode
  run_lifecycle :: RunLifecycleState
  run_stage :: WorkflowStage
  run_wait_reason :: "WaitReason option"
  run_cancellation :: CancellationState
  run_verification :: VerificationState
  run_max_concurrency :: u16
  run_max_writers :: u16
  run_assignments :: "AgentAssignment list"
  run_budget :: "WorkflowBudget option"

end
