(* ===== verification/Sequential_Workflow.thy ===== *)
theory Sequential_Workflow
  imports Orch_Domain
begin

text \<open>
  The sequential coordinator of \<open>codex-rs/orchestration/src/sequential.rs\<close>: Planner, Executor,
  Verifier and one optional repair cycle (RepairExecutor, FinalVerifier). The state is the
  record \<open>SequentialWorkflow\<close>; \<open>begin_stage\<close>, \<open>complete_stage\<close> and \<open>execute_next\<close> take the
  state and return the result of the call together with the state it leaves behind, so that
  an error path which has already written a field is visible.

  The abstract contract is the automaton \<open>next_phase\<close> over \<open>phase\<close>: which stage is awaited or
  running, and whether the run has ended. \<open>rep\<close> relates a concrete state to its phase; every
  call either keeps the phase or makes the automaton's step.
\<close>

section \<open>Data\<close>

datatype SequentialStage = Planner | Executor | Verifier | RepairExecutor | FinalVerifier

definition MAX_STAGE_ID_BYTES :: nat where
  "MAX_STAGE_ID_BYTES = 128"

datatype StageId = StageId (StageId_as_str: string)

datatype StageIdError = StageId_Empty | StageId_TooLong

definition StageId_new :: "string \<Rightarrow> (StageIdError, StageId) result" where
  "StageId_new s =
     (if s = [] then Inl StageId_Empty
      else if length s > MAX_STAGE_ID_BYTES then Inl StageId_TooLong
      else Inr (StageId s))"

definition valid_stage_id :: "string \<Rightarrow> bool" where
  "valid_stage_id s \<longleftrightarrow> s \<noteq> [] \<and> length s \<le> MAX_STAGE_ID_BYTES"

interpretation stage_id_text: validated_text StageId StageId_as_str StageId_new valid_stage_id
  by unfold_locales (auto simp: StageId_new_def valid_stage_id_def)

record StageCorrelation =
  corr_workflow_id :: WorkflowId
  corr_task_id :: TaskId
  corr_stage_id :: StageId

record StageInput =
  input_correlation :: StageCorrelation
  input_role :: AgentRole
  input_access :: WorkAccess
  input_permissions :: PermissionEnvelope
  input_handoff :: StructuredHandoff

datatype StageFailureCode =
  Code_InvalidInput | Code_PermissionDenied | Code_RuntimeUnavailable | Code_OutputRejected
  | Code_StageFailed | Code_VerificationFailed | Code_CorrelationFailure | Code_InvariantFailure

datatype StageResult =
    Result_Succeeded StructuredHandoff
  | Result_Rejected StructuredHandoff
  | Result_StageFailed StageFailureCode

record StageOutput =
  output_correlation :: StageCorrelation
  output_result :: StageResult

datatype StageState =
  State_Pending | State_Active | State_Succeeded | State_Rejected | State_Skipped | State_Failed

datatype SequentialWorkflowState =
  Workflow_Ready | Workflow_Running | Workflow_Succeeded | Workflow_Failed

record SequentialWorkflow =
  wf_workflow_id :: WorkflowId
  wf_task_id :: TaskId
  wf_permission_ceiling :: PermissionEnvelope
  wf_stages :: "(StageId \<times> SequentialStage \<times> StageState) list"
  wf_active_stage :: "SequentialStage option"
  wf_state :: SequentialWorkflowState
  wf_terminal_handoff :: "StructuredHandoff option"
  wf_terminal_failure :: "(SequentialStage \<times> StageFailureCode) option"

datatype SequentialWorkflowError =
  StageAlreadyActive | StageOutOfOrder | StagePolicyMismatch | HandoffCorrelationMismatch
  | OutputCorrelationMismatch | SuccessfulHandoffCorrelationMismatch
  | PermissionCeilingExceeded | WorkflowCompleted

section \<open>Operations\<close>

definition SequentialWorkflow_new ::
  "WorkflowId \<Rightarrow> TaskId \<Rightarrow> PermissionEnvelope \<Rightarrow> (StageIdError, SequentialWorkflow) result" where
  "SequentialWorkflow_new w t ceiling =
     res_bind (StageId_new ''planner'') (\<lambda>p.
     res_bind (StageId_new ''executor'') (\<lambda>e.
     res_bind (StageId_new ''verifier'') (\<lambda>v.
     res_bind (StageId_new ''repair_executor'') (\<lambda>re.
     res_bind (StageId_new ''final_verifier'') (\<lambda>fv.
       Inr \<lparr>wf_workflow_id = w, wf_task_id = t, wf_permission_ceiling = ceiling,
            wf_stages = [(p, Planner, State_Pending), (e, Executor, State_Pending),
                         (v, Verifier, State_Pending), (re, RepairExecutor, State_Pending),
                         (fv, FinalVerifier, State_Pending)],
            wf_active_stage = None, wf_state = Workflow_Ready,
            wf_terminal_handoff = None, wf_terminal_failure = None\<rparr>)))))"

definition wf_stage_state :: "SequentialWorkflow \<Rightarrow> SequentialStage \<Rightarrow> StageState option" where
  "wf_stage_state s stage =
     map_option (\<lambda>(_, _, st). st) (List.find (\<lambda>(_, candidate, _). candidate = stage) (wf_stages s))"

definition wf_stage_id :: "SequentialWorkflow \<Rightarrow> SequentialStage \<Rightarrow> StageId option" where
  "wf_stage_id s stage =
     map_option (\<lambda>(i, _, _). i) (List.find (\<lambda>(_, candidate, _). candidate = stage) (wf_stages s))"

definition next_stage :: "SequentialWorkflow \<Rightarrow> SequentialStage option" where
  "next_stage s =
     map_option (\<lambda>(_, stage, _). stage) (List.find (\<lambda>(_, _, st). st = State_Pending) (wf_stages s))"

definition stage_for_id :: "SequentialWorkflow \<Rightarrow> string \<Rightarrow> SequentialStage option" where
  "stage_for_id s i =
     map_option (\<lambda>(_, stage, _). stage)
       (List.find (\<lambda>(sid, _, _). StageId_as_str sid = i) (wf_stages s))"

text \<open>The mutable search of \<open>set_stage_state\<close> updates the first entry with the identifier.\<close>

fun set_first_state ::
  "string \<Rightarrow> StageState \<Rightarrow> (StageId \<times> SequentialStage \<times> StageState) list
     \<Rightarrow> (StageId \<times> SequentialStage \<times> StageState) list" where
  "set_first_state i st [] = []"
| "set_first_state i st ((sid, stage, cur) # rest) =
     (if StageId_as_str sid = i then (sid, stage, st) # rest
      else (sid, stage, cur) # set_first_state i st rest)"

definition set_stage_state :: "string \<Rightarrow> StageState \<Rightarrow> SequentialWorkflow \<Rightarrow> SequentialWorkflow" where
  "set_stage_state i st s = s\<lparr>wf_stages := set_first_state i st (wf_stages s)\<rparr>"

definition permission_envelope_allows :: "PermissionEnvelope \<Rightarrow> PermissionEnvelope \<Rightarrow> bool" where
  "permission_envelope_allows ceiling requested \<longleftrightarrow>
     WorkAccess_allows (workflow_ceiling ceiling) (workflow_ceiling requested) \<and>
     WorkAccess_allows (parent_ceiling ceiling) (parent_ceiling requested) \<and>
     WorkAccess_allows (assignment_access ceiling) (assignment_access requested)"

text \<open>The role and access each stage identifier requires (the match in \<open>validate_input\<close>).\<close>

definition expected_policy :: "string \<Rightarrow> (SequentialStage \<times> AgentRole \<times> WorkAccess) option" where
  "expected_policy i =
     (if i = ''planner'' then Some (Planner, Role_Planner, ReadOnly)
      else if i = ''executor'' then Some (Executor, Role_Executor, Writer)
      else if i = ''verifier'' then Some (Verifier, Role_Verifier, ReadOnly)
      else if i = ''repair_executor'' then Some (RepairExecutor, Role_Executor, Writer)
      else if i = ''final_verifier'' then Some (FinalVerifier, Role_Verifier, ReadOnly)
      else None)"

definition validate_input ::
  "SequentialWorkflow \<Rightarrow> StageInput \<Rightarrow> (SequentialWorkflowError, unit) result" where
  "validate_input s i =
     (if corr_workflow_id (input_correlation i) \<noteq> wf_workflow_id s
         \<or> corr_task_id (input_correlation i) \<noteq> wf_task_id s
         \<or> handoff_workflow_id (input_handoff i) \<noteq> wf_workflow_id s
         \<or> handoff_task_id (input_handoff i) \<noteq> wf_task_id s
      then Inl HandoffCorrelationMismatch
      else case expected_policy (StageId_as_str (corr_stage_id (input_correlation i))) of
        None \<Rightarrow> Inl StageOutOfOrder
      | Some (_, role, acc) \<Rightarrow>
          if input_role i \<noteq> role \<or> input_access i \<noteq> acc then Inl StagePolicyMismatch
          else if \<not> permission_envelope_allows (wf_permission_ceiling s) (input_permissions i)
                  \<or> \<not> WorkAccess_allows acc (assignment_access (input_permissions i))
          then Inl PermissionCeilingExceeded
          else Inr ())"

type_synonym wf_outcome = "(SequentialWorkflowError, unit) result \<times> SequentialWorkflow"

definition begin_stage :: "SequentialWorkflow \<Rightarrow> StageInput \<Rightarrow> wf_outcome" where
  "begin_stage s i =
     (if wf_state s = Workflow_Succeeded \<or> wf_state s = Workflow_Failed
      then (Inl WorkflowCompleted, s)
      else if wf_active_stage s \<noteq> None then (Inl StageAlreadyActive, s)
      else case validate_input s i of
        Inl e \<Rightarrow> (Inl e, s)
      | Inr _ \<Rightarrow>
          (case stage_for_id s (StageId_as_str (corr_stage_id (input_correlation i))) of
            None \<Rightarrow> (Inl StageOutOfOrder, s)
          | Some stage \<Rightarrow>
              if next_stage s \<noteq> Some stage then (Inl StageOutOfOrder, s)
              else (Inr (),
                (set_stage_state (StageId_as_str (corr_stage_id (input_correlation i)))
                   State_Active s)\<lparr>wf_active_stage := Some stage, wf_state := Workflow_Running\<rparr>)))"

definition result_handoff :: "StageResult \<Rightarrow> StructuredHandoff option" where
  "result_handoff r = (case r of
     Result_Succeeded h \<Rightarrow> Some h | Result_Rejected h \<Rightarrow> Some h | Result_StageFailed _ \<Rightarrow> None)"

definition result_state :: "StageResult \<Rightarrow> StageState" where
  "result_state r = (case r of
     Result_Succeeded _ \<Rightarrow> State_Succeeded | Result_Rejected _ \<Rightarrow> State_Rejected
   | Result_StageFailed _ \<Rightarrow> State_Failed)"

definition closed_stage :: "StageState \<Rightarrow> bool" where
  "closed_stage st \<longleftrightarrow> st \<in> {State_Succeeded, State_Rejected, State_Skipped}"

text \<open>The tail of \<open>complete_stage\<close> after every check has passed.\<close>

definition close_stage ::
  "SequentialWorkflow \<Rightarrow> SequentialStage \<Rightarrow> StageOutput \<Rightarrow> SequentialWorkflow" where
  "close_stage s active out =
     (let next_state = result_state (output_result out);
          s1 = (if next_state = State_Succeeded \<and> active = Verifier
                then set_stage_state ''final_verifier'' State_Skipped
                       (set_stage_state ''repair_executor'' State_Skipped s)
                else s);
          s2 = set_stage_state (StageId_as_str (corr_stage_id (output_correlation out))) next_state s1
      in s2\<lparr>wf_active_stage := None,
            wf_state :=
              (if next_state = State_Succeeded
                  \<and> list_all (\<lambda>(_, _, st). closed_stage st) (wf_stages s2)
               then Workflow_Succeeded
               else if next_state = State_Failed
                  \<or> (active = FinalVerifier \<and> next_state = State_Rejected)
               then Workflow_Failed
               else Workflow_Ready)\<rparr>)"

definition complete_stage :: "SequentialWorkflow \<Rightarrow> StageOutput \<Rightarrow> wf_outcome" where
  "complete_stage s out =
     (case wf_active_stage s of
        None \<Rightarrow> (Inl StageOutOfOrder, s)
      | Some active \<Rightarrow>
        (case wf_stage_id s active of
          None \<Rightarrow> (Inl OutputCorrelationMismatch, s)
        | Some sid \<Rightarrow>
          if corr_workflow_id (output_correlation out) \<noteq> wf_workflow_id s
             \<or> corr_task_id (output_correlation out) \<noteq> wf_task_id s
             \<or> corr_stage_id (output_correlation out) \<noteq> sid
          then (Inl OutputCorrelationMismatch, s)
          else if (case result_handoff (output_result out) of
                     None \<Rightarrow> False
                   | Some h \<Rightarrow> handoff_workflow_id h \<noteq> corr_workflow_id (output_correlation out)
                             \<or> handoff_task_id h \<noteq> corr_task_id (output_correlation out))
          then (Inl SuccessfulHandoffCorrelationMismatch, s)
          else
            (let s1 = (case output_result out of
                         Result_StageFailed code \<Rightarrow>
                           s\<lparr>wf_terminal_failure := Some (active, code)\<rparr>
                       | _ \<Rightarrow> s\<lparr>wf_terminal_handoff := result_handoff (output_result out)\<rparr>)
             in if result_state (output_result out) = State_Rejected
                   \<and> active \<noteq> Verifier \<and> active \<noteq> FinalVerifier
                then (Inl StagePolicyMismatch, s1)
                else (Inr (), close_stage s1 active out))))"

text \<open>\<open>execute_next\<close> runs the injected \<open>StageExecutor\<close>, a parameter of the model.\<close>

definition execute_next ::
  "(StageInput \<Rightarrow> StageOutput) \<Rightarrow> SequentialWorkflow \<Rightarrow> StageInput
     \<Rightarrow> (SequentialWorkflowError, StageOutput) result \<times> SequentialWorkflow" where
  "execute_next executor s i =
     (case begin_stage s i of
        (Inl e, s') \<Rightarrow> (Inl e, s')
      | (Inr _, s') \<Rightarrow>
          (let out = executor i in
           case complete_stage s' out of
             (Inl e, s'') \<Rightarrow> (Inl e, s'')
           | (Inr _, s'') \<Rightarrow> (Inr out, s'')))"

section \<open>The abstract automaton\<close>

datatype phase = Awaiting SequentialStage | InStage SequentialStage | Ended_Ok | Ended_Failed

datatype verdict = Accept | Reject | Fail

definition verdict_of :: "StageResult \<Rightarrow> verdict" where
  "verdict_of r = (case r of
     Result_Succeeded _ \<Rightarrow> Accept | Result_Rejected _ \<Rightarrow> Reject | Result_StageFailed _ \<Rightarrow> Fail)"

fun next_phase :: "SequentialStage \<Rightarrow> verdict \<Rightarrow> phase" where
  "next_phase _ Fail = Ended_Failed"
| "next_phase Planner Accept = Awaiting Executor"
| "next_phase Executor Accept = Awaiting Verifier"
| "next_phase Verifier Accept = Ended_Ok"
| "next_phase Verifier Reject = Awaiting RepairExecutor"
| "next_phase RepairExecutor Accept = Awaiting FinalVerifier"
| "next_phase FinalVerifier Accept = Ended_Ok"
| "next_phase FinalVerifier Reject = Ended_Failed"
| "next_phase stage Reject = InStage stage"

text \<open>The stage vector of a phase: what came before each stage, then its own state.\<close>

definition stage_names :: "(StageId \<times> SequentialStage) list" where
  "stage_names = [(StageId ''planner'', Planner), (StageId ''executor'', Executor),
     (StageId ''verifier'', Verifier), (StageId ''repair_executor'', RepairExecutor),
     (StageId ''final_verifier'', FinalVerifier)]"

definition with_states :: "StageState list \<Rightarrow> (StageId \<times> SequentialStage \<times> StageState) list" where
  "with_states sts = map2 (\<lambda>(i, stage) st. (i, stage, st)) stage_names sts"

fun history :: "SequentialStage \<Rightarrow> StageState list" where
  "history Planner = []"
| "history Executor = [State_Succeeded]"
| "history Verifier = [State_Succeeded, State_Succeeded]"
| "history RepairExecutor = [State_Succeeded, State_Succeeded, State_Rejected]"
| "history FinalVerifier =
     [State_Succeeded, State_Succeeded, State_Rejected, State_Succeeded]"

definition vector :: "SequentialStage \<Rightarrow> StageState \<Rightarrow> StageState list" where
  "vector stage st = history stage @ st # replicate (4 - length (history stage)) State_Pending"

definition verified_vectors :: "StageState list set" where
  "verified_vectors =
     {[State_Succeeded, State_Succeeded, State_Succeeded, State_Skipped, State_Skipped],
      [State_Succeeded, State_Succeeded, State_Rejected, State_Succeeded, State_Succeeded]}"

fun rep :: "SequentialWorkflow \<Rightarrow> phase \<Rightarrow> bool" where
  "rep s (Awaiting stage) \<longleftrightarrow>
     wf_stages s = with_states (vector stage State_Pending) \<and> wf_active_stage s = None \<and>
     wf_state s = Workflow_Ready \<and> wf_terminal_failure s = None"
| "rep s (InStage stage) \<longleftrightarrow>
     wf_stages s = with_states (vector stage State_Active) \<and> wf_active_stage s = Some stage \<and>
     wf_state s = Workflow_Running \<and> wf_terminal_failure s = None"
| "rep s Ended_Ok \<longleftrightarrow>
     (\<exists>sts \<in> verified_vectors. wf_stages s = with_states sts) \<and> wf_active_stage s = None \<and>
     wf_state s = Workflow_Succeeded \<and> wf_terminal_failure s = None"
| "rep s Ended_Failed \<longleftrightarrow>
     ((\<exists>stage code. wf_stages s = with_states (vector stage State_Failed) \<and>
                    wf_terminal_failure s = Some (stage, code))
      \<or> (wf_stages s = with_states (vector FinalVerifier State_Rejected) \<and>
         wf_terminal_failure s = None)) \<and>
     wf_active_stage s = None \<and> wf_state s = Workflow_Failed"

definition workflow_inv :: "SequentialWorkflow \<Rightarrow> bool" where
  "workflow_inv s \<longleftrightarrow> (\<exists>p. rep s p)"

section \<open>Facts shared by the proofs\<close>

fun stage_key :: "SequentialStage \<Rightarrow> string" where
  "stage_key Planner = ''planner''"
| "stage_key Executor = ''executor''"
| "stage_key Verifier = ''verifier''"
| "stage_key RepairExecutor = ''repair_executor''"
| "stage_key FinalVerifier = ''final_verifier''"

fun stage_role :: "SequentialStage \<Rightarrow> AgentRole" where
  "stage_role Planner = Role_Planner"
| "stage_role Executor = Role_Executor"
| "stage_role Verifier = Role_Verifier"
| "stage_role RepairExecutor = Role_Executor"
| "stage_role FinalVerifier = Role_Verifier"

fun stage_access :: "SequentialStage \<Rightarrow> WorkAccess" where
  "stage_access Planner = ReadOnly"
| "stage_access Executor = Writer"
| "stage_access Verifier = ReadOnly"
| "stage_access RepairExecutor = Writer"
| "stage_access FinalVerifier = ReadOnly"

lemma expected_policy_key:
  "expected_policy (stage_key stage) = Some (stage, stage_role stage, stage_access stage)"
  by (cases stage) (simp_all add: expected_policy_def)

lemma expected_policy_Some: "expected_policy i = Some x \<Longrightarrow> \<exists>stage. i = stage_key stage"
  unfolding expected_policy_def by (simp split: if_splits) (metis stage_key.simps)+

lemma expected_policy_iff:
  "expected_policy i = Some (stage, role, acc) \<longleftrightarrow>
     i = stage_key stage \<and> role = stage_role stage \<and> acc = stage_access stage"
  using expected_policy_key expected_policy_Some by (metis Pair_inject option.inject)

lemmas vector_simps = vector_def with_states_def stage_names_def

lemma next_stage_vector:
  "wf_stages s = with_states (vector stage State_Pending) \<Longrightarrow> next_stage s = Some stage"
  by (cases stage) (simp_all add: next_stage_def vector_simps numeral_eq_Suc)

lemma stage_for_id_vector:
  "wf_stages s = with_states (vector stage st) \<Longrightarrow> stage_for_id s (stage_key stage') = Some stage'"
  by (cases stage; cases stage') (simp_all add: stage_for_id_def vector_simps numeral_eq_Suc)

lemma stage_id_vector:
  "wf_stages s = with_states (vector stage st) \<Longrightarrow> wf_stage_id s stage = Some (StageId (stage_key stage))"
  by (cases stage) (simp_all add: wf_stage_id_def vector_simps numeral_eq_Suc)

lemma set_first_state_vector:
  "set_first_state (stage_key stage) st' (with_states (vector stage st)) =
     with_states (vector stage st')"
  by (cases stage) (simp_all add: vector_simps numeral_eq_Suc)

lemma vector_advance:
  "vector Planner State_Succeeded = vector Executor State_Pending"
  "vector Executor State_Succeeded = vector Verifier State_Pending"
  "vector Verifier State_Rejected = vector RepairExecutor State_Pending"
  "vector RepairExecutor State_Succeeded = vector FinalVerifier State_Pending"
  by (simp_all add: vector_def numeral_eq_Suc)

lemma set_stage_state_simps [simp]:
  "wf_stages (set_stage_state i st s) = set_first_state i st (wf_stages s)"
  "wf_active_stage (set_stage_state i st s) = wf_active_stage s"
  "wf_state (set_stage_state i st s) = wf_state s"
  "wf_terminal_failure (set_stage_state i st s) = wf_terminal_failure s"
  "wf_terminal_handoff (set_stage_state i st s) = wf_terminal_handoff s"
  "wf_workflow_id (set_stage_state i st s) = wf_workflow_id s"
  "wf_task_id (set_stage_state i st s) = wf_task_id s"
  "wf_permission_ceiling (set_stage_state i st s) = wf_permission_ceiling s"
  by (simp_all add: set_stage_state_def)

text \<open>What an admitted input satisfies: the correlation, the role's policy, both ceilings.\<close>

lemma validate_input_ok:
  assumes "validate_input s i = Inr u"
  obtains stage where
    "corr_stage_id (input_correlation i) = StageId (stage_key stage)"
    "input_role i = stage_role stage" "input_access i = stage_access stage"
    "permission_envelope_allows (wf_permission_ceiling s) (input_permissions i)"
    "WorkAccess_allows (stage_access stage) (assignment_access (input_permissions i))"
    "handoff_workflow_id (input_handoff i) = wf_workflow_id s"
    "handoff_task_id (input_handoff i) = wf_task_id s"
  using assms
  by (auto simp: validate_input_def expected_policy_iff split: if_splits option.splits)
     (metis StageId.collapse)

section \<open>Every call refines the automaton\<close>

lemma SequentialWorkflow_new_ok:
  "\<exists>s. SequentialWorkflow_new w t c = Inr s \<and> rep s (Awaiting Planner) \<and>
       wf_workflow_id s = w \<and> wf_task_id s = t \<and> wf_permission_ceiling s = c"
  by (simp add: SequentialWorkflow_new_def StageId_new_def MAX_STAGE_ID_BYTES_def vector_simps
      numeral_eq_Suc)

lemma begin_stage_error_unchanged: "begin_stage s i = (Inl e, s') \<Longrightarrow> s' = s"
  by (auto simp: begin_stage_def split: if_splits sum.splits option.splits)

lemma begin_stage_ok:
  assumes "begin_stage s i = (Inr u, s')"
  shows "wf_active_stage s = None" "wf_state s \<noteq> Workflow_Succeeded" "wf_state s \<noteq> Workflow_Failed"
    "validate_input s i = Inr ()"
    "next_stage s = stage_for_id s (StageId_as_str (corr_stage_id (input_correlation i)))"
  using assms by (auto simp: begin_stage_def split: if_splits sum.splits option.splits)

lemma begin_stage_rep:
  assumes rep: "rep s p" and ok: "begin_stage s i = (Inr u, s')"
  shows "\<exists>stage. p = Awaiting stage \<and> rep s' (InStage stage) \<and>
           corr_stage_id (input_correlation i) = StageId (stage_key stage)"
proof -
  from begin_stage_ok [OF ok] rep obtain stage where p: "p = Awaiting stage"
    by (cases p) auto
  with rep have st: "wf_stages s = with_states (vector stage State_Pending)" by simp
  from begin_stage_ok(4) [OF ok] obtain stage' where
    key: "corr_stage_id (input_correlation i) = StageId (stage_key stage')"
    by (rule validate_input_ok)
  with begin_stage_ok(5) [OF ok] have same: "stage' = stage"
    by (simp add: next_stage_vector [OF st] stage_for_id_vector [OF st] key)
  have "s' = (set_stage_state (stage_key stage) State_Active s)
               \<lparr>wf_active_stage := Some stage, wf_state := Workflow_Running\<rparr>"
    using ok by (auto simp: begin_stage_def key same next_stage_vector [OF st]
        split: if_splits sum.splits option.splits)
  then have "rep s' (InStage stage)"
    using rep p by (simp add: set_first_state_vector)
  with p key same show ?thesis by blast
qed

lemma complete_stage_error_shape:
  "complete_stage s out = (Inl e, s') \<Longrightarrow>
     s' = s \<or> (e = StagePolicyMismatch \<and> s' = s\<lparr>wf_terminal_handoff := wf_terminal_handoff s'\<rparr>)"
  by (auto simp: complete_stage_def result_state_def Let_def
      split: if_splits option.splits StageResult.splits)

lemma complete_stage_ok:
  assumes "complete_stage s out = (Inr u, s')"
  obtains active sid s1 where
    "wf_active_stage s = Some active" "wf_stage_id s active = Some sid"
    "corr_stage_id (output_correlation out) = sid"
    "s1 = (case output_result out of
             Result_StageFailed code \<Rightarrow> s\<lparr>wf_terminal_failure := Some (active, code)\<rparr>
           | _ \<Rightarrow> s\<lparr>wf_terminal_handoff := result_handoff (output_result out)\<rparr>)"
    "s' = close_stage s1 active out"
    "result_state (output_result out) = State_Rejected \<Longrightarrow> active \<in> {Verifier, FinalVerifier}"
  using assms by (auto simp: complete_stage_def Let_def split: if_splits option.splits)

lemma close_stage_rep:
  assumes "wf_stages s1 = with_states (vector stage State_Active)"
    and "corr_stage_id (output_correlation out) = StageId (stage_key stage)"
    and "result_state (output_result out) = State_Rejected \<Longrightarrow> stage \<in> {Verifier, FinalVerifier}"
    and "case output_result out of
           Result_StageFailed code \<Rightarrow> wf_terminal_failure s1 = Some (stage, code)
         | _ \<Rightarrow> wf_terminal_failure s1 = None"
  shows "rep (close_stage s1 stage out) (next_phase stage (verdict_of (output_result out)))"
proof (cases "output_result out")
  case (Result_Succeeded h)
  then show ?thesis using assms
    by (cases stage) (simp_all add: close_stage_def result_state_def verdict_of_def closed_stage_def
        Let_def vector_simps numeral_eq_Suc verified_vectors_def)
next
  case (Result_Rejected h)
  then show ?thesis using assms
    by (cases stage) (simp_all add: close_stage_def result_state_def verdict_of_def closed_stage_def
        Let_def vector_simps numeral_eq_Suc)
next
  case (Result_StageFailed code)
  then have "close_stage s1 stage out =
      s1\<lparr>wf_stages := with_states (vector stage State_Failed), wf_active_stage := None,
         wf_state := Workflow_Failed\<rparr>"
    using assms by (simp add: close_stage_def result_state_def Let_def set_stage_state_def
        set_first_state_vector)
  then show ?thesis using assms Result_StageFailed by (auto simp: verdict_of_def)
qed

lemma complete_stage_rep:
  assumes rep: "rep s p" and ok: "complete_stage s out = (Inr u, s')"
  shows "\<exists>stage. p = InStage stage \<and> rep s' (next_phase stage (verdict_of (output_result out)))"
proof -
  from ok obtain active sid s1 where
    act: "wf_active_stage s = Some active" "wf_stage_id s active = Some sid"
    and corr: "corr_stage_id (output_correlation out) = sid"
    and s1: "s1 = (case output_result out of
             Result_StageFailed code \<Rightarrow> s\<lparr>wf_terminal_failure := Some (active, code)\<rparr>
           | _ \<Rightarrow> s\<lparr>wf_terminal_handoff := result_handoff (output_result out)\<rparr>)"
    and s': "s' = close_stage s1 active out"
    and rej: "result_state (output_result out) = State_Rejected \<Longrightarrow> active \<in> {Verifier, FinalVerifier}"
    by (rule complete_stage_ok) blast
  from rep act(1) have p: "p = InStage active" by (cases p) auto
  with rep have st: "wf_stages s = with_states (vector active State_Active)"
    and none: "wf_terminal_failure s = None" by simp_all
  have sid: "sid = StageId (stage_key active)" using act(2) stage_id_vector [OF st] by simp
  have "rep (close_stage s1 active out) (next_phase active (verdict_of (output_result out)))"
    by (rule close_stage_rep) (use st none corr sid rej s1 in \<open>auto split: StageResult.splits\<close>)
  with p s' show ?thesis by blast
qed

lemma rep_terminal_handoff [simp]: "rep (s\<lparr>wf_terminal_handoff := h\<rparr>) p = rep s p"
  by (cases p) simp_all

lemma complete_stage_error_rep:
  "rep s p \<Longrightarrow> complete_stage s out = (Inl e, s') \<Longrightarrow> rep s' p"
  using complete_stage_error_shape by (metis rep_terminal_handoff)

section \<open>Runs\<close>

datatype wf_call = Call_Begin StageInput | Call_Complete StageOutput | Call_Execute StageInput

fun wf_apply :: "(StageInput \<Rightarrow> StageOutput) \<Rightarrow> SequentialWorkflow \<Rightarrow> wf_call \<Rightarrow> SequentialWorkflow" where
  "wf_apply ex s (Call_Begin i) = snd (begin_stage s i)"
| "wf_apply ex s (Call_Complete out) = snd (complete_stage s out)"
| "wf_apply ex s (Call_Execute i) = snd (execute_next ex s i)"

definition wf_initial :: "SequentialWorkflow \<Rightarrow> bool" where
  "wf_initial s \<longleftrightarrow> (\<exists>w t c. SequentialWorkflow_new w t c = Inr s)"

definition wf_ended :: "SequentialWorkflow \<Rightarrow> bool" where
  "wf_ended s \<longleftrightarrow> wf_state s \<in> {Workflow_Succeeded, Workflow_Failed}"

lemma begin_stage_inv: "workflow_inv s \<Longrightarrow> workflow_inv (snd (begin_stage s i))"
proof (cases "begin_stage s i" rule: outcome_cases)
  case (Err e s')
  then show "workflow_inv s \<Longrightarrow> ?thesis" using begin_stage_error_unchanged by auto
next
  case (Ok v s')
  then show "workflow_inv s \<Longrightarrow> ?thesis"
    unfolding workflow_inv_def using begin_stage_rep by (metis snd_conv)
qed

lemma complete_stage_inv: "workflow_inv s \<Longrightarrow> workflow_inv (snd (complete_stage s out))"
proof (cases "complete_stage s out" rule: outcome_cases)
  case (Err e s')
  then show "workflow_inv s \<Longrightarrow> ?thesis"
    unfolding workflow_inv_def using complete_stage_error_rep by fastforce
next
  case (Ok v s')
  then show "workflow_inv s \<Longrightarrow> ?thesis"
    unfolding workflow_inv_def using complete_stage_rep by fastforce
qed

lemma execute_next_snd:
  "snd (execute_next ex s i) =
     (case fst (begin_stage s i) of
        Inl _ \<Rightarrow> snd (begin_stage s i)
      | Inr _ \<Rightarrow> snd (complete_stage (snd (begin_stage s i)) (ex i)))"
  by (auto simp: execute_next_def Let_def split: prod.splits sum.splits)

lemma wf_apply_inv: "workflow_inv s \<Longrightarrow> workflow_inv (wf_apply ex s c)"
  by (cases c) (auto simp: begin_stage_inv complete_stage_inv execute_next_snd split: sum.splits)

lemma wf_initial_inv: "wf_initial s \<Longrightarrow> workflow_inv s"
  unfolding wf_initial_def workflow_inv_def using SequentialWorkflow_new_ok
  by (metis sum.inject(2))

lemma ended_no_active:
  assumes "workflow_inv s" "wf_ended s"
  shows "wf_active_stage s = None"
proof -
  from assms(1) obtain p where "rep s p" by (auto simp: workflow_inv_def)
  with assms(2) show ?thesis by (cases p) (auto simp: wf_ended_def)
qed

lemma wf_apply_ended: "workflow_inv s \<Longrightarrow> wf_ended s \<Longrightarrow> wf_apply ex s c = s"
  using ended_no_active
  by (cases c) (auto simp: begin_stage_def complete_stage_def execute_next_def wf_ended_def)

interpretation wf: terminating_system "wf_apply ex" wf_initial workflow_inv wf_ended
  for ex :: "StageInput \<Rightarrow> StageOutput"
  by unfold_locales (simp_all add: wf_initial_inv wf_apply_inv wf_apply_ended)

lemma succeeded_vector:
  assumes "workflow_inv s" "wf_state s = Workflow_Succeeded"
  shows "\<exists>sts \<in> verified_vectors. wf_stages s = with_states sts"
proof -
  from assms(1) obtain p where "rep s p" by (auto simp: workflow_inv_def)
  with assms(2) show ?thesis by (cases p) auto
qed

lemma stage_state_with_states:
  assumes "wf_stages s = with_states [a, b, c, d, e]"
  shows "wf_stage_state s Planner = Some a" "wf_stage_state s Executor = Some b"
    "wf_stage_state s Verifier = Some c" "wf_stage_state s RepairExecutor = Some d"
    "wf_stage_state s FinalVerifier = Some e"
  using assms by (simp_all add: wf_stage_state_def with_states_def stage_names_def)

text \<open>How far a phase is along the longest run: every accepted call moves it forward.\<close>

fun rank :: "phase \<Rightarrow> nat" where
  "rank (Awaiting stage) = 2 * length (history stage)"
| "rank (InStage stage) = Suc (2 * length (history stage))"
| "rank Ended_Ok = 10"
| "rank Ended_Failed = 10"

lemma length_history_le: "length (history stage) \<le> 4"
  by (cases stage) simp_all

lemma rank_le: "rank p \<le> 10"
proof (cases p)
  case (Awaiting stage)
  then show ?thesis using length_history_le [of stage] by simp
next
  case (InStage stage)
  then show ?thesis using length_history_le [of stage] by simp
qed simp_all

lemma rank_next_phase:
  "next_phase stage v \<noteq> InStage stage \<Longrightarrow> rank (InStage stage) < rank (next_phase stage v)"
  by (cases stage; cases v) simp_all

text \<open>The number of \<open>begin_stage\<close> and \<open>complete_stage\<close> calls a sequence of calls gets accepted.\<close>

fun accepted_calls :: "SequentialWorkflow \<Rightarrow> (StageInput + StageOutput) list \<Rightarrow> nat" where
  "accepted_calls s [] = 0"
| "accepted_calls s (Inl i # cs) =
     (case begin_stage s i of (r, s') \<Rightarrow> (if is_ok r then 1 else 0) + accepted_calls s' cs)"
| "accepted_calls s (Inr out # cs) =
     (case complete_stage s out of (r, s') \<Rightarrow> (if is_ok r then 1 else 0) + accepted_calls s' cs)"

lemma complete_stage_ok_leaves:
  assumes "rep s (InStage stage)" "complete_stage s out = (Inr u, s')"
  shows "next_phase stage (verdict_of (output_result out)) \<noteq> InStage stage"
proof -
  from assms(2) obtain active where "wf_active_stage s = Some active"
    and rej: "result_state (output_result out) = State_Rejected \<Longrightarrow> active \<in> {Verifier, FinalVerifier}"
    by (rule complete_stage_ok) blast
  with assms(1) have "active = stage" by simp
  with rej show ?thesis
    by (cases stage; cases "output_result out") (simp_all add: verdict_of_def result_state_def)
qed

lemma accepted_calls_rank: "rep s p \<Longrightarrow> accepted_calls s cs + rank p \<le> 10"
proof (induction cs arbitrary: s p)
  case Nil
  then show ?case by (simp add: rank_le)
next
  case (Cons c cs)
  show ?case
  proof (cases c)
    case (Inl i)
    show ?thesis
    proof (cases "begin_stage s i" rule: outcome_cases)
      case (Err e s')
      then show ?thesis using Cons Inl begin_stage_error_unchanged by fastforce
    next
      case (Ok v s')
      with Cons.prems begin_stage_rep obtain stage
        where "p = Awaiting stage" "rep s' (InStage stage)" by blast
      then show ?thesis using Cons.IH [of s' "InStage stage"] Inl Ok by simp
    qed
  next
    case (Inr out)
    show ?thesis
    proof (cases "complete_stage s out" rule: outcome_cases)
      case (Err e s')
      then show ?thesis using Cons.IH [of s' p] Cons.prems Inr complete_stage_error_rep
        by fastforce
    next
      case (Ok v s')
      with Cons.prems complete_stage_rep obtain stage where p: "p = InStage stage"
        and s': "rep s' (next_phase stage (verdict_of (output_result out)))" by blast
      have "rank p < rank (next_phase stage (verdict_of (output_result out)))"
        using complete_stage_ok_leaves Cons.prems Ok p rank_next_phase by blast
      then show ?thesis using Cons.IH [OF s'] Inr Ok by simp
    qed
  qed
qed

section \<open>A concrete run for the witnesses\<close>

definition demo_workflow_id :: WorkflowId where
  "demo_workflow_id = WorkflowId ''w''"

definition demo_task_id :: TaskId where
  "demo_task_id = TaskId ''t''"

definition demo_envelope :: "WorkAccess \<Rightarrow> PermissionEnvelope" where
  "demo_envelope a = \<lparr>workflow_ceiling = Writer, parent_ceiling = Writer, assignment_access = a\<rparr>"

definition demo_handoff :: "AgentRole \<Rightarrow> StructuredHandoff" where
  "demo_handoff role =
     \<lparr>handoff_workflow_id = demo_workflow_id, handoff_task_id = demo_task_id,
      handoff_source_agent_id = AgentId ''a'', handoff_destination_role = role,
      handoff_task_summary = BoundedText ''s'', handoff_assigned_objective = BoundedText ''o'',
      handoff_scope = BoundedText ''c'', handoff_findings = [], handoff_files_inspected = [],
      handoff_files_changed = [], handoff_commands_run = [], handoff_command_outcomes = [],
      handoff_verification_evidence_references = [], handoff_blockers = [], handoff_risks = [],
      handoff_confidence = Confidence_Low, handoff_unresolved_questions = [],
      handoff_recommended_next_action = BoundedText ''n'',
      handoff_detailed_evidence_references = [], handoff_evidence_quality = Quality_Exact\<rparr>"

definition demo_correlation :: "SequentialStage \<Rightarrow> StageCorrelation" where
  "demo_correlation stage =
     \<lparr>corr_workflow_id = demo_workflow_id, corr_task_id = demo_task_id,
      corr_stage_id = StageId (stage_key stage)\<rparr>"

definition demo_input :: "SequentialStage \<Rightarrow> StageInput" where
  "demo_input stage =
     \<lparr>input_correlation = demo_correlation stage, input_role = stage_role stage,
      input_access = stage_access stage, input_permissions = demo_envelope (stage_access stage),
      input_handoff = demo_handoff (stage_role stage)\<rparr>"

definition demo_output :: "SequentialStage \<Rightarrow> StageResult \<Rightarrow> StageOutput" where
  "demo_output stage r = \<lparr>output_correlation = demo_correlation stage, output_result = r\<rparr>"

text \<open>An executor that echoes the input's correlation and hands its handoff on.\<close>

definition echo_executor :: "StageInput \<Rightarrow> StageOutput" where
  "echo_executor i =
     \<lparr>output_correlation = input_correlation i, output_result = Result_Succeeded (input_handoff i)\<rparr>"

definition demo_workflow :: SequentialWorkflow where
  "demo_workflow =
     \<lparr>wf_workflow_id = demo_workflow_id, wf_task_id = demo_task_id,
      wf_permission_ceiling = demo_envelope Writer,
      wf_stages = with_states (vector Planner State_Pending), wf_active_stage = None,
      wf_state = Workflow_Ready, wf_terminal_handoff = None, wf_terminal_failure = None\<rparr>"

lemmas demo_defs = demo_workflow_id_def demo_task_id_def demo_envelope_def demo_handoff_def
  demo_correlation_def demo_input_def demo_output_def demo_workflow_def echo_executor_def

lemma demo_workflow_new:
  "SequentialWorkflow_new demo_workflow_id demo_task_id (demo_envelope Writer) = Inr demo_workflow"
  by (simp add: SequentialWorkflow_new_def StageId_new_def MAX_STAGE_ID_BYTES_def vector_simps
      demo_workflow_def numeral_eq_Suc)

lemma demo_workflow_rep: "rep demo_workflow (Awaiting Planner)"
  by (simp add: demo_workflow_def)

section \<open>Properties\<close>

text \<open>C1: after any sequence of \<open>begin_stage\<close>, \<open>complete_stage\<close> and \<open>execute_next\<close> calls, with any
  stage executor and whatever the calls return, a workflow that reports success has its
  Planner and Executor succeeded and has been verified: either the Verifier accepted and the
  repair cycle was skipped, or the Verifier rejected, the repair executor succeeded and the
  final verifier accepted.\<close>

theorem workflow_success_is_verified:
  assumes "SequentialWorkflow_new w t c = Inr s0"
    and "s = foldl (wf_apply ex) s0 calls"
    and "wf_state s = Workflow_Succeeded"
  shows "wf_stage_state s Planner = Some State_Succeeded \<and>
         wf_stage_state s Executor = Some State_Succeeded \<and>
         (wf_stage_state s Verifier = Some State_Succeeded \<and>
          wf_stage_state s RepairExecutor = Some State_Skipped \<and>
          wf_stage_state s FinalVerifier = Some State_Skipped
          \<or> wf_stage_state s Verifier = Some State_Rejected \<and>
            wf_stage_state s RepairExecutor = Some State_Succeeded \<and>
            wf_stage_state s FinalVerifier = Some State_Succeeded)"
proof -
  have "workflow_inv s"
    unfolding assms(2) using assms(1) by (intro wf.inv_run) (auto simp: wf_initial_def)
  then obtain sts where "sts \<in> verified_vectors" "wf_stages s = with_states sts"
    using succeeded_vector assms(3) by blast
  then show ?thesis by (auto simp: verified_vectors_def stage_state_with_states)
qed

theorem workflow_success_is_verified_witness:
  "wf_state (foldl (wf_apply echo_executor) demo_workflow
     (map (\<lambda>x. Call_Execute (demo_input x)) [Planner, Executor, Verifier])) = Workflow_Succeeded \<and>
   wf_stage_state (foldl (wf_apply echo_executor) demo_workflow
     (map (\<lambda>x. Call_Execute (demo_input x)) [Planner, Executor, Verifier])) Planner
     = Some State_Succeeded"
proof -
  have ok: "wf_state (foldl (wf_apply echo_executor) demo_workflow
     (map (\<lambda>x. Call_Execute (demo_input x)) [Planner, Executor, Verifier])) = Workflow_Succeeded"
    by code_simp
  from workflow_success_is_verified [OF demo_workflow_new refl ok] ok show ?thesis by blast
qed

text \<open>C12: the coordinator refines the automaton \<open>next_phase\<close>. From a state representing a phase,
  an accepted \<open>begin_stage\<close> starts exactly the awaited stage; an accepted \<open>complete_stage\<close>
  moves from the running stage to the phase the automaton prescribes for the result's
  verdict (forward on acceptance, to the repair executor on a Verifier rejection, to failure
  on a failed stage or a final rejection); a refused call represents the same phase still.\<close>

theorem workflow_refines_automaton:
  assumes "rep s p"
  shows "(begin_stage s i = (Inr u, s') \<longrightarrow>
           (\<exists>stage. p = Awaiting stage \<and> rep s' (InStage stage) \<and>
             corr_stage_id (input_correlation i) = StageId (stage_key stage))) \<and>
         (complete_stage s out = (Inr u, s') \<longrightarrow>
           (\<exists>stage. p = InStage stage \<and>
             rep s' (next_phase stage (verdict_of (output_result out))))) \<and>
         (begin_stage s i = (Inl e, s') \<or> complete_stage s out = (Inl e, s') \<longrightarrow> rep s' p)"
  using assms begin_stage_rep complete_stage_rep begin_stage_error_unchanged
    complete_stage_error_rep by blast

theorem workflow_refines_automaton_witness:
  "rep demo_workflow (Awaiting Planner) \<and>
   (\<exists>s'. begin_stage demo_workflow (demo_input Planner) = (Inr (), s') \<and> rep s' (InStage Planner) \<and>
      (\<exists>s''. complete_stage s' (demo_output Planner (Result_Succeeded (demo_handoff Role_Executor)))
               = (Inr (), s'') \<and> rep s'' (Awaiting Executor)))"
proof -
  let ?s' = "snd (begin_stage demo_workflow (demo_input Planner))"
  let ?out = "demo_output Planner (Result_Succeeded (demo_handoff Role_Executor))"
  have b: "begin_stage demo_workflow (demo_input Planner) = (Inr (), ?s')"
    by (rule prod_eqI; code_simp)
  have c: "complete_stage ?s' ?out = (Inr (), snd (complete_stage ?s' ?out))"
    by (rule prod_eqI; code_simp)
  have r: "rep ?s' (InStage Planner)"
    using workflow_refines_automaton [OF demo_workflow_rep, of "demo_input Planner" "()" ?s'] b by auto
  have "rep (snd (complete_stage ?s' ?out)) (Awaiting Executor)"
    using workflow_refines_automaton [OF r, of _ "()" "snd (complete_stage ?s' ?out)" ?out] c
    by (auto simp: demo_output_def verdict_of_def)
  with b c r show ?thesis using demo_workflow_rep by blast
qed

text \<open>C14: a workflow makes bounded progress: from a new workflow, whatever calls are made and in
  whatever order, at most ten \<open>begin_stage\<close> and \<open>complete_stage\<close> calls are accepted (five
  stages, each begun and completed once), and once it has succeeded or failed no call
  changes it any more.\<close>

theorem workflow_bounded_and_final:
  assumes new: "SequentialWorkflow_new w t c = Inr s0"
  shows "accepted_calls s0 cs \<le> 10 \<and>
         (let s = foldl (wf_apply ex) s0 calls in
          wf_state s \<in> {Workflow_Succeeded, Workflow_Failed} \<longrightarrow>
          foldl (wf_apply ex) s later = s)"
proof -
  from new SequentialWorkflow_new_ok have "rep s0 (Awaiting Planner)" by (metis sum.inject(2))
  then have bound: "accepted_calls s0 cs \<le> 10" using accepted_calls_rank by fastforce
  have "workflow_inv (foldl (wf_apply ex) s0 calls)"
    using new by (intro wf.inv_run) (auto simp: wf_initial_def)
  then show ?thesis using bound wf.final_run by (simp add: Let_def wf_ended_def)
qed

theorem workflow_bounded_and_final_witness:
  "accepted_calls demo_workflow
     [Inl (demo_input Planner), Inr (echo_executor (demo_input Planner))] = 2 \<and>
   accepted_calls demo_workflow
     [Inl (demo_input Planner), Inr (echo_executor (demo_input Planner))] \<le> 10"
  using workflow_bounded_and_final [OF demo_workflow_new] by (intro conjI, code_simp) blast

text \<open>\<open>begin_stage\<close> never widens authority. An admitted stage has the role and the access its
  stage requires, every ceiling of its envelope lies under the workflow's, and a planner or
  verifier stage is admitted only with read-only assignment access; the input's handoff
  belongs to the workflow and the task.\<close>

theorem begin_stage_respects_ceilings:
  assumes "begin_stage s i = (Inr u, s')"
  shows "(\<exists>stage. corr_stage_id (input_correlation i) = StageId (stage_key stage) \<and>
           input_role i = stage_role stage \<and> input_access i = stage_access stage \<and>
           (stage_access stage = ReadOnly \<longrightarrow> assignment_access (input_permissions i) = ReadOnly)) \<and>
         WorkAccess_allows (workflow_ceiling (wf_permission_ceiling s))
           (workflow_ceiling (input_permissions i)) \<and>
         WorkAccess_allows (parent_ceiling (wf_permission_ceiling s))
           (parent_ceiling (input_permissions i)) \<and>
         WorkAccess_allows (assignment_access (wf_permission_ceiling s))
           (assignment_access (input_permissions i)) \<and>
         handoff_workflow_id (input_handoff i) = wf_workflow_id s \<and>
         handoff_task_id (input_handoff i) = wf_task_id s"
  using begin_stage_ok(4) [OF assms]
  by (rule validate_input_ok) (auto simp: permission_envelope_allows_def)

theorem begin_stage_respects_ceilings_witness:
  "assignment_access (input_permissions (demo_input Planner)) = ReadOnly \<and>
   (\<exists>s'. begin_stage demo_workflow (demo_input Planner) = (Inr (), s')) \<and>
   WorkAccess_allows (assignment_access (wf_permission_ceiling demo_workflow))
     (assignment_access (input_permissions (demo_input Planner)))"
proof -
  let ?s' = "snd (begin_stage demo_workflow (demo_input Planner))"
  have b: "begin_stage demo_workflow (demo_input Planner) = (Inr (), ?s')"
    by (rule prod_eqI; code_simp)
  moreover have "assignment_access (input_permissions (demo_input Planner)) = ReadOnly"
    by (simp add: demo_defs)
  ultimately show ?thesis using begin_stage_respects_ceilings [OF b] by blast
qed

text \<open>a refused completion is not always without effect. When a planner, executor or repair
  executor stage is running and its correctly correlated output is a rejection, the call
  returns \<open>StagePolicyMismatch\<close> and keeps the stage running, but it has already stored the
  rejected handoff as the workflow's terminal handoff. Every other refused call leaves the
  workflow as it was.\<close>

theorem refused_completion_effect:
  assumes "rep s (InStage stage)"
    and "corr_workflow_id (output_correlation out) = wf_workflow_id s"
    and "corr_task_id (output_correlation out) = wf_task_id s"
    and "corr_stage_id (output_correlation out) = StageId (stage_key stage)"
    and "output_result out = Result_Rejected h"
    and "handoff_workflow_id h = wf_workflow_id s" and "handoff_task_id h = wf_task_id s"
    and "stage \<notin> {Verifier, FinalVerifier}"
  shows "complete_stage s out = (Inl StagePolicyMismatch, s\<lparr>wf_terminal_handoff := Some h\<rparr>) \<and>
         (\<forall>t out' e t'. complete_stage t out' = (Inl e, t') \<and> e \<noteq> StagePolicyMismatch \<longrightarrow> t' = t)"
proof -
  from assms(1) have st: "wf_stages s = with_states (vector stage State_Active)"
    and act: "wf_active_stage s = Some stage" by simp_all
  have "complete_stage s out = (Inl StagePolicyMismatch, s\<lparr>wf_terminal_handoff := Some h\<rparr>)"
    using assms stage_id_vector [OF st]
    by (simp add: complete_stage_def act result_handoff_def result_state_def Let_def)
  then show ?thesis using complete_stage_error_shape by blast
qed

theorem refused_completion_effect_witness:
  "\<exists>s. rep s (InStage Planner) \<and> wf_terminal_handoff s = None \<and>
     complete_stage s (demo_output Planner (Result_Rejected (demo_handoff Role_Executor))) =
       (Inl StagePolicyMismatch, s\<lparr>wf_terminal_handoff := Some (demo_handoff Role_Executor)\<rparr>)"
proof -
  let ?s = "snd (begin_stage demo_workflow (demo_input Planner))"
  have b: "begin_stage demo_workflow (demo_input Planner) = (Inr (), ?s)"
    by (rule prod_eqI; code_simp)
  have r: "rep ?s (InStage Planner)" using begin_stage_rep [OF demo_workflow_rep b] by auto
  have ids: "wf_workflow_id ?s = demo_workflow_id" "wf_task_id ?s = demo_task_id"
    "wf_terminal_handoff ?s = None"
    by (code_simp)+
  have "complete_stage ?s (demo_output Planner (Result_Rejected (demo_handoff Role_Executor))) =
      (Inl StagePolicyMismatch, ?s\<lparr>wf_terminal_handoff := Some (demo_handoff Role_Executor)\<rparr>)"
    by (rule conjunct1, rule refused_completion_effect [OF r])
       (simp_all add: ids demo_output_def demo_correlation_def demo_handoff_def)
  with r ids show ?thesis by blast
qed

end
