(* ===== verification/BTree_Map.thy ===== *)
theory BTree_Map
  imports Syn_Prelude
begin

text \<open>
  The \<open>BTreeMap\<close> of Rust's standard library as the control plane uses it: a finite map that is
  iterated in ascending key order. It is modelled by the ascending association list of its
  entries, so lookups, insertion, removal, \<open>len\<close>, \<open>values\<close> and \<open>retain\<close> compute. The locale
  \<open>ordered_map\<close> states what the components rely on; the interpretation at the end
  discharges it for the lists.
\<close>

type_synonym ('k, 'v) btree_map = "('k \<times> 'v) list"

fun bt_get :: "('k::linorder, 'v) btree_map \<Rightarrow> 'k \<Rightarrow> 'v option" where
  "bt_get [] k = None"
| "bt_get ((a, b) # m) k = (if k = a then Some b else bt_get m k)"

fun bt_insert :: "'k::linorder \<Rightarrow> 'v \<Rightarrow> ('k, 'v) btree_map \<Rightarrow> ('k, 'v) btree_map" where
  "bt_insert k v [] = [(k, v)]"
| "bt_insert k v ((a, b) # m) =
     (if k < a then (k, v) # (a, b) # m
      else if k = a then (k, v) # m
      else (a, b) # bt_insert k v m)"

fun bt_remove :: "'k::linorder \<Rightarrow> ('k, 'v) btree_map \<Rightarrow> ('k, 'v) btree_map" where
  "bt_remove k [] = []"
| "bt_remove k ((a, b) # m) = (if k = a then m else (a, b) # bt_remove k m)"

definition bt_retain :: "('k \<Rightarrow> 'v \<Rightarrow> bool) \<Rightarrow> ('k::linorder, 'v) btree_map \<Rightarrow> ('k, 'v) btree_map" where
  "bt_retain p m = filter (\<lambda>(k, v). p k v) m"

definition bt_keys :: "('k::linorder, 'v) btree_map \<Rightarrow> 'k list" where
  "bt_keys m = map fst m"

definition bt_values :: "('k::linorder, 'v) btree_map \<Rightarrow> 'v list" where
  "bt_values m = map snd m"

definition bt_wf :: "('k::linorder, 'v) btree_map \<Rightarrow> bool" where
  "bt_wf m \<longleftrightarrow> sorted_wrt (<) (map fst m)"

lemma bt_wf_Nil [simp]: "bt_wf []"
  by (simp add: bt_wf_def)

lemma bt_wf_Cons [simp]: "bt_wf ((a, b) # m) \<longleftrightarrow> (\<forall>k \<in> fst ` set m. a < k) \<and> bt_wf m"
  by (auto simp: bt_wf_def)

lemma bt_get_None_iff: "bt_get m k = None \<longleftrightarrow> k \<notin> fst ` set m"
  by (induction m k rule: bt_get.induct) auto

lemma bt_get_below: "\<forall>x \<in> set m. k < fst x \<Longrightarrow> bt_get m k = None"
  by (auto simp: bt_get_None_iff)

lemma bt_get_in_set: "bt_get m k = Some v \<Longrightarrow> (k, v) \<in> set m"
  by (induction m k rule: bt_get.induct) (auto split: if_splits)

lemma bt_get_of_set: "bt_wf m \<Longrightarrow> (k, v) \<in> set m \<Longrightarrow> bt_get m k = Some v"
  by (induction m k rule: bt_get.induct) (force+)

lemma bt_get_iff_set: "bt_wf m \<Longrightarrow> bt_get m k = Some v \<longleftrightarrow> (k, v) \<in> set m"
  by (metis bt_get_in_set bt_get_of_set)

lemma bt_get_insert [simp]: "bt_get (bt_insert k v m) j = (if j = k then Some v else bt_get m j)"
  by (induction k v m rule: bt_insert.induct) auto

lemma fst_bt_insert [simp]: "fst ` set (bt_insert k v m) = insert k (fst ` set m)"
  by (induction k v m rule: bt_insert.induct) auto

lemma fst_bt_remove_subset: "fst ` set (bt_remove k m) \<subseteq> fst ` set m"
  by (induction k m rule: bt_remove.induct) auto

lemma set_bt_insert_subset: "set (bt_insert k v m) \<subseteq> insert (k, v) (set m)"
  by (induction k v m rule: bt_insert.induct) auto

lemma set_bt_remove_subset: "set (bt_remove k m) \<subseteq> set m"
  by (induction k m rule: bt_remove.induct) auto

lemma bt_wf_insert [simp]: "bt_wf m \<Longrightarrow> bt_wf (bt_insert k v m)"
  by (induction k v m rule: bt_insert.induct) (auto intro: less_trans)

lemma bt_wf_remove [simp]: "bt_wf m \<Longrightarrow> bt_wf (bt_remove k m)"
  by (induction k m rule: bt_remove.induct) (use fst_bt_remove_subset in force)+

lemma bt_get_remove [simp]:
  "bt_wf m \<Longrightarrow> bt_get (bt_remove k m) j = (if j = k then None else bt_get m j)"
  by (induction k m rule: bt_remove.induct) (auto simp: bt_get_below)

lemma bt_wf_retain [simp]: "bt_wf m \<Longrightarrow> bt_wf (bt_retain p m)"
  unfolding bt_wf_def bt_retain_def by (induction m) auto

lemma bt_get_retain:
  "bt_wf m \<Longrightarrow> bt_get (bt_retain p m) k =
     (case bt_get m k of None \<Rightarrow> None | Some v \<Rightarrow> if p k v then Some v else None)"
proof (induction m)
  case Nil
  show ?case by (simp add: bt_retain_def)
next
  case (Cons e m)
  obtain a b where e: "e = (a, b)" by (cases e)
  have "bt_get m a = None" using Cons.prems e by (auto simp: bt_get_None_iff)
  then show ?case using Cons e
    by (auto simp: bt_retain_def bt_get_None_iff split: option.splits)
qed

lemma length_bt_insert:
  "bt_wf m \<Longrightarrow> length (bt_insert k v m) = (if bt_get m k = None then Suc (length m) else length m)"
proof (induction k v m rule: bt_insert.induct)
  case (1 k v)
  show ?case by simp
next
  case (2 k v a b m)
  have "k < a \<Longrightarrow> bt_get m k = None"
    using "2.prems" by (force simp: bt_get_None_iff)
  then show ?case using 2 by auto
qed

lemma length_bt_insert_le: "length (bt_insert k v m) \<le> Suc (length m)"
  by (induction k v m rule: bt_insert.induct) auto

lemma length_bt_insert_ge: "length m \<le> length (bt_insert k v m)"
  by (induction k v m rule: bt_insert.induct) auto

lemma length_bt_remove:
  "bt_get m k \<noteq> None \<Longrightarrow> Suc (length (bt_remove k m)) = length m"
  by (induction k m rule: bt_remove.induct) auto

lemma length_bt_remove_le: "length (bt_remove k m) \<le> length m"
  by (induction k m rule: bt_remove.induct) auto

lemma bt_remove_absent: "bt_get m k = None \<Longrightarrow> bt_remove k m = m"
  by (induction k m rule: bt_remove.induct) (auto split: if_splits)

lemma bt_keys_distinct: "bt_wf m \<Longrightarrow> distinct (bt_keys m)"
  by (simp add: bt_wf_def bt_keys_def strict_sorted_iff)

lemma bt_values_set: "bt_wf m \<Longrightarrow> v \<in> set (bt_values m) \<longleftrightarrow> (\<exists>k. bt_get m k = Some v)"
  by (force simp: bt_values_def bt_get_iff_set)

lemma length_bt_values [simp]: "length (bt_values m) = length m"
  by (simp add: bt_values_def)

lemma bt_ext:
  assumes "bt_wf m" "bt_wf n" "\<And>k. bt_get m k = bt_get n k"
  shows "m = n"
  using assms
proof (induction m arbitrary: n)
  case Nil
  then show ?case
    by (cases n) (auto, metis bt_get.simps(2) option.distinct(1))
next
  case (Cons e m)
  obtain a b where e: "e = (a, b)" by (cases e)
  have "bt_get n a = Some b" using Cons.prems(3) [of a] e by simp
  then obtain f n' where n: "n = f # n'" by (cases n) auto
  obtain c d where f: "f = (c, d)" by (cases f)
  have "bt_get ((a, b) # m) c = Some d" using Cons.prems(3) [of c] e n f by simp
  then have "a = c \<and> b = d"
    using \<open>bt_get n a = Some b\<close> Cons.prems(1,2) e n f
    by (auto split: if_splits dest!: bt_get_in_set)
       (metis fst_conv image_eqI less_asym)+
  moreover have "bt_get m k = bt_get n' k" for k
    using Cons.prems(3) [of k] Cons.prems(1,2) e n f calculation
    by (cases "k = a") (auto simp: bt_get_below)
  ultimately show ?case using Cons e n f by auto
qed

text \<open>Inserting fresh ascending keys one after the other rebuilds the map.\<close>

lemma bt_insert_last:
  "(\<And>j. j \<in> fst ` set m \<Longrightarrow> j < k) \<Longrightarrow> bt_insert k v m = m @ [(k, v)]"
  by (induction k v m rule: bt_insert.induct) (auto, metis less_asym)

section \<open>The interface\<close>

locale ordered_map =
  fixes empty :: "'m"
    and get :: "'m \<Rightarrow> 'k::linorder \<Rightarrow> 'v option"
    and insert_op :: "'k \<Rightarrow> 'v \<Rightarrow> 'm \<Rightarrow> 'm"
    and remove_op :: "'k \<Rightarrow> 'm \<Rightarrow> 'm"
    and entries :: "'m \<Rightarrow> ('k \<times> 'v) list"
    and wf :: "'m \<Rightarrow> bool"
  assumes get_empty: "get empty k = None"
    and get_insert: "wf m \<Longrightarrow> get (insert_op k v m) j = (if j = k then Some v else get m j)"
    and get_remove: "wf m \<Longrightarrow> get (remove_op k m) j = (if j = k then None else get m j)"
    and entries_ascending: "wf m \<Longrightarrow> sorted_wrt (<) (map fst (entries m))"
    and entries_get: "wf m \<Longrightarrow> (k, v) \<in> set (entries m) \<longleftrightarrow> get m k = Some v"
    and wf_empty: "wf empty"
    and wf_insert: "wf m \<Longrightarrow> wf (insert_op k v m)"
    and wf_remove: "wf m \<Longrightarrow> wf (remove_op k m)"
begin

lemma insert_then_get: "wf m \<Longrightarrow> get (insert_op k v m) k = Some v"
  by (simp add: get_insert)

lemma insert_remove_get: "wf m \<Longrightarrow> get m k = None \<Longrightarrow> get (remove_op k (insert_op k v m)) = get m"
  by (rule ext) (simp add: get_insert get_remove wf_insert)

lemma inserts_commute:
  "wf m \<Longrightarrow> j \<noteq> k \<Longrightarrow> get (insert_op j u (insert_op k v m)) = get (insert_op k v (insert_op j u m))"
  by (rule ext) (auto simp: get_insert wf_insert)

lemma all_entries_insert:
  assumes "wf m" "\<And>k v. get m k = Some v \<Longrightarrow> P k v" "P k v"
  shows "get (insert_op k v m) j = Some u \<Longrightarrow> P j u"
  using assms by (auto simp: get_insert split: if_splits)

lemma all_entries_remove:
  assumes "wf m" "\<And>k v. get m k = Some v \<Longrightarrow> P k v"
  shows "get (remove_op k m) j = Some u \<Longrightarrow> P j u"
  using assms by (auto simp: get_remove split: if_splits)

end

interpretation bt: ordered_map
  "[] :: ('k::linorder, 'v) btree_map" bt_get bt_insert bt_remove "\<lambda>m. m" bt_wf
  by unfold_locales (auto simp: bt_get_iff_set bt_wf_def [symmetric])

end
