(* ===== verification/Provider_Accounts.thy ===== *)
theory Provider_Accounts
  imports Orch_Domain BTree_Map
begin

text \<open>
  Provider connections and accounts (\<open>provider_connection.rs\<close>, \<open>codex_accounts.rs\<close> and the
  registry and selection part of \<open>omniroute.rs\<close> under
  \<open>codex-rs/core/src/syndrid_orchestration\<close>): bounded identifiers, endpoint checks, the
  Codex account registry with its state machine and credential references, the OmniRoute
  connection registry and explicit provider selections. \<open>Url::parse\<close>, the JSON codec and the
  credential store are parameters.
\<close>

section \<open>Bounded texts of provider connections\<close>

datatype ProviderConnectionError =
  Conn_EmptyIdentifier | Conn_IdentifierTooLong | Conn_EmptyLabel | Conn_LabelTooLong
  | Conn_EmptyCredentialReference | Conn_CredentialReferenceTooLong | Conn_EmptyCredential
  | Conn_CredentialTooLong | Conn_InvalidEndpoint | Conn_EndpointTooLong
  | Conn_CredentialRequired | Conn_CredentialForbidden | Conn_DuplicateConnectionId

definition MAX_IDENTIFIER_BYTES :: nat where "MAX_IDENTIFIER_BYTES = 128"
definition MAX_LABEL_BYTES :: nat where "MAX_LABEL_BYTES = 256"
definition MAX_ENDPOINT_BYTES :: nat where "MAX_ENDPOINT_BYTES = 2048"
definition MAX_SECRET_BYTES :: nat where "MAX_SECRET_BYTES = 64 * 1024"

text \<open>The \<open>new\<close> of the \<open>bounded_text!\<close> macro; the newtypes keep their text.\<close>

definition bounded_text_new ::
  "nat \<Rightarrow> ProviderConnectionError \<Rightarrow> ProviderConnectionError \<Rightarrow> string \<Rightarrow>
   (ProviderConnectionError, string) result" where
  "bounded_text_new limit on_empty too_long s =
     (if is_blank s then Inl on_empty else if length s > limit then Inl too_long else Inr s)"

definition ProviderId_new :: "string \<Rightarrow> (ProviderConnectionError, string) result" where
  "ProviderId_new = bounded_text_new MAX_IDENTIFIER_BYTES Conn_EmptyIdentifier Conn_IdentifierTooLong"

definition ProviderConnectionId_new :: "string \<Rightarrow> (ProviderConnectionError, string) result" where
  "ProviderConnectionId_new =
     bounded_text_new MAX_IDENTIFIER_BYTES Conn_EmptyIdentifier Conn_IdentifierTooLong"

definition CredentialReference_new :: "string \<Rightarrow> (ProviderConnectionError, string) result" where
  "CredentialReference_new =
     bounded_text_new MAX_IDENTIFIER_BYTES Conn_EmptyCredentialReference
       Conn_CredentialReferenceTooLong"

definition ConnectionLabel_new :: "string \<Rightarrow> (ProviderConnectionError, string) result" where
  "ConnectionLabel_new = bounded_text_new MAX_LABEL_BYTES Conn_EmptyLabel Conn_LabelTooLong"

definition CredentialSecret_new :: "string \<Rightarrow> (ProviderConnectionError, string) result" where
  "CredentialSecret_new = bounded_text_new MAX_SECRET_BYTES Conn_EmptyCredential Conn_CredentialTooLong"

definition bounded_nonblank :: "nat \<Rightarrow> string \<Rightarrow> bool" where
  "bounded_nonblank limit s \<longleftrightarrow> \<not> is_blank s \<and> length s \<le> limit"

lemma bounded_text_new_ok: "bounded_nonblank n s \<Longrightarrow> bounded_text_new n e l s = Inr s"
  by (simp add: bounded_text_new_def bounded_nonblank_def)

lemma bounded_text_new_err: "\<not> bounded_nonblank n s \<Longrightarrow> \<exists>x. bounded_text_new n e l s = Inl x"
  by (auto simp: bounded_text_new_def bounded_nonblank_def)

interpretation provider_id: validated_text "\<lambda>s. s" "\<lambda>s. s" ProviderId_new
  "bounded_nonblank MAX_IDENTIFIER_BYTES"
  by unfold_locales (simp_all add: ProviderId_new_def bounded_text_new_ok bounded_text_new_err)

interpretation provider_connection_id: validated_text "\<lambda>s. s" "\<lambda>s. s" ProviderConnectionId_new
  "bounded_nonblank MAX_IDENTIFIER_BYTES"
  by unfold_locales
    (simp_all add: ProviderConnectionId_new_def bounded_text_new_ok bounded_text_new_err)

interpretation credential_reference: validated_text "\<lambda>s. s" "\<lambda>s. s" CredentialReference_new
  "bounded_nonblank MAX_IDENTIFIER_BYTES"
  by unfold_locales
    (simp_all add: CredentialReference_new_def bounded_text_new_ok bounded_text_new_err)

interpretation connection_label: validated_text "\<lambda>s. s" "\<lambda>s. s" ConnectionLabel_new
  "bounded_nonblank MAX_LABEL_BYTES"
  by unfold_locales (simp_all add: ConnectionLabel_new_def bounded_text_new_ok bounded_text_new_err)

interpretation credential_secret: validated_text "\<lambda>s. s" "\<lambda>s. s" CredentialSecret_new
  "bounded_nonblank MAX_SECRET_BYTES"
  by unfold_locales (simp_all add: CredentialSecret_new_def bounded_text_new_ok bounded_text_new_err)

section \<open>Endpoints\<close>

text \<open>What the source reads of a parsed \<open>Url\<close>. The parser itself is a parameter.\<close>

record Url =
  url_scheme :: string
  url_host_str :: "string option"
  url_port :: "nat option"
  url_username :: string
  url_password :: "string option"
  url_path :: string
  url_query :: "string option"
  url_fragment :: "string option"

type_synonym url_parser = "string \<Rightarrow> Url option"

definition EndpointUrl_new :: "url_parser \<Rightarrow> string \<Rightarrow> (ProviderConnectionError, string) result" where
  "EndpointUrl_new parse v =
     res_bind (ensure (length v \<le> MAX_ENDPOINT_BYTES) Conn_EndpointTooLong) (\<lambda>_.
     res_bind (ok_or (parse v) Conn_InvalidEndpoint) (\<lambda>u.
       if url_scheme u \<notin> {''http'', ''https''} \<or> url_host_str u = None \<or> url_username u \<noteq> []
          \<or> url_password u \<noteq> None \<or> url_query u \<noteq> None \<or> url_fragment u \<noteq> None
       then Inl Conn_InvalidEndpoint
       else Inr v))"

section \<open>Connections\<close>

datatype AuthenticationMethod =
  Auth_ApiKey | Auth_OAuth | Auth_OAuthPkce | Auth_BearerToken | Auth_NoAuthentication
  | Auth_LocalEndpoint

fun requires_credential :: "AuthenticationMethod \<Rightarrow> bool" where
  "requires_credential Auth_ApiKey = True"
| "requires_credential Auth_OAuth = True"
| "requires_credential Auth_OAuthPkce = True"
| "requires_credential Auth_BearerToken = True"
| "requires_credential _ = False"

datatype ConnectionValidationStatus = Status_Unvalidated | Status_Valid | Status_Invalid

record ConnectionValidationResult =
  validation_status :: ConnectionValidationStatus
  validation_error :: "ProviderConnectionError option"

definition validation_unvalidated :: ConnectionValidationResult where
  "validation_unvalidated = \<lparr>validation_status = Status_Unvalidated, validation_error = None\<rparr>"

definition validation_valid :: ConnectionValidationResult where
  "validation_valid = \<lparr>validation_status = Status_Valid, validation_error = None\<rparr>"

record ProviderConnection =
  pc_connection_id :: string
  pc_provider_id :: string
  pc_label :: string
  pc_authentication_method :: AuthenticationMethod
  pc_credential_reference :: "string option"
  pc_endpoint :: "string option"
  pc_enabled :: bool
  pc_validation :: ConnectionValidationResult

definition ProviderConnection_new ::
  "string \<Rightarrow> string \<Rightarrow> string \<Rightarrow> AuthenticationMethod \<Rightarrow> string option \<Rightarrow> string option \<Rightarrow> bool \<Rightarrow>
   (ProviderConnectionError, ProviderConnection) result" where
  "ProviderConnection_new cid pid lbl auth cred ep en =
     (if requires_credential auth \<and> cred = None then Inl Conn_CredentialRequired
      else if \<not> requires_credential auth \<and> cred \<noteq> None then Inl Conn_CredentialForbidden
      else Inr \<lparr>pc_connection_id = cid, pc_provider_id = pid, pc_label = lbl,
             pc_authentication_method = auth, pc_credential_reference = cred, pc_endpoint = ep,
             pc_enabled = en, pc_validation = validation_unvalidated\<rparr>)"

type_synonym ProviderConnectionRegistry = "(string, ProviderConnection) btree_map"

definition connection_registry_insert ::
  "ProviderConnection \<Rightarrow> ProviderConnectionRegistry \<Rightarrow>
   (ProviderConnectionError, unit) result \<times> ProviderConnectionRegistry" where
  "connection_registry_insert c r =
     (if bt_get r (pc_connection_id c) \<noteq> None then (Inl Conn_DuplicateConnectionId, r)
      else (Inr (), bt_insert (pc_connection_id c) c r))"

section \<open>Codex account profiles\<close>

datatype CodexAccountProfileError =
  InvalidCodexAccountProfileId | DuplicateCodexAccountProfile | InvalidAccountState
  | DuplicateCredentialReference | Account_TooManyProfiles | Account_RegistryUnavailable
  | Account_RegistryMalformed | Account_RegistryTooLarge | Account_UnsupportedSchemaVersion
  | Account_AtomicWriteFailed | CredentialStoreRejected | UnknownCodexAccountProfile
  | UnsupportedStateTransition | InvalidCredentialEnvelope | UnsupportedCredentialEnvelopeVersion
  | CredentialEnvelopeTooLarge | MissingRequiredCredentialField

definition ACCOUNT_MAX_ID_BYTES :: nat where "ACCOUNT_MAX_ID_BYTES = 128"
definition ACCOUNT_MAX_LABEL_BYTES :: nat where "ACCOUNT_MAX_LABEL_BYTES = 256"
definition ACCOUNT_MAX_FILE_BYTES :: nat where "ACCOUNT_MAX_FILE_BYTES = 256 * 1024"
definition ACCOUNT_MAX_PROFILES :: nat where "ACCOUNT_MAX_PROFILES = 32"
definition ACCOUNT_SCHEMA_VERSION :: nat where "ACCOUNT_SCHEMA_VERSION = 1"
definition CODEX_PROVIDER_ID :: string where "CODEX_PROVIDER_ID = ''codex''"
definition CREDENTIAL_ENVELOPE_VERSION :: nat where "CREDENTIAL_ENVELOPE_VERSION = 1"
definition MAX_CREDENTIAL_ENVELOPE_BYTES :: nat where "MAX_CREDENTIAL_ENVELOPE_BYTES = 64 * 1024"

text \<open>The alphabet of profile, pool and routing identifiers.\<close>

definition slug_char :: "char \<Rightarrow> bool" where
  "slug_char c \<longleftrightarrow> is_ascii_alphanumeric c \<or> c = CHR ''-'' \<or> c = CHR ''_''"

definition valid_slug :: "nat \<Rightarrow> string \<Rightarrow> bool" where
  "valid_slug limit s \<longleftrightarrow> s \<noteq> [] \<and> length s \<le> limit \<and> list_all slug_char s"

lemma slug_char_ident: "slug_char c \<Longrightarrow> ident_char c"
  by (auto simp: slug_char_def ident_char_def)

lemma valid_slug_not_blank: "valid_slug n s \<Longrightarrow> \<not> is_blank s"
  using not_blank_if_ident [of s] slug_char_ident by (auto simp: valid_slug_def list_all_iff)

type_synonym CodexAccountProfileId = string

definition CodexAccountProfileId_new ::
  "string \<Rightarrow> (CodexAccountProfileError, CodexAccountProfileId) result" where
  "CodexAccountProfileId_new v =
     (if v = [] \<or> length v > ACCOUNT_MAX_ID_BYTES \<or> \<not> list_all slug_char v
      then Inl InvalidCodexAccountProfileId else Inr v)"

interpretation codex_account_id: validated_text "\<lambda>s. s" "\<lambda>s. s" CodexAccountProfileId_new
  "valid_slug ACCOUNT_MAX_ID_BYTES"
  by unfold_locales (auto simp: CodexAccountProfileId_new_def valid_slug_def)

datatype CodexAccountProfileState =
  Unconfigured | AuthenticationPending | Connected | ReauthenticationRequired | Disabled | Invalid

fun can_transition_to :: "CodexAccountProfileState \<Rightarrow> CodexAccountProfileState \<Rightarrow> bool" where
  "can_transition_to Unconfigured AuthenticationPending = True"
| "can_transition_to AuthenticationPending Connected = True"
| "can_transition_to AuthenticationPending Invalid = True"
| "can_transition_to Connected ReauthenticationRequired = True"
| "can_transition_to Connected Disabled = True"
| "can_transition_to ReauthenticationRequired AuthenticationPending = True"
| "can_transition_to Disabled AuthenticationPending = True"
| "can_transition_to Connected Unconfigured = True"
| "can_transition_to Invalid Unconfigured = True"
| "can_transition_to _ _ = False"

record CodexAccountConnectionMetadata =
  acct_connection_id :: string
  acct_profile_id :: CodexAccountProfileId
  acct_provider_id :: string
  acct_label :: string
  acct_state :: CodexAccountProfileState
  acct_account_email :: "string option"
  acct_account_id :: "string option"
  acct_plan_label :: "string option"
  acct_enabled :: bool
  acct_validation :: ConnectionValidationStatus
  acct_last_authenticated_at :: "nat option"
  acct_last_validated_at :: "nat option"
  acct_credential_reference :: string
  acct_schema_version :: nat

record CodexAccountProfileRegistry =
  accounts_schema_version :: nat
  accounts_profiles :: "(CodexAccountProfileId, CodexAccountConnectionMetadata) btree_map"

definition accounts_default :: CodexAccountProfileRegistry where
  "accounts_default = \<lparr>accounts_schema_version = ACCOUNT_SCHEMA_VERSION, accounts_profiles = []\<rparr>"

definition reference_prefix :: string where
  "reference_prefix = ''codex-account-''"

definition credential_reference_for :: "string \<Rightarrow> (CodexAccountProfileError, string) result" where
  "credential_reference_for connection_id =
     res_bind (CodexAccountProfileId_new connection_id) (\<lambda>_.
       Inr (reference_prefix @ connection_id))"

definition account_check :: "CodexAccountConnectionMetadata \<Rightarrow> (CodexAccountProfileError, unit) result" where
  "account_check md =
     res_bind (CodexAccountProfileId_new (acct_connection_id md)) (\<lambda>_.
       if acct_schema_version md \<noteq> ACCOUNT_SCHEMA_VERSION
          \<or> acct_provider_id md \<noteq> CODEX_PROVIDER_ID
          \<or> is_blank (acct_connection_id md)
          \<or> is_blank (acct_credential_reference md)
       then Inl InvalidAccountState
       else res_bind (credential_reference_for (acct_connection_id md)) (\<lambda>reference.
         if acct_credential_reference md \<noteq> reference
            \<or> is_blank (acct_label md)
            \<or> length (acct_label md) > ACCOUNT_MAX_LABEL_BYTES
         then Inl InvalidAccountState
         else Inr ()))"

definition accounts_insert ::
  "CodexAccountConnectionMetadata \<Rightarrow> CodexAccountProfileRegistry \<Rightarrow>
   (CodexAccountProfileError, unit) result \<times> CodexAccountProfileRegistry" where
  "accounts_insert md r =
     (case account_check md of
        Inl e \<Rightarrow> (Inl e, r)
      | Inr _ \<Rightarrow>
          let items = bt_values (accounts_profiles r);
              same_reference = list_ex (\<lambda>item. acct_credential_reference item = acct_credential_reference md) items
          in if bt_get (accounts_profiles r) (acct_profile_id md) \<noteq> None
                \<or> list_ex (\<lambda>item. acct_connection_id item = acct_connection_id md) items
                \<or> same_reference
             then (Inl (if same_reference then DuplicateCredentialReference
                        else DuplicateCodexAccountProfile), r)
             else if length (accounts_profiles r) \<ge> ACCOUNT_MAX_PROFILES
             then (Inl Account_TooManyProfiles, r)
             else (Inr (), r\<lparr>accounts_profiles :=
                     bt_insert (acct_profile_id md) md (accounts_profiles r)\<rparr>))"

definition accounts_get ::
  "CodexAccountProfileRegistry \<Rightarrow> CodexAccountProfileId \<Rightarrow> CodexAccountConnectionMetadata option" where
  "accounts_get r k = bt_get (accounts_profiles r) k"

definition accounts_get_connection ::
  "CodexAccountProfileRegistry \<Rightarrow> string \<Rightarrow> CodexAccountConnectionMetadata option" where
  "accounts_get_connection r connection_id =
     List.find (\<lambda>p. acct_connection_id p = connection_id) (bt_values (accounts_profiles r))"

definition accounts_transition ::
  "CodexAccountProfileId \<Rightarrow> CodexAccountProfileState \<Rightarrow> CodexAccountProfileRegistry \<Rightarrow>
   (CodexAccountProfileError, unit) result \<times> CodexAccountProfileRegistry" where
  "accounts_transition k next r =
     (case bt_get (accounts_profiles r) k of
        None \<Rightarrow> (Inl UnknownCodexAccountProfile, r)
      | Some p \<Rightarrow>
          if \<not> can_transition_to (acct_state p) next then (Inl UnsupportedStateTransition, r)
          else (Inr (), r\<lparr>accounts_profiles :=
                  bt_insert k (p\<lparr>acct_state := next\<rparr>) (accounts_profiles r)\<rparr>))"

text \<open>Loading: the outcome of reading the file and the JSON decoder are parameters.\<close>

datatype file_read = File_Bytes string | File_NotFound | File_Error

fun insert_all ::
  "CodexAccountConnectionMetadata list \<Rightarrow> CodexAccountProfileRegistry \<Rightarrow>
   (CodexAccountProfileError, CodexAccountProfileRegistry) result" where
  "insert_all [] checked = Inr checked"
| "insert_all (p # ps) checked =
     (case accounts_insert p checked of
        (Inl e, _) \<Rightarrow> Inl e
      | (Inr _, checked') \<Rightarrow> insert_all ps checked')"

definition accounts_load ::
  "(string \<Rightarrow> CodexAccountProfileRegistry option) \<Rightarrow> file_read \<Rightarrow>
   (CodexAccountProfileError, CodexAccountProfileRegistry) result" where
  "accounts_load from_slice file =
     (case file of
        File_NotFound \<Rightarrow> Inr accounts_default
      | File_Error \<Rightarrow> Inl Account_RegistryUnavailable
      | File_Bytes bytes \<Rightarrow>
          res_bind (ensure (length bytes \<le> ACCOUNT_MAX_FILE_BYTES) Account_RegistryTooLarge) (\<lambda>_.
          res_bind (ok_or (from_slice bytes) Account_RegistryMalformed) (\<lambda>registry.
          res_bind (ensure (accounts_schema_version registry = ACCOUNT_SCHEMA_VERSION)
                      Account_UnsupportedSchemaVersion) (\<lambda>_.
            insert_all (bt_values (accounts_profiles registry)) accounts_default))))"

subsection \<open>Credential envelopes\<close>

text \<open>The token fields this module reads; the remaining claims of the identity token travel
  through the codec untouched.\<close>

record TokenData =
  tok_id_token_account :: "string option"
  tok_access_token :: string
  tok_refresh_token :: string
  tok_account_id :: "string option"

datatype CodexCredentialKind = ChatgptOAuth

record CodexCredentialEnvelope =
  env_schema_version :: nat
  env_credential_kind :: CodexCredentialKind
  env_payload :: TokenData

record CodexCredentialSnapshot =
  snap_access_token :: string
  snap_account_id :: "string option"

definition envelope_serialized ::
  "(CodexCredentialEnvelope \<Rightarrow> string option) \<Rightarrow> CodexCredentialEnvelope \<Rightarrow>
   (CodexAccountProfileError, string) result" where
  "envelope_serialized to_json e =
     res_bind (ok_or (to_json e) InvalidCredentialEnvelope) (\<lambda>v.
     res_bind (ensure (length v \<le> MAX_CREDENTIAL_ENVELOPE_BYTES) CredentialEnvelopeTooLarge) (\<lambda>_.
       Inr v))"

definition envelope_from_auth ::
  "(CodexCredentialEnvelope \<Rightarrow> string option) \<Rightarrow> TokenData option \<Rightarrow>
   (CodexAccountProfileError, CodexCredentialEnvelope) result" where
  "envelope_from_auth to_json tokens =
     res_bind (ok_or tokens MissingRequiredCredentialField) (\<lambda>payload.
       if is_blank (tok_access_token payload) \<or> is_blank (tok_refresh_token payload)
       then Inl MissingRequiredCredentialField
       else let e = \<lparr>env_schema_version = CREDENTIAL_ENVELOPE_VERSION,
                     env_credential_kind = ChatgptOAuth, env_payload = payload\<rparr>
            in res_bind (envelope_serialized to_json e) (\<lambda>_. Inr e))"

definition envelope_parse ::
  "(string \<Rightarrow> CodexCredentialEnvelope option) \<Rightarrow> string \<Rightarrow>
   (CodexAccountProfileError, CodexCredentialEnvelope) result" where
  "envelope_parse from_json v =
     res_bind (ensure (length v \<le> MAX_CREDENTIAL_ENVELOPE_BYTES) CredentialEnvelopeTooLarge) (\<lambda>_.
     res_bind (ok_or (from_json v) InvalidCredentialEnvelope) (\<lambda>e.
     res_bind (ensure (env_schema_version e = CREDENTIAL_ENVELOPE_VERSION)
                 UnsupportedCredentialEnvelopeVersion) (\<lambda>_.
       if env_credential_kind e \<noteq> ChatgptOAuth
          \<or> is_blank (tok_access_token (env_payload e))
          \<or> is_blank (tok_refresh_token (env_payload e))
       then Inl MissingRequiredCredentialField
       else Inr e)))"

definition envelope_snapshot :: "CodexCredentialEnvelope \<Rightarrow> CodexCredentialSnapshot" where
  "envelope_snapshot e =
     \<lparr>snap_access_token = tok_access_token (env_payload e),
      snap_account_id = (case tok_account_id (env_payload e) of
                           Some a \<Rightarrow> Some a
                         | None \<Rightarrow> tok_id_token_account (env_payload e))\<rparr>"

text \<open>The credential store: \<open>store reference secret\<close> acts on the store's state.\<close>

datatype CredentialStoreError = Store_InvalidReference | Store_NotFound | Store_Unavailable | Store_Rejected

type_synonym 's credential_store_op = "string \<Rightarrow> string \<Rightarrow> 's \<Rightarrow> (CredentialStoreError, unit) result \<times> 's"

definition store_codex_auth ::
  "'s credential_store_op \<Rightarrow> (CodexCredentialEnvelope \<Rightarrow> string option) \<Rightarrow> string \<Rightarrow>
   TokenData option \<Rightarrow> 's \<Rightarrow> (CodexAccountProfileError, string) result \<times> 's" where
  "store_codex_auth store to_json connection_id tokens st =
     (case res_bind (credential_reference_for connection_id) (\<lambda>reference.
           res_bind (envelope_from_auth to_json tokens) (\<lambda>envelope.
           res_bind (envelope_serialized to_json envelope) (\<lambda>payload.
           res_bind (map_err (\<lambda>_. CredentialStoreRejected) (CredentialSecret_new payload)) (\<lambda>secret.
           res_bind (map_err (\<lambda>_. CredentialStoreRejected) (CredentialReference_new reference)) (\<lambda>cref.
             Inr (reference, cref, secret)))))) of
        Inl e \<Rightarrow> (Inl e, st)
      | Inr (reference, cref, secret) \<Rightarrow>
          (case store cref secret st of
             (r, st') \<Rightarrow> (res_bind (map_err (\<lambda>_. CredentialStoreRejected) r) (\<lambda>_. Inr reference), st')))"

definition retrieve_codex_envelope ::
  "(string \<Rightarrow> 's \<Rightarrow> (CredentialStoreError, string) result) \<Rightarrow>
   (string \<Rightarrow> CodexCredentialEnvelope option) \<Rightarrow> string \<Rightarrow> 's \<Rightarrow>
   (CodexAccountProfileError, CodexCredentialEnvelope) result" where
  "retrieve_codex_envelope retrieve from_json connection_id st =
     res_bind (credential_reference_for connection_id) (\<lambda>reference.
     res_bind (map_err (\<lambda>_. CredentialStoreRejected) (CredentialReference_new reference)) (\<lambda>cref.
     res_bind (map_err (\<lambda>_. CredentialStoreRejected) (retrieve cref st)) (\<lambda>secret.
       envelope_parse from_json secret)))"

section \<open>OmniRoute connections and explicit selections\<close>

definition OMNIROUTE_PROVIDER_ID :: string where "OMNIROUTE_PROVIDER_ID = ''omniroute''"
definition OPENROUTER_PROVIDER_ID :: string where "OPENROUTER_PROVIDER_ID = ''openrouter''"
definition MAX_MODEL_COUNT :: nat where "MAX_MODEL_COUNT = 512"
definition MAX_MODEL_ID_BYTES :: nat where "MAX_MODEL_ID_BYTES = 256"
definition MAX_REGISTRY_BYTES :: nat where "MAX_REGISTRY_BYTES = 256 * 1024"
definition MAX_CONNECTIONS :: nat where "MAX_CONNECTIONS = 32"

datatype OmniRouteSetupError =
  Setup_InvalidConnection | Setup_InvalidBaseUrl | Setup_RemotePlaintextRejected
  | Setup_UnsupportedAuthenticationMethod | Setup_DuplicateConnection | Setup_CredentialRejected
  | Setup_CredentialStoreUnavailable | Setup_CredentialStoreRejected | Setup_ConnectionUnavailable
  | Setup_Unauthorized | Setup_Forbidden | Setup_RateLimited | Setup_ProviderUnavailable
  | Setup_ResponseTooLarge | Setup_InvalidContentType | Setup_InvalidResponse | Setup_Cancelled
  | Setup_RequestTimedOut

datatype EndpointPolicy = HttpsOnly | LoopbackHttp

definition trim_end_slashes :: "string \<Rightarrow> string" where
  "trim_end_slashes v = rev (dropWhile (\<lambda>c. c = CHR ''/'') (rev v))"

definition url_local :: "Url \<Rightarrow> bool" where
  "url_local u \<longleftrightarrow>
     (url_host_str u = Some ''localhost'' \<or> url_host_str u = Some ''127.0.0.1'')
     \<and> (case url_port u of None \<Rightarrow> False | Some p \<Rightarrow> p \<noteq> 0)"

definition validate_base_url ::
  "url_parser \<Rightarrow> string \<Rightarrow> bool \<Rightarrow> (OmniRouteSetupError, string \<times> EndpointPolicy) result" where
  "validate_base_url parse v allow_remote_https =
     res_bind (ok_or (parse v) Setup_InvalidBaseUrl) (\<lambda>u.
       if url_username u \<noteq> [] \<or> url_password u \<noteq> None \<or> url_query u \<noteq> None \<or> url_fragment u \<noteq> None
          \<or> \<not> (url_path u = [] \<or> url_path u = ''/'')
          \<or> url_host_str u = None
          \<or> url_host_str u = Some ''0.0.0.0'' \<or> url_host_str u = Some ''::''
       then Inl Setup_InvalidBaseUrl
       else res_bind
         (if url_scheme u = ''http'' then
            (if url_local u then Inr LoopbackHttp else Inl Setup_RemotePlaintextRejected)
          else if url_scheme u = ''https'' then
            (if allow_remote_https then Inr HttpsOnly
             else if url_local u then Inr LoopbackHttp else Inl Setup_InvalidBaseUrl)
          else Inl Setup_InvalidBaseUrl) (\<lambda>policy.
         Inr (trim_end_slashes v, policy)))"

record OmniRouteConnectionMetadata =
  omni_connection_id :: string
  omni_provider_id :: string
  omni_label :: string
  omni_base_url :: string
  omni_credential_reference :: string
  omni_enabled :: bool
  omni_validation :: ConnectionValidationResult
  omni_models :: "string list"
  omni_validated_at :: "nat option"

datatype OmniRouteRegistryError =
  Omni_Unavailable | Omni_Malformed | Omni_TooLarge | Omni_TooManyConnections
  | Omni_DuplicateConnection | Omni_InvalidConnection

type_synonym OmniRouteRegistry = "(string, OmniRouteConnectionMetadata) btree_map"

definition validate_connection_metadata ::
  "url_parser \<Rightarrow> OmniRouteConnectionMetadata \<Rightarrow> (OmniRouteRegistryError, unit) result" where
  "validate_connection_metadata parse c =
     (if omni_provider_id c \<noteq> OMNIROUTE_PROVIDER_ID
         \<or> is_blank (omni_connection_id c)
         \<or> is_blank (omni_label c)
         \<or> is_blank (omni_credential_reference c)
         \<or> \<not> is_ok (validate_base_url parse (omni_base_url c) True)
         \<or> length (omni_models c) > MAX_MODEL_COUNT
         \<or> list_ex (\<lambda>model. is_blank model \<or> length model > MAX_MODEL_ID_BYTES) (omni_models c)
      then Inl Omni_InvalidConnection
      else Inr ())"

definition omni_insert ::
  "url_parser \<Rightarrow> OmniRouteConnectionMetadata \<Rightarrow> OmniRouteRegistry \<Rightarrow>
   (OmniRouteRegistryError, unit) result \<times> OmniRouteRegistry" where
  "omni_insert parse c r =
     (case res_bind (validate_connection_metadata parse c) (\<lambda>_.
           res_bind (ensure (length r < MAX_CONNECTIONS) Omni_TooManyConnections) (\<lambda>_.
             ensure (bt_get r (omni_connection_id c) = None) Omni_DuplicateConnection)) of
        Inl e \<Rightarrow> (Inl e, r)
      | Inr _ \<Rightarrow> (Inr (), bt_insert (omni_connection_id c) c r))"

definition omni_get :: "OmniRouteRegistry \<Rightarrow> string \<Rightarrow> OmniRouteConnectionMetadata option" where
  "omni_get r cid = bt_get r cid"

definition omni_validate :: "url_parser \<Rightarrow> OmniRouteRegistry \<Rightarrow> (OmniRouteRegistryError, unit) result" where
  "omni_validate parse r =
     res_bind (ensure (length r \<le> MAX_CONNECTIONS) Omni_TooManyConnections) (\<lambda>_.
       try_each (validate_connection_metadata parse) (bt_values r))"

definition omni_load ::
  "url_parser \<Rightarrow> (string \<Rightarrow> OmniRouteRegistry option) \<Rightarrow> file_read \<Rightarrow>
   (OmniRouteRegistryError, OmniRouteRegistry) result" where
  "omni_load parse from_slice file =
     (case file of
        File_NotFound \<Rightarrow> Inr []
      | File_Error \<Rightarrow> Inl Omni_Unavailable
      | File_Bytes bytes \<Rightarrow>
          res_bind (ensure (length bytes \<le> MAX_REGISTRY_BYTES) Omni_TooLarge) (\<lambda>_.
          res_bind (ok_or (from_slice bytes) Omni_Malformed) (\<lambda>registry.
          res_bind (omni_validate parse registry) (\<lambda>_. Inr registry))))"

record ProviderSelection =
  sel_connection_id :: string
  sel_provider_id :: string
  sel_model_id :: string

datatype ProviderSelectionError =
  Selection_InvalidSelection | Selection_UnsupportedProvider | Selection_ConnectionNotFound
  | Selection_ModelNotFound

definition ProviderSelection_new ::
  "string \<Rightarrow> string \<Rightarrow> string \<Rightarrow> (ProviderSelectionError, ProviderSelection) result" where
  "ProviderSelection_new cid pid mid =
     (if is_blank cid \<or> is_blank pid \<or> is_blank mid then Inl Selection_InvalidSelection
      else if pid \<notin> {OMNIROUTE_PROVIDER_ID, OPENROUTER_PROVIDER_ID, CODEX_PROVIDER_ID}
      then Inl Selection_UnsupportedProvider
      else Inr \<lparr>sel_connection_id = cid, sel_provider_id = pid, sel_model_id = mid\<rparr>)"

definition ProviderSelection_resolve ::
  "ProviderSelection \<Rightarrow> OmniRouteRegistry \<Rightarrow>
   (ProviderSelectionError, OmniRouteConnectionMetadata) result" where
  "ProviderSelection_resolve s r =
     res_bind (ok_or (omni_get r (sel_connection_id s)) Selection_ConnectionNotFound) (\<lambda>c.
       if omni_provider_id c \<noteq> sel_provider_id s then Inl Selection_UnsupportedProvider
       else if sel_model_id s \<notin> set (omni_models c) then Inl Selection_ModelNotFound
       else Inr c)"

text \<open>Parsing a model catalogue: the decoded list of identifiers is deduplicated, bounded and
  sorted.\<close>

datatype OmniRouteModelCatalogError =
  Catalog_ConnectionUnavailable | Catalog_RequestTimedOut | Catalog_Cancelled
  | Catalog_Unauthorized | Catalog_Forbidden | Catalog_RateLimited | Catalog_ProviderUnavailable
  | Catalog_ResponseTooLarge | Catalog_InvalidContentType | Catalog_InvalidResponse
  | Catalog_TooManyModels | Catalog_InvalidModelId

fun catalog_loop ::
  "string list \<Rightarrow> string list \<Rightarrow> (OmniRouteModelCatalogError, string list) result" where
  "catalog_loop [] models = Inr models"
| "catalog_loop (m # ms) models =
     (if is_blank m \<or> length m > MAX_MODEL_ID_BYTES then Inl Catalog_InvalidModelId
      else let models' = (if m \<in> set models then models else models @ [m])
           in if length models' > MAX_MODEL_COUNT then Inl Catalog_TooManyModels
              else catalog_loop ms models')"

definition parse_model_catalog ::
  "(string \<Rightarrow> string list option) \<Rightarrow> string \<Rightarrow> (OmniRouteModelCatalogError, string list) result" where
  "parse_model_catalog from_slice body =
     res_bind (ok_or (from_slice body) Catalog_InvalidResponse) (\<lambda>ids.
     res_bind (catalog_loop ids []) (\<lambda>models. Inr (sort models)))"

section \<open>The account registry's invariant\<close>

text \<open>Every stored profile sits under its own identifier and passed the checks of \<open>insert\<close>;
  connection identifiers are unique and the registry is bounded.\<close>

definition account_ok :: "CodexAccountConnectionMetadata \<Rightarrow> bool" where
  "account_ok p \<longleftrightarrow>
     valid_slug ACCOUNT_MAX_ID_BYTES (acct_connection_id p)
     \<and> acct_schema_version p = ACCOUNT_SCHEMA_VERSION
     \<and> acct_provider_id p = CODEX_PROVIDER_ID
     \<and> acct_credential_reference p = reference_prefix @ acct_connection_id p
     \<and> bounded_nonblank ACCOUNT_MAX_LABEL_BYTES (acct_label p)"

definition accounts_inv :: "CodexAccountProfileRegistry \<Rightarrow> bool" where
  "accounts_inv r \<longleftrightarrow>
     bt_wf (accounts_profiles r)
     \<and> accounts_schema_version r = ACCOUNT_SCHEMA_VERSION
     \<and> length (accounts_profiles r) \<le> ACCOUNT_MAX_PROFILES
     \<and> (\<forall>(k, p) \<in> set (accounts_profiles r). k = acct_profile_id p \<and> account_ok p)
     \<and> distinct (map (\<lambda>(k, p). acct_connection_id p) (accounts_profiles r))"

lemma reference_not_blank: "\<not> is_blank (reference_prefix @ s)" if "valid_slug n s"
proof (rule not_blank_if_ident)
  show "\<forall>c \<in> set (reference_prefix @ s). ident_char c"
    using that by (auto simp: reference_prefix_def valid_slug_def list_all_iff slug_char_ident)
      (simp_all add: ident_char_def is_ascii_alphanumeric_def)
qed (simp add: reference_prefix_def)

lemma credential_reference_for_iff:
  "credential_reference_for c = Inr x \<longleftrightarrow> valid_slug ACCOUNT_MAX_ID_BYTES c \<and> x = reference_prefix @ c"
  by (auto simp: credential_reference_for_def result_simps codex_account_id.new_iff)

lemma account_check_iff: "account_check md = Inr u \<longleftrightarrow> account_ok md"
proof
  assume "account_check md = Inr u"
  then show "account_ok md"
    unfolding account_check_def account_ok_def bounded_nonblank_def
    by (simp add: result_simps codex_account_id.new_iff credential_reference_for_iff split: if_splits)
next
  assume ok: "account_ok md"
  then have v: "valid_slug ACCOUNT_MAX_ID_BYTES (acct_connection_id md)" by (simp add: account_ok_def)
  then have "CodexAccountProfileId_new (acct_connection_id md) = Inr (acct_connection_id md)"
    "credential_reference_for (acct_connection_id md) = Inr (reference_prefix @ acct_connection_id md)"
    by (simp_all add: codex_account_id.new_iff credential_reference_for_iff)
  with ok v show "account_check md = Inr u"
    by (simp add: account_check_def account_ok_def bounded_nonblank_def valid_slug_not_blank
        reference_not_blank)
qed

text \<open>When an insertion is accepted, and what it does.\<close>

lemma accounts_insert_ok_iff:
  "accounts_insert md r = (Inr u, r') \<longleftrightarrow>
     account_ok md
     \<and> bt_get (accounts_profiles r) (acct_profile_id md) = None
     \<and> (\<forall>p \<in> set (bt_values (accounts_profiles r)). acct_connection_id p \<noteq> acct_connection_id md)
     \<and> (\<forall>p \<in> set (bt_values (accounts_profiles r)).
          acct_credential_reference p \<noteq> acct_credential_reference md)
     \<and> length (accounts_profiles r) < ACCOUNT_MAX_PROFILES
     \<and> r' = r\<lparr>accounts_profiles := bt_insert (acct_profile_id md) md (accounts_profiles r)\<rparr>"
  using account_check_iff [of md]
  by (cases "account_check md") (auto simp: accounts_insert_def Let_def list_ex_iff)

lemma accounts_insert_err: "accounts_insert md r = (Inl e, r') \<Longrightarrow> r' = r"
  by (auto simp: accounts_insert_def Let_def split: sum.splits if_splits)

lemma accounts_inv_default: "accounts_inv accounts_default"
  by (simp add: accounts_inv_def accounts_default_def)

lemma distinct_bt_insert:
  "distinct (map (\<lambda>(k, p). f p) m) \<Longrightarrow> \<forall>p \<in> set (bt_values m). f p \<noteq> f v \<Longrightarrow>
   distinct (map (\<lambda>(k, p). f p) (bt_insert k v m))"
  by (induction k v m rule: bt_insert.induct)
    (auto simp: bt_values_def dest!: set_bt_insert_subset [THEN subsetD])

lemma accounts_inv_insert: "accounts_inv r \<Longrightarrow> accounts_inv (snd (accounts_insert md r))"
proof (cases "accounts_insert md r" rule: outcome_cases)
  case (Err e s')
  assume "accounts_inv r"
  with Err show ?thesis using accounts_insert_err by fastforce
next
  case (Ok v s')
  assume i: "accounts_inv r"
  from Ok have ok: "account_ok md"
    and s': "s' = r\<lparr>accounts_profiles := bt_insert (acct_profile_id md) md (accounts_profiles r)\<rparr>"
    and fresh: "\<forall>p \<in> set (bt_values (accounts_profiles r)). acct_connection_id p \<noteq> acct_connection_id md"
    and len: "length (accounts_profiles r) < ACCOUNT_MAX_PROFILES"
    by (auto simp: accounts_insert_ok_iff)
  have "length (bt_insert (acct_profile_id md) md (accounts_profiles r)) \<le> ACCOUNT_MAX_PROFILES"
    using length_bt_insert_le [of "acct_profile_id md" md "accounts_profiles r"] len by simp
  moreover have "distinct (map (\<lambda>(k, p). acct_connection_id p)
      (bt_insert (acct_profile_id md) md (accounts_profiles r)))"
    using i fresh by (intro distinct_bt_insert) (auto simp: accounts_inv_def)
  ultimately show ?thesis
    using i ok Ok s' set_bt_insert_subset [of "acct_profile_id md" md "accounts_profiles r"]
    by (auto simp: accounts_inv_def)
qed

lemma map_bt_update:
  "bt_wf m \<Longrightarrow> bt_get m k = Some p \<Longrightarrow> f q = f p \<Longrightarrow>
   map (\<lambda>(k, p). f p) (bt_insert k q m) = map (\<lambda>(k, p). f p) m"
proof (induction k q m rule: bt_insert.induct)
  case (2 k v a b m)
  have "\<not> k < a" if "bt_get m k = Some p"
    using bt_get_in_set [OF that] "2.prems"(1) by force
  then show ?case using 2 by (auto split: if_splits)
qed simp

lemma accounts_inv_transition: "accounts_inv r \<Longrightarrow> accounts_inv (snd (accounts_transition k n r))"
proof (cases "bt_get (accounts_profiles r) k")
  case None
  assume "accounts_inv r"
  with None show ?thesis by (simp add: accounts_transition_def)
next
  case (Some p)
  assume i: "accounts_inv r"
  let ?q = "p\<lparr>acct_state := n\<rparr>"
  have kp: "(k, p) \<in> set (accounts_profiles r)" using Some by (rule bt_get_in_set)
  then have "k = acct_profile_id p" "account_ok p" using i by (auto simp: accounts_inv_def)
  then have q: "k = acct_profile_id ?q" "account_ok ?q" by (simp_all add: account_ok_def)
  have wf: "bt_wf (accounts_profiles r)" using i by (simp add: accounts_inv_def)
  have len: "length (bt_insert k ?q (accounts_profiles r)) = length (accounts_profiles r)"
    using Some wf by (simp add: length_bt_insert)
  have "map (\<lambda>(k, p). acct_connection_id p) (bt_insert k ?q (accounts_profiles r))
      = map (\<lambda>(k, p). acct_connection_id p) (accounts_profiles r)"
    using wf Some by (rule map_bt_update) simp
  then show ?thesis
    using i q Some len set_bt_insert_subset [of k ?q "accounts_profiles r"]
    by (auto simp: accounts_transition_def accounts_inv_def)
qed

text \<open>The registry as a component: its two mutators in any order.\<close>

datatype accounts_op =
  Op_Insert CodexAccountConnectionMetadata
| Op_Transition CodexAccountProfileId CodexAccountProfileState

fun accounts_apply :: "CodexAccountProfileRegistry \<Rightarrow> accounts_op \<Rightarrow> CodexAccountProfileRegistry" where
  "accounts_apply r (Op_Insert md) = snd (accounts_insert md r)"
| "accounts_apply r (Op_Transition k n) = snd (accounts_transition k n r)"

interpretation accounts: transition_system accounts_apply "\<lambda>r. r = accounts_default" accounts_inv
proof
  fix r op
  show "accounts_inv r \<Longrightarrow> accounts_inv (accounts_apply r op)"
    by (cases op) (simp_all add: accounts_inv_insert accounts_inv_transition)
qed (simp add: accounts_inv_default)

lemma accounts_get_connection_iff:
  assumes "accounts_inv r"
  shows "accounts_get_connection r c = Some p \<longleftrightarrow>
     accounts_get r (acct_profile_id p) = Some p \<and> acct_connection_id p = c"
proof -
  have wf: "bt_wf (accounts_profiles r)" using assms by (simp add: accounts_inv_def)
  have "q = p" if "(acct_profile_id q, q) \<in> set (accounts_profiles r)"
    "(acct_profile_id p, p) \<in> set (accounts_profiles r)" "acct_connection_id q = acct_connection_id p" for q
  proof -
    have "inj_on (\<lambda>(k, p). acct_connection_id p) (set (accounts_profiles r))"
      using assms by (simp add: accounts_inv_def distinct_map)
    from inj_onD [OF this _ that(1,2)] that(3) show ?thesis by simp
  qed
  moreover have "\<And>q. q \<in> set (bt_values (accounts_profiles r)) \<longleftrightarrow>
      (acct_profile_id q, q) \<in> set (accounts_profiles r)"
    using assms by (force simp: accounts_inv_def bt_values_def)
  ultimately show ?thesis
    unfolding accounts_get_connection_def accounts_get_def bt_get_iff_set [OF wf]
    by (metis (mono_tags, lifting) find_Some_set find_exists option.inject)
qed

text \<open>Re-inserting the stored profiles in key order rebuilds the registry.\<close>

lemma insert_all_append:
  "accounts_inv r \<Longrightarrow> accounts_profiles r = m \<Longrightarrow>
   accounts_inv (r\<lparr>accounts_profiles := m @ n\<rparr>) \<Longrightarrow>
   insert_all (bt_values n) r = Inr (r\<lparr>accounts_profiles := m @ n\<rparr>)"
proof (induction n arbitrary: r m)
  case Nil
  then show ?case by (simp add: bt_values_def)
next
  case (Cons e n)
  obtain k p where e: "e = (k, p)" by (cases e)
  let ?r' = "r\<lparr>accounts_profiles := m @ [(k, p)]\<rparr>"
  have full: "accounts_inv (r\<lparr>accounts_profiles := m @ (k, p) # n\<rparr>)" using Cons.prems e by simp
  then have kp: "k = acct_profile_id p" "account_ok p"
    and len: "length m < ACCOUNT_MAX_PROFILES"
    and below: "\<And>j. j \<in> fst ` set m \<Longrightarrow> j < k"
    and fresh: "\<forall>q \<in> set (bt_values m). acct_connection_id q \<noteq> acct_connection_id p"
    by (auto simp: accounts_inv_def bt_wf_def sorted_wrt_append bt_values_def image_iff)
  have "bt_get m k = None" using below by (force simp: bt_get_None_iff)
  moreover have "\<forall>q \<in> set (bt_values m). acct_credential_reference q \<noteq> acct_credential_reference p"
    using Cons.prems(1,2) fresh kp by (fastforce simp: accounts_inv_def bt_values_def account_ok_def)
  ultimately have "accounts_insert p r = (Inr (), ?r')"
    using kp len fresh below Cons.prems(2) by (simp add: accounts_insert_ok_iff bt_insert_last)
  moreover have "accounts_inv ?r'"
    using accounts_inv_insert [OF Cons.prems(1), of p] calculation by simp
  ultimately show ?case
    using Cons.IH [of ?r' "m @ [(k, p)]"] full e by (simp add: bt_values_def)
qed

lemma insert_all_inv: "accounts_inv r \<Longrightarrow> insert_all ps r = Inr r' \<Longrightarrow> accounts_inv r'"
proof (induction ps arbitrary: r)
  case (Cons p ps)
  then show ?case using accounts_inv_insert [OF Cons.prems(1), of p]
    by (auto split: prod.splits sum.splits)
qed simp

lemma insert_all_rebuild: "accounts_inv r \<Longrightarrow> insert_all (bt_values (accounts_profiles r)) accounts_default = Inr r"
  using insert_all_append [of accounts_default "[]" "accounts_profiles r"]
  by (cases r) (simp add: accounts_inv_default accounts_default_def accounts_inv_def)

lemma accounts_inv_entry:
  "accounts_inv r \<Longrightarrow> accounts_get r k = Some p \<Longrightarrow> k = acct_profile_id p \<and> account_ok p"
  by (auto simp: accounts_inv_def accounts_get_def dest!: bt_get_in_set)

lemma accounts_inv_unique_reference:
  assumes "accounts_inv r" "accounts_get r j = Some p" "accounts_get r k = Some q"
    "acct_credential_reference p = acct_credential_reference q"
  shows "j = k"
proof -
  have "j = acct_profile_id p" "k = acct_profile_id q" "acct_connection_id p = acct_connection_id q"
    using accounts_inv_entry [OF assms(1,2)] accounts_inv_entry [OF assms(1,3)] assms(4)
    by (simp_all add: account_ok_def)
  then show ?thesis
    using accounts_get_connection_iff [OF assms(1)] assms(2,3) by (metis option.inject)
qed

section \<open>Credentials and references\<close>

lemma length_reference_prefix [simp]: "length reference_prefix = 14"
  by (simp add: reference_prefix_def)

lemma CredentialReference_new_prefixed:
  "valid_slug n c \<Longrightarrow> CredentialReference_new (reference_prefix @ c) =
     (if length c \<le> 114 then Inr (reference_prefix @ c) else Inl Conn_CredentialReferenceTooLong)"
  by (simp add: CredentialReference_new_def bounded_text_new_def reference_not_blank
      MAX_IDENTIFIER_BYTES_def)

section \<open>Endpoints and catalogues\<close>

lemma validate_base_url_ok:
  assumes "validate_base_url parse v a = Inr x"
  obtains u where "parse v = Some u"
    "url_scheme u = ''https'' \<or> url_scheme u = ''http'' \<and> url_local u"
    "url_username u = []" "url_password u = None" "url_query u = None" "url_fragment u = None"
  using assms unfolding validate_base_url_def
  by (cases "parse v") (simp_all add: result_simps split: if_splits)

lemma omni_validated_entries:
  assumes "\<forall>c \<in> set (bt_values r). validate_connection_metadata parse c = Inr ()"
  shows "\<forall>c \<in> set (bt_values (foldl (\<lambda>r c. snd (omni_insert parse c r)) r cs)).
     validate_connection_metadata parse c = Inr ()"
  using assms
proof (induction cs arbitrary: r)
  case (Cons c cs)
  have "\<forall>d \<in> set (bt_values (snd (omni_insert parse c r))). validate_connection_metadata parse d = Inr ()"
    using Cons.prems set_bt_insert_subset [of "omni_connection_id c" c r]
    by (cases "validate_connection_metadata parse c")
      (auto simp: omni_insert_def bt_values_def ensure_def split: if_splits)
  then show ?case using Cons.IH by simp
qed simp

lemma omni_insert_length:
  "length r \<le> MAX_CONNECTIONS \<Longrightarrow> length (foldl (\<lambda>r c. snd (omni_insert parse c r)) r cs) \<le> MAX_CONNECTIONS"
proof (induction cs arbitrary: r)
  case (Cons c cs)
  have "length (snd (omni_insert parse c r)) \<le> MAX_CONNECTIONS"
    using Cons.prems length_bt_insert_le [of "omni_connection_id c" c r]
    by (cases "validate_connection_metadata parse c")
      (auto simp: omni_insert_def ensure_def split: if_splits)
  then show ?case using Cons.IH by simp
qed simp

lemma sort_distinct_set: "distinct xs \<Longrightarrow> set xs = S \<Longrightarrow> sort xs = sorted_list_of_set S"
  by (metis sorted_list_of_set_sort_remdups distinct_remdups_id)

definition model_id_ok :: "string \<Rightarrow> bool" where
  "model_id_ok m \<longleftrightarrow> bounded_nonblank MAX_MODEL_ID_BYTES m"

text \<open>The loop keeps the identifiers seen so far without repetition and fails exactly when an
  identifier is malformed or too many distinct ones have been seen.\<close>

lemma catalog_loop_iff:
  "distinct models \<Longrightarrow> length models \<le> MAX_MODEL_COUNT \<Longrightarrow>
   catalog_loop ms models = Inr out \<Longrightarrow>
     distinct out \<and> set out = set models \<union> set ms \<and> (\<forall>m \<in> set ms. model_id_ok m)
     \<and> length out \<le> MAX_MODEL_COUNT"
  by (induction ms models rule: catalog_loop.induct)
    (auto simp: Let_def model_id_ok_def bounded_nonblank_def split: if_splits)

lemma catalog_loop_total:
  "distinct models \<Longrightarrow> \<forall>m \<in> set ms. model_id_ok m \<Longrightarrow>
   card (set models \<union> set ms) \<le> MAX_MODEL_COUNT \<Longrightarrow> \<exists>out. catalog_loop ms models = Inr out"
proof (induction ms models rule: catalog_loop.induct)
  case (2 m ms models)
  let ?models' = "if m \<in> set models then models else models @ [m]"
  have d: "distinct ?models'" using "2.prems"(1) by simp
  have u: "set ?models' \<union> set ms = set models \<union> set (m # ms)" by auto
  have "length ?models' = card (set ?models')" using d by (simp only: distinct_card)
  also have "\<dots> \<le> card (set ?models' \<union> set ms)" by (intro card_mono) auto
  finally have "length ?models' \<le> MAX_MODEL_COUNT" using "2.prems"(3) by (simp only: u)
  then show ?case
    using "2.IH" [OF _ refl] "2.prems" d u
    by (auto simp: model_id_ok_def bounded_nonblank_def Let_def simp del: set_append)
qed simp

section \<open>Properties\<close>

definition demo_account :: CodexAccountConnectionMetadata where
  "demo_account =
     \<lparr>acct_connection_id = ''work'', acct_profile_id = ''p1'', acct_provider_id = ''codex'',
      acct_label = ''Work'', acct_state = AuthenticationPending, acct_account_email = None,
      acct_account_id = None, acct_plan_label = None, acct_enabled = True,
      acct_validation = Status_Valid, acct_last_authenticated_at = None,
      acct_last_validated_at = None, acct_credential_reference = ''codex-account-work'',
      acct_schema_version = 1\<rparr>"

text \<open>C38: After any sequence of insertions and state transitions on a fresh account registry, at most
  32 profiles are stored, each under its own identifier with the credential reference derived
  from its connection; two profiles never share a credential reference, and looking a profile up
  by connection identifier agrees with looking it up by profile identifier.\<close>

theorem account_registry_invariant:
  fixes ops :: "accounts_op list"
  defines "r \<equiv> foldl accounts_apply accounts_default ops"
  shows "length (accounts_profiles r) \<le> ACCOUNT_MAX_PROFILES
    \<and> (\<forall>k p. accounts_get r k = Some p \<longrightarrow>
         k = acct_profile_id p \<and> acct_provider_id p = CODEX_PROVIDER_ID
         \<and> credential_reference_for (acct_connection_id p) = Inr (acct_credential_reference p))
    \<and> (\<forall>j k p q. accounts_get r j = Some p \<and> accounts_get r k = Some q
         \<and> acct_credential_reference p = acct_credential_reference q \<longrightarrow> j = k)
    \<and> (\<forall>c p. accounts_get_connection r c = Some p \<longleftrightarrow>
         accounts_get r (acct_profile_id p) = Some p \<and> acct_connection_id p = c)"
proof (intro conjI)
  have i: "accounts_inv r" unfolding r_def by (rule accounts.inv_run) simp
  then show "length (accounts_profiles r) \<le> ACCOUNT_MAX_PROFILES" by (simp add: accounts_inv_def)
  show "\<forall>k p. accounts_get r k = Some p \<longrightarrow>
         k = acct_profile_id p \<and> acct_provider_id p = CODEX_PROVIDER_ID
         \<and> credential_reference_for (acct_connection_id p) = Inr (acct_credential_reference p)"
    using accounts_inv_entry [OF i] by (simp add: credential_reference_for_iff account_ok_def)
  show "\<forall>j k p q. accounts_get r j = Some p \<and> accounts_get r k = Some q
         \<and> acct_credential_reference p = acct_credential_reference q \<longrightarrow> j = k"
    using accounts_inv_unique_reference [OF i] by blast
  show "\<forall>c p. accounts_get_connection r c = Some p \<longleftrightarrow>
         accounts_get r (acct_profile_id p) = Some p \<and> acct_connection_id p = c"
    using accounts_get_connection_iff [OF i] by blast
qed

lemma demo_account_stored:
  "accounts_get (foldl accounts_apply accounts_default [Op_Insert demo_account]) ''p1'' = Some demo_account"
  by code_simp

theorem account_registry_invariant_witness:
  "\<exists>p. accounts_get (foldl accounts_apply accounts_default [Op_Insert demo_account]) ''p1'' = Some p
     \<and> credential_reference_for (acct_connection_id p) = Inr (acct_credential_reference p)"
  using account_registry_invariant [of "[Op_Insert demo_account]"] demo_account_stored by blast



text \<open>Storing Codex credentials under a connection and retrieving them returns the stored
  envelope, for every connection identifier of at most 114 bytes, given a JSON codec that
  round-trips the envelope and a credential store that returns what was last stored under a
  reference. For the longer identifiers that the account registry also accepts (115 to 128
  bytes) the derived reference exceeds the reference bound: both calls fail and the store is
  left untouched.\<close>

theorem codex_auth_store_retrieve:
  fixes store :: "'s credential_store_op"
  assumes slug: "valid_slug ACCOUNT_MAX_ID_BYTES c"
    and envelope: "envelope_from_auth to_json (Some payload) = Inr e"
    and encoded: "to_json e = Some v" "from_json v = Some e" "\<not> is_blank v"
    and stored: "\<And>ref secret. \<exists>st'. store ref secret st = (Inr (), st') \<and> retrieve ref st' = Inr secret"
  shows "if length c \<le> 114
    then \<exists>st'. store_codex_auth store to_json c (Some payload) st = (Inr (reference_prefix @ c), st')
           \<and> retrieve_codex_envelope retrieve from_json c st' = Inr e
    else store_codex_auth store to_json c (Some payload) st = (Inl CredentialStoreRejected, st)
           \<and> retrieve_codex_envelope retrieve from_json c st = Inl CredentialStoreRejected"
proof -
  have ref: "credential_reference_for c = Inr (reference_prefix @ c)"
    using slug by (simp add: credential_reference_for_iff)
  have fields: "env_schema_version e = CREDENTIAL_ENVELOPE_VERSION"
    "\<not> is_blank (tok_access_token (env_payload e))" "\<not> is_blank (tok_refresh_token (env_payload e))"
    and ser: "envelope_serialized to_json e = Inr v" and len: "length v \<le> MAX_CREDENTIAL_ENVELOPE_BYTES"
    using envelope encoded(1)
    by (auto simp: envelope_from_auth_def envelope_serialized_def result_simps Let_def split: if_splits)
  have secret: "CredentialSecret_new v = Inr v"
    using encoded(3) len
    by (simp add: CredentialSecret_new_def bounded_text_new_def MAX_SECRET_BYTES_def
        MAX_CREDENTIAL_ENVELOPE_BYTES_def)
  have parsed: "envelope_parse from_json v = Inr e"
    using encoded(2) len fields by (cases "env_credential_kind e") (simp add: envelope_parse_def)
  obtain st' where "store (reference_prefix @ c) v st = (Inr (), st')"
    "retrieve (reference_prefix @ c) st' = Inr v"
    using stored by blast
  then show ?thesis
    by (simp add: store_codex_auth_def retrieve_codex_envelope_def ref ser secret envelope parsed
        CredentialReference_new_prefixed [OF slug])
qed

definition demo_tokens :: TokenData where
  "demo_tokens = \<lparr>tok_id_token_account = None, tok_access_token = ''at'', tok_refresh_token = ''rt'',
     tok_account_id = Some ''acc''\<rparr>"

definition demo_envelope :: CodexCredentialEnvelope where
  "demo_envelope = \<lparr>env_schema_version = 1, env_credential_kind = ChatgptOAuth, env_payload = demo_tokens\<rparr>"

definition demo_store :: "(string \<rightharpoonup> string) credential_store_op" where
  "demo_store ref secret st = (Inr (), st(ref \<mapsto> secret))"

definition demo_retrieve :: "string \<Rightarrow> (string \<rightharpoonup> string) \<Rightarrow> (CredentialStoreError, string) result" where
  "demo_retrieve ref st = ok_or (st ref) Store_NotFound"

theorem codex_auth_store_retrieve_witness:
  "(\<exists>st'. store_codex_auth demo_store (\<lambda>_. Some ''{}'') ''work'' (Some demo_tokens) Map.empty
        = (Inr (reference_prefix @ ''work''), st')
      \<and> retrieve_codex_envelope demo_retrieve (\<lambda>_. Some demo_envelope) ''work'' st' = Inr demo_envelope)
   \<and> store_codex_auth demo_store (\<lambda>_. Some ''{}'') (replicate 120 CHR ''a'') (Some demo_tokens) Map.empty
        = (Inl CredentialStoreRejected, Map.empty)"
proof (intro conjI)
  have e: "envelope_from_auth (\<lambda>_. Some ''{}'') (Some demo_tokens) = Inr demo_envelope" by code_simp
  have b: "\<not> is_blank ''{}''" by code_simp
  have s: "\<exists>st'. demo_store ref secret Map.empty = (Inr (), st') \<and> demo_retrieve ref st' = Inr secret"
    for ref secret by (simp add: demo_store_def demo_retrieve_def)
  have v: "valid_slug ACCOUNT_MAX_ID_BYTES ''work''" by code_simp
  show "\<exists>st'. store_codex_auth demo_store (\<lambda>_. Some ''{}'') ''work'' (Some demo_tokens) Map.empty
        = (Inr (reference_prefix @ ''work''), st')
      \<and> retrieve_codex_envelope demo_retrieve (\<lambda>_. Some demo_envelope) ''work'' st' = Inr demo_envelope"
    using codex_auth_store_retrieve [where from_json = "\<lambda>_. Some demo_envelope" and to_json = "\<lambda>_. Some ''{}''"
        and store = demo_store and retrieve = demo_retrieve and st = Map.empty, OF v e refl refl b s]
    by simp
  have w: "valid_slug ACCOUNT_MAX_ID_BYTES (replicate 120 CHR ''a'')"
    by (simp add: valid_slug_def ACCOUNT_MAX_ID_BYTES_def list_all_iff slug_char_def
        is_ascii_alphanumeric_def)
  show "store_codex_auth demo_store (\<lambda>_. Some ''{}'') (replicate 120 CHR ''a'') (Some demo_tokens) Map.empty
        = (Inl CredentialStoreRejected, Map.empty)"
    using codex_auth_store_retrieve [where from_json = "\<lambda>_. Some demo_envelope" and to_json = "\<lambda>_. Some ''{}''"
        and store = demo_store and retrieve = demo_retrieve and st = Map.empty, OF w e refl refl b s]
    by simp
qed

text \<open>C40: No provider key is ever sent in clear text to a remote host: every connection that a
  successful load or any later insertion put into the OmniRoute registry has a base URL without
  embedded credentials whose scheme is https, or http on the loopback host with an explicit
  non-zero port; and the registry never exceeds 32 connections.\<close>

theorem omniroute_registry_endpoints_safe:
  assumes "omni_load parse dec contents = Inr r0"
    and "r = foldl (\<lambda>r c. snd (omni_insert parse c r)) r0 cs"
  shows "length r \<le> MAX_CONNECTIONS \<and> (\<forall>k c. omni_get r k = Some c \<longrightarrow>
    omni_provider_id c = OMNIROUTE_PROVIDER_ID
    \<and> (\<exists>u. parse (omni_base_url c) = Some u \<and> url_username u = [] \<and> url_password u = None
         \<and> url_query u = None \<and> (url_scheme u = ''https'' \<or> url_scheme u = ''http'' \<and> url_local u)))"
proof (intro conjI allI impI)
  have r0: "length r0 \<le> MAX_CONNECTIONS"
    "\<forall>c \<in> set (bt_values r0). validate_connection_metadata parse c = Inr ()"
    using assms(1) by (cases contents; auto simp: omni_load_def omni_validate_def result_simps bt_values_def)+
  then show "length r \<le> MAX_CONNECTIONS" using assms(2) by (simp add: omni_insert_length)
  fix k c
  assume "omni_get r k = Some c"
  then have "c \<in> set (bt_values r)"
    by (force simp: omni_get_def bt_values_def dest: bt_get_in_set)
  then have v: "validate_connection_metadata parse c = Inr ()"
    using omni_validated_entries [OF r0(2)] assms(2) by simp
  then show "omni_provider_id c = OMNIROUTE_PROVIDER_ID"
    by (simp add: validate_connection_metadata_def split: if_splits)
  from v have "is_ok (validate_base_url parse (omni_base_url c) True)"
    by (simp add: validate_connection_metadata_def split: if_splits)
  then obtain x where "validate_base_url parse (omni_base_url c) True = Inr x" by (auto simp: is_ok_iff)
  then show "\<exists>u. parse (omni_base_url c) = Some u \<and> url_username u = [] \<and> url_password u = None
         \<and> url_query u = None \<and> (url_scheme u = ''https'' \<or> url_scheme u = ''http'' \<and> url_local u)"
    by (rule validate_base_url_ok) blast
qed

definition demo_url :: Url where
  "demo_url = \<lparr>url_scheme = ''http'', url_host_str = Some ''localhost'', url_port = Some 20128,
     url_username = [], url_password = None, url_path = ''/'', url_query = None, url_fragment = None\<rparr>"

definition demo_omni :: OmniRouteConnectionMetadata where
  "demo_omni = \<lparr>omni_connection_id = ''local'', omni_provider_id = ''omniroute'', omni_label = ''Local'',
     omni_base_url = ''http://localhost:20128'', omni_credential_reference = ''ref'',
     omni_enabled = True, omni_validation = validation_valid, omni_models = [''m1''],
     omni_validated_at = None\<rparr>"

theorem omniroute_registry_endpoints_safe_witness:
  "omni_get (snd (omni_insert (\<lambda>_. Some demo_url) demo_omni [])) ''local'' = Some demo_omni
   \<and> omni_provider_id demo_omni = OMNIROUTE_PROVIDER_ID"
proof -
  have l: "omni_load (\<lambda>_. Some demo_url) (\<lambda>_. None) File_NotFound = Inr []"
    by (simp add: omni_load_def)
  have "omni_get (snd (omni_insert (\<lambda>_. Some demo_url) demo_omni [])) ''local'' = Some demo_omni"
    by code_simp
  then show ?thesis
    using omniroute_registry_endpoints_safe [OF l, of _ "[demo_omni]"] by simp
qed

text \<open>Parsing a model catalogue succeeds exactly when the body decodes, every identifier is
  non-blank and at most 256 bytes long and at most 512 of them are distinct; it then returns the
  distinct identifiers in ascending order.\<close>

theorem parse_model_catalog_spec:
  "parse_model_catalog dec body = Inr models \<longleftrightarrow>
     (\<exists>ids. dec body = Some ids \<and> (\<forall>m \<in> set ids. model_id_ok m)
        \<and> card (set ids) \<le> MAX_MODEL_COUNT \<and> models = sorted_list_of_set (set ids))"
proof
  assume "parse_model_catalog dec body = Inr models"
  then obtain ids out where d: "dec body = Some ids" "catalog_loop ids [] = Inr out" "models = sort out"
    by (auto simp: parse_model_catalog_def result_simps)
  then have "distinct out" "set out = set ids" "\<forall>m \<in> set ids. model_id_ok m"
    "length out \<le> MAX_MODEL_COUNT"
    using catalog_loop_iff [of "[]" ids out] by simp_all
  then have "card (set ids) \<le> MAX_MODEL_COUNT" "models = sorted_list_of_set (set ids)"
    "\<forall>m \<in> set ids. model_id_ok m"
    using d(3) sort_distinct_set distinct_card by metis+
  with d show "\<exists>ids. dec body = Some ids \<and> (\<forall>m \<in> set ids. model_id_ok m)
        \<and> card (set ids) \<le> MAX_MODEL_COUNT \<and> models = sorted_list_of_set (set ids)" by blast
next
  assume "\<exists>ids. dec body = Some ids \<and> (\<forall>m \<in> set ids. model_id_ok m)
        \<and> card (set ids) \<le> MAX_MODEL_COUNT \<and> models = sorted_list_of_set (set ids)"
  then obtain ids where i: "dec body = Some ids" "\<forall>m \<in> set ids. model_id_ok m"
    "card (set ids) \<le> MAX_MODEL_COUNT" "models = sorted_list_of_set (set ids)" by blast
  then obtain out where o: "catalog_loop ids [] = Inr out"
    using catalog_loop_total [of "[]" ids] by auto
  then have "distinct out" "set out = set ids" using catalog_loop_iff [of "[]" ids out] by simp_all
  then have "sort out = sorted_list_of_set (set ids)"
    by (rule sort_distinct_set)
  then show "parse_model_catalog dec body = Inr models"
    using i o by (simp add: parse_model_catalog_def)
qed

theorem parse_model_catalog_spec_witness:
  "parse_model_catalog (\<lambda>_. Some [''b'', ''a'', ''b'']) ''body'' = Inr [''a'', ''b'']
   \<and> (\<exists>ids. Some [''b'', ''a'', ''b''] = Some ids \<and> [''a'', ''b''] = sorted_list_of_set (set ids))"
proof -
  have "parse_model_catalog (\<lambda>_. Some [''b'', ''a'', ''b'']) ''body'' = Inr [''a'', ''b'']"
    by code_simp
  then show ?thesis
    using parse_model_catalog_spec [of "\<lambda>_. Some [''b'', ''a'', ''b'']" "''body''" "[''a'', ''b'']"]
    by blast
qed

end
