(* ===== verification/Account_Pools.thy ===== *)
theory Account_Pools
  imports Provider_Accounts
begin

text \<open>
  Named pools of provider identities (\<open>account_pools.rs\<close>): structural validation, the pool
  registry, resolution of the explicitly selected member, readiness reports and the versioned
  file format. The registry is a transition system; its file format is a round trip.
\<close>

section \<open>Data\<close>

type_synonym PoolId = string
type_synonym PoolMemberId = string

datatype AccountPoolError =
  InvalidPoolId | InvalidMemberId | InvalidDisplayName | InvalidAccountProfileId
  | InvalidConnectionId | DuplicatePoolId | DuplicateMemberId | EmptyPool | TooManyPools
  | TooManyMembers | ProviderFamilyMismatch | Pool_SelectedMemberNotInPool
  | Pool_RegistryUnavailable | Pool_RegistryMalformed | Pool_RegistryTooLarge
  | Pool_UnsupportedSchemaVersion | Pool_AtomicWriteFailed

definition MAX_ACCOUNT_POOL_FILE_BYTES :: nat where "MAX_ACCOUNT_POOL_FILE_BYTES = 256 * 1024"
definition POOL_SCHEMA_VERSION :: nat where "POOL_SCHEMA_VERSION = 2"
definition POOL_LEGACY_SCHEMA_VERSION :: nat where "POOL_LEGACY_SCHEMA_VERSION = 1"
definition MAX_POOLS :: nat where "MAX_POOLS = 32"
definition MAX_MEMBERS_PER_POOL :: nat where "MAX_MEMBERS_PER_POOL = 32"
definition MAX_POOL_ID_BYTES :: nat where "MAX_POOL_ID_BYTES = 128"
definition MAX_MEMBER_ID_BYTES :: nat where "MAX_MEMBER_ID_BYTES = 128"
definition MAX_DISPLAY_NAME_BYTES :: nat where "MAX_DISPLAY_NAME_BYTES = 256"

definition PoolId_bounded :: "string \<Rightarrow> nat \<Rightarrow> AccountPoolError \<Rightarrow> (AccountPoolError, string) result" where
  "PoolId_bounded v limit e =
     (if is_blank v \<or> length v > limit \<or> \<not> list_all slug_char v then Inl e else Inr v)"

definition PoolId_new :: "string \<Rightarrow> (AccountPoolError, PoolId) result" where
  "PoolId_new v = PoolId_bounded v MAX_POOL_ID_BYTES InvalidPoolId"

definition PoolMemberId_new :: "string \<Rightarrow> (AccountPoolError, PoolMemberId) result" where
  "PoolMemberId_new v = PoolId_bounded v MAX_MEMBER_ID_BYTES InvalidMemberId"

lemma PoolId_bounded_ok: "valid_slug n s \<Longrightarrow> PoolId_bounded s n e = Inr s"
  by (simp add: PoolId_bounded_def valid_slug_not_blank) (simp add: valid_slug_def)

lemma PoolId_bounded_err: "\<not> valid_slug n s \<Longrightarrow> PoolId_bounded s n e = Inl e"
  by (auto simp: PoolId_bounded_def valid_slug_def)

interpretation pool_id: validated_text "\<lambda>s. s" "\<lambda>s. s" PoolId_new "valid_slug MAX_POOL_ID_BYTES"
  by unfold_locales (simp_all add: PoolId_new_def PoolId_bounded_ok PoolId_bounded_err)

interpretation pool_member_id: validated_text "\<lambda>s. s" "\<lambda>s. s" PoolMemberId_new
  "valid_slug MAX_MEMBER_ID_BYTES"
  by unfold_locales (simp_all add: PoolMemberId_new_def PoolId_bounded_ok PoolId_bounded_err)

datatype AccountPoolProviderFamily = NativeCodex | OmniRoute

datatype AccountPoolTarget = NativeCodexAccount CodexAccountProfileId | OmniRouteConnection string

definition AccountPoolTarget_omniroute :: "string \<Rightarrow> (AccountPoolError, AccountPoolTarget) result" where
  "AccountPoolTarget_omniroute cid =
     (if is_blank cid \<or> length cid > MAX_MEMBER_ID_BYTES then Inl InvalidConnectionId
      else Inr (OmniRouteConnection cid))"

fun provider_family :: "AccountPoolTarget \<Rightarrow> AccountPoolProviderFamily" where
  "provider_family (NativeCodexAccount _) = NativeCodex"
| "provider_family (OmniRouteConnection _) = OmniRoute"

record AccountPoolMember =
  member_id :: PoolMemberId
  member_target :: AccountPoolTarget

datatype AccountPoolSelectionPolicy = ExplicitMember PoolMemberId | RoundRobin

record NamedAccountPool =
  pool_id :: PoolId
  pool_display_name :: string
  pool_family :: AccountPoolProviderFamily
  pool_members :: "AccountPoolMember list"
  pool_selection_policy :: AccountPoolSelectionPolicy

section \<open>Structural validation\<close>

fun check_members ::
  "AccountPoolProviderFamily \<Rightarrow> (PoolMemberId, unit) btree_map \<Rightarrow> AccountPoolMember list \<Rightarrow>
   (AccountPoolError, unit) result" where
  "check_members fam ids [] = Inr ()"
| "check_members fam ids (m # ms) =
     (if bt_get ids (member_id m) \<noteq> None then Inl DuplicateMemberId
      else if provider_family (member_target m) \<noteq> fam then Inl ProviderFamilyMismatch
      else check_members fam (bt_insert (member_id m) () ids) ms)"

definition pool_validate_structure :: "NamedAccountPool \<Rightarrow> (AccountPoolError, unit) result" where
  "pool_validate_structure p =
     (if is_blank (pool_display_name p) \<or> length (pool_display_name p) > MAX_DISPLAY_NAME_BYTES
      then Inl InvalidDisplayName
      else if pool_members p = [] then Inl EmptyPool
      else if length (pool_members p) > MAX_MEMBERS_PER_POOL then Inl TooManyMembers
      else res_bind (check_members (pool_family p) [] (pool_members p)) (\<lambda>_.
        case pool_selection_policy p of
          ExplicitMember selected \<Rightarrow>
            if \<not> list_ex (\<lambda>m. member_id m = selected) (pool_members p)
            then Inl Pool_SelectedMemberNotInPool else Inr ()
        | RoundRobin \<Rightarrow> Inr ()))"

text \<open>What a structurally valid pool is, independently of the order of the checks.\<close>

definition pool_ok :: "NamedAccountPool \<Rightarrow> bool" where
  "pool_ok p \<longleftrightarrow>
     bounded_nonblank MAX_DISPLAY_NAME_BYTES (pool_display_name p)
     \<and> pool_members p \<noteq> [] \<and> length (pool_members p) \<le> MAX_MEMBERS_PER_POOL
     \<and> distinct (map member_id (pool_members p))
     \<and> (\<forall>m \<in> set (pool_members p). provider_family (member_target m) = pool_family p)
     \<and> (\<forall>s. pool_selection_policy p = ExplicitMember s \<longrightarrow> s \<in> set (map member_id (pool_members p)))"

lemma check_members_iff:
  "bt_wf ids \<Longrightarrow> check_members fam ids ms = Inr u \<longleftrightarrow>
     distinct (map member_id ms) \<and> (\<forall>m \<in> set ms. bt_get ids (member_id m) = None)
     \<and> (\<forall>m \<in> set ms. provider_family (member_target m) = fam)"
proof (induction ms arbitrary: ids)
  case (Cons m ms)
  note IH = Cons.IH [of "bt_insert (member_id m) () ids"]
  show ?case
  proof (cases "bt_get ids (member_id m)")
    case None
    have "(\<forall>n \<in> set ms. bt_get (bt_insert (member_id m) () ids) (member_id n) = None) \<longleftrightarrow>
        member_id m \<notin> member_id ` set ms \<and> (\<forall>n \<in> set ms. bt_get ids (member_id n) = None)"
      by (simp add: image_iff) metis
    with None show ?thesis using IH Cons.prems by auto
  qed simp
qed simp

lemma pool_validate_structure_iff: "pool_validate_structure p = Inr u \<longleftrightarrow> pool_ok p"
  by (auto simp: pool_validate_structure_def pool_ok_def bounded_nonblank_def result_simps
      check_members_iff list_ex_iff split: AccountPoolSelectionPolicy.splits if_splits)

section \<open>The registry\<close>

type_synonym NamedAccountPoolRegistry = "(PoolId, NamedAccountPool) btree_map"

definition pools_remove :: "PoolId \<Rightarrow> NamedAccountPoolRegistry \<Rightarrow> NamedAccountPool option \<times> NamedAccountPoolRegistry" where
  "pools_remove k r = (bt_get r k, bt_remove k r)"

definition pools_insert ::
  "NamedAccountPool \<Rightarrow> NamedAccountPoolRegistry \<Rightarrow> (AccountPoolError, unit) result \<times> NamedAccountPoolRegistry" where
  "pools_insert p r =
     (case pool_validate_structure p of
        Inl e \<Rightarrow> (Inl e, r)
      | Inr _ \<Rightarrow>
          if length r \<ge> MAX_POOLS then (Inl TooManyPools, r)
          else if bt_get r (pool_id p) \<noteq> None then (Inl DuplicatePoolId, r)
          else (Inr (), bt_insert (pool_id p) p r))"

definition pools_get :: "NamedAccountPoolRegistry \<Rightarrow> PoolId \<Rightarrow> NamedAccountPool option" where
  "pools_get r k = bt_get r k"

definition pools_validate_structure :: "NamedAccountPoolRegistry \<Rightarrow> (AccountPoolError, unit) result" where
  "pools_validate_structure r =
     res_bind (ensure (length r \<le> MAX_POOLS) TooManyPools) (\<lambda>_.
       try_each pool_validate_structure (bt_values r))"

section \<open>Resolution and readiness\<close>

record ResolvedPoolMember =
  resolved_pool_id :: PoolId
  resolved_member_id :: PoolMemberId
  resolved_target :: AccountPoolTarget

datatype PoolResolutionError =
  PoolNotFound | SelectedMemberNotInPool | MissingAccountReference | UnavailableAccountReference
  | MissingConnectionReference | UnavailableConnectionReference
  | RoundRobinRequiresRuntimeSelection | InvalidPool AccountPoolError

datatype PoolReadiness =
  Pool_Ready | Pool_InvalidStructure | Pool_MissingAccountReference
  | Pool_UnavailableAccountReference | Pool_MissingConnectionReference
  | Pool_UnavailableConnectionReference | Pool_RotationRequiresRuntimeSelection

datatype PoolMemberReadiness =
  Member_Ready | Member_MissingAccountReference | Member_UnavailableAccountReference
  | Member_MissingConnectionReference | Member_UnavailableConnectionReference

definition resolve_pool ::
  "NamedAccountPoolRegistry \<Rightarrow> PoolId \<Rightarrow> CodexAccountProfileRegistry \<Rightarrow> OmniRouteRegistry \<Rightarrow>
   (PoolResolutionError, ResolvedPoolMember) result" where
  "resolve_pool r k accounts connections =
     res_bind (ok_or (bt_get r k) PoolNotFound) (\<lambda>pool.
     res_bind (map_err InvalidPool (pool_validate_structure pool)) (\<lambda>_.
     res_bind (case pool_selection_policy pool of
                 ExplicitMember s \<Rightarrow> Inr s
               | RoundRobin \<Rightarrow> Inl RoundRobinRequiresRuntimeSelection) (\<lambda>selected_id.
     res_bind (ok_or (List.find (\<lambda>m. member_id m = selected_id) (pool_members pool))
                 SelectedMemberNotInPool) (\<lambda>member.
       case member_target member of
         NativeCodexAccount profile_id \<Rightarrow>
           res_bind (ok_or (accounts_get accounts profile_id) MissingAccountReference) (\<lambda>profile.
             if acct_state profile \<noteq> Connected \<or> \<not> acct_enabled profile
                \<or> acct_validation profile \<noteq> Status_Valid
             then Inl UnavailableAccountReference
             else Inr \<lparr>resolved_pool_id = pool_id pool, resolved_member_id = member_id member,
                       resolved_target = member_target member\<rparr>)
       | OmniRouteConnection connection_id \<Rightarrow>
           res_bind (ok_or (omni_get connections connection_id) MissingConnectionReference) (\<lambda>c.
             if omni_provider_id c \<noteq> OMNIROUTE_PROVIDER_ID \<or> \<not> omni_enabled c
                \<or> validation_status (omni_validation c) \<noteq> Status_Valid
             then Inl UnavailableConnectionReference
             else Inr \<lparr>resolved_pool_id = pool_id pool, resolved_member_id = member_id member,
                       resolved_target = member_target member\<rparr>)))))"

fun readiness_of :: "(PoolResolutionError, ResolvedPoolMember) result \<Rightarrow> PoolReadiness" where
  "readiness_of (Inr _) = Pool_Ready"
| "readiness_of (Inl MissingAccountReference) = Pool_MissingAccountReference"
| "readiness_of (Inl MissingConnectionReference) = Pool_MissingConnectionReference"
| "readiness_of (Inl UnavailableAccountReference) = Pool_UnavailableAccountReference"
| "readiness_of (Inl UnavailableConnectionReference) = Pool_UnavailableConnectionReference"
| "readiness_of (Inl RoundRobinRequiresRuntimeSelection) = Pool_RotationRequiresRuntimeSelection"
| "readiness_of (Inl (InvalidPool _)) = Pool_InvalidStructure"
| "readiness_of (Inl PoolNotFound) = Pool_InvalidStructure"
| "readiness_of (Inl SelectedMemberNotInPool) = Pool_InvalidStructure"

text \<open>Collecting an iterator of entries into a map: later entries replace earlier ones.\<close>

definition collect_map :: "('k::linorder \<times> 'v) list \<Rightarrow> ('k, 'v) btree_map" where
  "collect_map xs = foldl (\<lambda>m (k, v). bt_insert k v m) [] xs"

definition pools_readiness ::
  "NamedAccountPoolRegistry \<Rightarrow> CodexAccountProfileRegistry \<Rightarrow> OmniRouteRegistry \<Rightarrow>
   (PoolId, PoolReadiness) btree_map" where
  "pools_readiness r accounts connections =
     collect_map (map (\<lambda>pool. (pool_id pool,
       readiness_of (resolve_pool r (pool_id pool) accounts connections))) (bt_values r))"

definition member_readiness ::
  "AccountPoolTarget \<Rightarrow> CodexAccountProfileRegistry \<Rightarrow> OmniRouteRegistry \<Rightarrow> PoolMemberReadiness" where
  "member_readiness target accounts connections =
     (case target of
        NativeCodexAccount profile_id \<Rightarrow>
          (case accounts_get accounts profile_id of
             None \<Rightarrow> Member_MissingAccountReference
           | Some profile \<Rightarrow>
               if acct_state profile = Connected \<and> acct_enabled profile
                  \<and> acct_validation profile = Status_Valid
               then Member_Ready else Member_UnavailableAccountReference)
      | OmniRouteConnection connection_id \<Rightarrow>
          (case omni_get connections connection_id of
             None \<Rightarrow> Member_MissingConnectionReference
           | Some c \<Rightarrow>
               if omni_provider_id c = OMNIROUTE_PROVIDER_ID \<and> omni_enabled c
                  \<and> validation_status (omni_validation c) = Status_Valid
               then Member_Ready else Member_UnavailableConnectionReference))"

definition pools_member_readiness ::
  "NamedAccountPoolRegistry \<Rightarrow> PoolId \<Rightarrow> CodexAccountProfileRegistry \<Rightarrow> OmniRouteRegistry \<Rightarrow>
   (PoolResolutionError, (PoolMemberId, PoolMemberReadiness) btree_map) result" where
  "pools_member_readiness r k accounts connections =
     res_bind (ok_or (bt_get r k) PoolNotFound) (\<lambda>pool.
     res_bind (map_err InvalidPool (pool_validate_structure pool)) (\<lambda>_.
       Inr (collect_map (map (\<lambda>m. (member_id m,
              member_readiness (member_target m) accounts connections)) (pool_members pool)))))"

section \<open>The file format\<close>

datatype ProviderFamilyDto = Dto_NativeCodex | Dto_OmniRoute
datatype TargetDto = Dto_NativeCodexAccount string | Dto_OmniRouteConnection string
datatype SelectionPolicyDto = Dto_ExplicitMember string | Dto_RoundRobin

record MemberDto =
  mdto_id :: string
  mdto_target :: TargetDto

record PoolDto =
  pdto_id :: string
  pdto_display_name :: string
  pdto_provider_family :: ProviderFamilyDto
  pdto_members :: "MemberDto list"
  pdto_selection_policy :: SelectionPolicyDto

record RegistryDto =
  rdto_schema_version :: nat
  rdto_pools :: "PoolDto list"

fun family_from_dto :: "ProviderFamilyDto \<Rightarrow> AccountPoolProviderFamily" where
  "family_from_dto Dto_NativeCodex = NativeCodex"
| "family_from_dto Dto_OmniRoute = OmniRoute"

fun target_from_dto :: "TargetDto \<Rightarrow> (AccountPoolError, AccountPoolTarget) result" where
  "target_from_dto (Dto_NativeCodexAccount a) =
     res_bind (map_err (\<lambda>_. InvalidAccountProfileId) (CodexAccountProfileId_new a)) (\<lambda>i.
       Inr (NativeCodexAccount i))"
| "target_from_dto (Dto_OmniRouteConnection c) = AccountPoolTarget_omniroute c"

definition member_from_dto :: "MemberDto \<Rightarrow> (AccountPoolError, AccountPoolMember) result" where
  "member_from_dto d =
     res_bind (PoolMemberId_new (mdto_id d)) (\<lambda>i.
     res_bind (target_from_dto (mdto_target d)) (\<lambda>t.
       Inr \<lparr>member_id = i, member_target = t\<rparr>))"

fun policy_from_dto :: "SelectionPolicyDto \<Rightarrow> (AccountPoolError, AccountPoolSelectionPolicy) result" where
  "policy_from_dto (Dto_ExplicitMember i) = res_bind (PoolMemberId_new i) (\<lambda>j. Inr (ExplicitMember j))"
| "policy_from_dto Dto_RoundRobin = Inr RoundRobin"

definition pool_try_from :: "PoolDto \<Rightarrow> (AccountPoolError, NamedAccountPool) result" where
  "pool_try_from d =
     res_bind (PoolId_new (pdto_id d)) (\<lambda>i.
     res_bind (try_map member_from_dto (pdto_members d)) (\<lambda>members.
     res_bind (policy_from_dto (pdto_selection_policy d)) (\<lambda>policy.
       let pool = \<lparr>pool_id = i, pool_display_name = pdto_display_name d,
                   pool_family = family_from_dto (pdto_provider_family d),
                   pool_members = members, pool_selection_policy = policy\<rparr>
       in res_bind (pool_validate_structure pool) (\<lambda>_. Inr pool))))"

fun family_to_dto :: "AccountPoolProviderFamily \<Rightarrow> ProviderFamilyDto" where
  "family_to_dto NativeCodex = Dto_NativeCodex"
| "family_to_dto OmniRoute = Dto_OmniRoute"

fun target_to_dto :: "AccountPoolTarget \<Rightarrow> TargetDto" where
  "target_to_dto (NativeCodexAccount a) = Dto_NativeCodexAccount a"
| "target_to_dto (OmniRouteConnection c) = Dto_OmniRouteConnection c"

definition member_to_dto :: "AccountPoolMember \<Rightarrow> MemberDto" where
  "member_to_dto m = \<lparr>mdto_id = member_id m, mdto_target = target_to_dto (member_target m)\<rparr>"

definition pool_to_dto :: "NamedAccountPool \<Rightarrow> PoolDto" where
  "pool_to_dto p =
     \<lparr>pdto_id = pool_id p, pdto_display_name = pool_display_name p,
      pdto_provider_family = family_to_dto (pool_family p),
      pdto_members = map member_to_dto (pool_members p),
      pdto_selection_policy = (case pool_selection_policy p of
          ExplicitMember i \<Rightarrow> Dto_ExplicitMember i | RoundRobin \<Rightarrow> Dto_RoundRobin)\<rparr>"

definition registry_to_dto :: "NamedAccountPoolRegistry \<Rightarrow> RegistryDto" where
  "registry_to_dto r =
     \<lparr>rdto_schema_version = POOL_SCHEMA_VERSION, rdto_pools = map pool_to_dto (bt_values r)\<rparr>"

fun insert_pools :: "PoolDto list \<Rightarrow> NamedAccountPoolRegistry \<Rightarrow> (AccountPoolError, NamedAccountPoolRegistry) result" where
  "insert_pools [] r = Inr r"
| "insert_pools (d # ds) r =
     res_bind (pool_try_from d) (\<lambda>p.
       case pools_insert p r of
         (Inl e, _) \<Rightarrow> Inl e
       | (Inr _, r') \<Rightarrow> insert_pools ds r')"

definition pools_load ::
  "(string \<Rightarrow> RegistryDto option) \<Rightarrow> file_read \<Rightarrow> (AccountPoolError, NamedAccountPoolRegistry) result" where
  "pools_load from_slice contents =
     (case contents of
        File_NotFound \<Rightarrow> Inr []
      | File_Error \<Rightarrow> Inl Pool_RegistryUnavailable
      | File_Bytes bytes \<Rightarrow>
          res_bind (ensure (length bytes \<le> MAX_ACCOUNT_POOL_FILE_BYTES) Pool_RegistryTooLarge) (\<lambda>_.
          res_bind (ok_or (from_slice bytes) Pool_RegistryMalformed) (\<lambda>dto.
          res_bind (ensure (rdto_schema_version dto \<in> {POOL_LEGACY_SCHEMA_VERSION, POOL_SCHEMA_VERSION})
                      Pool_UnsupportedSchemaVersion) (\<lambda>_.
          res_bind (ensure (length (rdto_pools dto) \<le> MAX_POOLS) TooManyPools) (\<lambda>_.
            insert_pools (rdto_pools dto) [])))))"

text \<open>The bytes that \<open>save\<close> writes; the JSON encoder is a parameter.\<close>

definition pools_save_bytes ::
  "(RegistryDto \<Rightarrow> string option) \<Rightarrow> NamedAccountPoolRegistry \<Rightarrow> (AccountPoolError, string) result" where
  "pools_save_bytes to_vec r =
     res_bind (pools_validate_structure r) (\<lambda>_.
     res_bind (ok_or (to_vec (registry_to_dto r)) Pool_RegistryMalformed) (\<lambda>bytes.
     res_bind (ensure (length bytes \<le> MAX_ACCOUNT_POOL_FILE_BYTES) Pool_RegistryTooLarge) (\<lambda>_.
       Inr bytes)))"

section \<open>The registry's invariant\<close>

definition pools_inv :: "NamedAccountPoolRegistry \<Rightarrow> bool" where
  "pools_inv r \<longleftrightarrow>
     bt_wf r \<and> length r \<le> MAX_POOLS \<and> (\<forall>(k, p) \<in> set r. k = pool_id p \<and> pool_ok p)"

lemma pools_insert_ok_iff:
  "pools_insert p r = (Inr u, r') \<longleftrightarrow>
     pool_ok p \<and> length r < MAX_POOLS \<and> bt_get r (pool_id p) = None \<and> r' = bt_insert (pool_id p) p r"
  using pool_validate_structure_iff [of p]
  by (cases "pool_validate_structure p") (auto simp: pools_insert_def)

lemma pools_insert_err: "pools_insert p r = (Inl e, r') \<Longrightarrow> r' = r"
  by (auto simp: pools_insert_def split: sum.splits if_splits)

lemma pools_inv_insert: "pools_inv r \<Longrightarrow> pools_inv (snd (pools_insert p r))"
proof (cases "pools_insert p r" rule: outcome_cases)
  case (Err e s')
  assume "pools_inv r"
  with Err show ?thesis using pools_insert_err by fastforce
next
  case (Ok v s')
  assume i: "pools_inv r"
  from Ok have "s' = bt_insert (pool_id p) p r" "pool_ok p" "length r < MAX_POOLS"
    by (simp_all add: pools_insert_ok_iff)
  with i Ok show ?thesis
    using set_bt_insert_subset [of "pool_id p" p r] length_bt_insert_le [of "pool_id p" p r]
    by (auto simp: pools_inv_def)
qed

lemma pools_inv_remove: "pools_inv r \<Longrightarrow> pools_inv (snd (pools_remove k r))"
  using set_bt_remove_subset [of k r] length_bt_remove_le [of k r]
  by (auto simp: pools_remove_def pools_inv_def)

datatype pools_op = Pools_Insert NamedAccountPool | Pools_Remove PoolId

fun pools_apply :: "NamedAccountPoolRegistry \<Rightarrow> pools_op \<Rightarrow> NamedAccountPoolRegistry" where
  "pools_apply r (Pools_Insert p) = snd (pools_insert p r)"
| "pools_apply r (Pools_Remove k) = snd (pools_remove k r)"

interpretation pools: transition_system pools_apply "\<lambda>r. r = []" pools_inv
proof
  fix r op
  show "pools_inv r \<Longrightarrow> pools_inv (pools_apply r op)"
    by (cases op) (simp_all add: pools_inv_insert pools_inv_remove)
qed (simp add: pools_inv_def)

lemma pools_inv_entry: "pools_inv r \<Longrightarrow> bt_get r k = Some p \<Longrightarrow> k = pool_id p \<and> pool_ok p"
  by (auto simp: pools_inv_def dest!: bt_get_in_set)

lemma pools_inv_validates: "pools_inv r \<Longrightarrow> pools_validate_structure r = Inr ()"
  by (auto simp: pools_inv_def pools_validate_structure_def result_simps pool_validate_structure_iff
      bt_values_def)

section \<open>Resolution\<close>

lemma collect_map_wf: "bt_wf m \<Longrightarrow> bt_wf (foldl (\<lambda>m (k, v). bt_insert k v m) m xs)"
  by (induction xs arbitrary: m) auto

lemma collect_map_get:
  assumes "distinct (map fst xs)"
  shows "bt_get (collect_map xs) k = map_of xs k"
proof -
  have "bt_get (foldl (\<lambda>m (k, v). bt_insert k v m) m xs) k =
      (case map_of xs k of None \<Rightarrow> bt_get m k | Some v \<Rightarrow> Some v)" for m
    using assms
  proof (induction xs arbitrary: m)
    case (Cons x xs)
    then have "map_of xs (fst x) = None" by (simp add: map_of_eq_None_iff)
    with Cons show ?case by (cases x) (auto split: option.splits)
  qed simp
  then show ?thesis by (simp add: collect_map_def split: option.splits)
qed

text \<open>The member an explicit policy names exists and is unique in a valid pool.\<close>

lemma pool_ok_find:
  assumes "pool_ok p" "m \<in> set (pool_members p)"
  shows "List.find (\<lambda>x. member_id x = member_id m) (pool_members p) = Some m"
proof -
  obtain y where y: "List.find (\<lambda>x. member_id x = member_id m) (pool_members p) = Some y"
    using find_exists [of "pool_members p" "\<lambda>x. member_id x = member_id m"] assms(2) by blast
  then have "y \<in> set (pool_members p)" "member_id y = member_id m" by (auto dest: find_Some_set)
  then have "y = m" using assms by (auto simp: pool_ok_def distinct_map dest: inj_onD)
  with y show ?thesis by simp
qed

fun resolution_error :: "PoolMemberReadiness \<Rightarrow> PoolResolutionError" where
  "resolution_error Member_MissingAccountReference = MissingAccountReference"
| "resolution_error Member_UnavailableAccountReference = UnavailableAccountReference"
| "resolution_error Member_MissingConnectionReference = MissingConnectionReference"
| "resolution_error Member_UnavailableConnectionReference = UnavailableConnectionReference"
| "resolution_error Member_Ready = PoolNotFound"

lemma resolve_pool_explicit:
  assumes "bt_get r k = Some p" "pool_ok p" "pool_selection_policy p = ExplicitMember (member_id m)"
    "m \<in> set (pool_members p)"
  shows "resolve_pool r k accounts connections =
    (if member_readiness (member_target m) accounts connections = Member_Ready
     then Inr \<lparr>resolved_pool_id = pool_id p, resolved_member_id = member_id m,
               resolved_target = member_target m\<rparr>
     else Inl (resolution_error (member_readiness (member_target m) accounts connections)))"
  using assms pool_ok_find [OF assms(2,4)] pool_validate_structure_iff [of p "()"]
  by (auto simp: resolve_pool_def member_readiness_def split: AccountPoolTarget.splits option.splits)

lemma resolve_pool_round_robin:
  "bt_get r k = Some p \<Longrightarrow> pool_ok p \<Longrightarrow> pool_selection_policy p = RoundRobin \<Longrightarrow>
   resolve_pool r k accounts connections = Inl RoundRobinRequiresRuntimeSelection"
  using pool_validate_structure_iff [of p "()"] by (simp add: resolve_pool_def)

lemma resolve_pool_missing: "bt_get r k = None \<Longrightarrow> resolve_pool r k accounts connections = Inl PoolNotFound"
  by (simp add: resolve_pool_def)

lemma pool_ok_policy_cases:
  assumes "pool_ok p"
  obtains (RoundRobin) "pool_selection_policy p = RoundRobin"
  | (Explicit) m where "m \<in> set (pool_members p)" "pool_selection_policy p = ExplicitMember (member_id m)"
  using assms by (cases "pool_selection_policy p") (auto simp: pool_ok_def)

section \<open>Round trip of the file format\<close>

text \<open>The newtypes' own invariants: identifiers in memory passed their constructors.\<close>

fun target_typed :: "AccountPoolTarget \<Rightarrow> bool" where
  "target_typed (NativeCodexAccount a) = valid_slug ACCOUNT_MAX_ID_BYTES a"
| "target_typed (OmniRouteConnection c) = True"

fun target_loadable :: "AccountPoolTarget \<Rightarrow> bool" where
  "target_loadable (NativeCodexAccount a) = True"
| "target_loadable (OmniRouteConnection c) = bounded_nonblank MAX_MEMBER_ID_BYTES c"

definition pool_typed :: "NamedAccountPool \<Rightarrow> bool" where
  "pool_typed p \<longleftrightarrow>
     valid_slug MAX_POOL_ID_BYTES (pool_id p)
     \<and> (\<forall>m \<in> set (pool_members p). valid_slug MAX_MEMBER_ID_BYTES (member_id m)
          \<and> target_typed (member_target m))"

definition pool_loadable :: "NamedAccountPool \<Rightarrow> bool" where
  "pool_loadable p \<longleftrightarrow> (\<forall>m \<in> set (pool_members p). target_loadable (member_target m))"

lemma target_roundtrip: "target_typed t \<Longrightarrow> target_loadable t \<Longrightarrow> target_from_dto (target_to_dto t) = Inr t"
  by (cases t) (simp_all add: codex_account_id.new_ok AccountPoolTarget_omniroute_def bounded_nonblank_def)

lemma target_unloadable: "\<not> target_loadable t \<Longrightarrow> target_from_dto (target_to_dto t) = Inl InvalidConnectionId"
  by (cases t) (auto simp: AccountPoolTarget_omniroute_def bounded_nonblank_def)

lemma family_roundtrip [simp]: "family_from_dto (family_to_dto f) = f"
  by (cases f) simp_all

lemma member_roundtrip:
  "valid_slug MAX_MEMBER_ID_BYTES (member_id m) \<Longrightarrow> target_typed (member_target m) \<Longrightarrow>
   target_loadable (member_target m) \<Longrightarrow> member_from_dto (member_to_dto m) = Inr m"
  by (simp add: member_from_dto_def member_to_dto_def target_roundtrip pool_member_id.new_ok)

lemma pool_roundtrip:
  assumes "pool_ok p" "pool_typed p" "pool_loadable p"
  shows "pool_try_from (pool_to_dto p) = Inr p"
proof -
  have "try_map member_from_dto (map member_to_dto (pool_members p)) = Inr (pool_members p)"
    using assms by (intro try_map_inverse member_roundtrip) (auto simp: pool_typed_def pool_loadable_def)
  moreover have "policy_from_dto (pdto_selection_policy (pool_to_dto p)) = Inr (pool_selection_policy p)"
    using assms by (cases rule: pool_ok_policy_cases [OF assms(1)])
      (auto simp: pool_to_dto_def pool_typed_def pool_member_id.new_ok)
  ultimately show ?thesis
    using assms(1,2) pool_validate_structure_iff [of p "()"]
    by (cases p) (simp add: pool_try_from_def pool_to_dto_def pool_typed_def pool_id.new_ok Let_def)
qed

lemma pool_unloadable:
  assumes "\<not> pool_loadable p"
  shows "\<exists>e. pool_try_from (pool_to_dto p) = Inl e"
proof (rule ccontr)
  assume "\<nexists>e. pool_try_from (pool_to_dto p) = Inl e"
  then obtain q where "pool_try_from (pool_to_dto p) = Inr q" by (metis sum.exhaust)
  then obtain ms where "try_map member_from_dto (map member_to_dto (pool_members p)) = Inr ms"
    by (auto simp: pool_try_from_def pool_to_dto_def result_simps)
  then have "\<forall>m \<in> set (pool_members p). \<exists>n. member_from_dto (member_to_dto m) = Inr n"
    using try_map_elem [of member_from_dto "map member_to_dto (pool_members p)"] by simp
  moreover obtain m where "m \<in> set (pool_members p)" "\<not> target_loadable (member_target m)"
    using assms by (auto simp: pool_loadable_def)
  ultimately show False
    using target_unloadable by (fastforce simp: member_from_dto_def member_to_dto_def result_simps)
qed

lemma insert_pools_inv: "pools_inv r \<Longrightarrow> insert_pools ds r = Inr r' \<Longrightarrow> pools_inv r'"
proof (induction ds arbitrary: r)
  case (Cons d ds)
  obtain p where "pool_try_from d = Inr p" using Cons.prems(2) by (auto simp: result_simps)
  then show ?case using Cons pools_inv_insert [OF Cons.prems(1), of p]
    by (auto split: prod.splits sum.splits)
qed simp

lemma insert_pools_append:
  "pools_inv (m @ n) \<Longrightarrow> \<forall>p \<in> set (bt_values n). pool_typed p \<Longrightarrow>
   insert_pools (map pool_to_dto (bt_values n)) m = Inr (m @ n) \<longleftrightarrow>
     (\<forall>p \<in> set (bt_values n). pool_loadable p)"
proof (induction n arbitrary: m)
  case Nil
  then show ?case by (simp add: bt_values_def)
next
  case (Cons e n)
  obtain k p where e: "e = (k, p)" by (cases e)
  have kp: "k = pool_id p" "pool_ok p" and len: "length m < MAX_POOLS"
    and below: "\<And>j. j \<in> fst ` set m \<Longrightarrow> j < k"
    using Cons.prems(1) e by (auto simp: pools_inv_def bt_wf_def sorted_wrt_append)
  have "bt_get m k = None" using below by (force simp: bt_get_None_iff)
  then have ins: "pools_insert p m = (Inr (), m @ [(k, p)])"
    using kp len below by (simp add: pools_insert_ok_iff bt_insert_last)
  show ?case
  proof (cases "pool_loadable p")
    case True
    then have "pool_try_from (pool_to_dto p) = Inr p"
      using kp Cons.prems(2) e by (intro pool_roundtrip) (auto simp: bt_values_def)
    then show ?thesis
      using Cons.IH [of "m @ [(k, p)]"] Cons.prems e ins True by (simp add: bt_values_def)
  next
    case False
    with pool_unloadable [of p] show ?thesis using e by (auto simp: bt_values_def)
  qed
qed

section \<open>Properties\<close>

definition demo_pool :: NamedAccountPool where
  "demo_pool =
     \<lparr>pool_id = ''team'', pool_display_name = ''Team'', pool_family = NativeCodex,
      pool_members = [\<lparr>member_id = ''a'', member_target = NativeCodexAccount ''p1''\<rparr>,
                      \<lparr>member_id = ''b'', member_target = NativeCodexAccount ''p2''\<rparr>],
      pool_selection_policy = ExplicitMember ''b''\<rparr>"

definition demo_accounts :: CodexAccountProfileRegistry where
  "demo_accounts = accounts_apply accounts_default
     (Op_Insert (demo_account\<lparr>acct_profile_id := ''p2'', acct_state := Connected\<rparr>))"

text \<open>C30: In every pool registry reached by insertions and removals, resolving a pool never
  substitutes a member: it succeeds exactly when the pool exists, its policy names a member
  explicitly and that very member's target is ready, and then returns that member with its
  target. Otherwise the error is the one the selected member's readiness names, so neither an
  invalid structure nor a selected member outside the pool is ever reported.\<close>

theorem resolve_pool_exact:
  fixes ops :: "pools_op list"
  defines "r \<equiv> foldl pools_apply [] ops"
  shows "case pools_get r k of
      None \<Rightarrow> resolve_pool r k accounts connections = Inl PoolNotFound
    | Some p \<Rightarrow>
        (case pool_selection_policy p of
           RoundRobin \<Rightarrow> resolve_pool r k accounts connections = Inl RoundRobinRequiresRuntimeSelection
         | ExplicitMember s \<Rightarrow>
             (\<exists>!m. m \<in> set (pool_members p) \<and> member_id m = s)
             \<and> (\<forall>m \<in> set (pool_members p). member_id m = s \<longrightarrow>
                  resolve_pool r k accounts connections =
                  (let readiness = member_readiness (member_target m) accounts connections
                   in if readiness = Member_Ready
                      then Inr \<lparr>resolved_pool_id = k, resolved_member_id = s,
                                resolved_target = member_target m\<rparr>
                      else Inl (resolution_error readiness))))"
proof (cases "bt_get r k")
  case None
  then show ?thesis by (simp add: pools_get_def resolve_pool_missing)
next
  case (Some p)
  have "pools_inv r" unfolding r_def by (rule pools.inv_run) simp
  then have p: "pool_ok p" "k = pool_id p" using pools_inv_entry Some by blast+
  from p(1) show ?thesis
  proof (cases rule: pool_ok_policy_cases)
    case RoundRobin
    then show ?thesis using Some p resolve_pool_round_robin by (simp add: pools_get_def)
  next
    case (Explicit m)
    have u: "n = m" if "n \<in> set (pool_members p)" "member_id n = member_id m" for n
      using pool_ok_find [OF p(1)] Explicit(1) that by (metis option.inject)
    then have "\<exists>!n. n \<in> set (pool_members p) \<and> member_id n = member_id m"
      using Explicit(1) by blast
    moreover have "resolve_pool r k accounts connections =
        (let readiness = member_readiness (member_target n) accounts connections
         in if readiness = Member_Ready
            then Inr \<lparr>resolved_pool_id = k, resolved_member_id = member_id m,
                      resolved_target = member_target n\<rparr>
            else Inl (resolution_error readiness))"
      if "n \<in> set (pool_members p)" "member_id n = member_id m" for n
      using u [OF that] p(2) resolve_pool_explicit [OF Some p(1) Explicit(2,1), of accounts connections]
      by (simp add: Let_def)
    ultimately show ?thesis using Some Explicit(2) by (simp add: pools_get_def)
  qed
qed

theorem resolve_pool_exact_witness:
  "resolve_pool (pools_apply [] (Pools_Insert demo_pool)) ''team'' demo_accounts [] =
     Inr \<lparr>resolved_pool_id = ''team'', resolved_member_id = ''b'', resolved_target = NativeCodexAccount ''p2''\<rparr>"
proof -
  let ?r = "pools_apply [] (Pools_Insert demo_pool)"
  have g: "pools_get ?r ''team'' = Some demo_pool" by code_simp
  have pol: "pool_selection_policy demo_pool = ExplicitMember ''b''" by (simp add: demo_pool_def)
  have rd: "member_readiness (NativeCodexAccount ''p2'') demo_accounts [] = Member_Ready" by code_simp
  have "\<lparr>member_id = ''b'', member_target = NativeCodexAccount ''p2''\<rparr> \<in> set (pool_members demo_pool)"
    by (simp add: demo_pool_def)
  then show ?thesis
    using resolve_pool_exact [of "[Pools_Insert demo_pool]" "''team''" demo_accounts "[]"] g pol rd
    by (auto simp: Let_def)
qed

text \<open>The readiness report has exactly one entry per pool, and it says Ready precisely for the
  pools that resolve.\<close>

theorem readiness_agrees_with_resolution:
  fixes ops :: "pools_op list"
  defines "r \<equiv> foldl pools_apply [] ops"
  shows "bt_get (pools_readiness r accounts connections) k =
      (case pools_get r k of
         None \<Rightarrow> None
       | Some p \<Rightarrow> Some (readiness_of (resolve_pool r k accounts connections)))
    \<and> (bt_get (pools_readiness r accounts connections) k = Some Pool_Ready \<longleftrightarrow>
         is_ok (resolve_pool r k accounts connections))
    \<and> bt_get (pools_readiness r accounts connections) k \<noteq> Some Pool_InvalidStructure"
proof -
  have i: "pools_inv r" unfolding r_def by (rule pools.inv_run) simp
  have keys: "map pool_id (bt_values r) = bt_keys r"
    using i by (auto simp: pools_inv_def bt_values_def bt_keys_def)
  let ?f = "\<lambda>k. readiness_of (resolve_pool r k accounts connections)"
  have "map (\<lambda>pool. (pool_id pool, ?f (pool_id pool))) (bt_values r) = map (\<lambda>k. (k, ?f k)) (bt_keys r)"
    by (simp add: keys [symmetric])
  moreover have "distinct (map fst (map (\<lambda>k. (k, ?f k)) (bt_keys r)))"
    using i bt_keys_distinct [of r] by (simp add: pools_inv_def comp_def)
  ultimately have eq: "bt_get (pools_readiness r accounts connections) k =
      (if k \<in> set (bt_keys r) then Some (?f k) else None)"
    by (simp add: pools_readiness_def collect_map_get map_of_map_restrict restrict_map_def)
  have dom: "k \<in> set (bt_keys r) \<longleftrightarrow> pools_get r k \<noteq> None"
    by (simp add: bt_keys_def pools_get_def bt_get_None_iff)
  show ?thesis
  proof (cases "bt_get r k")
    case None
    then show ?thesis using eq dom by (simp add: pools_get_def resolve_pool_missing)
  next
    case (Some p)
    have p: "pool_ok p" using i Some pools_inv_entry by blast
    from p have "?f k \<noteq> Pool_InvalidStructure \<and> (?f k = Pool_Ready \<longleftrightarrow> is_ok (resolve_pool r k accounts connections))"
    proof (cases rule: pool_ok_policy_cases)
      case RoundRobin
      then show ?thesis using Some p by (simp add: resolve_pool_round_robin)
    next
      case (Explicit m)
      show ?thesis unfolding resolve_pool_explicit [OF Some p Explicit(2,1)]
        by (cases "member_readiness (member_target m) accounts connections") simp_all
    qed
    then show ?thesis using eq dom Some by (simp add: pools_get_def)
  qed
qed

text \<open>The file format. For a registry that satisfies the invariant of its operations, saving
  always encodes it, and loading the encoded file returns the same registry exactly when every
  OmniRoute target it holds has a non-blank identifier of at most 128 bytes: saving does not
  check this, so a registry with such a target can be written but not read back. Whatever a file
  contains, a successful load satisfies the invariant.\<close>

theorem pool_file_roundtrip:
  "(pools_inv r \<and> (\<forall>p \<in> set (bt_values r). pool_typed p)
     \<and> enc (registry_to_dto r) = Some bytes \<and> length bytes \<le> MAX_ACCOUNT_POOL_FILE_BYTES
     \<and> dec bytes = Some (registry_to_dto r) \<longrightarrow>
       pools_save_bytes enc r = Inr bytes
       \<and> (pools_load dec (File_Bytes bytes) = Inr r \<longleftrightarrow> (\<forall>p \<in> set (bt_values r). pool_loadable p)))
   \<and> (pools_load dec contents = Inr r' \<longrightarrow> pools_inv r')"
proof (intro conjI impI; (elim conjE)?)
  assume a: "pools_inv r" "\<forall>p \<in> set (bt_values r). pool_typed p" "enc (registry_to_dto r) = Some bytes"
    "length bytes \<le> MAX_ACCOUNT_POOL_FILE_BYTES" "dec bytes = Some (registry_to_dto r)"
  show "pools_save_bytes enc r = Inr bytes"
    using a by (simp add: pools_save_bytes_def pools_inv_validates)
  have "length (bt_values r) \<le> MAX_POOLS" using a(1) by (simp add: pools_inv_def)
  then have "pools_load dec (File_Bytes bytes) = insert_pools (map pool_to_dto (bt_values r)) []"
    using a by (simp add: pools_load_def registry_to_dto_def)
  then show "pools_load dec (File_Bytes bytes) = Inr r \<longleftrightarrow> (\<forall>p \<in> set (bt_values r). pool_loadable p)"
    using insert_pools_append [of "[]" r] a by simp
next
  assume "pools_load dec contents = Inr r'"
  moreover have "pools_inv []" by (simp add: pools_inv_def)
  ultimately show "pools_inv r'"
    by (cases contents) (auto simp: pools_load_def result_simps intro: insert_pools_inv)
qed

definition demo_blank_pool :: NamedAccountPool where
  "demo_blank_pool =
     \<lparr>pool_id = ''o'', pool_display_name = ''O'', pool_family = OmniRoute,
      pool_members = [\<lparr>member_id = ''a'', member_target = OmniRouteConnection ''''\<rparr>],
      pool_selection_policy = RoundRobin\<rparr>"

theorem pool_file_roundtrip_witness:
  "pools_load (\<lambda>_. Some (registry_to_dto [(''team'', demo_pool)])) (File_Bytes ''x'') = Inr [(''team'', demo_pool)]
   \<and> pools_save_bytes (\<lambda>_. Some ''x'') [(''o'', demo_blank_pool)] = Inr ''x''
   \<and> pools_load (\<lambda>_. Some (registry_to_dto [(''o'', demo_blank_pool)])) (File_Bytes ''x'') \<noteq> Inr [(''o'', demo_blank_pool)]"
proof -
  have i: "pools_inv [(''team'', demo_pool)]" "pools_inv [(''o'', demo_blank_pool)]"
  proof -
    have "pools_apply [] (Pools_Insert demo_pool) = [(''team'', demo_pool)]"
      "pools_apply [] (Pools_Insert demo_blank_pool) = [(''o'', demo_blank_pool)]" by code_simp+
    then show "pools_inv [(''team'', demo_pool)]" "pools_inv [(''o'', demo_blank_pool)]"
      using pools.inv_run [of "[]" "[Pools_Insert demo_pool]"]
        pools.inv_run [of "[]" "[Pools_Insert demo_blank_pool]"]
      by simp_all
  qed
  have t: "pool_typed demo_pool" "pool_loadable demo_pool" "pool_typed demo_blank_pool"
    "\<not> pool_loadable demo_blank_pool" by code_simp+
  show ?thesis
    using i t
      pool_file_roundtrip [of "[(''team'', demo_pool)]" "\<lambda>_. Some ''x''" "''x''"
        "\<lambda>_. Some (registry_to_dto [(''team'', demo_pool)])" File_NotFound "[]"]
      pool_file_roundtrip [of "[(''o'', demo_blank_pool)]" "\<lambda>_. Some ''x''" "''x''"
        "\<lambda>_. Some (registry_to_dto [(''o'', demo_blank_pool)])" File_NotFound "[]"]
    by (simp add: bt_values_def MAX_ACCOUNT_POOL_FILE_BYTES_def)
qed

end
