(* ===== verification/Provider_Failure.thy ===== *)
theory Provider_Failure
  imports Account_Pools "HOL-Library.Product_Lexorder"
begin

text \<open>
  Classification of provider failures (\<open>provider_failure.rs\<close>), the decision to record a cooldown,
  and the session's cooldown state (\<open>cooldown_state.rs\<close>). Durations and instants are nanoseconds;
  the instant of a call is its argument, as in the source. The cooldown state, which expires its
  records lazily, is compared with a reference that keeps every recording for ever.
\<close>

section \<open>Failure classes and hints\<close>

definition MAX_PROVIDER_COOLDOWN :: nat where
  "MAX_PROVIDER_COOLDOWN = 24 * 60 * 60 * 1000000000"

datatype ProviderFailureClass =
  FC_RateLimited | FC_QuotaExhausted | FC_Authentication | FC_Authorization | FC_InvalidRequest
  | FC_ModelUnavailable | FC_ContextLengthExceeded | FC_ProviderUnavailable | FC_Network | FC_Timeout
  | FC_Cancelled | FC_Internal | FC_Unknown

type_synonym ProviderFailureCode = string

definition ProviderFailureCode_new :: "string \<Rightarrow> ProviderFailureCode option" where
  "ProviderFailureCode_new v =
     (if v = [] \<or> length v > 64 \<or> \<not> list_all ident_char v then None else Some v)"

datatype ProviderFailureEvidence =
  FE_StructuredProviderCode | FE_HttpStatus | FE_TransportKind | FE_Cancellation | FE_SafeFallback
  | FE_Unknown

datatype ProviderCooldownHint = RetryAfter nat

definition hint_from_duration :: "nat \<Rightarrow> ProviderCooldownHint option" where
  "hint_from_duration d = (if d > 0 \<and> d \<le> MAX_PROVIDER_COOLDOWN then Some (RetryAfter d) else None)"

definition from_retry_after_seconds :: "nat \<Rightarrow> ProviderCooldownHint option" where
  "from_retry_after_seconds s =
     (let d = s * 1000000000 in
      if d > 0 \<and> d \<le> MAX_PROVIDER_COOLDOWN then Some (RetryAfter d) else None)"

text \<open>\<open>str::parse::<u64>\<close>: an optional plus sign, then at least one ASCII digit, within 64 bits.\<close>

definition is_ascii_digit :: "char \<Rightarrow> bool" where
  "is_ascii_digit c \<longleftrightarrow> 48 \<le> byte_of c \<and> byte_of c \<le> 57"

definition digits_value :: "string \<Rightarrow> nat" where
  "digits_value ds = foldl (\<lambda>n c. n * 10 + (byte_of c - 48)) 0 ds"

definition parse_u64 :: "string \<Rightarrow> nat option" where
  "parse_u64 s =
     (let ds = (case s of c # cs \<Rightarrow> if c = CHR ''+'' then cs else s | [] \<Rightarrow> []) in
      if ds = [] \<or> \<not> list_all is_ascii_digit ds \<or> digits_value ds > u64_max then None
      else Some (digits_value ds))"

definition parse_retry_after :: "string \<Rightarrow> ProviderCooldownHint option" where
  "parse_retry_after v = Option.bind (parse_u64 (trim v)) from_retry_after_seconds"

fun hint_duration :: "ProviderCooldownHint \<Rightarrow> nat" where
  "hint_duration (RetryAfter d) = d"

datatype ProviderTransportKind = Transport_Network | Transport_Timeout | Transport_Internal

record ProviderFailureInput =
  pfi_provider_family :: AccountPoolProviderFamily
  pfi_cancelled :: bool
  pfi_structured_code :: "ProviderFailureCode option"
  pfi_transport :: "ProviderTransportKind option"
  pfi_http_status :: "nat option"
  pfi_retry_after_seconds :: "nat option"
  pfi_cooldown_hint :: "ProviderCooldownHint option"

definition ProviderFailureInput_new :: "AccountPoolProviderFamily \<Rightarrow> ProviderFailureInput" where
  "ProviderFailureInput_new f =
     \<lparr>pfi_provider_family = f, pfi_cancelled = False, pfi_structured_code = None, pfi_transport = None,
      pfi_http_status = None, pfi_retry_after_seconds = None, pfi_cooldown_hint = None\<rparr>"

definition with_structured_code :: "ProviderFailureCode \<Rightarrow> ProviderFailureInput \<Rightarrow> ProviderFailureInput" where
  "with_structured_code c i = i\<lparr>pfi_structured_code := Some c\<rparr>"

definition with_http_status :: "nat \<Rightarrow> ProviderFailureInput \<Rightarrow> ProviderFailureInput" where
  "with_http_status s i = i\<lparr>pfi_http_status := Some s\<rparr>"

definition with_transport :: "ProviderTransportKind \<Rightarrow> ProviderFailureInput \<Rightarrow> ProviderFailureInput" where
  "with_transport t i = i\<lparr>pfi_transport := Some t\<rparr>"

definition with_retry_after_seconds :: "nat \<Rightarrow> ProviderFailureInput \<Rightarrow> ProviderFailureInput" where
  "with_retry_after_seconds s i = i\<lparr>pfi_retry_after_seconds := Some s\<rparr>"

definition with_cooldown_hint :: "ProviderCooldownHint \<Rightarrow> ProviderFailureInput \<Rightarrow> ProviderFailureInput" where
  "with_cooldown_hint h i = i\<lparr>pfi_cooldown_hint := Some h\<rparr>"

definition failure_cancelled :: "ProviderFailureInput \<Rightarrow> ProviderFailureInput" where
  "failure_cancelled i = i\<lparr>pfi_cancelled := True\<rparr>"

record ProviderFailureClassification =
  pfc_class :: ProviderFailureClass
  pfc_provider_family :: AccountPoolProviderFamily
  pfc_safe_code :: "ProviderFailureCode option"
  pfc_http_status :: "nat option"
  pfc_cooldown_hint :: "ProviderCooldownHint option"
  pfc_evidence :: ProviderFailureEvidence

datatype ProviderCooldownRecordingDecision =
  Decision_Record nat ProviderFailureClass "ProviderFailureCode option"
| Decision_DoNotRecord

section \<open>Classification\<close>

definition classify_code :: "string \<Rightarrow> ProviderFailureClass" where
  "classify_code code =
     (if code = ''rate_limit_exceeded'' then FC_RateLimited
      else if code = ''insufficient_quota'' then FC_QuotaExhausted
      else if code = ''context_length_exceeded'' then FC_ContextLengthExceeded
      else FC_Unknown)"

fun classify_transport :: "ProviderTransportKind \<Rightarrow> ProviderFailureClass" where
  "classify_transport Transport_Network = FC_Network"
| "classify_transport Transport_Timeout = FC_Timeout"
| "classify_transport Transport_Internal = FC_Internal"

definition classify_http_status :: "nat \<Rightarrow> ProviderFailureClass" where
  "classify_http_status s =
     (if s = 401 then FC_Authentication
      else if s = 402 then FC_QuotaExhausted
      else if s = 403 then FC_Authorization
      else if s = 408 then FC_Timeout
      else if s = 413 \<or> s = 422 then FC_InvalidRequest
      else if s = 429 then FC_RateLimited
      else if 500 \<le> s \<and> s \<le> 599 then FC_ProviderUnavailable
      else if 400 \<le> s \<and> s \<le> 499 then FC_InvalidRequest
      else FC_Unknown)"

definition classify_provider_failure :: "ProviderFailureInput \<Rightarrow> ProviderFailureClassification" where
  "classify_provider_failure i =
     (let hint = (case pfi_cooldown_hint i of
                    Some h \<Rightarrow> Some h
                  | None \<Rightarrow> Option.bind (pfi_retry_after_seconds i) from_retry_after_seconds);
          (cls, ev) =
            (if pfi_cancelled i then (FC_Cancelled, FE_Cancellation)
             else case pfi_structured_code i of
                 Some code \<Rightarrow> (classify_code code, FE_StructuredProviderCode)
               | None \<Rightarrow>
                   (case pfi_transport i of
                      Some t \<Rightarrow> (classify_transport t, FE_TransportKind)
                    | None \<Rightarrow>
                        (case pfi_http_status i of
                           Some s \<Rightarrow> (classify_http_status s, FE_HttpStatus)
                         | None \<Rightarrow> (FC_Unknown, FE_Unknown))))
      in \<lparr>pfc_class = cls, pfc_provider_family = pfi_provider_family i,
          pfc_safe_code = pfi_structured_code i, pfc_http_status = pfi_http_status i,
          pfc_cooldown_hint = hint, pfc_evidence = ev\<rparr>)"

definition cooldown_recording_decision ::
  "ProviderFailureClassification \<Rightarrow> bool \<Rightarrow> ProviderCooldownRecordingDecision" where
  "cooldown_recording_decision c attempted =
     (if \<not> attempted \<or> pfc_class c \<notin>
           {FC_RateLimited, FC_QuotaExhausted, FC_ProviderUnavailable, FC_Network, FC_Timeout}
      then Decision_DoNotRecord
      else case pfc_cooldown_hint c of
          None \<Rightarrow> Decision_DoNotRecord
        | Some h \<Rightarrow> Decision_Record (hint_duration h) (pfc_class c) (pfc_safe_code c))"

datatype ProviderInvocationError =
  Inv_InvalidConfiguration | Inv_UnsupportedProvider | Inv_UnsupportedAuthenticationMethod
  | Inv_ConnectionDisabled | Inv_ConnectionUnvalidated | Inv_ReauthenticationRequired
  | Inv_MissingCredentialReference | Inv_CredentialNotFound | Inv_CredentialStoreUnavailable
  | Inv_CredentialStoreRejected | Inv_InvalidModelId | Inv_InvalidRequest | Inv_InputTooLarge
  | Inv_OutputLimitInvalid | Inv_TransportUnavailable | Inv_RequestTimedOut | Inv_Cancelled
  | Inv_Unauthorized | Inv_PaymentRequired | Inv_Forbidden | Inv_RateLimited
  | Inv_RateLimitedWithRetryAfter "nat option" | Inv_QuotaExhausted | Inv_ProviderUnavailable
  | Inv_ProviderRejected | Inv_InvalidContentType | Inv_ResponseTooLarge | Inv_InvalidResponse
  | Inv_MissingOutput | Inv_OrchestrationConversionFailed | Inv_LiveCodexInvocationUnavailable
  | Inv_ScopedSessionConstructionFailed | Inv_StreamTerminated

fun invocation_error_class :: "ProviderInvocationError \<Rightarrow> ProviderFailureClass" where
  "invocation_error_class Inv_Cancelled = FC_Cancelled"
| "invocation_error_class Inv_RateLimited = FC_RateLimited"
| "invocation_error_class (Inv_RateLimitedWithRetryAfter _) = FC_RateLimited"
| "invocation_error_class Inv_PaymentRequired = FC_QuotaExhausted"
| "invocation_error_class Inv_QuotaExhausted = FC_QuotaExhausted"
| "invocation_error_class Inv_ReauthenticationRequired = FC_Authentication"
| "invocation_error_class Inv_MissingCredentialReference = FC_Authentication"
| "invocation_error_class Inv_CredentialNotFound = FC_Authentication"
| "invocation_error_class Inv_CredentialStoreUnavailable = FC_Authentication"
| "invocation_error_class Inv_CredentialStoreRejected = FC_Authentication"
| "invocation_error_class Inv_UnsupportedAuthenticationMethod = FC_Authentication"
| "invocation_error_class Inv_Unauthorized = FC_Authentication"
| "invocation_error_class Inv_Forbidden = FC_Authorization"
| "invocation_error_class Inv_InvalidModelId = FC_ModelUnavailable"
| "invocation_error_class Inv_InputTooLarge = FC_ContextLengthExceeded"
| "invocation_error_class Inv_InvalidRequest = FC_InvalidRequest"
| "invocation_error_class Inv_InvalidConfiguration = FC_InvalidRequest"
| "invocation_error_class Inv_OutputLimitInvalid = FC_InvalidRequest"
| "invocation_error_class Inv_RequestTimedOut = FC_Timeout"
| "invocation_error_class Inv_TransportUnavailable = FC_Network"
| "invocation_error_class Inv_ProviderUnavailable = FC_ProviderUnavailable"
| "invocation_error_class Inv_ProviderRejected = FC_ProviderUnavailable"
| "invocation_error_class Inv_UnsupportedProvider = FC_Internal"
| "invocation_error_class Inv_ConnectionDisabled = FC_Internal"
| "invocation_error_class Inv_ConnectionUnvalidated = FC_Internal"
| "invocation_error_class Inv_InvalidContentType = FC_Internal"
| "invocation_error_class Inv_ResponseTooLarge = FC_Internal"
| "invocation_error_class Inv_InvalidResponse = FC_Internal"
| "invocation_error_class Inv_MissingOutput = FC_Internal"
| "invocation_error_class Inv_OrchestrationConversionFailed = FC_Internal"
| "invocation_error_class Inv_LiveCodexInvocationUnavailable = FC_Internal"
| "invocation_error_class Inv_ScopedSessionConstructionFailed = FC_Internal"
| "invocation_error_class Inv_StreamTerminated = FC_Internal"

text \<open>The effect of the match on the input: only a cancellation and a rate limit with a valid delay
  touch it.\<close>

fun invocation_error_input :: "ProviderInvocationError \<Rightarrow> ProviderFailureInput \<Rightarrow> ProviderFailureInput" where
  "invocation_error_input Inv_Cancelled i = i\<lparr>pfi_cancelled := True\<rparr>"
| "invocation_error_input (Inv_RateLimitedWithRetryAfter d) i =
     (case Option.bind d hint_from_duration of Some h \<Rightarrow> with_cooldown_hint h i | None \<Rightarrow> i)"
| "invocation_error_input _ i = i"

definition classify_provider_invocation_error ::
  "AccountPoolProviderFamily \<Rightarrow> ProviderInvocationError \<Rightarrow> ProviderFailureClassification" where
  "classify_provider_invocation_error fam e =
     (let i = invocation_error_input e (ProviderFailureInput_new fam) in
      if pfi_cancelled i then classify_provider_failure i
      else \<lparr>pfc_class = invocation_error_class e, pfc_provider_family = fam, pfc_safe_code = None,
            pfc_http_status = None, pfc_cooldown_hint = pfi_cooldown_hint i,
            pfc_evidence = FE_SafeFallback\<rparr>)"

lemma RetryAfter_duration [simp]: "RetryAfter (hint_duration h) = h"
  by (cases h) simp

section \<open>Ordered keys\<close>

text \<open>The derived order of the target enum: by variant, then by identity.\<close>

fun target_rank :: "AccountPoolTarget \<Rightarrow> nat \<times> string" where
  "target_rank (NativeCodexAccount a) = (0, a)"
| "target_rank (OmniRouteConnection c) = (1, c)"

lemma target_rank_inject: "target_rank a = target_rank b \<longleftrightarrow> a = b"
  by (cases a; cases b) auto

instantiation AccountPoolTarget :: linorder
begin

definition less_eq_AccountPoolTarget :: "AccountPoolTarget \<Rightarrow> AccountPoolTarget \<Rightarrow> bool" where
  "less_eq_AccountPoolTarget a b \<longleftrightarrow> target_rank a \<le> target_rank b"

definition less_AccountPoolTarget :: "AccountPoolTarget \<Rightarrow> AccountPoolTarget \<Rightarrow> bool" where
  "less_AccountPoolTarget a b \<longleftrightarrow> target_rank a < target_rank b"

instance
proof
  fix a b c :: AccountPoolTarget
  show "a < b \<longleftrightarrow> a \<le> b \<and> \<not> b \<le> a"
    unfolding less_AccountPoolTarget_def less_eq_AccountPoolTarget_def by (rule less_le_not_le)
  show "a \<le> a" by (simp add: less_eq_AccountPoolTarget_def)
  show "a \<le> b \<Longrightarrow> b \<le> c \<Longrightarrow> a \<le> c"
    unfolding less_eq_AccountPoolTarget_def by (rule order_trans)
  show "a \<le> b \<Longrightarrow> b \<le> a \<Longrightarrow> a = b"
    unfolding less_eq_AccountPoolTarget_def using target_rank_inject by (metis order_antisym)
  show "a \<le> b \<or> b \<le> a"
    unfolding less_eq_AccountPoolTarget_def by (rule linear)
qed

end

section \<open>Cooldown state\<close>

type_synonym ProviderCooldownKey = AccountPoolTarget

datatype ProviderCooldownStatus = Available | CoolingDown nat ProviderFailureClass

datatype ProviderCooldownError = ZeroDuration | DurationExceedsMaximum

record ProviderCooldownRecord =
  cd_expires_at :: nat
  cd_failure_class :: ProviderFailureClass

type_synonym ProviderCooldownState = "(ProviderCooldownKey, ProviderCooldownRecord) btree_map"

definition record_cooldown ::
  "ProviderCooldownKey \<Rightarrow> ProviderFailureClass \<Rightarrow> nat \<Rightarrow> nat \<Rightarrow> ProviderCooldownState \<Rightarrow>
   (ProviderCooldownError, unit) result \<times> ProviderCooldownState" where
  "record_cooldown key cls duration now st =
     (if duration = 0 then (Inl ZeroDuration, st)
      else if duration > MAX_PROVIDER_COOLDOWN then (Inl DurationExceedsMaximum, st)
      else let expires_at = now + duration in
        (Inr (), case bt_get st key of
             Some existing \<Rightarrow>
               if cd_expires_at existing \<ge> expires_at then st
               else bt_insert key \<lparr>cd_expires_at = expires_at, cd_failure_class = cls\<rparr> st
           | None \<Rightarrow> bt_insert key \<lparr>cd_expires_at = expires_at, cd_failure_class = cls\<rparr> st))"

definition record_status :: "nat \<Rightarrow> ProviderCooldownRecord \<Rightarrow> ProviderCooldownStatus" where
  "record_status now r =
     (if cd_expires_at r \<le> now then Available
      else CoolingDown (cd_expires_at r - now) (cd_failure_class r))"

definition cooldown_status ::
  "ProviderCooldownKey \<Rightarrow> nat \<Rightarrow> ProviderCooldownState \<Rightarrow> ProviderCooldownStatus \<times> ProviderCooldownState" where
  "cooldown_status key now st =
     (case bt_get st key of
        None \<Rightarrow> (Available, st)
      | Some r \<Rightarrow>
          if cd_expires_at r \<le> now then (Available, bt_remove key st)
          else (CoolingDown (cd_expires_at r - now) (cd_failure_class r), st))"

definition cooldown_snapshot ::
  "nat \<Rightarrow> ProviderCooldownState \<Rightarrow> (ProviderCooldownKey \<times> ProviderCooldownStatus) list" where
  "cooldown_snapshot now st = map (\<lambda>(key, r). (key, record_status now r)) st"

definition prune_expired :: "nat \<Rightarrow> ProviderCooldownState \<Rightarrow> nat \<times> ProviderCooldownState" where
  "prune_expired now st =
     (let st' = bt_retain (\<lambda>_ r. cd_expires_at r > now) st in (length st - length st', st'))"

section \<open>Reference: a log of recordings\<close>

datatype cooldown_op =
  Cd_Record ProviderCooldownKey ProviderFailureClass nat nat
| Cd_Status ProviderCooldownKey nat
| Cd_Prune nat

fun cd_time :: "cooldown_op \<Rightarrow> nat" where
  "cd_time (Cd_Record _ _ _ now) = now"
| "cd_time (Cd_Status _ now) = now"
| "cd_time (Cd_Prune now) = now"

fun cd_apply :: "ProviderCooldownState \<Rightarrow> cooldown_op \<Rightarrow> ProviderCooldownState" where
  "cd_apply st (Cd_Record key cls d now) = snd (record_cooldown key cls d now st)"
| "cd_apply st (Cd_Status key now) = snd (cooldown_status key now st)"
| "cd_apply st (Cd_Prune now) = snd (prune_expired now st)"

text \<open>What a call adds to the log of one target: the end and the class of an accepted recording.\<close>

fun cd_entry :: "ProviderCooldownKey \<Rightarrow> cooldown_op \<Rightarrow> (nat \<times> ProviderFailureClass) list" where
  "cd_entry k (Cd_Record key cls d now) =
     (if key = k \<and> 0 < d \<and> d \<le> MAX_PROVIDER_COOLDOWN then [(now + d, cls)] else [])"
| "cd_entry k _ = []"

definition cd_log :: "ProviderCooldownKey \<Rightarrow> cooldown_op list \<Rightarrow> (nat \<times> ProviderFailureClass) list" where
  "cd_log k ops = concat (map (cd_entry k) ops)"

text \<open>The recording that lasts longest, the earliest of those that end together.\<close>

fun longest :: "(nat \<times> 'c) list \<Rightarrow> (nat \<times> 'c) option" where
  "longest [] = None"
| "longest ((e, c) # xs) =
     (case longest xs of
        None \<Rightarrow> Some (e, c)
      | Some (e', c') \<Rightarrow> if e' > e then Some (e', c') else Some (e, c))"

definition log_status :: "nat \<Rightarrow> (nat \<times> ProviderFailureClass) list \<Rightarrow> ProviderCooldownStatus" where
  "log_status now xs =
     (case longest xs of
        None \<Rightarrow> Available
      | Some (e, c) \<Rightarrow> if e \<le> now then Available else CoolingDown (e - now) c)"

lemma longest_snoc:
  "longest (xs @ [(e, c)]) =
     (case longest xs of
        None \<Rightarrow> Some (e, c)
      | Some (e', c') \<Rightarrow> if e > e' then Some (e, c) else Some (e', c'))"
  by (induction xs rule: longest.induct) (auto split: option.splits)

lemma longest_None: "longest xs = None \<longleftrightarrow> xs = []"
  by (cases xs rule: longest.cases) (auto split: option.splits if_splits)

lemma longest_max: "longest xs = Some (e, c) \<Longrightarrow> (e, c) \<in> set xs \<and> (\<forall>x \<in> set xs. fst x \<le> e)"
proof (induction xs arbitrary: e c rule: longest.induct)
  case (2 d b xs)
  show ?case
  proof (cases "longest xs")
    case None
    then show ?thesis using "2.prems" by (simp add: longest_None)
  next
    case (Some r)
    obtain e' c' where r: "longest xs = Some (e', c')" using Some by (cases r) simp
    show ?thesis using "2.IH" [OF r] "2.prems" r by (fastforce split: if_splits)
  qed
qed simp

lemma cd_log_Nil [simp]: "cd_log k [] = []"
  by (simp add: cd_log_def)

lemma cd_log_snoc [simp]: "cd_log k (ops @ [x]) = cd_log k ops @ cd_entry k x"
  by (simp add: cd_log_def)

text \<open>What is visible of a target from an instant on.\<close>

definition live_record :: "nat \<Rightarrow> (nat \<times> 'c) option \<Rightarrow> (nat \<times> 'c) option" where
  "live_record t r = (case r of Some (e, c) \<Rightarrow> if t < e then Some (e, c) else None | None \<Rightarrow> None)"

definition stored :: "ProviderCooldownState \<Rightarrow> ProviderCooldownKey \<Rightarrow> (nat \<times> ProviderFailureClass) option" where
  "stored st k = map_option (\<lambda>r. (cd_expires_at r, cd_failure_class r)) (bt_get st k)"

definition cd_agrees :: "nat \<Rightarrow> ProviderCooldownState \<Rightarrow> cooldown_op list \<Rightarrow> bool" where
  "cd_agrees t st ops \<longleftrightarrow> bt_wf st \<and> (\<forall>k. live_record t (stored st k) = live_record t (longest (cd_log k ops)))"

lemma live_record_mono: "live_record t a = live_record t b \<Longrightarrow> t \<le> t' \<Longrightarrow> live_record t' a = live_record t' b"
  by (auto simp: live_record_def split: option.splits if_splits)

lemma cd_agrees_later: "cd_agrees t st ops \<Longrightarrow> t \<le> t' \<Longrightarrow> cd_agrees t' st ops"
  unfolding cd_agrees_def using live_record_mono by blast

lemma stored_insert:
  "stored (bt_insert key r st) k = (if k = key then Some (cd_expires_at r, cd_failure_class r) else stored st k)"
  by (simp add: stored_def)

lemma record_cooldown_stored:
  assumes "0 < d" "d \<le> MAX_PROVIDER_COOLDOWN"
  shows "stored (snd (record_cooldown key cls d now st)) k =
    (if k \<noteq> key then stored st k
     else case stored st key of
         None \<Rightarrow> Some (now + d, cls)
       | Some (e, c) \<Rightarrow> if e \<ge> now + d then Some (e, c) else Some (now + d, cls))"
  using assms by (auto simp: record_cooldown_def Let_def stored_insert stored_def split: option.splits)

lemma record_cooldown_wf: "bt_wf st \<Longrightarrow> bt_wf (snd (record_cooldown key cls d now st))"
  by (simp add: record_cooldown_def Let_def split: option.split)

lemma record_cooldown_rejected:
  "\<not> (0 < d \<and> d \<le> MAX_PROVIDER_COOLDOWN) \<Longrightarrow> snd (record_cooldown key cls d now st) = st"
  by (auto simp: record_cooldown_def)

lemma cd_agrees_record:
  assumes "cd_agrees now st ops"
  shows "cd_agrees now (snd (record_cooldown key cls d now st)) (ops @ [Cd_Record key cls d now])"
proof (cases "0 < d \<and> d \<le> MAX_PROVIDER_COOLDOWN")
  case True
  have old: "live_record now (stored st k) = live_record now (longest (cd_log k ops))" for k
    using assms by (simp add: cd_agrees_def)
  have "live_record now (stored (snd (record_cooldown key cls d now st)) k) =
      live_record now (longest (cd_log k (ops @ [Cd_Record key cls d now])))" for k
    using old [of k] True
    by (auto simp: record_cooldown_stored longest_snoc live_record_def split: option.splits if_splits)
  then show ?thesis using assms by (simp add: cd_agrees_def record_cooldown_wf del: cd_log_snoc cd_entry.simps)
next
  case False
  then have "cd_entry k (Cd_Record key cls d now) = []" for k by auto
  then show ?thesis using assms False by (simp add: cd_agrees_def record_cooldown_rejected del: cd_entry.simps)
qed

lemma cd_agrees_quiet:
  assumes "cd_agrees now st ops" "cd_entry k' x = []" "\<And>k. cd_entry k x = []" "bt_wf st'"
    and "\<And>k. live_record now (stored st' k) = live_record now (stored st k)"
  shows "cd_agrees now st' (ops @ [x])"
  using assms by (simp add: cd_agrees_def)

lemma cd_agrees_step:
  assumes "cd_agrees t st ops" "t \<le> cd_time x"
  shows "cd_agrees (cd_time x) (cd_apply st x) (ops @ [x])"
proof -
  have a: "cd_agrees (cd_time x) st ops" by (rule cd_agrees_later [OF assms])
  have wf: "bt_wf st" using a by (simp add: cd_agrees_def)
  show ?thesis
  proof (cases x)
    case (Cd_Record key cls d now)
    then show ?thesis using cd_agrees_record a by simp
  next
    case (Cd_Status key now)
    have "live_record now (stored (snd (cooldown_status key now st)) k) = live_record now (stored st k)" for k
      using wf by (cases "bt_get st key"; cases "k = key")
        (auto simp: cooldown_status_def stored_def live_record_def)
    moreover have "bt_wf (snd (cooldown_status key now st))"
      using wf by (simp add: cooldown_status_def split: option.split)
    ultimately show ?thesis using a Cd_Status by (auto intro!: cd_agrees_quiet [where k' = key and st = st])
  next
    case (Cd_Prune now)
    have "live_record now (stored (snd (prune_expired now st)) k) = live_record now (stored st k)" for k
      using wf by (auto simp: prune_expired_def Let_def stored_def bt_get_retain live_record_def split: option.splits)
    moreover have "bt_wf (snd (prune_expired now st))"
      using wf by (simp add: prune_expired_def Let_def)
    ultimately show ?thesis using a Cd_Prune by (auto intro!: cd_agrees_quiet [where k' = undefined and st = st])
  qed
qed

lemma cd_agrees_run:
  "sorted (map cd_time ops) \<Longrightarrow> \<forall>x \<in> set ops. cd_time x \<le> t \<Longrightarrow> cd_agrees t (foldl cd_apply [] ops) ops"
proof (induction ops arbitrary: t rule: rev_induct)
  case Nil
  show ?case by (simp add: cd_agrees_def stored_def)
next
  case (snoc x xs)
  then have "cd_agrees (cd_time x) (foldl cd_apply [] xs) xs"
    by (simp add: sorted_append)
  from cd_agrees_step [OF this order_refl] have "cd_agrees (cd_time x) (foldl cd_apply [] (xs @ [x])) (xs @ [x])"
    by simp
  then show ?case using snoc.prems(2) by (auto intro: cd_agrees_later)
qed

section \<open>Properties\<close>

text \<open>C27: The cooldown state answers like a log of all recordings. After any calls at non-decreasing
  instants, the status of a target at a later instant is that of its longest accepted recording, the
  earliest of those that end together: cooling down for the rest of it with its class, or available
  once it is over. Lazy removal and pruning are invisible, no recording ever shortens a cooldown, and
  the read-only snapshot gives every stored target the same status.\<close>

theorem cooldown_status_is_log_status:
  assumes "sorted (map cd_time ops)" "\<forall>x \<in> set ops. cd_time x \<le> t"
  shows "let st = foldl cd_apply [] ops in
     fst (cooldown_status k t st) = log_status t (cd_log k ops)
     \<and> (\<forall>k' s. (k', s) \<in> set (cooldown_snapshot t st) \<longrightarrow> s = log_status t (cd_log k' ops))"
proof -
  let ?st = "foldl cd_apply [] ops"
  have a: "live_record t (stored ?st k) = live_record t (longest (cd_log k ops))" and wf: "bt_wf ?st" for k
    using cd_agrees_run [OF assms] by (simp_all add: cd_agrees_def)
  have get: "record_status t r = log_status t (cd_log k ops)" if "bt_get ?st k = Some r" for k r
    using a [of k] that
    by (auto simp: stored_def live_record_def record_status_def log_status_def split: option.splits if_splits)
  have none: "Available = log_status t (cd_log k ops)" if "bt_get ?st k = None" for k
    using a [of k] that
    by (auto simp: stored_def live_record_def log_status_def split: option.splits if_splits)
  have "fst (cooldown_status k t ?st) = log_status t (cd_log k ops)"
    using get [of k] none [of k]
    by (cases "bt_get ?st k") (simp_all add: cooldown_status_def record_status_def split: if_splits)
  moreover have "s = log_status t (cd_log k' ops)" if "(k', s) \<in> set (cooldown_snapshot t ?st)" for k' s
    using that get wf by (auto simp: cooldown_snapshot_def bt_get_of_set)
  ultimately show ?thesis by (simp add: Let_def)
qed

definition demo_cooldowns :: "cooldown_op list" where
  "demo_cooldowns = [Cd_Record (OmniRouteConnection ''a'') FC_RateLimited 50 1,
     Cd_Record (OmniRouteConnection ''a'') FC_Network 20 10, Cd_Prune 40]"

theorem cooldown_status_is_log_status_witness:
  "fst (cooldown_status (OmniRouteConnection ''a'') 45 (foldl cd_apply [] demo_cooldowns)) =
     CoolingDown 6 FC_RateLimited"
proof -
  have "log_status 45 (cd_log (OmniRouteConnection ''a'') demo_cooldowns) = CoolingDown 6 FC_RateLimited"
    by (simp add: log_status_def cd_log_def demo_cooldowns_def MAX_PROVIDER_COOLDOWN_def)
  then show ?thesis
    using cooldown_status_is_log_status [of demo_cooldowns 45 "OmniRouteConnection ''a''"]
    by (simp add: demo_cooldowns_def Let_def)
qed

text \<open>A cooldown is recorded only on evidence, and a recorded decision is always accepted. When the
  failure's input carries no hint outside the documented bounds, a recording decision implies that
  the invocation was attempted, was not cancelled and failed in a class that may cool down, that the
  delay is positive and at most a day, and that recording it succeeds and leaves the target cooling
  down for at least that long.\<close>

theorem recorded_cooldown_is_justified:
  assumes "\<forall>h. pfi_cooldown_hint i = Some h \<longrightarrow> hint_from_duration (hint_duration h) = Some h"
    and "cooldown_recording_decision (classify_provider_failure i) attempted = Decision_Record d cls code"
  shows "attempted \<and> \<not> pfi_cancelled i
     \<and> cls \<in> {FC_RateLimited, FC_QuotaExhausted, FC_ProviderUnavailable, FC_Network, FC_Timeout}
     \<and> 0 < d \<and> d \<le> MAX_PROVIDER_COOLDOWN \<and> code = pfi_structured_code i
     \<and> fst (record_cooldown key cls d now st) = Inr ()
     \<and> (\<exists>remaining c. fst (cooldown_status key now (snd (record_cooldown key cls d now st))) = CoolingDown remaining c
          \<and> d \<le> remaining)"
proof -
  let ?c = "classify_provider_failure i"
  have dec: "attempted" "cls = pfc_class ?c" "code = pfc_safe_code ?c"
      "cls \<in> {FC_RateLimited, FC_QuotaExhausted, FC_ProviderUnavailable, FC_Network, FC_Timeout}"
    and hint: "pfc_cooldown_hint ?c = Some (RetryAfter d)"
    using assms(2) by (auto simp: cooldown_recording_decision_def split: if_splits option.splits)
  have "pfi_cooldown_hint i = Some (RetryAfter d)
      \<or> (\<exists>s. from_retry_after_seconds s = Some (RetryAfter d))"
    using hint by (auto simp: classify_provider_failure_def Let_def split: option.splits if_splits
        Option.bind_splits)
  then have d: "0 < d" "d \<le> MAX_PROVIDER_COOLDOWN"
    using assms(1) by (auto simp: hint_from_duration_def from_retry_after_seconds_def Let_def split: if_splits)
  have nc: "\<not> pfi_cancelled i" using dec(2,4) by (auto simp: classify_provider_failure_def Let_def)
  have code: "code = pfi_structured_code i"
    using dec(3) by (simp add: classify_provider_failure_def Let_def split: if_splits option.splits)
  have rec: "fst (record_cooldown key cls d now st) = Inr ()"
    using d by (simp add: record_cooldown_def Let_def)
  obtain e c where e: "stored (snd (record_cooldown key cls d now st)) key = Some (e, c)" "now + d \<le> e"
    using record_cooldown_stored [OF d, of key cls now st key]
    by (auto split: option.splits if_splits)
  then have "fst (cooldown_status key now (snd (record_cooldown key cls d now st))) = CoolingDown (e - now) c \<and> d \<le> e - now"
    using d(1) by (auto simp: cooldown_status_def stored_def)
  with dec(1,4) nc d code rec show ?thesis by blast
qed

theorem recorded_cooldown_is_justified_witness:
  "let i = with_retry_after_seconds 5 (with_http_status 429 (ProviderFailureInput_new OmniRoute)) in
   cooldown_recording_decision (classify_provider_failure i) True = Decision_Record 5000000000 FC_RateLimited None
   \<and> fst (record_cooldown (OmniRouteConnection ''a'') FC_RateLimited 5000000000 3 []) = Inr ()"
proof -
  let ?i = "with_retry_after_seconds 5 (with_http_status 429 (ProviderFailureInput_new OmniRoute))"
  have "cooldown_recording_decision (classify_provider_failure ?i) True = Decision_Record 5000000000 FC_RateLimited None"
    by (simp add: cooldown_recording_decision_def classify_provider_failure_def with_retry_after_seconds_def
        with_http_status_def ProviderFailureInput_new_def Let_def from_retry_after_seconds_def
        MAX_PROVIDER_COOLDOWN_def classify_http_status_def)
  then show ?thesis
    using recorded_cooldown_is_justified [of ?i True 5000000000 FC_RateLimited None "OmniRouteConnection ''a''" 3 "[]"]
    by (simp add: Let_def with_retry_after_seconds_def with_http_status_def ProviderFailureInput_new_def)
qed

text \<open>Which invocation errors cool a target down. Of the errors an adapter reports, exactly the rate
  limit that carries a delay between one nanosecond and a day leads to a recorded cooldown, for that
  delay and in the rate-limited class; every other error, a bare rate limit, an exhausted quota, a
  timeout or an unavailable provider included, records nothing.\<close>

theorem invocation_error_cooldown_iff:
  "cooldown_recording_decision (classify_provider_invocation_error fam e) attempted = Decision_Record d cls code
   \<longleftrightarrow> attempted \<and> e = Inv_RateLimitedWithRetryAfter (Some d) \<and> 0 < d \<and> d \<le> MAX_PROVIDER_COOLDOWN
     \<and> cls = FC_RateLimited \<and> code = None"
proof (cases e)
  case (Inv_RateLimitedWithRetryAfter r)
  then show ?thesis
    by (cases r) (auto simp: classify_provider_invocation_error_def cooldown_recording_decision_def Let_def
        ProviderFailureInput_new_def hint_from_duration_def with_cooldown_hint_def)
qed (simp_all add: classify_provider_invocation_error_def cooldown_recording_decision_def Let_def
    ProviderFailureInput_new_def classify_provider_failure_def)

end
