(* ===== verification/Routing_Profiles.thy ===== *)
theory Routing_Profiles
  imports Account_Pools
begin

text \<open>
  Routing profiles (\<open>routing_profiles.rs\<close>) and their pool bindings
  (\<open>routing_pool_bindings.rs\<close>): roles, assignments, profiles, the profile registry with its
  active profile, the directory of usable connections and the resolution of pool-bound
  assignments into direct ones.
\<close>

section \<open>Roles\<close>

datatype RoutingRole = Main | Planner | Executor | Verifier | Repair

text \<open>The derived \<open>Ord\<close> follows the declaration order.\<close>

fun role_index :: "RoutingRole \<Rightarrow> nat" where
  "role_index Main = 0"
| "role_index Planner = 1"
| "role_index Executor = 2"
| "role_index Verifier = 3"
| "role_index Repair = 4"

lemma role_index_inject: "role_index a = role_index b \<Longrightarrow> a = b"
  by (cases a; cases b) simp_all

instantiation RoutingRole :: linorder
begin

definition less_eq_RoutingRole :: "RoutingRole \<Rightarrow> RoutingRole \<Rightarrow> bool" where
  "less_eq_RoutingRole a b \<longleftrightarrow> role_index a \<le> role_index b"

definition less_RoutingRole :: "RoutingRole \<Rightarrow> RoutingRole \<Rightarrow> bool" where
  "less_RoutingRole a b \<longleftrightarrow> role_index a < role_index b"

instance
  by standard (auto simp: less_eq_RoutingRole_def less_RoutingRole_def intro: role_index_inject)

end

datatype RoutingProfileError =
  RP_InvalidProfileId | RP_InvalidProfileName | RP_DuplicateProfileId | RP_UnknownProfile
  | RP_DisabledProfile | RP_ActiveProfileDeletionRejected | RP_MissingActiveProfile
  | RP_MissingRoleAssignment | RP_DuplicateRoleAssignment | RP_DisabledAssignment
  | RP_InvalidAssignment | RP_InvalidRole | RP_UnknownConnection | RP_DisabledConnection
  | RP_UnvalidatedConnection | RP_ProviderMismatch | RP_InvalidModelId | RP_ModelUnverified
  | RP_ModelNotFound | RP_UnsupportedProvider | RP_UnsupportedAuthenticationMethod
  | RP_RegistryUnavailable | RP_RegistryMalformed | RP_RegistryTooLarge | RP_TooManyProfiles
  | RP_TooManyAssignments | RP_TooManyAutomaticCandidates | RP_AtomicWriteFailed
  | RP_UnsupportedSchemaVersion

definition required_for_sequential :: "RoutingRole \<Rightarrow> bool" where
  "required_for_sequential r \<longleftrightarrow> r \<in> {Main, Planner, Executor, Verifier}"

definition RoutingRole_parse :: "string \<Rightarrow> (RoutingProfileError, RoutingRole) result" where
  "RoutingRole_parse v =
     (if v = ''main'' then Inr Main
      else if v = ''planner'' then Inr Planner
      else if v = ''executor'' then Inr Executor
      else if v = ''verifier'' then Inr Verifier
      else if v = ''repair'' then Inr Repair
      else Inl RP_InvalidRole)"

fun RoutingRole_display :: "RoutingRole \<Rightarrow> string" where
  "RoutingRole_display Main = ''main''"
| "RoutingRole_display Planner = ''planner''"
| "RoutingRole_display Executor = ''executor''"
| "RoutingRole_display Verifier = ''verifier''"
| "RoutingRole_display Repair = ''repair''"

section \<open>Assignments and profiles\<close>

definition RP_SCHEMA_VERSION :: nat where "RP_SCHEMA_VERSION = 1"
definition RP_MAX_FILE_BYTES :: nat where "RP_MAX_FILE_BYTES = 256 * 1024"
definition RP_MAX_PROFILES :: nat where "RP_MAX_PROFILES = 32"
definition MAX_ASSIGNMENTS :: nat where "MAX_ASSIGNMENTS = 16"
definition MAX_AUTOMATIC_CANDIDATES_PER_ROLE :: nat where "MAX_AUTOMATIC_CANDIDATES_PER_ROLE = 32"
definition RP_MAX_ID_BYTES :: nat where "RP_MAX_ID_BYTES = 128"
definition MAX_NAME_BYTES :: nat where "MAX_NAME_BYTES = 256"
definition MAX_DESCRIPTION_BYTES :: nat where "MAX_DESCRIPTION_BYTES = 512"
definition MAX_MODEL_BYTES :: nat where "MAX_MODEL_BYTES = 256"

type_synonym RoutingProfileId = string

definition validate_id :: "string \<Rightarrow> RoutingProfileError \<Rightarrow> (RoutingProfileError, unit) result" where
  "validate_id v e =
     (if v = [] \<or> length v > RP_MAX_ID_BYTES \<or> \<not> list_all slug_char v then Inl e else Inr ())"

definition RoutingProfileId_new :: "string \<Rightarrow> (RoutingProfileError, RoutingProfileId) result" where
  "RoutingProfileId_new v = res_bind (validate_id v RP_InvalidProfileId) (\<lambda>_. Inr v)"

interpretation routing_profile_id: validated_text "\<lambda>s. s" "\<lambda>s. s" RoutingProfileId_new
  "valid_slug RP_MAX_ID_BYTES"
  by unfold_locales (auto simp: RoutingProfileId_new_def validate_id_def valid_slug_def)

definition bounded_text :: "string \<Rightarrow> nat \<Rightarrow> RoutingProfileError \<Rightarrow> (RoutingProfileError, string) result" where
  "bounded_text v limit e =
     (if is_blank v \<or> length v > limit \<or> has_control v then Inl e else Inr v)"

record RoutingAssignment =
  ra_connection_id :: string
  ra_provider_id :: string
  ra_model_id :: string
  ra_enabled :: bool
  ra_label :: "string option"
  ra_pool_id :: "PoolId option"

definition validate_assignment :: "RoutingAssignment \<Rightarrow> (RoutingProfileError, unit) result" where
  "validate_assignment a =
     (if is_blank (ra_provider_id a)
         \<or> (ra_pool_id a = None \<and> is_blank (ra_connection_id a))
         \<or> (ra_pool_id a \<noteq> None \<and> \<not> is_blank (ra_connection_id a))
      then Inl RP_InvalidAssignment
      else if is_blank (ra_model_id a) then Inl RP_InvalidModelId
      else if length (ra_model_id a) > MAX_MODEL_BYTES then Inl RP_InvalidModelId
      else case ra_label a of
          None \<Rightarrow> Inr ()
        | Some label \<Rightarrow> res_bind (bounded_text label MAX_NAME_BYTES RP_InvalidAssignment) (\<lambda>_. Inr ()))"

record RoutingProfile =
  rp_id :: RoutingProfileId
  rp_name :: string
  rp_assignments :: "(RoutingRole, RoutingAssignment) btree_map"
  rp_automatic_candidates :: "(RoutingRole, RoutingAssignment list) btree_map"
  rp_created_at :: nat
  rp_updated_at :: nat
  rp_schema_version :: nat
  rp_enabled :: bool
  rp_description :: "string option"

definition RoutingProfile_new ::
  "RoutingProfileId \<Rightarrow> string \<Rightarrow> nat \<Rightarrow> (RoutingProfileError, RoutingProfile) result" where
  "RoutingProfile_new i name now =
     res_bind (bounded_text name MAX_NAME_BYTES RP_InvalidProfileName) (\<lambda>name.
       Inr \<lparr>rp_id = i, rp_name = name, rp_assignments = [], rp_automatic_candidates = [],
            rp_created_at = now, rp_updated_at = now, rp_schema_version = RP_SCHEMA_VERSION,
            rp_enabled = True, rp_description = None\<rparr>)"

definition assign ::
  "RoutingRole \<Rightarrow> RoutingAssignment \<Rightarrow> RoutingProfile \<Rightarrow> (RoutingProfileError, unit) result \<times> RoutingProfile" where
  "assign role a p =
     (case res_bind (validate_assignment a) (\<lambda>_.
           res_bind (ensure (bt_get (rp_assignments p) role = None) RP_DuplicateRoleAssignment) (\<lambda>_.
             ensure (length (rp_assignments p) < MAX_ASSIGNMENTS) RP_TooManyAssignments)) of
        Inl e \<Rightarrow> (Inl e, p)
      | Inr _ \<Rightarrow> (Inr (), p\<lparr>rp_assignments := bt_insert role a (rp_assignments p)\<rparr>))"

definition replace_assignment ::
  "RoutingRole \<Rightarrow> RoutingAssignment \<Rightarrow> RoutingProfile \<Rightarrow> (RoutingProfileError, unit) result \<times> RoutingProfile" where
  "replace_assignment role a p =
     (case validate_assignment a of
        Inl e \<Rightarrow> (Inl e, p)
      | Inr _ \<Rightarrow> (Inr (), p\<lparr>rp_assignments := bt_insert role a (rp_assignments p)\<rparr>))"

definition unassign :: "RoutingRole \<Rightarrow> RoutingProfile \<Rightarrow> (RoutingProfileError, unit) result \<times> RoutingProfile" where
  "unassign role p =
     (if bt_get (rp_assignments p) role = None then (Inl RP_MissingRoleAssignment, p)
      else (Inr (), p\<lparr>rp_assignments := bt_remove role (rp_assignments p)\<rparr>))"

definition set_automatic_candidates ::
  "RoutingRole \<Rightarrow> RoutingAssignment list \<Rightarrow> RoutingProfile \<Rightarrow>
   (RoutingProfileError, unit) result \<times> RoutingProfile" where
  "set_automatic_candidates role candidates p =
     (if candidates = [] then
        (Inr (), p\<lparr>rp_automatic_candidates := bt_remove role (rp_automatic_candidates p)\<rparr>)
      else if length candidates > MAX_AUTOMATIC_CANDIDATES_PER_ROLE
      then (Inl RP_TooManyAutomaticCandidates, p)
      else case try_each validate_assignment candidates of
          Inl e \<Rightarrow> (Inl e, p)
        | Inr _ \<Rightarrow> (Inr (), p\<lparr>rp_automatic_candidates :=
                       bt_insert role candidates (rp_automatic_candidates p)\<rparr>))"

definition automatic_candidates_for :: "RoutingProfile \<Rightarrow> RoutingRole \<Rightarrow> RoutingAssignment list" where
  "automatic_candidates_for p role =
     (case bt_get (rp_automatic_candidates p) role of
        Some (c # cs) \<Rightarrow> c # cs
      | _ \<Rightarrow> (case bt_get (rp_assignments p) role of None \<Rightarrow> [] | Some a \<Rightarrow> [a]))"

definition validate_required_roles :: "RoutingProfile \<Rightarrow> (RoutingProfileError, unit) result" where
  "validate_required_roles p =
     try_each (\<lambda>role.
       res_bind (ok_or (bt_get (rp_assignments p) role) RP_MissingRoleAssignment) (\<lambda>a.
         ensure (ra_enabled a) RP_DisabledAssignment)) [Main, Planner, Executor, Verifier]"

definition resolve_role :: "RoutingProfile \<Rightarrow> RoutingRole \<Rightarrow> (RoutingProfileError, ProviderSelection) result" where
  "resolve_role p role =
     res_bind (ok_or (bt_get (rp_assignments p) role) RP_MissingRoleAssignment) (\<lambda>a.
     res_bind (ensure (ra_enabled a) RP_DisabledAssignment) (\<lambda>_.
       map_err (\<lambda>_. RP_InvalidAssignment)
         (ProviderSelection_new (ra_connection_id a) (ra_provider_id a) (ra_model_id a))))"

definition resolve_required_sequential_selections ::
  "RoutingProfile \<Rightarrow> (RoutingProfileError, ProviderSelection list) result" where
  "resolve_required_sequential_selections p =
     res_bind (resolve_role p Main) (\<lambda>a.
     res_bind (resolve_role p Planner) (\<lambda>b.
     res_bind (resolve_role p Executor) (\<lambda>c.
     res_bind (resolve_role p Verifier) (\<lambda>d. Inr [a, b, c, d]))))"

definition validate_profile_structure :: "RoutingProfile \<Rightarrow> (RoutingProfileError, unit) result" where
  "validate_profile_structure p =
     res_bind (ensure (rp_schema_version p = RP_SCHEMA_VERSION) RP_UnsupportedSchemaVersion) (\<lambda>_.
     res_bind (ensure (length (rp_assignments p) \<le> MAX_ASSIGNMENTS) RP_TooManyAssignments) (\<lambda>_.
     res_bind (bounded_text (rp_name p) MAX_NAME_BYTES RP_InvalidProfileName) (\<lambda>_.
     res_bind (case rp_description p of
                 None \<Rightarrow> Inr ()
               | Some d \<Rightarrow> res_bind (bounded_text d MAX_DESCRIPTION_BYTES RP_InvalidProfileName)
                             (\<lambda>_. Inr ())) (\<lambda>_.
     res_bind (try_each validate_assignment (bt_values (rp_assignments p))) (\<lambda>_.
       try_each (\<lambda>candidates.
         res_bind (ensure (length candidates \<le> MAX_AUTOMATIC_CANDIDATES_PER_ROLE)
                     RP_TooManyAutomaticCandidates) (\<lambda>_.
           try_each validate_assignment candidates)) (bt_values (rp_automatic_candidates p)))))))"

section \<open>The profile registry\<close>

record RoutingProfileRegistry =
  reg_schema_version :: nat
  reg_active_profile_id :: "RoutingProfileId option"
  reg_profiles :: "(RoutingProfileId, RoutingProfile) btree_map"

definition registry_default :: RoutingProfileRegistry where
  "registry_default =
     \<lparr>reg_schema_version = RP_SCHEMA_VERSION, reg_active_profile_id = None, reg_profiles = []\<rparr>"

definition registry_insert ::
  "RoutingProfile \<Rightarrow> RoutingProfileRegistry \<Rightarrow> (RoutingProfileError, unit) result \<times> RoutingProfileRegistry" where
  "registry_insert p r =
     (case res_bind (validate_profile_structure p) (\<lambda>_.
           res_bind (ensure (length (reg_profiles r) < RP_MAX_PROFILES) RP_TooManyProfiles) (\<lambda>_.
             ensure (bt_get (reg_profiles r) (rp_id p) = None) RP_DuplicateProfileId)) of
        Inl e \<Rightarrow> (Inl e, r)
      | Inr _ \<Rightarrow> (Inr (), r\<lparr>reg_profiles := bt_insert (rp_id p) p (reg_profiles r)\<rparr>))"

definition registry_get :: "RoutingProfileRegistry \<Rightarrow> RoutingProfileId \<Rightarrow> RoutingProfile option" where
  "registry_get r k = bt_get (reg_profiles r) k"

text \<open>\<open>get_mut\<close> followed by one of the profile's own operations.\<close>

definition registry_edit ::
  "RoutingProfileId \<Rightarrow> (RoutingProfile \<Rightarrow> (RoutingProfileError, unit) result \<times> RoutingProfile) \<Rightarrow>
   RoutingProfileRegistry \<Rightarrow> RoutingProfileRegistry" where
  "registry_edit k f r =
     (case bt_get (reg_profiles r) k of
        None \<Rightarrow> r
      | Some p \<Rightarrow> r\<lparr>reg_profiles := bt_insert k (snd (f p)) (reg_profiles r)\<rparr>)"

definition activate ::
  "RoutingProfileId \<Rightarrow> RoutingProfileRegistry \<Rightarrow>
   (RoutingProfileError, RoutingProfileId option \<times> RoutingProfileId) result \<times> RoutingProfileRegistry" where
  "activate k r =
     (case res_bind (ok_or (bt_get (reg_profiles r) k) RP_UnknownProfile) (\<lambda>p.
           res_bind (ensure (rp_enabled p) RP_DisabledProfile) (\<lambda>_. validate_required_roles p)) of
        Inl e \<Rightarrow> (Inl e, r)
      | Inr _ \<Rightarrow> (Inr (reg_active_profile_id r, k), r\<lparr>reg_active_profile_id := Some k\<rparr>))"

definition active :: "RoutingProfileRegistry \<Rightarrow> (RoutingProfileError, RoutingProfile) result" where
  "active r =
     ok_or (case reg_active_profile_id r of None \<Rightarrow> None | Some k \<Rightarrow> bt_get (reg_profiles r) k)
       RP_MissingActiveProfile"

definition registry_delete ::
  "RoutingProfileId \<Rightarrow> RoutingProfileRegistry \<Rightarrow> (RoutingProfileError, unit) result \<times> RoutingProfileRegistry" where
  "registry_delete k r =
     (if reg_active_profile_id r = Some k then (Inl RP_ActiveProfileDeletionRejected, r)
      else if bt_get (reg_profiles r) k = None then (Inl RP_UnknownProfile, r)
      else (Inr (), r\<lparr>reg_profiles := bt_remove k (reg_profiles r)\<rparr>))"

definition registry_validate :: "RoutingProfileRegistry \<Rightarrow> (RoutingProfileError, unit) result" where
  "registry_validate r =
     res_bind (ensure (reg_schema_version r = RP_SCHEMA_VERSION) RP_UnsupportedSchemaVersion) (\<lambda>_.
     res_bind (ensure (length (reg_profiles r) \<le> RP_MAX_PROFILES) RP_TooManyProfiles) (\<lambda>_.
     res_bind (case reg_active_profile_id r of
                 None \<Rightarrow> Inr ()
               | Some k \<Rightarrow> ensure (bt_get (reg_profiles r) k \<noteq> None) RP_MissingActiveProfile) (\<lambda>_.
       try_each validate_profile_structure (bt_values (reg_profiles r)))))"

definition registry_load ::
  "(string \<Rightarrow> RoutingProfileRegistry option) \<Rightarrow> file_read \<Rightarrow>
   (RoutingProfileError, RoutingProfileRegistry) result" where
  "registry_load from_slice contents =
     (case contents of
        File_NotFound \<Rightarrow> Inr registry_default
      | File_Error \<Rightarrow> Inl RP_RegistryUnavailable
      | File_Bytes bytes \<Rightarrow>
          res_bind (ensure (length bytes \<le> RP_MAX_FILE_BYTES) RP_RegistryTooLarge) (\<lambda>_.
          res_bind (ok_or (from_slice bytes) RP_RegistryMalformed) (\<lambda>registry.
          res_bind (registry_validate registry) (\<lambda>_. Inr registry))))"

definition registry_save_bytes ::
  "(RoutingProfileRegistry \<Rightarrow> string option) \<Rightarrow> RoutingProfileRegistry \<Rightarrow>
   (RoutingProfileError, string) result" where
  "registry_save_bytes to_vec r =
     res_bind (registry_validate r) (\<lambda>_.
     res_bind (ok_or (to_vec r) RP_RegistryMalformed) (\<lambda>bytes.
     res_bind (ensure (length bytes \<le> RP_MAX_FILE_BYTES) RP_RegistryTooLarge) (\<lambda>_. Inr bytes)))"

section \<open>The directory of connections\<close>

record RoutingConnectionInfo =
  ci_connection_id :: string
  ci_provider_id :: string
  ci_enabled :: bool
  ci_validation :: ConnectionValidationStatus
  ci_authentication_supported :: bool
  ci_models :: "string list option"

type_synonym RoutingConnectionDirectory = "(string, RoutingConnectionInfo) btree_map"

definition directory_insert :: "RoutingConnectionInfo \<Rightarrow> RoutingConnectionDirectory \<Rightarrow> RoutingConnectionDirectory" where
  "directory_insert info d = bt_insert (ci_connection_id info) info d"

definition connection_info :: "OmniRouteConnectionMetadata \<Rightarrow> RoutingConnectionInfo" where
  "connection_info c =
     \<lparr>ci_connection_id = omni_connection_id c, ci_provider_id = omni_provider_id c,
      ci_enabled = omni_enabled c, ci_validation = validation_status (omni_validation c),
      ci_authentication_supported = True, ci_models = Some (omni_models c)\<rparr>"

definition from_omniroute :: "OmniRouteRegistry \<Rightarrow> RoutingConnectionDirectory" where
  "from_omniroute r = foldl (\<lambda>d c. directory_insert (connection_info c) d) [] (bt_values r)"

definition codex_info :: "CodexAccountConnectionMetadata \<Rightarrow> RoutingConnectionInfo" where
  "codex_info c =
     \<lparr>ci_connection_id = acct_connection_id c, ci_provider_id = acct_provider_id c,
      ci_enabled = acct_enabled c,
      ci_validation = (if acct_state c = Connected \<and> \<not> is_blank (acct_credential_reference c)
                       then acct_validation c else Status_Invalid),
      ci_authentication_supported = True, ci_models = None\<rparr>"

definition add_codex :: "CodexAccountProfileRegistry \<Rightarrow> RoutingConnectionDirectory \<Rightarrow> RoutingConnectionDirectory" where
  "add_codex r d = foldl (\<lambda>d c. directory_insert (codex_info c) d) d (bt_values (accounts_profiles r))"

datatype RoutingResolutionStatus = LocallyValid | ModelUnverified

definition directory_validate_assignment ::
  "RoutingConnectionDirectory \<Rightarrow> RoutingAssignment \<Rightarrow> (RoutingProfileError, RoutingResolutionStatus) result" where
  "directory_validate_assignment d a =
     res_bind (validate_assignment a) (\<lambda>_.
     res_bind (ok_or (bt_get d (ra_connection_id a)) RP_UnknownConnection) (\<lambda>c.
     res_bind (ensure (ci_enabled c) RP_DisabledConnection) (\<lambda>_.
     res_bind (ensure (ci_validation c = Status_Valid) RP_UnvalidatedConnection) (\<lambda>_.
     res_bind (ensure (ci_provider_id c = ra_provider_id a) RP_ProviderMismatch) (\<lambda>_.
     res_bind (ensure (ci_authentication_supported c) RP_UnsupportedAuthenticationMethod) (\<lambda>_.
       case ci_models c of
         Some models \<Rightarrow> if ra_model_id a \<notin> set models then Inl RP_ModelNotFound else Inr LocallyValid
       | None \<Rightarrow> Inr ModelUnverified))))))"

definition provider_id_for :: "RoutingConnectionDirectory \<Rightarrow> string \<Rightarrow> string option" where
  "provider_id_for d cid = map_option ci_provider_id (bt_get d cid)"

section \<open>Pool bindings\<close>

datatype RoutingPoolResolutionError =
  Binding_Pool PoolId PoolResolutionError
| Binding_ProviderFamilyMismatch PoolId
| Binding_UnsupportedProvider
| Binding_RoutingProfile RoutingProfileError

definition binding_provider_family ::
  "string \<Rightarrow> (RoutingPoolResolutionError, AccountPoolProviderFamily) result" where
  "binding_provider_family provider_id =
     (if provider_id = CODEX_PROVIDER_ID then Inr NativeCodex
      else if provider_id = OMNIROUTE_PROVIDER_ID then Inr OmniRoute
      else Inl Binding_UnsupportedProvider)"

text \<open>The body of the loop up to the replacement: the direct assignment of one pool-bound one.\<close>

definition resolve_pool_assignment ::
  "NamedAccountPoolRegistry \<Rightarrow> CodexAccountProfileRegistry \<Rightarrow> OmniRouteRegistry \<Rightarrow> PoolId \<Rightarrow>
   RoutingAssignment \<Rightarrow> (RoutingPoolResolutionError, RoutingAssignment) result" where
  "resolve_pool_assignment pools accounts connections pid a =
     res_bind (binding_provider_family (ra_provider_id a)) (\<lambda>family.
     res_bind (map_err (Binding_Pool pid) (resolve_pool pools pid accounts connections)) (\<lambda>member.
     res_bind (ensure (provider_family (resolved_target member) = family)
                 (Binding_ProviderFamilyMismatch pid)) (\<lambda>_.
     res_bind (case resolved_target member of
                 NativeCodexAccount account_id \<Rightarrow>
                   ok_or (map_option acct_connection_id (accounts_get accounts account_id))
                     (Binding_Pool pid MissingAccountReference)
               | OmniRouteConnection connection_id \<Rightarrow> Inr connection_id) (\<lambda>connection_id.
       Inr (a\<lparr>ra_connection_id := connection_id, ra_pool_id := None\<rparr>)))))"

fun resolve_assignments ::
  "NamedAccountPoolRegistry \<Rightarrow> CodexAccountProfileRegistry \<Rightarrow> OmniRouteRegistry \<Rightarrow>
   (RoutingRole \<times> RoutingAssignment) list \<Rightarrow> RoutingProfile \<Rightarrow>
   (RoutingPoolResolutionError, RoutingProfile) result" where
  "resolve_assignments pools accounts connections [] resolved = Inr resolved"
| "resolve_assignments pools accounts connections ((role, a) # as) resolved =
     (case ra_pool_id a of
        None \<Rightarrow> resolve_assignments pools accounts connections as resolved
      | Some pid \<Rightarrow>
          res_bind (resolve_pool_assignment pools accounts connections pid a) (\<lambda>direct.
            case replace_assignment role direct resolved of
              (Inl e, _) \<Rightarrow> Inl (Binding_RoutingProfile e)
            | (Inr _, resolved') \<Rightarrow> resolve_assignments pools accounts connections as resolved'))"

definition resolve_routing_profile ::
  "RoutingProfile \<Rightarrow> NamedAccountPoolRegistry \<Rightarrow> CodexAccountProfileRegistry \<Rightarrow> OmniRouteRegistry \<Rightarrow>
   (RoutingPoolResolutionError, RoutingProfile) result" where
  "resolve_routing_profile p pools accounts connections =
     resolve_assignments pools accounts connections (rp_assignments p) p"

section \<open>Facts about profiles\<close>

lemma RoutingRole_UNIV: "(UNIV :: RoutingRole set) = {Main, Planner, Executor, Verifier, Repair}"
  using RoutingRole.exhaust by blast

lemma length_role_map: "bt_wf (m :: (RoutingRole, 'v) btree_map) \<Longrightarrow> length m \<le> 5"
proof -
  assume "bt_wf m"
  then have "length m = card (set (bt_keys m))"
    using distinct_card [OF bt_keys_distinct] by (metis bt_keys_def length_map)
  also have "\<dots> \<le> card (UNIV :: RoutingRole set)"
    by (rule card_mono [OF _ subset_UNIV]) (simp add: RoutingRole_UNIV)
  finally show ?thesis by (simp add: RoutingRole_UNIV)
qed

definition profile_maps_wf :: "RoutingProfile \<Rightarrow> bool" where
  "profile_maps_wf p \<longleftrightarrow> bt_wf (rp_assignments p) \<and> bt_wf (rp_automatic_candidates p)"

definition profile_ok :: "RoutingProfile \<Rightarrow> bool" where
  "profile_ok p \<longleftrightarrow> profile_maps_wf p \<and> validate_profile_structure p = Inr ()"

definition candidates_ok :: "RoutingAssignment list \<Rightarrow> bool" where
  "candidates_ok cs \<longleftrightarrow> length cs \<le> MAX_AUTOMATIC_CANDIDATES_PER_ROLE
     \<and> (\<forall>a \<in> set cs. validate_assignment a = Inr ())"

definition header_ok :: "RoutingProfile \<Rightarrow> bool" where
  "header_ok p \<longleftrightarrow> rp_schema_version p = RP_SCHEMA_VERSION
     \<and> bounded_text (rp_name p) MAX_NAME_BYTES RP_InvalidProfileName = Inr (rp_name p)
     \<and> (\<forall>d. rp_description p = Some d \<longrightarrow>
          bounded_text d MAX_DESCRIPTION_BYTES RP_InvalidProfileName = Inr d)"

lemma bounded_text_Inr: "bounded_text v n e = Inr x \<longleftrightarrow> x = v \<and> \<not> is_blank v \<and> length v \<le> n \<and> \<not> has_control v"
  by (auto simp: bounded_text_def)

lemma profile_ok_iff:
  "profile_ok p \<longleftrightarrow> profile_maps_wf p \<and> header_ok p
     \<and> (\<forall>a \<in> set (bt_values (rp_assignments p)). validate_assignment a = Inr ())
     \<and> (\<forall>cs \<in> set (bt_values (rp_automatic_candidates p)). candidates_ok cs)"
proof (cases "profile_maps_wf p")
  case True
  then have "length (rp_assignments p) \<le> MAX_ASSIGNMENTS"
    using length_role_map [of "rp_assignments p"] by (simp add: profile_maps_wf_def MAX_ASSIGNMENTS_def)
  then show ?thesis
    by (cases "rp_description p")
      (auto simp: profile_ok_def header_ok_def candidates_ok_def validate_profile_structure_def
        result_simps bounded_text_Inr)
qed (simp add: profile_ok_def)

lemma set_bt_values_insert: "set (bt_values (bt_insert k v m)) \<subseteq> insert v (set (bt_values m))"
  using set_bt_insert_subset [of k v m] by (auto simp: bt_values_def)

lemma set_bt_values_remove: "set (bt_values (bt_remove k m)) \<subseteq> set (bt_values m)"
  using set_bt_remove_subset [of k m] by (auto simp: bt_values_def)

lemma bt_get_values: "bt_get m k = Some v \<Longrightarrow> v \<in> set (bt_values m)"
  by (force simp: bt_values_def dest: bt_get_in_set)

text \<open>Replacing the assignments or the candidates of a valid profile by valid ones.\<close>

lemma profile_ok_assignments:
  "profile_ok p \<Longrightarrow> bt_wf m \<Longrightarrow> \<forall>a \<in> set (bt_values m). validate_assignment a = Inr () \<Longrightarrow>
   profile_ok (p\<lparr>rp_assignments := m\<rparr>)"
  by (simp add: profile_ok_iff profile_maps_wf_def header_ok_def)

lemma profile_ok_candidates:
  "profile_ok p \<Longrightarrow> bt_wf m \<Longrightarrow> \<forall>cs \<in> set (bt_values m). candidates_ok cs \<Longrightarrow>
   profile_ok (p\<lparr>rp_automatic_candidates := m\<rparr>)"
  by (simp add: profile_ok_iff profile_maps_wf_def header_ok_def)

lemma profile_ok_insert_assignment:
  "profile_ok p \<Longrightarrow> validate_assignment a = Inr () \<Longrightarrow>
   profile_ok (p\<lparr>rp_assignments := bt_insert role a (rp_assignments p)\<rparr>)"
  using set_bt_values_insert [of role a "rp_assignments p"]
  by (intro profile_ok_assignments) (auto simp: profile_ok_iff profile_maps_wf_def)

text \<open>The four editing operations of a profile.\<close>

datatype profile_edit =
  Edit_Assign RoutingRole RoutingAssignment
| Edit_Replace RoutingRole RoutingAssignment
| Edit_Unassign RoutingRole
| Edit_Candidates RoutingRole "RoutingAssignment list"

fun profile_edit_op ::
  "profile_edit \<Rightarrow> RoutingProfile \<Rightarrow> (RoutingProfileError, unit) result \<times> RoutingProfile" where
  "profile_edit_op (Edit_Assign role a) = assign role a"
| "profile_edit_op (Edit_Replace role a) = replace_assignment role a"
| "profile_edit_op (Edit_Unassign role) = unassign role"
| "profile_edit_op (Edit_Candidates role cs) = set_automatic_candidates role cs"

lemma assign_ok: "profile_ok p \<Longrightarrow> profile_ok (snd (assign role a p)) \<and> rp_id (snd (assign role a p)) = rp_id p"
  by (auto simp: assign_def result_simps profile_ok_insert_assignment split: sum.splits)

lemma replace_assignment_ok:
  "profile_ok p \<Longrightarrow>
   profile_ok (snd (replace_assignment role a p)) \<and> rp_id (snd (replace_assignment role a p)) = rp_id p"
  by (auto simp: replace_assignment_def profile_ok_insert_assignment split: sum.splits)

lemma unassign_ok: "profile_ok p \<Longrightarrow> profile_ok (snd (unassign role p)) \<and> rp_id (snd (unassign role p)) = rp_id p"
  using set_bt_values_remove [of role "rp_assignments p"]
  by (auto simp: unassign_def profile_ok_iff profile_maps_wf_def intro!: profile_ok_assignments [unfolded profile_ok_iff])
    (auto simp: header_ok_def)

lemma set_automatic_candidates_ok:
  assumes "profile_ok p"
  shows "profile_ok (snd (set_automatic_candidates role cs p))
    \<and> rp_id (snd (set_automatic_candidates role cs p)) = rp_id p"
proof -
  have wf: "bt_wf (rp_automatic_candidates p)"
    "\<forall>cs \<in> set (bt_values (rp_automatic_candidates p)). candidates_ok cs"
    using assms by (auto simp: profile_ok_iff profile_maps_wf_def)
  have "profile_ok (p\<lparr>rp_automatic_candidates := bt_remove role (rp_automatic_candidates p)\<rparr>)"
    using assms wf set_bt_values_remove [of role "rp_automatic_candidates p"]
    by (intro profile_ok_candidates) auto
  moreover have "candidates_ok cs \<Longrightarrow>
      profile_ok (p\<lparr>rp_automatic_candidates := bt_insert role cs (rp_automatic_candidates p)\<rparr>)"
    using assms wf set_bt_values_insert [of role cs "rp_automatic_candidates p"]
    by (intro profile_ok_candidates) auto
  ultimately show ?thesis
    using assms
    by (auto simp: set_automatic_candidates_def candidates_ok_def result_simps split: sum.splits)
qed

lemma profile_edit_ok:
  "profile_ok p \<Longrightarrow> profile_ok (snd (profile_edit_op e p)) \<and> rp_id (snd (profile_edit_op e p)) = rp_id p"
  by (cases e) (simp_all add: assign_ok replace_assignment_ok unassign_ok set_automatic_candidates_ok)

lemma validate_required_roles_ok:
  "validate_required_roles p = Inr u \<Longrightarrow>
   \<forall>role \<in> {Main, Planner, Executor, Verifier}.
     \<exists>a. bt_get (rp_assignments p) role = Some a \<and> ra_enabled a"
  by (simp add: validate_required_roles_def result_simps)

section \<open>The registry as a transition system\<close>

definition registry_inv :: "RoutingProfileRegistry \<Rightarrow> bool" where
  "registry_inv r \<longleftrightarrow>
     reg_schema_version r = RP_SCHEMA_VERSION \<and> bt_wf (reg_profiles r)
     \<and> length (reg_profiles r) \<le> RP_MAX_PROFILES
     \<and> (\<forall>k. reg_active_profile_id r = Some k \<longrightarrow> bt_get (reg_profiles r) k \<noteq> None)
     \<and> (\<forall>(k, p) \<in> set (reg_profiles r). k = rp_id p \<and> profile_ok p)"

text \<open>An inserted value's maps are ascending association lists; a list that is none represents no
  value of the program and is not inserted.\<close>

datatype registry_op =
  Reg_Insert RoutingProfile
| Reg_Edit RoutingProfileId profile_edit
| Reg_Activate RoutingProfileId
| Reg_Delete RoutingProfileId

fun registry_apply :: "RoutingProfileRegistry \<Rightarrow> registry_op \<Rightarrow> RoutingProfileRegistry" where
  "registry_apply r (Reg_Insert p) = (if profile_maps_wf p then snd (registry_insert p r) else r)"
| "registry_apply r (Reg_Edit k e) = registry_edit k (profile_edit_op e) r"
| "registry_apply r (Reg_Activate k) = snd (activate k r)"
| "registry_apply r (Reg_Delete k) = snd (registry_delete k r)"

lemma registry_inv_default: "registry_inv registry_default"
  by (simp add: registry_inv_def registry_default_def)

lemma registry_inv_insert: "registry_inv r \<Longrightarrow> profile_maps_wf p \<Longrightarrow> registry_inv (snd (registry_insert p r))"
proof -
  assume i: "registry_inv r" and wf: "profile_maps_wf p"
  show ?thesis
  proof (cases "snd (registry_insert p r) = r")
    case False
    then have "validate_profile_structure p = Inr ()" "length (reg_profiles r) < RP_MAX_PROFILES"
      and eq: "snd (registry_insert p r) = r\<lparr>reg_profiles := bt_insert (rp_id p) p (reg_profiles r)\<rparr>"
      by (auto simp: registry_insert_def result_simps split: sum.splits)
    then show ?thesis
      using i wf set_bt_insert_subset [of "rp_id p" p "reg_profiles r"]
        length_bt_insert_le [of "rp_id p" p "reg_profiles r"]
      by (auto simp: eq registry_inv_def profile_ok_def)
  qed (use i in simp)
qed

lemma registry_inv_edit: "registry_inv r \<Longrightarrow> registry_inv (registry_edit k (profile_edit_op e) r)"
proof (cases "bt_get (reg_profiles r) k")
  case None
  then show "registry_inv r \<Longrightarrow> ?thesis" by (simp add: registry_edit_def)
next
  case (Some p)
  assume i: "registry_inv r"
  have "k = rp_id p" "profile_ok p" using i Some by (auto simp: registry_inv_def dest!: bt_get_in_set)
  then have "k = rp_id (snd (profile_edit_op e p))" "profile_ok (snd (profile_edit_op e p))"
    using profile_edit_ok [of p e] by simp_all
  then show ?thesis
    using i Some set_bt_insert_subset [of k "snd (profile_edit_op e p)" "reg_profiles r"]
      length_bt_insert [of "reg_profiles r" k "snd (profile_edit_op e p)"]
    by (auto simp: registry_edit_def registry_inv_def)
qed

lemma registry_inv_activate: "registry_inv r \<Longrightarrow> registry_inv (snd (activate k r))"
  by (auto simp: activate_def registry_inv_def result_simps split: sum.splits)

lemma registry_inv_delete: "registry_inv r \<Longrightarrow> registry_inv (snd (registry_delete k r))"
  using set_bt_remove_subset [of k "reg_profiles r"] length_bt_remove_le [of k "reg_profiles r"]
  by (auto simp: registry_delete_def registry_inv_def)

interpretation registry: transition_system registry_apply "\<lambda>r. r = registry_default" registry_inv
proof
  fix r op
  show "registry_inv r \<Longrightarrow> registry_inv (registry_apply r op)"
    by (cases op)
      (simp_all add: registry_inv_insert registry_inv_edit registry_inv_activate registry_inv_delete)
qed (simp add: registry_inv_default)

lemma registry_inv_validates: "registry_inv r \<Longrightarrow> registry_validate r = Inr ()"
  by (cases "reg_active_profile_id r")
    (auto simp: registry_inv_def registry_validate_def result_simps profile_ok_def bt_values_def)

lemma registry_inv_get: "registry_inv r \<Longrightarrow> bt_get (reg_profiles r) k = Some p \<Longrightarrow> k = rp_id p \<and> profile_ok p"
  by (auto simp: registry_inv_def dest!: bt_get_in_set)

section \<open>The loop over pool-bound assignments\<close>

text \<open>What each assignment becomes, stated without the accumulating profile.\<close>

definition direct_assignment ::
  "NamedAccountPoolRegistry \<Rightarrow> CodexAccountProfileRegistry \<Rightarrow> OmniRouteRegistry \<Rightarrow> RoutingAssignment \<Rightarrow>
   (RoutingPoolResolutionError, RoutingAssignment) result" where
  "direct_assignment pools accounts connections a =
     (case ra_pool_id a of
        None \<Rightarrow> Inr a
      | Some pid \<Rightarrow>
          res_bind (resolve_pool_assignment pools accounts connections pid a) (\<lambda>b.
          res_bind (map_err Binding_RoutingProfile (validate_assignment b)) (\<lambda>_. Inr b)))"

definition direct_entry ::
  "NamedAccountPoolRegistry \<Rightarrow> CodexAccountProfileRegistry \<Rightarrow> OmniRouteRegistry \<Rightarrow>
   RoutingRole \<times> RoutingAssignment \<Rightarrow> (RoutingPoolResolutionError, RoutingRole \<times> RoutingAssignment) result" where
  "direct_entry pools accounts connections x =
     res_bind (direct_assignment pools accounts connections (snd x)) (\<lambda>b. Inr (fst x, b))"

lemma bt_insert_middle:
  "bt_wf (m @ (k, v) # n) \<Longrightarrow> bt_insert k w (m @ (k, v) # n) = m @ (k, w) # n"
proof (induction m)
  case (Cons e m)
  then show ?case by (cases e) (auto dest: less_asym)
qed simp

lemma bt_wf_middle: "bt_wf (m @ (k, v) # n) \<Longrightarrow> bt_wf (m @ (k, w) # n)"
  by (simp add: bt_wf_def)

lemma resolve_assignments_eq:
  "bt_wf (m @ as) \<Longrightarrow> rp_assignments resolved = m @ as \<Longrightarrow>
   resolve_assignments pools accounts connections as resolved =
     res_bind (try_map (direct_entry pools accounts connections) as) (\<lambda>bs.
       Inr (resolved\<lparr>rp_assignments := m @ bs\<rparr>))"
proof (induction as arbitrary: m resolved)
  case Nil
  then show ?case by simp
next
  case (Cons e as)
  obtain role a where e: "e = (role, a)" by (cases e)
  let ?D = "direct_entry pools accounts connections"
  show ?case
  proof (cases "ra_pool_id a")
    case None
    then have "?D e = Inr e" using e by (simp add: direct_entry_def direct_assignment_def)
    then show ?thesis using Cons.IH [of "m @ [e]" resolved] Cons.prems e None
      by (cases "try_map ?D as") simp_all
  next
    case (Some pid)
    show ?thesis
    proof (cases "resolve_pool_assignment pools accounts connections pid a")
      case (Inl err)
      then show ?thesis using Some e by (simp add: direct_entry_def direct_assignment_def)
    next
      case (Inr b)
      show ?thesis
      proof (cases "validate_assignment b")
        case (Inl err)
        then show ?thesis using Inr Some e
          by (simp add: direct_entry_def direct_assignment_def replace_assignment_def)
      next
        case v: (Inr u)
        let ?r' = "resolved\<lparr>rp_assignments := m @ (role, b) # as\<rparr>"
        have "replace_assignment role b resolved = (Inr (), ?r')"
          using v Cons.prems e by (simp add: replace_assignment_def bt_insert_middle)
        moreover have "?D e = Inr (role, b)"
          using Inr v Some e by (simp add: direct_entry_def direct_assignment_def)
        moreover have "bt_wf ((m @ [(role, b)]) @ as)"
          using Cons.prems(1) e bt_wf_middle by fastforce
        ultimately show ?thesis using Cons.IH [of "m @ [(role, b)]" ?r'] e Some Inr
          by (cases "try_map ?D as") simp_all
      qed
    qed
  qed
qed

lemma direct_assignment_no_pool:
  "direct_assignment pools accounts connections a = Inr b \<Longrightarrow> ra_pool_id b = None
     \<and> ra_provider_id b = ra_provider_id a \<and> ra_model_id b = ra_model_id a \<and> ra_enabled b = ra_enabled a"
  by (auto simp: direct_assignment_def resolve_pool_assignment_def result_simps split: option.splits)

lemma direct_entries_get:
  "try_map (direct_entry pools accounts connections) as = Inr bs \<Longrightarrow>
   (case bt_get as role of
      None \<Rightarrow> bt_get bs role = None
    | Some a \<Rightarrow> \<exists>b. direct_assignment pools accounts connections a = Inr b \<and> bt_get bs role = Some b)"
proof (induction as arbitrary: bs)
  case (Cons e as)
  then show ?case
    by (cases e) (auto simp: result_simps direct_entry_def split: option.splits)
qed simp

lemma activate_ok:
  assumes "activate k r = (Inr x, r')"
  shows "r' = r\<lparr>reg_active_profile_id := Some k\<rparr>
    \<and> (\<exists>p. bt_get (reg_profiles r) k = Some p \<and> validate_required_roles p = Inr ())"
proof (cases "bt_get (reg_profiles r) k")
  case (Some p)
  then show ?thesis
    using assms by (cases "validate_required_roles p") (auto simp: activate_def ensure_def split: if_splits)
qed (use assms in \<open>simp add: activate_def\<close>)

lemma validate_assignment_fields:
  "validate_assignment a = Inr u \<Longrightarrow> \<not> is_blank (ra_provider_id a) \<and> \<not> is_blank (ra_model_id a)
     \<and> (ra_pool_id a = None \<longleftrightarrow> \<not> is_blank (ra_connection_id a))"
  by (cases "ra_pool_id a") (simp_all add: validate_assignment_def split: if_splits)

text \<open>An enabled assignment of a supported provider resolves to a selection once its pool binding
  has been replaced.\<close>

lemma resolve_role_resolved:
  assumes ok: "profile_ok p" and q: "resolve_routing_profile p pools accounts connections = Inr q"
    and a: "bt_get (rp_assignments p) role = Some a" "ra_enabled a"
    and supported: "ra_provider_id a \<in> {OMNIROUTE_PROVIDER_ID, OPENROUTER_PROVIDER_ID, CODEX_PROVIDER_ID}"
  shows "\<exists>s. resolve_role q role = Inr s \<and> sel_model_id s = ra_model_id a"
proof -
  have wf: "bt_wf (rp_assignments p)" using ok by (simp add: profile_ok_def profile_maps_wf_def)
  obtain bs where bs: "try_map (direct_entry pools accounts connections) (rp_assignments p) = Inr bs"
    and qa: "q = p\<lparr>rp_assignments := bs\<rparr>"
    using q resolve_assignments_eq [of "[]" "rp_assignments p" p pools accounts connections] wf
    by (auto simp: resolve_routing_profile_def res_bind_eq_Inr)
  obtain b where b: "direct_assignment pools accounts connections a = Inr b" "bt_get bs role = Some b"
    using direct_entries_get [OF bs, of role] a(1) by auto
  have "validate_assignment a = Inr ()"
    using ok bt_get_values [OF a(1)] by (simp add: profile_ok_iff)
  then have vb: "validate_assignment b = Inr ()"
    using b(1) by (auto simp: direct_assignment_def result_simps split: option.splits)
  note nb = direct_assignment_no_pool [OF b(1)]
  have "ProviderSelection_new (ra_connection_id b) (ra_provider_id b) (ra_model_id b) =
      Inr \<lparr>sel_connection_id = ra_connection_id b, sel_provider_id = ra_provider_id b, sel_model_id = ra_model_id b\<rparr>"
    using validate_assignment_fields [OF vb] nb supported by (simp add: ProviderSelection_new_def)
  then show ?thesis using b(2) qa nb a(2) by (simp add: resolve_role_def)
qed

section \<open>The connection directory\<close>

lemma bt_get_directory_fold:
  "bt_get (foldl (\<lambda>d c. directory_insert (f c) d) d xs) k = Some i \<Longrightarrow>
   (\<exists>c \<in> set xs. i = f c \<and> ci_connection_id (f c) = k)
   \<or> (bt_get d k = Some i \<and> (\<forall>c \<in> set xs. ci_connection_id (f c) \<noteq> k))"
proof (induction xs arbitrary: d)
  case (Cons x xs)
  from Cons.IH [of "directory_insert (f x) d"] Cons.prems
  show ?case by (auto simp: directory_insert_def split: if_splits)
qed simp

lemma directory_cases:
  assumes "bt_get (add_codex accounts (from_omniroute omni)) k = Some i"
  obtains (Codex) p where "p \<in> set (bt_values (accounts_profiles accounts))" "i = codex_info p"
      "acct_connection_id p = k"
  | (OmniRoute) c where "c \<in> set (bt_values omni)" "i = connection_info c" "omni_connection_id c = k"
      "\<forall>p \<in> set (bt_values (accounts_profiles accounts)). acct_connection_id p \<noteq> k"
proof -
  from bt_get_directory_fold [OF assms [unfolded add_codex_def]]
  consider (A) "\<exists>p \<in> set (bt_values (accounts_profiles accounts)). i = codex_info p \<and> ci_connection_id (codex_info p) = k"
    | (B) "bt_get (from_omniroute omni) k = Some i"
      "\<forall>p \<in> set (bt_values (accounts_profiles accounts)). ci_connection_id (codex_info p) \<noteq> k"
    by blast
  then show thesis
  proof cases
    case A
    then show thesis by (auto simp: codex_info_def intro: Codex)
  next
    case B
    then obtain c where "c \<in> set (bt_values omni)" "i = connection_info c" "ci_connection_id (connection_info c) = k"
      using bt_get_directory_fold [of connection_info "[]" "bt_values omni" k i]
      by (auto simp: from_omniroute_def)
    then show thesis using B(2) by (auto simp: codex_info_def connection_info_def intro: OmniRoute)
  qed
qed

lemma directory_validate_ok:
  "directory_validate_assignment d a = Inr s \<longleftrightarrow>
     validate_assignment a = Inr () \<and>
     (\<exists>c. bt_get d (ra_connection_id a) = Some c \<and> ci_enabled c \<and> ci_validation c = Status_Valid
        \<and> ci_provider_id c = ra_provider_id a \<and> ci_authentication_supported c
        \<and> (case ci_models c of None \<Rightarrow> s = ModelUnverified
             | Some ms \<Rightarrow> ra_model_id a \<in> set ms \<and> s = LocallyValid))"
  by (auto simp: directory_validate_assignment_def result_simps split: option.splits)

section \<open>Properties\<close>

definition demo_assignment :: "string \<Rightarrow> RoutingAssignment" where
  "demo_assignment cid = \<lparr>ra_connection_id = cid, ra_provider_id = ''codex'', ra_model_id = ''gpt'',
     ra_enabled = True, ra_label = None, ra_pool_id = None\<rparr>"

definition demo_pool_assignment :: RoutingAssignment where
  "demo_pool_assignment = \<lparr>ra_connection_id = '''', ra_provider_id = ''codex'', ra_model_id = ''gpt'',
     ra_enabled = True, ra_label = None, ra_pool_id = Some ''team''\<rparr>"

definition demo_profile :: RoutingProfile where
  "demo_profile = \<lparr>rp_id = ''prod'', rp_name = ''Production'',
     rp_assignments = [(Main, demo_assignment ''work''), (Planner, demo_assignment ''work''),
       (Executor, demo_pool_assignment), (Verifier, demo_assignment ''work'')],
     rp_automatic_candidates = [], rp_created_at = 0, rp_updated_at = 0, rp_schema_version = 1,
     rp_enabled = True, rp_description = None\<rparr>"

definition demo_pools :: NamedAccountPoolRegistry where
  "demo_pools = pools_apply [] (Pools_Insert demo_pool)"

definition demo_registry :: RoutingProfileRegistry where
  "demo_registry = foldl registry_apply registry_default [Reg_Insert demo_profile, Reg_Activate ''prod'']"


lemma demo_registry_active: "reg_active_profile_id demo_registry = Some ''prod''"
  by code_simp




text \<open>The directory built from the two registries accepts an assignment only for a usable
  identity: either a Codex account that is connected, enabled and validated and whose provider
  matches (its model stays unverified), or, when no Codex account has that connection
  identifier, an enabled and validated OmniRoute connection of the same provider that lists the
  model. Pool-bound assignments are never accepted.\<close>

theorem directory_accepts_only_usable:
  assumes "accounts_inv accounts"
    and "directory_validate_assignment (add_codex accounts (from_omniroute omni)) a = Inr s"
    and "\<forall>c \<in> set (bt_values omni). \<not> is_blank (omni_connection_id c)"
  shows "ra_pool_id a = None
    \<and> (case accounts_get_connection accounts (ra_connection_id a) of
        Some p \<Rightarrow> acct_state p = Connected \<and> acct_enabled p \<and> acct_validation p = Status_Valid
          \<and> ra_provider_id a = CODEX_PROVIDER_ID \<and> s = ModelUnverified
      | None \<Rightarrow> \<exists>c \<in> set (bt_values omni). omni_connection_id c = ra_connection_id a
          \<and> omni_enabled c \<and> validation_status (omni_validation c) = Status_Valid
          \<and> omni_provider_id c = ra_provider_id a \<and> ra_model_id a \<in> set (omni_models c)
          \<and> s = LocallyValid)"
proof -
  from assms(2) obtain i where v: "validate_assignment a = Inr ()"
    and g: "bt_get (add_codex accounts (from_omniroute omni)) (ra_connection_id a) = Some i"
    and i: "ci_enabled i" "ci_validation i = Status_Valid" "ci_provider_id i = ra_provider_id a"
      "case ci_models i of None \<Rightarrow> s = ModelUnverified | Some ms \<Rightarrow> ra_model_id a \<in> set ms \<and> s = LocallyValid"
    by (auto simp: directory_validate_ok)
  have pool: "ra_pool_id a = None \<longleftrightarrow> \<not> is_blank (ra_connection_id a)"
    using v by (auto simp: validate_assignment_def split: if_splits)
  from g show ?thesis
  proof (cases rule: directory_cases)
    case (Codex p)
    then have st: "(acct_profile_id p, p) \<in> set (accounts_profiles accounts)" and ok: "account_ok p"
      using assms(1) by (auto simp: accounts_inv_def bt_values_def)
    then have "accounts_get_connection accounts (ra_connection_id a) = Some p"
      using Codex accounts_get_connection_iff [OF assms(1)] assms(1)
      by (simp add: accounts_get_def accounts_inv_def bt_get_of_set)
    moreover have "\<not> is_blank (ra_connection_id a)"
      using ok Codex(3) valid_slug_not_blank by (auto simp: account_ok_def)
    ultimately show ?thesis
      using pool i Codex ok by (auto simp: codex_info_def account_ok_def split: if_splits)
  next
    case (OmniRoute c)
    have "accounts_get_connection accounts (ra_connection_id a) = None"
      using OmniRoute(4) by (simp add: accounts_get_connection_def find_None_iff)
    then show ?thesis
      using pool i OmniRoute assms(3) by (auto simp: connection_info_def)
  qed
qed

theorem directory_accepts_only_usable_witness:
  "directory_validate_assignment (add_codex demo_accounts (from_omniroute [])) (demo_assignment ''work'') = Inr ModelUnverified
   \<and> ra_pool_id (demo_assignment ''work'') = None"
proof -
  have "accounts_inv demo_accounts"
    unfolding demo_accounts_def
    by (rule accounts.inv_step [OF accounts_inv_default])
  moreover have "directory_validate_assignment (add_codex demo_accounts (from_omniroute [])) (demo_assignment ''work'')
      = Inr ModelUnverified" by code_simp
  ultimately show ?thesis
    using directory_accepts_only_usable [of demo_accounts "[]" "demo_assignment ''work''"] by (simp add: bt_values_def)
qed

text \<open>Once a profile of a reachable registry has been activated and its pool bindings have been
  resolved, the four sequential selections resolve, provided its required roles name providers
  that the selection layer supports; each selection carries the provider and model of the
  source assignment.\<close>

theorem activated_profile_resolves:
  fixes ops :: "registry_op list"
  defines "r \<equiv> foldl registry_apply registry_default ops"
  assumes act: "activate k r = (Inr x, r')"
    and p: "active r' = Inr p"
    and q: "resolve_routing_profile p pools accounts connections = Inr q"
    and supported: "\<And>role a. bt_get (rp_assignments p) role = Some a \<Longrightarrow>
      ra_provider_id a \<in> {OMNIROUTE_PROVIDER_ID, OPENROUTER_PROVIDER_ID, CODEX_PROVIDER_ID}"
  shows "\<exists>s1 s2 s3 s4. resolve_required_sequential_selections q = Inr [s1, s2, s3, s4]
    \<and> map_option ra_model_id (bt_get (rp_assignments p) Main) = Some (sel_model_id s1)
    \<and> map_option ra_model_id (bt_get (rp_assignments p) Verifier) = Some (sel_model_id s4)"
proof -
  have i: "registry_inv r" unfolding r_def by (rule registry.inv_run) simp
  from activate_ok [OF act] obtain p' where p': "r' = r\<lparr>reg_active_profile_id := Some k\<rparr>"
    "bt_get (reg_profiles r) k = Some p'" "validate_required_roles p' = Inr ()" by blast
  then have "p' = p" using p by (simp add: active_def)
  with p' have ok: "profile_ok p" and req: "validate_required_roles p = Inr ()"
    using registry_inv_get [OF i] by blast+
  have step: "\<exists>a s. bt_get (rp_assignments p) role = Some a \<and> resolve_role q role = Inr s
      \<and> sel_model_id s = ra_model_id a" if "role \<in> {Main, Planner, Executor, Verifier}" for role
  proof -
    obtain a where "bt_get (rp_assignments p) role = Some a" "ra_enabled a"
      using validate_required_roles_ok [OF req] \<open>role \<in> _\<close> by blast
    with resolve_role_resolved [OF ok q] supported show ?thesis by blast
  qed
  obtain a1 s1 where 1: "bt_get (rp_assignments p) Main = Some a1" "resolve_role q Main = Inr s1"
    "sel_model_id s1 = ra_model_id a1" using step [of Main] by blast
  obtain s2 where 2: "resolve_role q Planner = Inr s2" using step [of Planner] by blast
  obtain s3 where 3: "resolve_role q Executor = Inr s3" using step [of Executor] by blast
  obtain a4 s4 where 4: "bt_get (rp_assignments p) Verifier = Some a4" "resolve_role q Verifier = Inr s4"
    "sel_model_id s4 = ra_model_id a4" using step [of Verifier] by blast
  have "resolve_required_sequential_selections q = Inr [s1, s2, s3, s4]"
    by (simp add: resolve_required_sequential_selections_def 1 2 3 4)
  with 1 4 show ?thesis by simp
qed

theorem activated_profile_resolves_witness:
  "\<exists>q s1 s2 s3 s4. resolve_routing_profile demo_profile demo_pools demo_accounts [] = Inr q
     \<and> resolve_required_sequential_selections q = Inr [s1, s2, s3, s4] \<and> sel_model_id s1 = ''gpt''"
proof -
  let ?ops = "[Reg_Insert demo_profile]"
  let ?r = "foldl registry_apply registry_default ?ops"
  have a: "fst (activate ''prod'' ?r) = Inr (None, ''prod'')" by code_simp
  have b: "active (snd (activate ''prod'' ?r)) = Inr demo_profile" by code_simp
  have "is_ok (resolve_routing_profile demo_profile demo_pools demo_accounts [])" by code_simp
  then obtain q where q: "resolve_routing_profile demo_profile demo_pools demo_accounts [] = Inr q"
    by (auto simp: is_ok_iff)
  have s: "ra_provider_id x \<in> {OMNIROUTE_PROVIDER_ID, OPENROUTER_PROVIDER_ID, CODEX_PROVIDER_ID}"
    if "bt_get (rp_assignments demo_profile) role = Some x" for role x
    using that by (auto simp: demo_profile_def demo_assignment_def demo_pool_assignment_def
        CODEX_PROVIDER_ID_def split: if_splits)
  have m: "map_option ra_model_id (bt_get (rp_assignments demo_profile) Main) = Some ''gpt''" by code_simp
  have act: "activate ''prod'' ?r = (Inr (None, ''prod''), snd (activate ''prod'' ?r))"
    using a by (metis prod.collapse)
  from activated_profile_resolves [OF act b q s] m q show ?thesis by fastforce
qed

end
