(* ===== verification/Execution_Modes.thy ===== *)
theory Execution_Modes
  imports Routing_Profiles
begin

text \<open>
  Execution modes (\<open>execution_modes.rs\<close>) with the subagent limits they are checked against
  (\<open>subagent.rs\<close>, \<open>subagent_batch.rs\<close>, \<open>subagent_repair.rs\<close>): built-in and custom policies,
  validation against the hard ceilings, resolution, the checks of a routing profile and a repair
  route against a resolved policy, and the batch and repair policies derived from it. A lookup
  that the source performs with \<open>expect\<close> or by indexing is a result that may be \<open>Panicked\<close>.
\<close>

section \<open>Limits\<close>

definition secs :: "nat \<Rightarrow> nat" where "secs n = n * 1000000000"

definition SUBAGENT_MIN_TIMEOUT :: nat where "SUBAGENT_MIN_TIMEOUT = secs 1"
definition SUBAGENT_MAX_TIMEOUT :: nat where "SUBAGENT_MAX_TIMEOUT = secs (15 * 60)"
definition SUBAGENT_BATCH_MAX_CONCURRENCY :: nat where "SUBAGENT_BATCH_MAX_CONCURRENCY = 2"
definition SUBAGENT_BATCH_DEFAULT_MAX_TASKS :: nat where "SUBAGENT_BATCH_DEFAULT_MAX_TASKS = 8"
definition SUBAGENT_REPAIR_MAX_ATTEMPTS :: nat where "SUBAGENT_REPAIR_MAX_ATTEMPTS = 1"
definition SUBAGENT_REPAIR_MAX_CONTEXT_BYTES :: nat where "SUBAGENT_REPAIR_MAX_CONTEXT_BYTES = 16 * 1024"
definition SUBAGENT_REPAIR_MAX_OUTPUT_TOKENS :: nat where "SUBAGENT_REPAIR_MAX_OUTPUT_TOKENS = 4000"
definition EXECUTION_MAX_TASKS :: nat where "EXECUTION_MAX_TASKS = 8"
definition EXECUTION_MAX_PROVIDER_INVOCATIONS :: nat where "EXECUTION_MAX_PROVIDER_INVOCATIONS = 64"
definition EXECUTION_MAX_TOOL_CALLS :: nat where "EXECUTION_MAX_TOOL_CALLS = 128"
definition EXECUTION_MAX_TOOL_OUTPUT_BYTES :: nat where "EXECUTION_MAX_TOOL_OUTPUT_BYTES = 1024 * 1024"
definition EXECUTION_MAX_CONTEXT_BYTES :: nat where
  "EXECUTION_MAX_CONTEXT_BYTES = SUBAGENT_REPAIR_MAX_CONTEXT_BYTES"
definition EXECUTION_MAX_OUTPUT_TOKENS :: nat where
  "EXECUTION_MAX_OUTPUT_TOKENS = SUBAGENT_REPAIR_MAX_OUTPUT_TOKENS"

lemmas limit_defs = secs_def SUBAGENT_MIN_TIMEOUT_def SUBAGENT_MAX_TIMEOUT_def
  SUBAGENT_BATCH_MAX_CONCURRENCY_def SUBAGENT_BATCH_DEFAULT_MAX_TASKS_def
  SUBAGENT_REPAIR_MAX_ATTEMPTS_def SUBAGENT_REPAIR_MAX_CONTEXT_BYTES_def
  SUBAGENT_REPAIR_MAX_OUTPUT_TOKENS_def EXECUTION_MAX_TASKS_def
  EXECUTION_MAX_PROVIDER_INVOCATIONS_def EXECUTION_MAX_TOOL_CALLS_def
  EXECUTION_MAX_TOOL_OUTPUT_BYTES_def EXECUTION_MAX_CONTEXT_BYTES_def EXECUTION_MAX_OUTPUT_TOKENS_def

text \<open>A call that returns an error or panics.\<close>

datatype 'e failure = Panicked | Failed 'e

section \<open>Policies\<close>

datatype BuiltInExecutionMode = BuiltIn_Fast | BuiltIn_Balanced | BuiltIn_UsageSaver | BuiltIn_Deep

datatype RoleActivation = Role_Disabled | Role_Optional | Role_Required

fun RoleActivation_enabled :: "RoleActivation \<Rightarrow> bool" where
  "RoleActivation_enabled Role_Disabled = False"
| "RoleActivation_enabled Role_Optional = True"
| "RoleActivation_enabled Role_Required = True"

record RoleExecutionPolicy =
  rep_activation :: RoleActivation
  rep_effort :: ReasoningEffort

datatype ExecutionShape = SinglePass | BoundedVerificationRepair

record ExecutionPolicy =
  ep_roles :: "(RoutingRole, RoleExecutionPolicy) btree_map"
  ep_max_subagents :: nat
  ep_max_concurrency :: nat
  ep_max_provider_invocations :: nat
  ep_max_tool_calls :: nat
  ep_max_tool_output_bytes :: nat
  ep_max_repair_attempts :: nat
  ep_task_timeout :: nat
  ep_batch_timeout :: nat
  ep_repair_timeout :: nat
  ep_context_budget_bytes :: nat
  ep_output_budget_tokens :: nat
  ep_max_final_response_tokens :: nat
  ep_optional_roles_may_skip :: bool
  ep_shape :: ExecutionShape

datatype ExecutionModeSelection =
  Select_Fast | Select_Balanced | Select_UsageSaver | Select_Deep | Select_Custom ExecutionPolicy

datatype PolicySource = Source_BuiltIn BuiltInExecutionMode | Source_Custom

record ResolvedExecutionPolicy =
  resolved_selected_mode :: ExecutionModeSelection
  resolved_source :: PolicySource
  resolved_policy :: ExecutionPolicy

datatype ExecutionPolicyError =
  EP_InvalidPolicy | EP_PolicyExceedsHardCeiling | EP_ContradictoryRoleSettings RoutingRole
  | EP_InvalidConcurrency | EP_InvalidTimeout | EP_InsufficientProviderBudget
  | EP_InsufficientToolBudget | EP_InvalidRepairConfiguration | EP_UnsupportedEffort RoutingRole
  | EP_MissingRequiredRoute RoutingRole | EP_DisabledRoute RoutingRole
  | EP_InvalidProviderConnection RoutingRole | EP_RepairRouteMismatch | EP_UnknownMode
  | EP_RoutingProfileInactive | EP_RoutingProfileError RoutingProfileError

definition roles :: "RoutingRole list" where
  "roles = [Main, Planner, Executor, Verifier, Repair]"

definition policy_index ::
  "ExecutionPolicy \<Rightarrow> RoutingRole \<Rightarrow> (ExecutionPolicyError failure, RoleExecutionPolicy) result" where
  "policy_index p r = ok_or (bt_get (ep_roles p) r) Panicked"

fun is_custom_effort :: "ReasoningEffort \<Rightarrow> bool" where
  "is_custom_effort (Effort_Custom _) = True"
| "is_custom_effort _ = False"

definition validate_policy :: "ExecutionPolicy \<Rightarrow> (ExecutionPolicyError failure, unit) result" where
  "validate_policy p =
     res_bind (ensure (length (ep_roles p) = length roles) (Failed EP_InvalidPolicy)) (\<lambda>_.
     res_bind (try_each (\<lambda>role.
         res_bind (ok_or (bt_get (ep_roles p) role) (Failed EP_InvalidPolicy)) (\<lambda>rp.
           ensure (\<not> is_custom_effort (rep_effort rp)) (Failed (EP_UnsupportedEffort role)))) roles) (\<lambda>_.
     res_bind (ensure (\<not> (ep_max_subagents p = 0
         \<or> ep_max_subagents p > EXECUTION_MAX_TASKS
         \<or> ep_max_concurrency p = 0
         \<or> ep_max_concurrency p > ep_max_subagents p
         \<or> ep_max_concurrency p > SUBAGENT_BATCH_MAX_CONCURRENCY)) (Failed EP_InvalidConcurrency)) (\<lambda>_.
     res_bind (ensure (\<not> (ep_max_provider_invocations p = 0
         \<or> ep_max_provider_invocations p > EXECUTION_MAX_PROVIDER_INVOCATIONS
         \<or> ep_max_provider_invocations p < ep_max_subagents p))
       (Failed EP_InsufficientProviderBudget)) (\<lambda>_.
     res_bind (ensure (\<not> (ep_max_tool_calls p = 0
         \<or> ep_max_tool_calls p > EXECUTION_MAX_TOOL_CALLS
         \<or> ep_max_tool_output_bytes p = 0
         \<or> ep_max_tool_output_bytes p > EXECUTION_MAX_TOOL_OUTPUT_BYTES))
       (Failed EP_InsufficientToolBudget)) (\<lambda>_.
     res_bind (ensure (\<not> (ep_task_timeout p = 0 \<or> ep_batch_timeout p = 0
         \<or> ep_task_timeout p > ep_batch_timeout p
         \<or> ep_task_timeout p < SUBAGENT_MIN_TIMEOUT
         \<or> ep_batch_timeout p > SUBAGENT_MAX_TIMEOUT)) (Failed EP_InvalidTimeout)) (\<lambda>_.
     res_bind (ensure (\<not> (ep_context_budget_bytes p = 0
         \<or> ep_context_budget_bytes p > EXECUTION_MAX_CONTEXT_BYTES
         \<or> ep_output_budget_tokens p = 0
         \<or> ep_output_budget_tokens p > EXECUTION_MAX_OUTPUT_TOKENS
         \<or> ep_max_final_response_tokens p = 0
         \<or> ep_max_final_response_tokens p > EXECUTION_MAX_OUTPUT_TOKENS))
       (Failed EP_PolicyExceedsHardCeiling)) (\<lambda>_.
     res_bind (policy_index p Repair) (\<lambda>repair_policy.
       let repair = RoleActivation_enabled (rep_activation repair_policy) in
     res_bind (ensure (\<not> (repair \<noteq> (ep_shape p = BoundedVerificationRepair)
         \<or> ep_max_repair_attempts p \<noteq> (if repair then 1 else 0)
         \<or> (\<not> repair \<and> ep_repair_timeout p \<noteq> 0)
         \<or> (repair \<and> (ep_repair_timeout p = 0
             \<or> ep_repair_timeout p < SUBAGENT_MIN_TIMEOUT
             \<or> ep_repair_timeout p > ep_task_timeout p
             \<or> ep_repair_timeout p > ep_batch_timeout p))))
       (Failed EP_InvalidRepairConfiguration)) (\<lambda>_.
     res_bind (policy_index p Main) (\<lambda>main.
     res_bind (policy_index p Executor) (\<lambda>executor.
     res_bind (ensure (\<not> (rep_activation main \<noteq> Role_Required
         \<or> rep_activation executor = Role_Disabled))
       (Failed (EP_ContradictoryRoleSettings Main))) (\<lambda>_.
       ensure (ep_max_repair_attempts p \<le> SUBAGENT_REPAIR_MAX_ATTEMPTS)
         (Failed EP_InvalidRepairConfiguration)))))))))))))"

definition role_policy :: "RoleActivation \<Rightarrow> ReasoningEffort \<Rightarrow> RoleExecutionPolicy" where
  "role_policy activation effort = \<lparr>rep_activation = activation, rep_effort = effort\<rparr>"

definition make_policy ::
  "RoleActivation \<Rightarrow> RoleActivation \<Rightarrow> RoleActivation \<Rightarrow> ReasoningEffort \<Rightarrow> nat \<Rightarrow> nat \<Rightarrow> nat \<Rightarrow> nat \<Rightarrow>
   nat \<Rightarrow> nat \<Rightarrow> nat \<Rightarrow> nat \<Rightarrow> nat \<Rightarrow> nat \<Rightarrow> ExecutionPolicy" where
  "make_policy planner verifier repair effort max_subagents max_concurrency provider tools tool_output
      repair_attempts task_timeout repair_timeout context_bytes output =
     (let roles1 = bt_insert Main (role_policy Role_Required effort) [];
          roles2 = bt_insert Planner (role_policy planner effort) roles1;
          roles3 = bt_insert Executor (role_policy Role_Required effort) roles2;
          roles4 = bt_insert Verifier (role_policy verifier effort) roles3;
          roles5 = bt_insert Repair (role_policy repair effort) roles4
      in \<lparr>ep_roles = roles5, ep_max_subagents = max_subagents, ep_max_concurrency = max_concurrency,
          ep_max_provider_invocations = provider, ep_max_tool_calls = tools,
          ep_max_tool_output_bytes = tool_output, ep_max_repair_attempts = repair_attempts,
          ep_task_timeout = task_timeout, ep_batch_timeout = task_timeout,
          ep_repair_timeout = repair_timeout, ep_context_budget_bytes = context_bytes,
          ep_output_budget_tokens = output, ep_max_final_response_tokens = output,
          ep_optional_roles_may_skip = True,
          ep_shape = (if repair = Role_Disabled then SinglePass else BoundedVerificationRepair)\<rparr>)"

fun builtin :: "BuiltInExecutionMode \<Rightarrow> ExecutionPolicy" where
  "builtin BuiltIn_Fast = make_policy Role_Disabled Role_Disabled Role_Disabled Effort_Low
     1 1 1 4 (32 * 1024) 0 (secs 30) 0 (4 * 1024) 1000"
| "builtin BuiltIn_Balanced = make_policy Role_Optional Role_Optional Role_Optional Effort_Medium
     2 2 8 16 (128 * 1024) 1 (secs 120) (secs 30) (16 * 1024) 4000"
| "builtin BuiltIn_UsageSaver = make_policy Role_Disabled Role_Disabled Role_Disabled Effort_Low
     1 1 1 1 (32 * 1024) 0 (secs 20) 0 (4 * 1024) 1000"
| "builtin BuiltIn_Deep = make_policy Role_Required Role_Required Role_Required Effort_High
     EXECUTION_MAX_TASKS SUBAGENT_BATCH_MAX_CONCURRENCY EXECUTION_MAX_PROVIDER_INVOCATIONS
     EXECUTION_MAX_TOOL_CALLS EXECUTION_MAX_TOOL_OUTPUT_BYTES 1 SUBAGENT_MAX_TIMEOUT (secs 120)
     EXECUTION_MAX_CONTEXT_BYTES EXECUTION_MAX_OUTPUT_TOKENS"

fun selection_parts :: "ExecutionModeSelection \<Rightarrow> PolicySource \<times> ExecutionPolicy" where
  "selection_parts Select_Fast = (Source_BuiltIn BuiltIn_Fast, builtin BuiltIn_Fast)"
| "selection_parts Select_Balanced = (Source_BuiltIn BuiltIn_Balanced, builtin BuiltIn_Balanced)"
| "selection_parts Select_UsageSaver = (Source_BuiltIn BuiltIn_UsageSaver, builtin BuiltIn_UsageSaver)"
| "selection_parts Select_Deep = (Source_BuiltIn BuiltIn_Deep, builtin BuiltIn_Deep)"
| "selection_parts (Select_Custom p) = (Source_Custom, p)"

definition resolve_mode ::
  "ExecutionModeSelection \<Rightarrow> (ExecutionPolicyError failure, ResolvedExecutionPolicy) result" where
  "resolve_mode sel =
     (case selection_parts sel of (source, policy) \<Rightarrow>
        res_bind (validate_policy policy) (\<lambda>_.
          Inr \<lparr>resolved_selected_mode = sel, resolved_source = source, resolved_policy = policy\<rparr>))"

definition parse_mode :: "string \<Rightarrow> (ExecutionPolicyError, ExecutionModeSelection) result" where
  "parse_mode v =
     (if v = ''fast'' then Inr Select_Fast
      else if v = ''balanced'' then Inr Select_Balanced
      else if v = ''usage_saver'' then Inr Select_UsageSaver
      else if v = ''deep'' then Inr Select_Deep
      else Inl EP_UnknownMode)"

section \<open>A resolved policy against routing\<close>

definition resolved_role ::
  "ResolvedExecutionPolicy \<Rightarrow> RoutingRole \<Rightarrow> (ExecutionPolicyError failure, RoleExecutionPolicy) result" where
  "resolved_role rp r = policy_index (resolved_policy rp) r"

definition validate_role_route ::
  "ResolvedExecutionPolicy \<Rightarrow> RoutingProfile \<Rightarrow> RoutingConnectionDirectory \<Rightarrow> RoutingRole \<Rightarrow>
   (ExecutionPolicyError failure, unit) result" where
  "validate_role_route rp profile connections role =
     res_bind (resolved_role rp role) (\<lambda>policy.
       if \<not> RoleActivation_enabled (rep_activation policy) then Inr ()
       else
         res_bind (ok_or (bt_get (rp_assignments profile) role)
                     (Failed (EP_MissingRequiredRoute role))) (\<lambda>assignment.
         res_bind (ensure (ra_enabled assignment) (Failed (EP_DisabledRoute role))) (\<lambda>_.
           if ra_pool_id assignment = None
           then res_bind (map_err (\<lambda>_. Failed (EP_InvalidProviderConnection role))
                  (directory_validate_assignment connections assignment)) (\<lambda>_. Inr ())
           else Inr ())))"

definition validate_routing_profile ::
  "ResolvedExecutionPolicy \<Rightarrow> RoutingProfile \<Rightarrow> RoutingConnectionDirectory \<Rightarrow>
   (ExecutionPolicyError failure, unit) result" where
  "validate_routing_profile rp profile connections =
     res_bind (ensure (rp_enabled profile) (Failed EP_RoutingProfileInactive)) (\<lambda>_.
       try_each (validate_role_route rp profile connections) roles)"

definition validate_active_routing ::
  "ResolvedExecutionPolicy \<Rightarrow> RoutingProfileRegistry \<Rightarrow> RoutingConnectionDirectory \<Rightarrow>
   (ExecutionPolicyError failure, unit) result" where
  "validate_active_routing rp registry connections =
     res_bind (map_err (\<lambda>e. Failed (EP_RoutingProfileError e)) (active registry)) (\<lambda>profile.
       validate_routing_profile rp profile connections)"

record SubagentRepairRoute =
  srr_profile_id :: string
  srr_role :: RoutingRole
  srr_provider_id :: string
  srr_connection_id :: string
  srr_model_id :: string

definition validate_repair_route ::
  "ResolvedExecutionPolicy \<Rightarrow> SubagentRepairRoute \<Rightarrow> RoutingProfile \<Rightarrow> RoutingConnectionDirectory \<Rightarrow>
   (ExecutionPolicyError failure, unit) result" where
  "validate_repair_route rp route profile connections =
     res_bind (resolved_role rp Repair) (\<lambda>policy.
     res_bind (ensure (\<not> (\<not> RoleActivation_enabled (rep_activation policy)
         \<or> srr_role route \<noteq> Repair
         \<or> srr_profile_id route \<noteq> rp_id profile)) (Failed EP_RepairRouteMismatch)) (\<lambda>_.
     res_bind (ok_or (bt_get (rp_assignments profile) Repair)
                 (Failed (EP_MissingRequiredRoute Repair))) (\<lambda>assignment.
     res_bind (ensure (\<not> (\<not> ra_enabled assignment
         \<or> ra_connection_id assignment \<noteq> srr_connection_id route
         \<or> ra_provider_id assignment \<noteq> srr_provider_id route
         \<or> ra_model_id assignment \<noteq> srr_model_id route)) (Failed EP_RepairRouteMismatch)) (\<lambda>_.
       if ra_pool_id assignment = None
       then res_bind (map_err (\<lambda>_. Failed (EP_InvalidProviderConnection Repair))
              (directory_validate_assignment connections assignment)) (\<lambda>_. Inr ())
       else Inr ()))))"

section \<open>Derived policies\<close>

datatype SubagentFailurePolicy = ContinueIndependent | CancelRemaining
datatype SubagentResultOrdering = InputOrder

record SubagentConcurrencyPolicy =
  scp_max_tasks :: nat
  scp_max_concurrency :: nat
  scp_batch_timeout :: nat
  scp_max_provider_turns :: nat
  scp_max_tool_calls :: nat
  scp_max_tool_output_bytes :: nat
  scp_failure_policy :: SubagentFailurePolicy
  scp_result_ordering :: SubagentResultOrdering

definition concurrency_default :: SubagentConcurrencyPolicy where
  "concurrency_default =
     \<lparr>scp_max_tasks = SUBAGENT_BATCH_DEFAULT_MAX_TASKS, scp_max_concurrency = 1,
      scp_batch_timeout = secs 120, scp_max_provider_turns = 64, scp_max_tool_calls = 128,
      scp_max_tool_output_bytes = 1024 * 1024, scp_failure_policy = ContinueIndependent,
      scp_result_ordering = InputOrder\<rparr>"

definition to_batch_policy :: "ResolvedExecutionPolicy \<Rightarrow> SubagentFailurePolicy \<Rightarrow> SubagentConcurrencyPolicy" where
  "to_batch_policy rp failure_policy =
     (let p = resolved_policy rp in
      \<lparr>scp_max_tasks = ep_max_subagents p, scp_max_concurrency = ep_max_concurrency p,
       scp_batch_timeout = ep_batch_timeout p, scp_max_provider_turns = ep_max_provider_invocations p,
       scp_max_tool_calls = ep_max_tool_calls p, scp_max_tool_output_bytes = ep_max_tool_output_bytes p,
       scp_failure_policy = failure_policy, scp_result_ordering = InputOrder\<rparr>)"

record SubagentRepairPolicy =
  srp_enabled :: bool
  srp_max_repair_attempts :: nat
  srp_route :: SubagentRepairRoute
  srp_per_repair_timeout :: nat
  srp_total_repair_timeout :: nat
  srp_max_provider_invocations :: nat
  srp_max_tool_calls :: nat
  srp_max_context_bytes :: nat
  srp_max_output_tokens :: nat

datatype RepairPolicyError = Repair_PolicyInvalid

definition repair_policy_validate :: "SubagentRepairPolicy \<Rightarrow> (RepairPolicyError, unit) result" where
  "repair_policy_validate p =
     (if srp_max_repair_attempts p > SUBAGENT_REPAIR_MAX_ATTEMPTS
         \<or> (srp_enabled p \<and> srp_max_repair_attempts p = 0)
         \<or> srr_role (srp_route p) \<noteq> Repair
         \<or> srr_profile_id (srp_route p) = []
         \<or> srr_provider_id (srp_route p) = []
         \<or> srr_connection_id (srp_route p) = []
         \<or> srr_model_id (srp_route p) = []
         \<or> srp_per_repair_timeout p = 0
         \<or> srp_total_repair_timeout p = 0
         \<or> srp_per_repair_timeout p > srp_total_repair_timeout p
         \<or> srp_max_provider_invocations p = 0
         \<or> srp_max_tool_calls p = 0
         \<or> srp_max_context_bytes p = 0
         \<or> srp_max_context_bytes p > SUBAGENT_REPAIR_MAX_CONTEXT_BYTES
         \<or> srp_max_output_tokens p = 0
         \<or> srp_max_output_tokens p > SUBAGENT_REPAIR_MAX_OUTPUT_TOKENS
      then Inl Repair_PolicyInvalid else Inr ())"

datatype RepairPolicyDecision = RepairDecision_Disabled | RepairDecision_Enabled SubagentRepairPolicy

definition repair_policy ::
  "ResolvedExecutionPolicy \<Rightarrow> SubagentRepairRoute \<Rightarrow>
   (ExecutionPolicyError failure, RepairPolicyDecision) result" where
  "repair_policy rp route =
     (let p = resolved_policy rp in
      res_bind (resolved_role rp Repair) (\<lambda>role.
        case rep_activation role of
          Role_Disabled \<Rightarrow>
            if ep_shape p \<noteq> SinglePass then Inl (Failed EP_InvalidRepairConfiguration)
            else Inr RepairDecision_Disabled
        | _ \<Rightarrow>
            if ep_shape p \<noteq> BoundedVerificationRepair \<or> ep_repair_timeout p = 0
            then Inl (Failed EP_InvalidRepairConfiguration)
            else
              let policy = \<lparr>srp_enabled = True, srp_max_repair_attempts = ep_max_repair_attempts p,
                    srp_route = route, srp_per_repair_timeout = ep_repair_timeout p,
                    srp_total_repair_timeout = ep_repair_timeout p, srp_max_provider_invocations = 1,
                    srp_max_tool_calls = min (ep_max_tool_calls p) 1,
                    srp_max_context_bytes = ep_context_budget_bytes p,
                    srp_max_output_tokens = ep_output_budget_tokens p\<rparr>
              in res_bind (map_err (\<lambda>_. Failed EP_InvalidRepairConfiguration)
                    (repair_policy_validate policy)) (\<lambda>_.
                   Inr (RepairDecision_Enabled policy))))"

section \<open>What validation establishes\<close>

definition role_enabled :: "ExecutionPolicy \<Rightarrow> RoutingRole \<Rightarrow> bool" where
  "role_enabled p r \<longleftrightarrow> (\<exists>rp. bt_get (ep_roles p) r = Some rp \<and> RoleActivation_enabled (rep_activation rp))"

definition ceilings_ok :: "ExecutionPolicy \<Rightarrow> bool" where
  "ceilings_ok p \<longleftrightarrow>
     0 < ep_max_concurrency p \<and> ep_max_concurrency p \<le> ep_max_subagents p
     \<and> ep_max_concurrency p \<le> SUBAGENT_BATCH_MAX_CONCURRENCY
     \<and> ep_max_subagents p \<le> EXECUTION_MAX_TASKS
     \<and> ep_max_subagents p \<le> ep_max_provider_invocations p
     \<and> ep_max_provider_invocations p \<le> EXECUTION_MAX_PROVIDER_INVOCATIONS
     \<and> 0 < ep_max_tool_calls p \<and> ep_max_tool_calls p \<le> EXECUTION_MAX_TOOL_CALLS
     \<and> 0 < ep_max_tool_output_bytes p \<and> ep_max_tool_output_bytes p \<le> EXECUTION_MAX_TOOL_OUTPUT_BYTES
     \<and> SUBAGENT_MIN_TIMEOUT \<le> ep_task_timeout p \<and> ep_task_timeout p \<le> ep_batch_timeout p
     \<and> ep_batch_timeout p \<le> SUBAGENT_MAX_TIMEOUT
     \<and> 0 < ep_context_budget_bytes p \<and> ep_context_budget_bytes p \<le> EXECUTION_MAX_CONTEXT_BYTES
     \<and> 0 < ep_output_budget_tokens p \<and> ep_output_budget_tokens p \<le> EXECUTION_MAX_OUTPUT_TOKENS
     \<and> 0 < ep_max_final_response_tokens p \<and> ep_max_final_response_tokens p \<le> EXECUTION_MAX_OUTPUT_TOKENS"

definition repair_ok :: "ExecutionPolicy \<Rightarrow> bool" where
  "repair_ok p \<longleftrightarrow>
     (if role_enabled p Repair
      then ep_shape p = BoundedVerificationRepair \<and> ep_max_repair_attempts p = 1
        \<and> SUBAGENT_MIN_TIMEOUT \<le> ep_repair_timeout p \<and> ep_repair_timeout p \<le> ep_task_timeout p
        \<and> ep_repair_timeout p \<le> ep_batch_timeout p
      else ep_shape p = SinglePass \<and> ep_max_repair_attempts p = 0 \<and> ep_repair_timeout p = 0)"

definition roles_ok :: "ExecutionPolicy \<Rightarrow> bool" where
  "roles_ok p \<longleftrightarrow>
     length (ep_roles p) = 5
     \<and> (\<forall>r. \<exists>rp. bt_get (ep_roles p) r = Some rp \<and> \<not> is_custom_effort (rep_effort rp))
     \<and> map_option rep_activation (bt_get (ep_roles p) Main) = Some Role_Required
     \<and> role_enabled p Executor"

lemma min_timeout_pos: "0 < SUBAGENT_MIN_TIMEOUT"
  by (simp add: SUBAGENT_MIN_TIMEOUT_def secs_def)

lemma roles_UNIV: "r \<in> set roles"
  by (cases r) (simp_all add: roles_def)

lemma roles_loop_iff:
  "try_each (\<lambda>role.
       res_bind (ok_or (bt_get (ep_roles p) role) (Failed EP_InvalidPolicy)) (\<lambda>rp.
         ensure (\<not> is_custom_effort (rep_effort rp)) (Failed (EP_UnsupportedEffort role)))) roles = Inr u
   \<longleftrightarrow> (\<forall>r. \<exists>rp. bt_get (ep_roles p) r = Some rp \<and> \<not> is_custom_effort (rep_effort rp))"
  by (auto simp: result_simps roles_UNIV)

text \<open>The part of validation after the role loop, with the three indexed roles given.\<close>

lemma RoleActivation_enabled_iff: "RoleActivation_enabled a \<longleftrightarrow> a \<noteq> Role_Disabled"
  by (cases a) simp_all

lemma validate_policy_iff:
  "validate_policy p = Inr u \<longleftrightarrow> roles_ok p \<and> ceilings_ok p \<and> repair_ok p"
proof (cases "\<forall>r. \<exists>rp. bt_get (ep_roles p) r = Some rp \<and> \<not> is_custom_effort (rep_effort rp)")
  case True
  then obtain m e r where idx: "bt_get (ep_roles p) Main = Some m" "bt_get (ep_roles p) Executor = Some e"
    "bt_get (ep_roles p) Repair = Some r" by blast
  have en: "role_enabled p Repair \<longleftrightarrow> RoleActivation_enabled (rep_activation r)"
    "role_enabled p Executor \<longleftrightarrow> rep_activation e \<noteq> Role_Disabled"
    by (simp_all add: role_enabled_def idx RoleActivation_enabled_iff)
  show ?thesis
    unfolding validate_policy_def res_bind_eq_Inr roles_loop_iff ensure_eq_Inr policy_index_def Let_def
      roles_ok_def ceilings_ok_def repair_ok_def en
    using True min_timeout_pos
    by (cases "ep_shape p") (auto simp: idx roles_def SUBAGENT_REPAIR_MAX_ATTEMPTS_def not_less)
next
  case False
  then show ?thesis
    unfolding validate_policy_def res_bind_eq_Inr roles_loop_iff roles_ok_def by blast
qed

lemma result_not_ok: "r \<noteq> Inr () \<Longrightarrow> \<exists>e. r = Inl e"
  by (cases r) auto

lemma ensure_no_panic [simp]:
  "res_bind (ensure c (Failed e)) f = Inl Panicked \<longleftrightarrow> c \<and> f () = Inl Panicked"
  "ensure c (Failed e) \<noteq> Inl Panicked"
  by (cases c; simp)+

lemma validate_policy_no_panic: "validate_policy p \<noteq> Inl Panicked"
proof (cases "\<forall>r. \<exists>rp. bt_get (ep_roles p) r = Some rp \<and> \<not> is_custom_effort (rep_effort rp)")
  case True
  then obtain m e r where "bt_get (ep_roles p) Main = Some m" "bt_get (ep_roles p) Executor = Some e"
    "bt_get (ep_roles p) Repair = Some r" by blast
  then show ?thesis
    by (simp add: validate_policy_def policy_index_def Let_def roles_loop_iff [of p "()", THEN iffD2, OF True])
next
  case False
  then obtain x where x: "try_each (\<lambda>role.
       res_bind (ok_or (bt_get (ep_roles p) role) (Failed EP_InvalidPolicy)) (\<lambda>rp.
         ensure (\<not> is_custom_effort (rep_effort rp)) (Failed (EP_UnsupportedEffort role)))) roles = Inl x"
    using roles_loop_iff [of p "()"] result_not_ok by blast
  then have "x \<noteq> Panicked"
    by (auto dest!: try_each_eq_Inl simp: res_bind_eq_Inl ok_or_eq_Inl ensure_eq_Inl)
  with x show ?thesis by (simp add: validate_policy_def)
qed

lemma resolve_mode_iff:
  "resolve_mode sel = Inr rp \<longleftrightarrow>
     (let p = snd (selection_parts sel) in
      roles_ok p \<and> ceilings_ok p \<and> repair_ok p
      \<and> rp = \<lparr>resolved_selected_mode = sel, resolved_source = fst (selection_parts sel), resolved_policy = p\<rparr>)"
  by (auto simp: resolve_mode_def res_bind_eq_Inr validate_policy_iff Let_def split: prod.splits)

lemma resolved_roles: "resolve_mode sel = Inr rp \<Longrightarrow> \<exists>x. resolved_role rp r = Inr x"
  by (auto simp: resolve_mode_iff Let_def resolved_role_def policy_index_def roles_ok_def ok_or_eq_Inr)

lemma resolved_ok:
  assumes "resolve_mode sel = Inr rp"
  shows "roles_ok (resolved_policy rp)" "ceilings_ok (resolved_policy rp)" "repair_ok (resolved_policy rp)"
  using assms by (auto simp: resolve_mode_iff Let_def)

lemma builtin_ok: "roles_ok (builtin m)" "ceilings_ok (builtin m)" "repair_ok (builtin m)"
proof -
  have g: "\<exists>x. bt_get (ep_roles (builtin m)) r = Some x \<and> \<not> is_custom_effort (rep_effort x)" for r
    by (cases m; cases r) (simp_all add: make_policy_def role_policy_def Let_def less_RoutingRole_def)
  have "length (ep_roles (builtin m)) = 5"
    by (cases m) (simp_all add: make_policy_def Let_def less_RoutingRole_def)
  moreover have "map_option rep_activation (bt_get (ep_roles (builtin m)) Main) = Some Role_Required"
    by (cases m) (simp_all add: make_policy_def role_policy_def Let_def)
  moreover have "role_enabled (builtin m) Executor"
    by (cases m) (simp_all add: role_enabled_def make_policy_def role_policy_def Let_def)
  ultimately show "roles_ok (builtin m)" using g unfolding roles_ok_def by blast
  show "ceilings_ok (builtin m)"
    by (cases m) (simp_all add: ceilings_ok_def make_policy_def Let_def limit_defs)
  show "repair_ok (builtin m)"
    by (cases m) (simp_all add: repair_ok_def role_enabled_def make_policy_def role_policy_def Let_def limit_defs)
qed

lemma validate_role_route_iff:
  assumes "bt_get (ep_roles (resolved_policy rp)) role = Some x"
  shows "validate_role_route rp profile connections role \<noteq> Inl Panicked
    \<and> (validate_role_route rp profile connections role = Inr () \<longleftrightarrow>
        (role_enabled (resolved_policy rp) role \<longrightarrow>
          (\<exists>a. bt_get (rp_assignments profile) role = Some a \<and> ra_enabled a
             \<and> (ra_pool_id a = None \<longrightarrow> is_ok (directory_validate_assignment connections a)))))"
proof (cases "bt_get (rp_assignments profile) role")
  case None
  then show ?thesis
    by (simp add: validate_role_route_def resolved_role_def policy_index_def assms role_enabled_def)
next
  case (Some a)
  then show ?thesis
    by (cases "directory_validate_assignment connections a")
      (simp_all add: validate_role_route_def resolved_role_def policy_index_def assms role_enabled_def
        ensure_def)
qed

lemma resolve_builtin:
  assumes "selection_parts sel = (Source_BuiltIn m, builtin m)"
  shows "resolve_mode sel = Inr \<lparr>resolved_selected_mode = sel, resolved_source = Source_BuiltIn m,
    resolved_policy = builtin m\<rparr>"
  using assms builtin_ok [of m] by (simp add: resolve_mode_iff del: builtin.simps)

section \<open>Properties\<close>



text \<open>Every mode name that parses selects a mode that resolves, with its own source.\<close>

theorem parsed_modes_resolve:
  "parse_mode name = Inr sel \<Longrightarrow>
   \<exists>rp m. resolve_mode sel = Inr rp \<and> resolved_source rp = Source_BuiltIn m \<and> resolved_policy rp = builtin m"
  using builtin_ok
  by (cases sel) (auto simp: parse_mode_def resolve_mode_iff Let_def simp del: builtin.simps split: if_splits)

theorem parsed_modes_resolve_witness:
  "\<exists>rp m. resolve_mode Select_Deep = Inr rp \<and> resolved_source rp = Source_BuiltIn m \<and> resolved_policy rp = builtin m"
  by (rule parsed_modes_resolve [of "''deep''"]) (simp add: parse_mode_def)

text \<open>For a resolved policy the repair decision is total: it is Disabled exactly in the
  single-pass shape; otherwise, for a complete route of the repair role, it is Enabled with a
  policy that passes its own validation and allows one attempt, one provider invocation and one
  tool call within the resolved budgets, and an incomplete route is refused as an invalid repair
  configuration.\<close>

theorem repair_policy_total:
  assumes "resolve_mode sel = Inr rp"
  shows "let p = resolved_policy rp;
             complete = (srr_role route = Repair \<and> srr_profile_id route \<noteq> [] \<and> srr_provider_id route \<noteq> []
               \<and> srr_connection_id route \<noteq> [] \<and> srr_model_id route \<noteq> [])
         in if ep_shape p = SinglePass then repair_policy rp route = Inr RepairDecision_Disabled
            else if complete then
              \<exists>rep. repair_policy rp route = Inr (RepairDecision_Enabled rep)
                \<and> repair_policy_validate rep = Inr () \<and> srp_route rep = route
                \<and> srp_max_repair_attempts rep = 1 \<and> srp_max_provider_invocations rep = 1
                \<and> srp_max_tool_calls rep = 1 \<and> srp_total_repair_timeout rep \<le> ep_task_timeout p
            else repair_policy rp route = Inl (Failed EP_InvalidRepairConfiguration)"
proof -
  note ok = resolved_ok [OF assms]
  let ?p = "resolved_policy rp"
  obtain x where x: "bt_get (ep_roles ?p) Repair = Some x" using ok(1) unfolding roles_ok_def by blast
  have en: "role_enabled ?p Repair \<longleftrightarrow> rep_activation x \<noteq> Role_Disabled"
    by (simp add: role_enabled_def x RoleActivation_enabled_iff)
  show ?thesis
  proof (cases "rep_activation x = Role_Disabled")
    case True
    then show ?thesis using ok(3) en
      by (simp add: repair_ok_def repair_policy_def resolved_role_def policy_index_def x)
  next
    case False
    then have shape: "ep_shape ?p = BoundedVerificationRepair" "ep_max_repair_attempts ?p = 1"
      "0 < ep_repair_timeout ?p" "ep_repair_timeout ?p \<le> ep_task_timeout ?p"
      using ok(3) en min_timeout_pos by (simp_all add: repair_ok_def)
    moreover have "min (ep_max_tool_calls ?p) 1 = 1" "0 < ep_context_budget_bytes ?p"
      "ep_context_budget_bytes ?p \<le> SUBAGENT_REPAIR_MAX_CONTEXT_BYTES" "0 < ep_output_budget_tokens ?p"
      "ep_output_budget_tokens ?p \<le> SUBAGENT_REPAIR_MAX_OUTPUT_TOKENS"
      using ok(2) by (simp_all add: ceilings_ok_def EXECUTION_MAX_CONTEXT_BYTES_def EXECUTION_MAX_OUTPUT_TOKENS_def)
    ultimately show ?thesis using False
      by (cases "rep_activation x")
        (simp_all add: repair_policy_def resolved_role_def policy_index_def x Let_def
          repair_policy_validate_def SUBAGENT_REPAIR_MAX_ATTEMPTS_def)
  qed
qed

definition demo_repair_route :: SubagentRepairRoute where
  "demo_repair_route = \<lparr>srr_profile_id = ''prod'', srr_role = Repair, srr_provider_id = ''codex'',
     srr_connection_id = ''work'', srr_model_id = ''gpt''\<rparr>"

theorem repair_policy_total_witness:
  "\<exists>rp rep. resolve_mode Select_Deep = Inr rp \<and> repair_policy rp demo_repair_route = Inr (RepairDecision_Enabled rep)
     \<and> srp_max_repair_attempts rep = 1"
proof -
  let ?rp = "\<lparr>resolved_selected_mode = Select_Deep, resolved_source = Source_BuiltIn BuiltIn_Deep,
    resolved_policy = builtin BuiltIn_Deep\<rparr>"
  have r: "resolve_mode Select_Deep = Inr ?rp" by (rule resolve_builtin) simp
  have "ep_shape (resolved_policy ?rp) \<noteq> SinglePass" by (simp add: make_policy_def Let_def)
  then show ?thesis
    using repair_policy_total [OF r, of demo_repair_route] r
    by (auto simp: demo_repair_route_def Let_def simp del: builtin.simps)
qed

text \<open>A resolved policy accepts a routing profile exactly when the profile is enabled and every
  role that is not disabled has an enabled assignment which is pool-bound or accepted by the
  connection directory; the check never panics.\<close>

theorem validate_routing_profile_iff:
  assumes "resolve_mode sel = Inr rp"
  shows "validate_routing_profile rp profile connections \<noteq> Inl Panicked
    \<and> (validate_routing_profile rp profile connections = Inr () \<longleftrightarrow>
        rp_enabled profile \<and>
        (\<forall>role. role_enabled (resolved_policy rp) role \<longrightarrow>
          (\<exists>a. bt_get (rp_assignments profile) role = Some a \<and> ra_enabled a
             \<and> (ra_pool_id a = None \<longrightarrow> is_ok (directory_validate_assignment connections a)))))"
proof -
  have step: "validate_role_route rp profile connections role \<noteq> Inl Panicked
      \<and> (validate_role_route rp profile connections role = Inr () \<longleftrightarrow>
          (role_enabled (resolved_policy rp) role \<longrightarrow>
            (\<exists>a. bt_get (rp_assignments profile) role = Some a \<and> ra_enabled a
               \<and> (ra_pool_id a = None \<longrightarrow> is_ok (directory_validate_assignment connections a)))))" for role
  proof -
    obtain x where "bt_get (ep_roles (resolved_policy rp)) role = Some x"
      using resolved_ok(1) [OF assms] unfolding roles_ok_def by blast
    then show ?thesis by (rule validate_role_route_iff)
  qed
  show ?thesis
    using step roles_UNIV
    by (auto simp: validate_routing_profile_def try_each_eq_Inr res_bind_eq_Inr ensure_eq_Inr
        dest!: try_each_eq_Inl)
qed

theorem validate_routing_profile_iff_witness:
  "\<exists>rp. resolve_mode Select_Fast = Inr rp
     \<and> validate_routing_profile rp demo_profile (add_codex demo_accounts []) = Inr ()
     \<and> rp_enabled demo_profile"
proof -
  let ?rp = "\<lparr>resolved_selected_mode = Select_Fast, resolved_source = Source_BuiltIn BuiltIn_Fast,
    resolved_policy = builtin BuiltIn_Fast\<rparr>"
  have r: "resolve_mode Select_Fast = Inr ?rp" by (rule resolve_builtin) simp
  have en: "role = Main \<or> role = Executor" if "role_enabled (builtin BuiltIn_Fast) role" for role
    using that by (cases role)
      (auto simp: role_enabled_def make_policy_def role_policy_def Let_def less_RoutingRole_def)
  have "is_ok (directory_validate_assignment (add_codex demo_accounts []) (demo_assignment ''work''))"
    by code_simp
  moreover have "bt_get (rp_assignments demo_profile) Main = Some (demo_assignment ''work'')"
    "bt_get (rp_assignments demo_profile) Executor = Some demo_pool_assignment"
    "ra_enabled (demo_assignment ''work'')" "ra_enabled demo_pool_assignment"
    "ra_pool_id demo_pool_assignment \<noteq> None" "rp_enabled demo_profile" by code_simp+
  ultimately have "\<exists>a. bt_get (rp_assignments demo_profile) role = Some a \<and> ra_enabled a
      \<and> (ra_pool_id a = None \<longrightarrow> is_ok (directory_validate_assignment (add_codex demo_accounts []) a))"
    if "role_enabled (resolved_policy ?rp) role" for role
    using en [of role] that by (auto simp del: builtin.simps)
  with \<open>rp_enabled demo_profile\<close>
  have "validate_routing_profile ?rp demo_profile (add_codex demo_accounts []) = Inr ()"
    using validate_routing_profile_iff [OF r, of demo_profile "add_codex demo_accounts []"] by blast
  then show ?thesis using r \<open>rp_enabled demo_profile\<close> by blast
qed

end
