(* ===== verification/Pool_Rotation.thy ===== *)
theory Pool_Rotation
  imports Execution_Modes "HOL-Library.Multiset"
begin

text \<open>
  Round-robin rotation over account pools (\<open>rotation_state.rs\<close>): the canonical member order, the
  length-prefixed encoding that is fingerprinted, and the transactional cursor with its
  reservations. SHA-256 is the parameter \<open>digest\<close> of the definitions, a function of the byte
  sequence fed to the hasher; what the theorems need of it is the absence of collisions between
  the pools of a run. The eligibility closure is a predicate on members.
\<close>

section \<open>Keys, cursors and reservations\<close>

datatype PoolRotationKey = PoolRotationKey (rk_pool_id: PoolId) (rk_role: RoutingRole)

text \<open>The derived order: by pool, then by role.\<close>

instantiation PoolRotationKey :: linorder
begin

definition less_eq_PoolRotationKey :: "PoolRotationKey \<Rightarrow> PoolRotationKey \<Rightarrow> bool" where
  "less_eq_PoolRotationKey a b \<longleftrightarrow>
     rk_pool_id a < rk_pool_id b \<or> (rk_pool_id a = rk_pool_id b \<and> rk_role a \<le> rk_role b)"

definition less_PoolRotationKey :: "PoolRotationKey \<Rightarrow> PoolRotationKey \<Rightarrow> bool" where
  "less_PoolRotationKey a b \<longleftrightarrow>
     rk_pool_id a < rk_pool_id b \<or> (rk_pool_id a = rk_pool_id b \<and> rk_role a < rk_role b)"

instance
  by standard
    (auto simp: less_eq_PoolRotationKey_def less_PoolRotationKey_def PoolRotationKey.expand)

end

record 'f RotationCursor =
  cur_fingerprint :: 'f
  cur_next_index :: nat
  cur_generation :: nat

type_synonym 'f AccountPoolRotationState = "(PoolRotationKey, 'f RotationCursor) btree_map"

record 'f PoolSelectionReservation =
  psr_key :: PoolRotationKey
  psr_member :: AccountPoolMember
  psr_fingerprint :: 'f
  psr_generation :: nat
  psr_selected_index :: nat
  psr_committed :: bool

datatype PoolRotationError =
  Rot_PoolNotFound | Rot_InvalidPool AccountPoolError | Rot_UnsupportedPolicy
  | Rot_ReservationAlreadyCommitted | Rot_StaleReservation | Rot_PoolFingerprintMismatch
  | Rot_MemberNoLongerInPool

section \<open>Fingerprints\<close>

definition canonical_members :: "NamedAccountPool \<Rightarrow> AccountPoolMember list" where
  "canonical_members p = sort_key member_id (pool_members p)"

text \<open>\<open>(len as u32).to_be_bytes()\<close>, then the bytes.\<close>

definition be32 :: "nat \<Rightarrow> string" where
  "be32 n = map char_of [n div 2 ^ 24 mod 256, n div 2 ^ 16 mod 256, n div 2 ^ 8 mod 256, n mod 256 :: nat]"

definition hash_bytes :: "string \<Rightarrow> string" where
  "hash_bytes v = be32 (length v mod 2 ^ 32) @ v"

fun family_tag :: "AccountPoolProviderFamily \<Rightarrow> string" where
  "family_tag NativeCodex = ''native_codex''"
| "family_tag OmniRoute = ''omniroute''"

fun policy_fields :: "AccountPoolSelectionPolicy \<Rightarrow> string list" where
  "policy_fields (ExplicitMember m) = [''explicit_member'', m]"
| "policy_fields RoundRobin = [''round_robin'']"

fun target_fields :: "AccountPoolTarget \<Rightarrow> string list" where
  "target_fields (NativeCodexAccount a) = [''native_codex_account'', a]"
| "target_fields (OmniRouteConnection c) = [''omniroute_connection'', c]"

definition member_fields :: "AccountPoolMember \<Rightarrow> string list" where
  "member_fields m = member_id m # target_fields (member_target m)"

definition fingerprint_fields :: "NamedAccountPool \<Rightarrow> string list" where
  "fingerprint_fields p =
     [pool_id p, family_tag (pool_family p)] @ policy_fields (pool_selection_policy p)
       @ concat (map member_fields (canonical_members p))"

definition rotation_fingerprint :: "(string \<Rightarrow> 'f) \<Rightarrow> NamedAccountPool \<Rightarrow> 'f" where
  "rotation_fingerprint digest p = digest (concat (map hash_bytes (fingerprint_fields p)))"

section \<open>Reservation and commit\<close>

definition rotation_pool ::
  "NamedAccountPoolRegistry \<Rightarrow> PoolId \<Rightarrow> (PoolRotationError, NamedAccountPool) result" where
  "rotation_pool reg k =
     res_bind (ok_or (pools_get reg k) Rot_PoolNotFound) (\<lambda>pool.
     res_bind (map_err Rot_InvalidPool (pool_validate_structure pool)) (\<lambda>_.
     res_bind (ensure (pool_selection_policy pool = RoundRobin) Rot_UnsupportedPolicy) (\<lambda>_.
       Inr pool)))"

text \<open>The entry of the key, created or reset when the pool's fingerprint is another one.\<close>

definition rotation_cursor ::
  "'f \<Rightarrow> PoolRotationKey \<Rightarrow> 'f AccountPoolRotationState \<Rightarrow> 'f RotationCursor" where
  "rotation_cursor fp key st =
     (let c = (case bt_get st key of
                 Some c \<Rightarrow> c
               | None \<Rightarrow> \<lparr>cur_fingerprint = fp, cur_next_index = 0, cur_generation = 0\<rparr>) in
      if cur_fingerprint c \<noteq> fp
      then c\<lparr>cur_fingerprint := fp, cur_next_index := 0, cur_generation := wrapping_add (cur_generation c) 1\<rparr>
      else c)"

definition reserve_next_member ::
  "(string \<Rightarrow> 'f) \<Rightarrow> NamedAccountPoolRegistry \<Rightarrow> PoolId \<Rightarrow> RoutingRole \<Rightarrow> 'f AccountPoolRotationState \<Rightarrow>
   (PoolRotationError failure, 'f PoolSelectionReservation) result \<times> 'f AccountPoolRotationState" where
  "reserve_next_member digest reg k role st =
     (case rotation_pool reg k of
        Inl e \<Rightarrow> (Inl (Failed e), st)
      | Inr pool \<Rightarrow>
          let ordered = canonical_members pool;
              fp = rotation_fingerprint digest pool;
              key = PoolRotationKey k role;
              cursor = rotation_cursor fp key st;
              st' = bt_insert key cursor st in
          if cur_next_index cursor \<ge> length ordered then (Inl Panicked, st')
          else (Inr \<lparr>psr_key = key, psr_member = ordered ! cur_next_index cursor, psr_fingerprint = fp,
                     psr_generation = cur_generation cursor, psr_selected_index = cur_next_index cursor,
                     psr_committed = False\<rparr>, st'))"

definition reserve_next_eligible_member ::
  "(string \<Rightarrow> 'f) \<Rightarrow> NamedAccountPoolRegistry \<Rightarrow> PoolId \<Rightarrow> RoutingRole \<Rightarrow> (AccountPoolMember \<Rightarrow> bool) \<Rightarrow>
   'f AccountPoolRotationState \<Rightarrow>
   (PoolRotationError failure, 'f PoolSelectionReservation option) result \<times> 'f AccountPoolRotationState" where
  "reserve_next_eligible_member digest reg k role eligible st =
     (case rotation_pool reg k of
        Inl e \<Rightarrow> (Inl (Failed e), st)
      | Inr pool \<Rightarrow>
          let ordered = canonical_members pool;
              fp = rotation_fingerprint digest pool;
              key = PoolRotationKey k role;
              cursor = rotation_cursor fp key st;
              st' = bt_insert key cursor st;
              start = cur_next_index cursor;
              candidates = map (\<lambda>offset. let i = (start + offset) mod length ordered in (i, ordered ! i))
                             [0..<length ordered] in
          (case List.find (\<lambda>(_, m). eligible m) candidates of
             None \<Rightarrow> (Inr None, st')
           | Some (i, m) \<Rightarrow>
               (Inr (Some \<lparr>psr_key = key, psr_member = m, psr_fingerprint = fp,
                           psr_generation = cur_generation cursor, psr_selected_index = i,
                           psr_committed = False\<rparr>), st')))"

definition commit_reservation ::
  "(string \<Rightarrow> 'f) \<Rightarrow> NamedAccountPoolRegistry \<Rightarrow> 'f PoolSelectionReservation \<Rightarrow> 'f AccountPoolRotationState \<Rightarrow>
   (PoolRotationError, unit) result \<times> 'f PoolSelectionReservation \<times> 'f AccountPoolRotationState" where
  "commit_reservation digest reg r st =
     (let outcome =
        (if psr_committed r then Inl Rot_ReservationAlreadyCommitted
         else
           res_bind (rotation_pool reg (rk_pool_id (psr_key r))) (\<lambda>pool.
           res_bind (ensure (rotation_fingerprint digest pool = psr_fingerprint r) Rot_PoolFingerprintMismatch) (\<lambda>_.
           res_bind (ok_or (bt_get st (psr_key r)) Rot_StaleReservation) (\<lambda>entry.
           res_bind (ensure (cur_generation entry = psr_generation r \<and> cur_fingerprint entry = psr_fingerprint r)
                       Rot_StaleReservation) (\<lambda>_.
             let ordered = canonical_members pool in
             if psr_selected_index r \<ge> length ordered then Inl (Rot_InvalidPool EmptyPool)
             else let current = ordered ! psr_selected_index r in
               if member_id current \<noteq> member_id (psr_member r) \<or> member_target current \<noteq> member_target (psr_member r)
               then Inl Rot_MemberNoLongerInPool
               else Inr (entry\<lparr>cur_next_index := (psr_selected_index r + 1) mod length ordered,
                               cur_generation := wrapping_add (cur_generation entry) 1\<rparr>))))))
      in case outcome of
          Inl e \<Rightarrow> (Inl e, r, st)
        | Inr entry \<Rightarrow> (Inr (), r\<lparr>psr_committed := True\<rparr>, bt_insert (psr_key r) entry st))"

definition cursor_generation :: "PoolId \<Rightarrow> RoutingRole \<Rightarrow> 'f AccountPoolRotationState \<Rightarrow> nat option" where
  "cursor_generation k role st = map_option cur_generation (bt_get st (PoolRotationKey k role))"

section \<open>The fingerprint encoding is injective\<close>

lemma length_be32 [simp]: "length (be32 n) = 4"
  by (simp add: be32_def)

lemma div_mod_256_inject: "(n :: nat) div 256 = m div 256 \<Longrightarrow> n mod 256 = m mod 256 \<Longrightarrow> n = m"
  by (metis div_mult_mod_eq)

lemma be32_inject:
  assumes "be32 a = be32 b" "a < 2 ^ 32" "b < 2 ^ 32"
  shows "a = b"
proof -
  have inj: "(char_of (x mod 256) :: char) = char_of (y mod 256) \<Longrightarrow> x mod 256 = y mod 256" for x y :: nat
    by (metis of_char_mod_256 of_char_of)
  have eqs: "a div 2 ^ 24 mod 256 = b div 2 ^ 24 mod 256" "a div 2 ^ 16 mod 256 = b div 2 ^ 16 mod 256"
    "a div 2 ^ 8 mod 256 = b div 2 ^ 8 mod 256" "a mod 256 = b mod 256"
    using assms(1) unfolding be32_def list.map list.inject by (blast intro: inj)+
  have step: "n div 2 ^ 8 = n div 256" "n div 2 ^ 16 = n div 256 div 256" "n div 2 ^ 24 = n div 256 div 256 div 256"
    for n :: nat by (simp_all add: div_mult2_eq [symmetric])
  have "n div 256 div 256 div 256 mod 256 = n div 256 div 256 div 256" if "n < 2 ^ 32" for n :: nat
    using that by (simp add: div_mult2_eq [symmetric] less_mult_imp_div_less)
  then have "a div 256 div 256 div 256 = b div 256 div 256 div 256"
    using eqs(1) assms(2,3) unfolding step by metis
  then show ?thesis using eqs(2-4) unfolding step by (blast intro: div_mod_256_inject)
qed

abbreviation short :: "string \<Rightarrow> bool" where
  "short s \<equiv> length s < 2 ^ 32"

lemma hash_bytes_append_inject:
  assumes "hash_bytes x @ xs = hash_bytes y @ ys" "short x" "short y"
  shows "x = y \<and> xs = ys"
proof -
  have "be32 (length x) = be32 (length y) \<and> x @ xs = y @ ys"
    using assms by (simp add: hash_bytes_def)
  moreover from this have "length x = length y" using be32_inject assms(2,3) by blast
  ultimately show ?thesis by simp
qed

lemma hash_bytes_not_Nil [simp]: "hash_bytes x \<noteq> []"
  by (simp add: hash_bytes_def be32_def)

lemma framing_inject:
  "concat (map hash_bytes xs) = concat (map hash_bytes ys) \<Longrightarrow> list_all short xs \<Longrightarrow> list_all short ys \<Longrightarrow> xs = ys"
proof (induction xs arbitrary: ys)
  case Nil
  then show ?case by (cases ys) auto
next
  case (Cons x xs)
  then obtain y zs where ys: "ys = y # zs" by (cases ys) auto
  have "hash_bytes x @ concat (map hash_bytes xs) = hash_bytes y @ concat (map hash_bytes zs)"
    using Cons.prems(1) ys by simp
  then have "x = y \<and> concat (map hash_bytes xs) = concat (map hash_bytes zs)"
    by (rule hash_bytes_append_inject) (use Cons.prems(2,3) ys in simp_all)
  then show ?case using Cons.IH [of zs] Cons.prems(2,3) ys by simp
qed

lemma target_fields_inject: "target_fields a @ xs = target_fields b @ ys \<Longrightarrow> a = b \<and> xs = ys"
  by (cases a; cases b) simp_all

lemma member_fields_inject: "member_fields a @ xs = member_fields b @ ys \<Longrightarrow> a = b \<and> xs = ys"
  using target_fields_inject [of "member_target a" xs "member_target b" ys]
  by (simp add: member_fields_def)

lemma members_fields_inject: "concat (map member_fields as) = concat (map member_fields bs) \<Longrightarrow> as = bs"
proof (induction as arbitrary: bs)
  case Nil
  then show ?case by (cases bs) (auto simp: member_fields_def)
next
  case (Cons a as)
  then obtain b cs where bs: "bs = b # cs" by (cases bs) (auto simp: member_fields_def)
  have "member_fields a @ concat (map member_fields as) = member_fields b @ concat (map member_fields cs)"
    using Cons.prems bs by simp
  then have "a = b \<and> concat (map member_fields as) = concat (map member_fields cs)"
    by (rule member_fields_inject)
  then show ?case using Cons.IH [of cs] bs by simp
qed

lemma policy_fields_inject: "policy_fields a @ xs = policy_fields b @ ys \<Longrightarrow> a = b \<and> xs = ys"
  by (cases a; cases b) simp_all

lemma family_tag_inject: "family_tag a = family_tag b \<Longrightarrow> a = b"
  by (cases a; cases b) simp_all

lemma fingerprint_fields_inject:
  assumes "fingerprint_fields p = fingerprint_fields q"
  shows "pool_id p = pool_id q \<and> pool_family p = pool_family q
    \<and> pool_selection_policy p = pool_selection_policy q \<and> canonical_members p = canonical_members q"
proof -
  have "policy_fields (pool_selection_policy p) @ concat (map member_fields (canonical_members p)) =
      policy_fields (pool_selection_policy q) @ concat (map member_fields (canonical_members q))"
    and "pool_id p = pool_id q" "family_tag (pool_family p) = family_tag (pool_family q)"
    using assms by (simp_all add: fingerprint_fields_def)
  then show ?thesis using policy_fields_inject members_fields_inject family_tag_inject by blast
qed

text \<open>The pools a session meets: their texts fit the 32-bit length prefix, and the digest does not
  collide on their encodings.\<close>

definition pool_texts_short :: "NamedAccountPool \<Rightarrow> bool" where
  "pool_texts_short p \<longleftrightarrow> list_all short (fingerprint_fields p)"

definition collision_free :: "(string \<Rightarrow> 'f) \<Rightarrow> NamedAccountPool set \<Rightarrow> bool" where
  "collision_free digest U \<longleftrightarrow>
     (\<forall>p \<in> U. pool_texts_short p)
     \<and> (\<forall>p \<in> U. \<forall>q \<in> U. rotation_fingerprint digest p = rotation_fingerprint digest q \<longrightarrow>
          concat (map hash_bytes (fingerprint_fields p)) = concat (map hash_bytes (fingerprint_fields q)))"

lemma fingerprint_inject:
  assumes "collision_free digest U" "p \<in> U" "q \<in> U"
    "rotation_fingerprint digest p = rotation_fingerprint digest q"
  shows "pool_id p = pool_id q \<and> pool_family p = pool_family q
    \<and> pool_selection_policy p = pool_selection_policy q \<and> canonical_members p = canonical_members q"
  using assms framing_inject fingerprint_fields_inject unfolding collision_free_def pool_texts_short_def by blast

section \<open>Cursors stay in range\<close>

lemma rotation_pool_iff:
  "rotation_pool reg k = Inr p \<longleftrightarrow> bt_get reg k = Some p \<and> pool_ok p \<and> pool_selection_policy p = RoundRobin"
  by (auto simp: rotation_pool_def pools_get_def result_simps pool_validate_structure_iff)

lemma canonical_members_ok:
  "set (canonical_members p) = set (pool_members p)" "length (canonical_members p) = length (pool_members p)"
  "mset (canonical_members p) = mset (pool_members p)"
  by (simp_all add: canonical_members_def)

lemma pool_ok_nonempty: "pool_ok p \<Longrightarrow> 0 < length (canonical_members p)"
  by (simp add: pool_ok_def canonical_members_ok)

text \<open>A cursor is in range for every pool of the universe that has its fingerprint.\<close>

definition cursor_in_range :: "(string \<Rightarrow> 'f) \<Rightarrow> NamedAccountPool set \<Rightarrow> 'f RotationCursor \<Rightarrow> bool" where
  "cursor_in_range digest U c \<longleftrightarrow>
     (\<forall>p \<in> U. pool_ok p \<longrightarrow> rotation_fingerprint digest p = cur_fingerprint c \<longrightarrow>
        cur_next_index c < length (canonical_members p))"

definition rotation_inv :: "(string \<Rightarrow> 'f) \<Rightarrow> NamedAccountPool set \<Rightarrow> 'f AccountPoolRotationState \<Rightarrow> bool" where
  "rotation_inv digest U st \<longleftrightarrow> bt_wf st \<and> (\<forall>key c. bt_get st key = Some c \<longrightarrow> cursor_in_range digest U c)"

lemma rotation_inv_insert:
  "rotation_inv digest U st \<Longrightarrow> cursor_in_range digest U c \<Longrightarrow> rotation_inv digest U (bt_insert key c st)"
  by (simp add: rotation_inv_def)

lemma rotation_cursor_fingerprint [simp]: "cur_fingerprint (rotation_cursor fp key st) = fp"
  by (simp add: rotation_cursor_def Let_def)

lemma rotation_cursor_in_range:
  assumes "rotation_inv digest U st"
  shows "cursor_in_range digest U (rotation_cursor fp key st)"
proof (cases "bt_get st key")
  case None
  then show ?thesis
    by (auto simp: rotation_cursor_def Let_def cursor_in_range_def dest: pool_ok_nonempty)
next
  case (Some c)
  then have "cursor_in_range digest U c" using assms by (simp add: rotation_inv_def)
  then show ?thesis using Some
    by (auto simp: rotation_cursor_def Let_def cursor_in_range_def dest: pool_ok_nonempty)
qed

lemma reserve_next_member_ok:
  assumes "rotation_inv digest U st" "rotation_pool reg k = Inr p" "p \<in> U"
  shows "let c = rotation_cursor (rotation_fingerprint digest p) (PoolRotationKey k role) st in
    cur_next_index c < length (canonical_members p)
    \<and> reserve_next_member digest reg k role st =
      (Inr \<lparr>psr_key = PoolRotationKey k role, psr_member = canonical_members p ! cur_next_index c,
            psr_fingerprint = rotation_fingerprint digest p, psr_generation = cur_generation c,
            psr_selected_index = cur_next_index c, psr_committed = False\<rparr>,
       bt_insert (PoolRotationKey k role) c st)"
proof -
  have "pool_ok p" using assms(2) by (simp add: rotation_pool_iff)
  then have "cur_next_index (rotation_cursor (rotation_fingerprint digest p) (PoolRotationKey k role) st)
      < length (canonical_members p)"
    using rotation_cursor_in_range [OF assms(1)] assms(3) by (simp add: cursor_in_range_def)
  then show ?thesis by (simp add: reserve_next_member_def assms(2) Let_def)
qed

lemma reserve_state:
  "snd (reserve_next_member digest reg k role st) = st
   \<or> (\<exists>fp. snd (reserve_next_member digest reg k role st) =
        bt_insert (PoolRotationKey k role) (rotation_cursor fp (PoolRotationKey k role) st) st)"
  by (auto simp: reserve_next_member_def Let_def split: sum.split)

lemma reserve_eligible_state:
  "snd (reserve_next_eligible_member digest reg k role el st) = st
   \<or> (\<exists>fp. snd (reserve_next_eligible_member digest reg k role el st) =
        bt_insert (PoolRotationKey k role) (rotation_cursor fp (PoolRotationKey k role) st) st)"
  by (auto simp: reserve_next_eligible_member_def Let_def split: sum.split option.split)

lemma commit_ok:
  assumes "commit_reservation digest reg r st = (Inr u, r', st')"
  shows "\<exists>p c. rotation_pool reg (rk_pool_id (psr_key r)) = Inr p \<and> bt_get st (psr_key r) = Some c
    \<and> \<not> psr_committed r \<and> rotation_fingerprint digest p = psr_fingerprint r
    \<and> cur_generation c = psr_generation r \<and> cur_fingerprint c = psr_fingerprint r
    \<and> psr_selected_index r < length (canonical_members p)
    \<and> canonical_members p ! psr_selected_index r = psr_member r
    \<and> r' = r\<lparr>psr_committed := True\<rparr>
    \<and> st' = bt_insert (psr_key r) (c\<lparr>cur_next_index := (psr_selected_index r + 1) mod length (canonical_members p),
          cur_generation := wrapping_add (cur_generation c) 1\<rparr>) st"
  using assms
  by (auto simp: commit_reservation_def Let_def result_simps split: if_splits sum.splits
      intro: AccountPoolMember.equality)

lemma commit_err: "commit_reservation digest reg r st = (Inl e, r', st') \<Longrightarrow> r' = r \<and> st' = st"
  by (auto simp: commit_reservation_def Let_def split: sum.splits)

datatype 'f rotation_op =
  Rot_Reserve NamedAccountPoolRegistry PoolId RoutingRole
| Rot_Eligible NamedAccountPoolRegistry PoolId RoutingRole "AccountPoolMember \<Rightarrow> bool"
| Rot_Commit NamedAccountPoolRegistry "'f PoolSelectionReservation"

fun rotation_apply :: "(string \<Rightarrow> 'f) \<Rightarrow> 'f AccountPoolRotationState \<Rightarrow> 'f rotation_op \<Rightarrow> 'f AccountPoolRotationState" where
  "rotation_apply digest st (Rot_Reserve reg k role) = snd (reserve_next_member digest reg k role st)"
| "rotation_apply digest st (Rot_Eligible reg k role el) = snd (reserve_next_eligible_member digest reg k role el st)"
| "rotation_apply digest st (Rot_Commit reg r) = snd (snd (commit_reservation digest reg r st))"

fun op_registry :: "'f rotation_op \<Rightarrow> NamedAccountPoolRegistry" where
  "op_registry (Rot_Reserve reg _ _) = reg"
| "op_registry (Rot_Eligible reg _ _ _) = reg"
| "op_registry (Rot_Commit reg _) = reg"

lemma rotation_inv_commit:
  assumes "collision_free digest U" "set (bt_values reg) \<subseteq> U" "rotation_inv digest U st"
    and "commit_reservation digest reg r st = (Inr u, r', st')"
  shows "rotation_inv digest U st'"
proof -
  obtain p c where p: "rotation_pool reg (rk_pool_id (psr_key r)) = Inr p"
    and fp: "rotation_fingerprint digest p = cur_fingerprint c"
    and st': "st' = bt_insert (psr_key r) (c\<lparr>cur_next_index := (psr_selected_index r + 1) mod length (canonical_members p),
          cur_generation := wrapping_add (cur_generation c) 1\<rparr>) st"
    using commit_ok [OF assms(4)] by metis
  have ok: "pool_ok p" "p \<in> U"
    using p assms(2) bt_get_values by (fastforce simp: rotation_pool_iff)+
  have "(psr_selected_index r + 1) mod length (canonical_members p) < length (canonical_members q)"
    if "q \<in> U" "rotation_fingerprint digest q = cur_fingerprint c" for q
    using fingerprint_inject [OF assms(1) that(1) ok(2)] that(2) fp pool_ok_nonempty [OF ok(1)] by simp
  then show ?thesis
    unfolding st' using assms(3) by (intro rotation_inv_insert) (auto simp: cursor_in_range_def)
qed

lemma rotation_inv_step:
  assumes "collision_free digest U" "set (bt_values (op_registry x)) \<subseteq> U" "rotation_inv digest U st"
  shows "rotation_inv digest U (rotation_apply digest st x)"
proof (cases x)
  case (Rot_Reserve reg k role)
  then show ?thesis
    using reserve_state [of digest reg k role st] assms(3)
    by (elim disjE exE) (simp_all add: rotation_inv_insert rotation_cursor_in_range)
next
  case (Rot_Eligible reg k role el)
  then show ?thesis
    using reserve_eligible_state [of digest reg k role el st] assms(3)
    by (elim disjE exE) (simp_all add: rotation_inv_insert rotation_cursor_in_range)
next
  case (Rot_Commit reg r)
  obtain res r' st' where c: "commit_reservation digest reg r st = (res, r', st')"
    by (cases "commit_reservation digest reg r st") auto
  show ?thesis
  proof (cases res)
    case (Inl e)
    then show ?thesis using commit_err [of digest reg r st e r' st'] c Rot_Commit assms(3) by simp
  next
    case (Inr u)
    then show ?thesis using rotation_inv_commit [OF assms(1) _ assms(3), of reg r u r' st'] c Rot_Commit assms(2) by simp
  qed
qed

lemma rotation_inv_run:
  assumes "collision_free digest U"
  shows "\<forall>x \<in> set ops. set (bt_values (op_registry x)) \<subseteq> U \<Longrightarrow> rotation_inv digest U (foldl (rotation_apply digest) [] ops)"
proof (induction ops rule: rev_induct)
  case Nil
  show ?case by (simp add: rotation_inv_def)
next
  case (snoc x xs)
  then show ?case using rotation_inv_step [OF assms, of x] by simp
qed

lemma wrapping_add_one_neq: "wrapping_add n (Suc 0) \<noteq> n"
proof
  assume eq: "wrapping_add n (Suc 0) = n"
  then have "n < 2 ^ 64" by (metis mod_less_divisor wrapping_add_def zero_less_numeral zero_less_power)
  with eq show False by (cases "Suc n = 2 ^ 64") (simp_all add: wrapping_add_def)
qed

section \<open>Taking turns\<close>

text \<open>\<open>n\<close> turns: reserve, then commit, with an unchanged registry.\<close>

fun rotation_picks ::
  "(string \<Rightarrow> 'f) \<Rightarrow> NamedAccountPoolRegistry \<Rightarrow> PoolId \<Rightarrow> RoutingRole \<Rightarrow> nat \<Rightarrow> 'f AccountPoolRotationState \<Rightarrow>
   (AccountPoolMember list \<times> 'f AccountPoolRotationState) option" where
  "rotation_picks digest reg k role 0 st = Some ([], st)"
| "rotation_picks digest reg k role (Suc n) st =
     (case reserve_next_member digest reg k role st of
        (Inl _, _) \<Rightarrow> None
      | (Inr r, st1) \<Rightarrow>
          (case commit_reservation digest reg r st1 of
             (Inl _, _) \<Rightarrow> None
           | (Inr _, _, st2) \<Rightarrow>
               map_option (\<lambda>(ms, st3). (psr_member r # ms, st3)) (rotation_picks digest reg k role n st2)))"

definition turn_cursor ::
  "(string \<Rightarrow> 'f) \<Rightarrow> NamedAccountPool \<Rightarrow> PoolId \<Rightarrow> RoutingRole \<Rightarrow> 'f AccountPoolRotationState \<Rightarrow> 'f RotationCursor" where
  "turn_cursor digest p k role st = rotation_cursor (rotation_fingerprint digest p) (PoolRotationKey k role) st"

text \<open>Reserving and committing at once: the cursor's member, and the cursor one further.\<close>

lemma turn_step:
  assumes "rotation_inv digest U st" "rotation_pool reg k = Inr p" "p \<in> U"
  shows "let c = turn_cursor digest p k role st; ms = canonical_members p;
             c' = c\<lparr>cur_next_index := (cur_next_index c + 1) mod length ms,
                    cur_generation := wrapping_add (cur_generation c) 1\<rparr>;
             r = \<lparr>psr_key = PoolRotationKey k role, psr_member = ms ! cur_next_index c,
                  psr_fingerprint = rotation_fingerprint digest p, psr_generation = cur_generation c,
                  psr_selected_index = cur_next_index c, psr_committed = False\<rparr>;
             st1 = bt_insert (PoolRotationKey k role) c st in
    cur_next_index c < length ms
    \<and> reserve_next_member digest reg k role st = (Inr r, st1)
    \<and> commit_reservation digest reg r st1 =
        (Inr (), r\<lparr>psr_committed := True\<rparr>, bt_insert (PoolRotationKey k role) c' st1)"
  using reserve_next_member_ok [OF assms, of role] assms(2)
  by (simp add: turn_cursor_def Let_def commit_reservation_def)

lemma turn_cursor_after:
  assumes "cur_fingerprint c = rotation_fingerprint digest p"
  shows "turn_cursor digest p k role (bt_insert (PoolRotationKey k role) c st) = c"
  using assms by (simp add: turn_cursor_def rotation_cursor_def Let_def)

lemma rotation_picks_cyclic:
  assumes "collision_free digest U" "set (bt_values reg) \<subseteq> U" "rotation_pool reg k = Inr p"
  shows "rotation_inv digest U st \<Longrightarrow>
    \<exists>st'. rotation_picks digest reg k role n st =
      Some (map (\<lambda>j. canonical_members p ! ((cur_next_index (turn_cursor digest p k role st) + j)
              mod length (canonical_members p))) [0..<n], st')"
proof (induction n arbitrary: st)
  case (Suc n)
  have p: "p \<in> U" using assms(2,3) bt_get_values by (fastforce simp: rotation_pool_iff)
  let ?c = "turn_cursor digest p k role st" and ?ms = "canonical_members p" and ?key = "PoolRotationKey k role"
  define c' where "c' = ?c\<lparr>cur_next_index := (cur_next_index ?c + 1) mod length ?ms,
    cur_generation := wrapping_add (cur_generation ?c) 1\<rparr>"
  define st2 where "st2 = bt_insert ?key c' (bt_insert ?key ?c st)"
  note turn = turn_step [OF Suc.prems assms(3) p, of role, unfolded Let_def, folded c'_def, folded st2_def]
  have "rotation_inv digest U st2"
    using turn rotation_inv_commit [OF assms(1,2)] rotation_inv_insert [OF Suc.prems rotation_cursor_in_range [OF Suc.prems]]
    unfolding turn_cursor_def by blast
  then obtain st3 where st3: "rotation_picks digest reg k role n st2 =
      Some (map (\<lambda>j. ?ms ! ((cur_next_index (turn_cursor digest p k role st2) + j) mod length ?ms)) [0..<n], st3)"
    using Suc.IH by blast
  have next_index: "cur_next_index (turn_cursor digest p k role st2) = (cur_next_index ?c + 1) mod length ?ms"
    unfolding st2_def by (subst turn_cursor_after) (simp_all add: c'_def turn_cursor_def)
  have "map (\<lambda>j. ?ms ! ((cur_next_index ?c + j) mod length ?ms)) [0..<Suc n] =
      ?ms ! cur_next_index ?c # map (\<lambda>j. ?ms ! (((cur_next_index ?c + 1) mod length ?ms + j) mod length ?ms)) [0..<n]"
    using turn by (simp add: upt_conv_Cons map_Suc_upt [symmetric] mod_simps del: upt_Suc)
  then show ?case using turn st3 next_index by (simp del: upt_Suc)
qed simp

lemma mset_rotate_any: "mset (rotate n xs) = mset xs"
  by (metis append_take_drop_id mset_append rotate_drop_take union_commute)

lemma find_snd_None: "List.find (\<lambda>(_, m). P m) xs = None \<longleftrightarrow> (\<forall>m \<in> snd ` set xs. \<not> P m)"
  by (induction xs) auto

lemma find_snd_first:
  "\<exists>m \<in> snd ` set xs. P m \<Longrightarrow>
   \<exists>d < length xs. List.find (\<lambda>(_, m). P m) xs = Some (xs ! d) \<and> P (snd (xs ! d))
    \<and> (\<forall>d' < d. \<not> P (snd (xs ! d')))"
proof (induction xs)
  case (Cons x xs)
  show ?case
  proof (cases "P (snd x)")
    case True
    then show ?thesis by (intro exI [where x = 0]) (simp add: case_prod_beta)
  next
    case False
    then obtain d where "d < length xs" "List.find (\<lambda>(_, m). P m) xs = Some (xs ! d)" "P (snd (xs ! d))"
        "\<forall>d' < d. \<not> P (snd (xs ! d'))"
      using Cons by auto
    then show ?thesis using False
      by (intro exI [where x = "Suc d"]) (cases x, auto simp: less_Suc_eq_0_disj)
  qed
qed simp

section \<open>Properties of the rotation\<close>

text \<open>C25: Round robin is fair. In any state a session reaches, whatever registries its calls saw and
  whatever reservations were abandoned, taking turns on a round-robin pool never fails; the picks are
  the members in canonical order, cyclically from the cursor, and as many turns as the pool has
  members pick every member exactly once.\<close>

theorem round_robin_fair:
  assumes "collision_free digest U" "\<forall>x \<in> set ops. set (bt_values (op_registry x)) \<subseteq> U"
    and "set (bt_values reg) \<subseteq> U" "rotation_pool reg k = Inr p"
  shows "let st = foldl (rotation_apply digest) [] ops; ms = canonical_members p;
             start = cur_next_index (turn_cursor digest p k role st) in
     (\<exists>st'. rotation_picks digest reg k role n st = Some (map (\<lambda>j. ms ! ((start + j) mod length ms)) [0..<n], st'))
     \<and> (\<exists>picks st'. rotation_picks digest reg k role (length ms) st = Some (picks, st')
          \<and> mset picks = mset (pool_members p))"
proof -
  let ?st = "foldl (rotation_apply digest) [] ops" and ?ms = "canonical_members p"
  let ?start = "cur_next_index (turn_cursor digest p k role ?st)"
  note picks = rotation_picks_cyclic [OF assms(1,3,4) rotation_inv_run [OF assms(1,2)], of role]
  have "map (\<lambda>j. ?ms ! ((?start + j) mod length ?ms)) [0..<length ?ms] = rotate ?start ?ms"
    by (rule nth_equalityI) (simp_all add: nth_rotate)
  then have "mset (map (\<lambda>j. ?ms ! ((?start + j) mod length ?ms)) [0..<length ?ms]) = mset (pool_members p)"
    using mset_rotate_any [of ?start ?ms] by (simp add: canonical_members_ok)
  then show ?thesis unfolding Let_def using picks by blast
qed

definition demo_rr_pool :: NamedAccountPool where
  "demo_rr_pool =
     \<lparr>pool_id = ''rr'', pool_display_name = ''RR'', pool_family = OmniRoute,
      pool_members = [\<lparr>member_id = ''b'', member_target = OmniRouteConnection ''y''\<rparr>,
                      \<lparr>member_id = ''a'', member_target = OmniRouteConnection ''x''\<rparr>],
      pool_selection_policy = RoundRobin\<rparr>"

lemma demo_rr_pool_ok: "rotation_pool [(''rr'', demo_rr_pool)] ''rr'' = Inr demo_rr_pool"
  by code_simp

lemma demo_rr_canonical:
  "canonical_members demo_rr_pool =
     [\<lparr>member_id = ''a'', member_target = OmniRouteConnection ''x''\<rparr>,
      \<lparr>member_id = ''b'', member_target = OmniRouteConnection ''y''\<rparr>]"
  by code_simp

lemma demo_collision_free: "collision_free (\<lambda>s. s) {demo_rr_pool}"
proof -
  have "list_all (\<lambda>s. length s \<le> 30) (fingerprint_fields demo_rr_pool)" by code_simp
  then have "list_all short (fingerprint_fields demo_rr_pool)"
    by (rule list.pred_mono_strong) simp
  then show ?thesis by (simp add: collision_free_def pool_texts_short_def rotation_fingerprint_def)
qed

theorem round_robin_fair_witness:
  "\<exists>st'. rotation_picks (\<lambda>s. s) [(''rr'', demo_rr_pool)] ''rr'' Main 3 [] =
     Some (map (\<lambda>j. canonical_members demo_rr_pool ! (j mod 2)) [0..<3], st')"
proof -
  have "cur_next_index (turn_cursor (\<lambda>s. s) demo_rr_pool ''rr'' Main []) = 0"
    by (simp add: turn_cursor_def rotation_cursor_def Let_def)
  moreover have "length (canonical_members demo_rr_pool) = 2" by (simp add: demo_rr_canonical)
  moreover have "set (bt_values [(''rr'', demo_rr_pool)]) \<subseteq> {demo_rr_pool}" by (simp add: bt_values_def)
  ultimately show ?thesis
    using round_robin_fair [OF demo_collision_free, of "[]", OF _ _ demo_rr_pool_ok, where role = Main and n = 3]
    by (auto simp: Let_def simp del: upt_Suc rotation_picks.simps)
qed

text \<open>A reservation is a transaction. In any state a session reaches, reserving never panics on the
  cursor's index. A granted reservation names a member of the pool; reserving again without a commit
  grants the same member, so an abandoned reservation consumes nothing; committing it at once
  succeeds, a second commit is refused, and so is the commit of any other copy of the reservation.\<close>

theorem reservation_transactional:
  assumes "collision_free digest U" "\<forall>x \<in> set ops. set (bt_values (op_registry x)) \<subseteq> U"
    and "set (bt_values reg) \<subseteq> U"
  shows "let st = foldl (rotation_apply digest) [] ops in
     fst (reserve_next_member digest reg k role st) \<noteq> Inl Panicked
     \<and> (\<forall>r st1. reserve_next_member digest reg k role st = (Inr r, st1) \<longrightarrow>
          (\<exists>p. bt_get reg k = Some p \<and> psr_member r \<in> set (pool_members p))
          \<and> reserve_next_member digest reg k role st1 = (Inr r, st1)
          \<and> (\<exists>r2 st2. commit_reservation digest reg r st1 = (Inr (), r2, st2)
               \<and> fst (commit_reservation digest reg r2 st2) = Inl Rot_ReservationAlreadyCommitted
               \<and> fst (commit_reservation digest reg r st2) = Inl Rot_StaleReservation))"
proof -
  let ?st = "foldl (rotation_apply digest) [] ops"
  have inv: "rotation_inv digest U ?st" by (rule rotation_inv_run [OF assms(1,2)])
  show ?thesis
  proof (cases "rotation_pool reg k")
    case (Inl e)
    then show ?thesis by (simp add: Let_def reserve_next_member_def)
  next
    case (Inr p)
    have p: "p \<in> U" "bt_get reg k = Some p" using Inr assms(3) bt_get_values by (fastforce simp: rotation_pool_iff)+
    let ?c = "turn_cursor digest p k role ?st" and ?key = "PoolRotationKey k role"
    note turn = turn_step [OF inv Inr p(1), of role, unfolded Let_def]
    have again: "turn_cursor digest p k role (bt_insert ?key ?c ?st) = ?c"
      by (rule turn_cursor_after) (simp add: turn_cursor_def)
    have same: "bt_insert ?key ?c (bt_insert ?key ?c ?st) = bt_insert ?key ?c ?st"
      using inv by (intro bt_ext) (simp_all add: rotation_inv_def)
    have "rotation_inv digest U (bt_insert ?key ?c ?st)"
      unfolding turn_cursor_def by (rule rotation_inv_insert [OF inv rotation_cursor_in_range [OF inv]])
    from turn_step [OF this Inr p(1), of role, unfolded Let_def again same] turn
    have re: "reserve_next_member digest reg k role (bt_insert ?key ?c ?st) = reserve_next_member digest reg k role ?st"
      by simp
    have stale: "wrapping_add (cur_generation ?c) (Suc 0) \<noteq> cur_generation ?c"
      by (rule wrapping_add_one_neq)
    have mem: "canonical_members p ! cur_next_index ?c \<in> set (pool_members p)"
      using turn canonical_members_ok(1) [of p] by (metis nth_mem)
    show ?thesis
      using turn re mem p(2) stale Inr
      by (auto simp: Let_def commit_reservation_def turn_cursor_def)
  qed
qed

theorem reservation_transactional_witness:
  "\<exists>r st1 r2 st2. reserve_next_member (\<lambda>s. s) [(''rr'', demo_rr_pool)] ''rr'' Main [] = (Inr r, st1)
     \<and> commit_reservation (\<lambda>s. s) [(''rr'', demo_rr_pool)] r st1 = (Inr (), r2, st2)
     \<and> fst (commit_reservation (\<lambda>s. s) [(''rr'', demo_rr_pool)] r2 st2) = Inl Rot_ReservationAlreadyCommitted"
proof -
  have sub: "set (bt_values [(''rr'', demo_rr_pool)]) \<subseteq> {demo_rr_pool}" by (simp add: bt_values_def)
  have "rotation_inv (\<lambda>s. s) {demo_rr_pool} []" by (simp add: rotation_inv_def)
  then obtain r st1 where "reserve_next_member (\<lambda>s. s) [(''rr'', demo_rr_pool)] ''rr'' Main [] = (Inr r, st1)"
    using reserve_next_member_ok [OF _ demo_rr_pool_ok, of "\<lambda>s. s" "{demo_rr_pool}" "[]" Main] by (simp add: Let_def)
  then show ?thesis
    using reservation_transactional [OF demo_collision_free _ sub, of "[]" "''rr''" Main] by (auto simp: Let_def)
qed

text \<open>Reserving among eligible members. On a valid round-robin pool the call returns nothing exactly
  when no member is eligible; otherwise it reserves the first eligible member in cyclic canonical
  order from the cursor. The state is the one a plain reservation leaves: skipped members are not
  consumed.\<close>

theorem eligible_reservation_first:
  assumes "rotation_pool reg k = Inr p"
  shows "let res = reserve_next_eligible_member digest reg k role eligible st;
             ms = canonical_members p; start = cur_next_index (turn_cursor digest p k role st) in
     snd res = bt_insert (PoolRotationKey k role) (turn_cursor digest p k role st) st
     \<and> (fst res = Inr None \<longleftrightarrow> (\<forall>m \<in> set (pool_members p). \<not> eligible m))
     \<and> ((\<exists>m \<in> set (pool_members p). eligible m) \<longrightarrow>
          (\<exists>r d. fst res = Inr (Some r) \<and> d < length ms
             \<and> psr_selected_index r = (start + d) mod length ms
             \<and> psr_member r = ms ! ((start + d) mod length ms) \<and> eligible (psr_member r)
             \<and> (\<forall>d' < d. \<not> eligible (ms ! ((start + d') mod length ms)))))"
proof -
  let ?ms = "canonical_members p" and ?start = "cur_next_index (turn_cursor digest p k role st)"
  define cs where "cs = map (\<lambda>d. ((?start + d) mod length ?ms, ?ms ! ((?start + d) mod length ?ms))) [0..<length ?ms]"
  let ?res = "reserve_next_eligible_member digest reg k role eligible st"
  have mem: "snd ` set cs = set (pool_members p)"
  proof -
    have "map snd cs = rotate ?start ?ms" by (rule nth_equalityI) (simp_all add: nth_rotate cs_def)
    then have "snd ` set cs = set ?ms" by (metis set_map set_rotate)
    then show ?thesis by (simp add: canonical_members_ok)
  qed
  have none: "List.find (\<lambda>(_, m). eligible m) cs = None \<longleftrightarrow> (\<forall>m \<in> set (pool_members p). \<not> eligible m)"
    unfolding mem [symmetric] by (rule find_snd_None)
  have res: "?res = (Inr (map_option (\<lambda>(i, m). \<lparr>psr_key = PoolRotationKey k role, psr_member = m,
        psr_fingerprint = rotation_fingerprint digest p, psr_generation = cur_generation (turn_cursor digest p k role st),
        psr_selected_index = i, psr_committed = False\<rparr>) (List.find (\<lambda>(_, m). eligible m) cs)),
      bt_insert (PoolRotationKey k role) (turn_cursor digest p k role st) st)"
    by (simp add: reserve_next_eligible_member_def assms Let_def turn_cursor_def cs_def split: option.split)
  have first: "\<exists>d < length ?ms. List.find (\<lambda>(_, m). eligible m) cs =
        Some ((?start + d) mod length ?ms, ?ms ! ((?start + d) mod length ?ms))
      \<and> eligible (?ms ! ((?start + d) mod length ?ms))
      \<and> (\<forall>d' < d. \<not> eligible (?ms ! ((?start + d') mod length ?ms)))"
    if some: "\<exists>m \<in> set (pool_members p). eligible m"
  proof -
    obtain d where d: "d < length cs" "List.find (\<lambda>(_, m). eligible m) cs = Some (cs ! d)" "eligible (snd (cs ! d))"
        "\<forall>d' < d. \<not> eligible (snd (cs ! d'))"
      using find_snd_first [of cs eligible, unfolded mem, OF some] by blast
    have nth: "cs ! j = ((?start + j) mod length ?ms, ?ms ! ((?start + j) mod length ?ms))" if "j < length ?ms" for j
      using that by (simp add: cs_def)
    have "length cs = length ?ms" by (simp add: cs_def)
    with d show ?thesis using nth by (intro exI [where x = d]) simp
  qed
  show ?thesis
  proof (simp only: Let_def res fst_conv snd_conv, intro conjI impI refl)
    show "Inr (map_option f (List.find (\<lambda>(_, m). eligible m) cs)) = Inr None \<longleftrightarrow> (\<forall>m \<in> set (pool_members p). \<not> eligible m)"
      for f :: "nat \<times> AccountPoolMember \<Rightarrow> 'a PoolSelectionReservation"
      using none by simp
  next
    assume "\<exists>m \<in> set (pool_members p). eligible m"
    from first [OF this] obtain d where "d < length ?ms" "List.find (\<lambda>(_, m). eligible m) cs =
        Some ((?start + d) mod length ?ms, ?ms ! ((?start + d) mod length ?ms))"
      "eligible (?ms ! ((?start + d) mod length ?ms))"
      "\<forall>d' < d. \<not> eligible (?ms ! ((?start + d') mod length ?ms))"
      by blast
    then show "\<exists>r d. Inr (map_option (\<lambda>(i, m). \<lparr>psr_key = PoolRotationKey k role, psr_member = m,
          psr_fingerprint = rotation_fingerprint digest p, psr_generation = cur_generation (turn_cursor digest p k role st),
          psr_selected_index = i, psr_committed = False\<rparr>) (List.find (\<lambda>(_, m). eligible m) cs)) = Inr (Some r)
        \<and> d < length ?ms \<and> psr_selected_index r = (?start + d) mod length ?ms
        \<and> psr_member r = ?ms ! ((?start + d) mod length ?ms) \<and> eligible (psr_member r)
        \<and> (\<forall>d' < d. \<not> eligible (?ms ! ((?start + d') mod length ?ms)))"
      by auto
  qed
qed

theorem eligible_reservation_first_witness:
  "\<exists>r. fst (reserve_next_eligible_member (\<lambda>s. s) [(''rr'', demo_rr_pool)] ''rr'' Main (\<lambda>m. member_id m = ''b'') []) =
     Inr (Some r) \<and> member_id (psr_member r) = ''b''"
proof -
  have "\<exists>m \<in> set (pool_members demo_rr_pool). member_id m = ''b''" by (simp add: demo_rr_pool_def)
  then show ?thesis
    using eligible_reservation_first [OF demo_rr_pool_ok, where digest = "\<lambda>s. s" and role = Main
        and eligible = "\<lambda>m. member_id m = ''b''" and st = "[]"]
    by (auto simp: Let_def)
qed

end
