(* ===== verification/Execution_Budget.thy ===== *)
theory Execution_Budget
  imports Execution_Modes
begin

text \<open>
  The execution budget ledger (\<open>execution_budget.rs\<close>, \<open>execution_budget_accounting.rs\<close>,
  \<open>execution_budget_reservations.rs\<close>): limits derived from a resolved policy, gated admission of
  provider calls, tool calls, context, output, executor tasks and repair attempts, and the
  reservation and invocation guards. Reservations and guards are owned values: the system state
  keeps the ones that are alive, and consuming one is a step. Plain additions on \<open>usize\<close> and
  \<open>u64\<close> wrap; the invariant shows that the bounded counters never do. The elapsed time read by a
  call is an argument (the two successive readings of \<open>check_elapsed\<close>), and a poisoned mutex is
  a flag of the ledger.
\<close>

section \<open>Data\<close>

record ExecutionBudgetLimits =
  max_provider_invocations :: nat
  max_planner_provider_invocations :: nat
  max_executor_provider_invocations :: nat
  max_verifier_provider_invocations :: nat
  max_repair_provider_invocations :: nat
  max_tool_calls :: nat
  max_tool_output_bytes :: nat
  max_context_bytes :: nat
  max_output_tokens :: nat
  max_executor_tasks :: nat
  max_executor_concurrency :: nat
  max_repair_attempts :: nat
  max_elapsed :: nat
  max_repair_elapsed :: nat
  max_depth :: nat

datatype BudgetExhaustionCategory =
  TotalProviderInvocations | PlannerProviderInvocations | ExecutorProviderInvocations
  | VerifierProviderInvocations | RepairProviderInvocations | TotalToolCalls | AggregateToolOutput
  | InputOrContextLimit | OutputTokenLimit | ExecutorTaskCount | ExecutorConcurrency | RepairAttempts
  | TotalElapsedTime | RepairElapsedTime | SubagentDepth | RunTerminal | LedgerUnavailable

record BudgetExhaustion =
  be_category :: BudgetExhaustionCategory
  be_limit :: nat
  be_consumed_or_reserved :: nat
  be_role :: "RoutingRole option"

definition from_resolved :: "ResolvedExecutionPolicy \<Rightarrow> ExecutionBudgetLimits" where
  "from_resolved rp =
     (let v = resolved_policy rp; provider_limit = ep_max_provider_invocations v in
      \<lparr>max_provider_invocations = provider_limit,
       max_planner_provider_invocations = provider_limit,
       max_executor_provider_invocations = provider_limit,
       max_verifier_provider_invocations = provider_limit,
       max_repair_provider_invocations = provider_limit,
       max_tool_calls = ep_max_tool_calls v,
       max_tool_output_bytes = ep_max_tool_output_bytes v,
       max_context_bytes = ep_context_budget_bytes v,
       max_output_tokens = ep_output_budget_tokens v,
       max_executor_tasks = ep_max_subagents v,
       max_executor_concurrency = ep_max_concurrency v,
       max_repair_attempts = ep_max_repair_attempts v,
       max_elapsed = ep_batch_timeout v,
       max_repair_elapsed = ep_repair_timeout v,
       max_depth = 1\<rparr>)"

fun provider_limit :: "ExecutionBudgetLimits \<Rightarrow> RoutingRole \<Rightarrow> nat \<times> BudgetExhaustionCategory" where
  "provider_limit l Main = (max_provider_invocations l, TotalProviderInvocations)"
| "provider_limit l Planner = (max_planner_provider_invocations l, PlannerProviderInvocations)"
| "provider_limit l Executor = (max_executor_provider_invocations l, ExecutorProviderInvocations)"
| "provider_limit l Verifier = (max_verifier_provider_invocations l, VerifierProviderInvocations)"
| "provider_limit l Repair = (max_repair_provider_invocations l, RepairProviderInvocations)"

record LedgerState =
  provider_reserved :: nat
  provider_started :: nat
  provider_completed :: nat
  provider_cancelled :: nat
  provider_failed :: nat
  provider_timed_out :: nat
  provider_rejected :: nat
  provider_by_role :: "(RoutingRole, nat) btree_map"
  tool_reserved :: nat
  tool_started :: nat
  tool_completed :: nat
  tool_rejected :: nat
  tool_output_bytes :: nat
  context_bytes_consumed :: nat
  output_tokens_consumed :: nat
  executor_tasks_admitted :: nat
  repair_attempts_admitted :: nat
  elapsed_exhausted :: bool
  terminal :: bool

record ExecutionBudgetLedger =
  led_state :: LedgerState
  led_limits :: ExecutionBudgetLimits
  led_generation :: nat
  led_last_exhaustion :: "BudgetExhaustion option"
  led_poisoned :: bool

definition ledger_zero :: LedgerState where
  "ledger_zero =
     \<lparr>provider_reserved = 0, provider_started = 0, provider_completed = 0, provider_cancelled = 0,
      provider_failed = 0, provider_timed_out = 0, provider_rejected = 0, provider_by_role = [],
      tool_reserved = 0, tool_started = 0, tool_completed = 0, tool_rejected = 0,
      tool_output_bytes = 0, context_bytes_consumed = 0, output_tokens_consumed = 0,
      executor_tasks_admitted = 0, repair_attempts_admitted = 0, elapsed_exhausted = False,
      terminal = False\<rparr>"

definition new_for_generation :: "ResolvedExecutionPolicy \<Rightarrow> nat \<Rightarrow> ExecutionBudgetLedger" where
  "new_for_generation rp g =
     \<lparr>led_state = ledger_zero, led_limits = from_resolved rp, led_generation = g,
      led_last_exhaustion = None, led_poisoned = False\<rparr>"

section \<open>Gated operations\<close>

definition exhaustion ::
  "BudgetExhaustionCategory \<Rightarrow> nat \<Rightarrow> nat \<Rightarrow> RoutingRole option \<Rightarrow> ExecutionBudgetLedger \<Rightarrow>
   (BudgetExhaustion, 'a) result \<times> ExecutionBudgetLedger" where
  "exhaustion category limit used role led =
     (let e = \<lparr>be_category = category, be_limit = limit, be_consumed_or_reserved = used, be_role = role\<rparr>
      in (Inl e, led\<lparr>led_last_exhaustion := Some e\<rparr>))"

definition ledger_unavailable :: "RoutingRole option \<Rightarrow> BudgetExhaustion" where
  "ledger_unavailable role =
     \<lparr>be_category = LedgerUnavailable, be_limit = 0, be_consumed_or_reserved = 0, be_role = role\<rparr>"

definition as_millis_u64 :: "nat \<Rightarrow> nat" where
  "as_millis_u64 d = (d div 1000000) mod 2 ^ 64"

definition check_elapsed ::
  "nat \<times> nat \<Rightarrow> ExecutionBudgetLedger \<Rightarrow> (BudgetExhaustion, unit) result \<times> ExecutionBudgetLedger" where
  "check_elapsed t led =
     (if fst t \<ge> max_elapsed (led_limits led)
      then exhaustion TotalElapsedTime (as_millis_u64 (max_elapsed (led_limits led)))
             (as_millis_u64 (snd t)) None
             (led\<lparr>led_state := (led_state led)\<lparr>elapsed_exhausted := True\<rparr>\<rparr>)
      else (Inr (), led))"

text \<open>The common opening of the gated operations: lock, then the elapsed check while the run is not
  terminal.\<close>

definition open_ledger ::
  "nat \<times> nat \<Rightarrow> ExecutionBudgetLedger \<Rightarrow> (BudgetExhaustion, unit) result \<times> ExecutionBudgetLedger" where
  "open_ledger t led =
     (if led_poisoned led then (Inl (ledger_unavailable None), led)
      else if \<not> terminal (led_state led) then check_elapsed t led
      else (Inr (), led))"

definition with_ledger ::
  "nat \<times> nat \<Rightarrow> (ExecutionBudgetLedger \<Rightarrow> (BudgetExhaustion, 'a) result \<times> ExecutionBudgetLedger) \<Rightarrow>
   ExecutionBudgetLedger \<Rightarrow> (BudgetExhaustion, 'a) result \<times> ExecutionBudgetLedger" where
  "with_ledger t f led =
     (case open_ledger t led of
        (Inl e, led') \<Rightarrow> (Inl e, led')
      | (Inr _, led') \<Rightarrow> f led')"

definition terminal_or :: "ExecutionBudgetLedger \<Rightarrow> BudgetExhaustionCategory \<Rightarrow> BudgetExhaustionCategory" where
  "terminal_or led c = (if terminal (led_state led) then RunTerminal else c)"

abbreviation upd_state :: "(LedgerState \<Rightarrow> LedgerState) \<Rightarrow> ExecutionBudgetLedger \<Rightarrow> ExecutionBudgetLedger" where
  "upd_state f led \<equiv> led\<lparr>led_state := f (led_state led)\<rparr>"

definition role_used :: "LedgerState \<Rightarrow> RoutingRole \<Rightarrow> nat" where
  "role_used st role = (case bt_get (provider_by_role st) role of None \<Rightarrow> 0 | Some n \<Rightarrow> n)"

definition provider_used :: "LedgerState \<Rightarrow> nat" where
  "provider_used st = wrapping_add (provider_started st) (provider_reserved st)"

definition tool_used :: "LedgerState \<Rightarrow> nat" where
  "tool_used st = wrapping_add (tool_started st) (tool_reserved st)"

text \<open>An accepted reservation is the value the client then owns: its role.\<close>

definition reserve_provider ::
  "nat \<times> nat \<Rightarrow> RoutingRole \<Rightarrow> ExecutionBudgetLedger \<Rightarrow>
   (BudgetExhaustion, RoutingRole) result \<times> ExecutionBudgetLedger" where
  "reserve_provider t role = with_ledger t (\<lambda>led.
     let st = led_state led; l = led_limits led in
     if terminal st
     then exhaustion RunTerminal (max_provider_invocations l) (provider_used st) (Some role) led
     else if provider_used st \<ge> max_provider_invocations l
     then exhaustion TotalProviderInvocations (max_provider_invocations l) (provider_used st) (Some role)
            (upd_state (\<lambda>s. s\<lparr>provider_rejected := wrapping_add (provider_rejected s) 1\<rparr>) led)
     else if role_used st role \<ge> fst (provider_limit l role)
     then exhaustion (snd (provider_limit l role)) (fst (provider_limit l role)) (role_used st role)
            (Some role)
            (upd_state (\<lambda>s. s\<lparr>provider_rejected := wrapping_add (provider_rejected s) 1\<rparr>) led)
     else (Inr role, upd_state (\<lambda>s. s\<lparr>
             provider_reserved := wrapping_add (provider_reserved s) 1,
             provider_by_role := bt_insert role (wrapping_add (role_used s role) 1) (provider_by_role s)\<rparr>) led))"

definition reserve_tool ::
  "nat \<times> nat \<Rightarrow> RoutingRole \<Rightarrow> ExecutionBudgetLedger \<Rightarrow> (BudgetExhaustion, unit) result \<times> ExecutionBudgetLedger" where
  "reserve_tool t role = with_ledger t (\<lambda>led.
     let st = led_state led; l = led_limits led in
     if terminal st \<or> tool_used st \<ge> max_tool_calls l
     then exhaustion (terminal_or led TotalToolCalls) (max_tool_calls l) (tool_used st) (Some role)
            (upd_state (\<lambda>s. s\<lparr>tool_rejected := wrapping_add (tool_rejected s) 1\<rparr>) led)
     else (Inr (), upd_state (\<lambda>s. s\<lparr>tool_reserved := wrapping_add (tool_reserved s) 1\<rparr>) led))"

definition reserve_context ::
  "nat \<times> nat \<Rightarrow> nat \<Rightarrow> ExecutionBudgetLedger \<Rightarrow> (BudgetExhaustion, unit) result \<times> ExecutionBudgetLedger" where
  "reserve_context t bytes = with_ledger t (\<lambda>led.
     let st = led_state led; l = led_limits led in
     if terminal st \<or> saturating_add (context_bytes_consumed st) bytes > max_context_bytes l
     then exhaustion (terminal_or led InputOrContextLimit) (max_context_bytes l)
            (saturating_add (context_bytes_consumed st) bytes) None led
     else (Inr (), upd_state (\<lambda>s. s\<lparr>context_bytes_consumed :=
             wrapping_add (context_bytes_consumed s) bytes\<rparr>) led))"

definition record_output_tokens ::
  "nat \<times> nat \<Rightarrow> nat \<Rightarrow> ExecutionBudgetLedger \<Rightarrow> (BudgetExhaustion, unit) result \<times> ExecutionBudgetLedger" where
  "record_output_tokens t tokens = with_ledger t (\<lambda>led.
     let st = led_state led; l = led_limits led in
     if terminal st \<or> saturating_add (output_tokens_consumed st) tokens > max_output_tokens l
     then exhaustion (terminal_or led OutputTokenLimit) (max_output_tokens l)
            (saturating_add (output_tokens_consumed st) tokens) None led
     else (Inr (), upd_state (\<lambda>s. s\<lparr>output_tokens_consumed :=
             wrapping_add (output_tokens_consumed s) tokens\<rparr>) led))"

definition admit_executor_tasks ::
  "nat \<times> nat \<Rightarrow> nat \<Rightarrow> ExecutionBudgetLedger \<Rightarrow> (BudgetExhaustion, unit) result \<times> ExecutionBudgetLedger" where
  "admit_executor_tasks t count = with_ledger t (\<lambda>led.
     let st = led_state led; l = led_limits led in
     if terminal st \<or> saturating_add (executor_tasks_admitted st) count > max_executor_tasks l
     then exhaustion (terminal_or led ExecutorTaskCount) (max_executor_tasks l)
            (wrapping_add (executor_tasks_admitted st) count) (Some Executor) led
     else if max_executor_concurrency l = 0
     then exhaustion ExecutorConcurrency 0 0 (Some Executor) led
     else (Inr (), upd_state (\<lambda>s. s\<lparr>executor_tasks_admitted :=
             wrapping_add (executor_tasks_admitted s) count\<rparr>) led))"

definition admit_repair_attempt ::
  "nat \<times> nat \<Rightarrow> ExecutionBudgetLedger \<Rightarrow> (BudgetExhaustion, unit) result \<times> ExecutionBudgetLedger" where
  "admit_repair_attempt t = with_ledger t (\<lambda>led.
     let st = led_state led; l = led_limits led in
     if terminal st \<or> repair_attempts_admitted st \<ge> max_repair_attempts l
     then exhaustion (terminal_or led RepairAttempts) (max_repair_attempts l)
            (repair_attempts_admitted st) (Some Repair) led
     else (Inr (), upd_state (\<lambda>s. s\<lparr>repair_attempts_admitted :=
             wrapping_add (repair_attempts_admitted s) 1\<rparr>) led))"

definition record_tool_output ::
  "nat \<times> nat \<Rightarrow> nat \<Rightarrow> ExecutionBudgetLedger \<Rightarrow> (BudgetExhaustion, unit) result \<times> ExecutionBudgetLedger" where
  "record_tool_output t bytes = with_ledger t (\<lambda>led.
     let st = led_state led; l = led_limits led in
     if terminal st \<or> saturating_add (tool_output_bytes st) bytes > max_tool_output_bytes l
     then exhaustion (terminal_or led AggregateToolOutput) (max_tool_output_bytes l)
            (wrapping_add (tool_output_bytes st) bytes) None led
     else (Inr (), upd_state (\<lambda>s. s\<lparr>tool_output_bytes :=
             wrapping_add (tool_output_bytes s) bytes\<rparr>) led))"

section \<open>Ungated recording\<close>

text \<open>\<open>if let Ok(mut state) = self.state.lock()\<close>: nothing happens on a poisoned mutex.\<close>

definition if_locked :: "(LedgerState \<Rightarrow> LedgerState) \<Rightarrow> ExecutionBudgetLedger \<Rightarrow> ExecutionBudgetLedger" where
  "if_locked f led = (if led_poisoned led then led else upd_state f led)"

definition record_provider_completed :: "ExecutionBudgetLedger \<Rightarrow> ExecutionBudgetLedger" where
  "record_provider_completed =
     if_locked (\<lambda>s. s\<lparr>provider_completed := wrapping_add (provider_completed s) 1\<rparr>)"

definition record_provider_cancelled :: "ExecutionBudgetLedger \<Rightarrow> ExecutionBudgetLedger" where
  "record_provider_cancelled =
     if_locked (\<lambda>s. s\<lparr>provider_cancelled := wrapping_add (provider_cancelled s) 1\<rparr>)"

definition record_provider_failed :: "ExecutionBudgetLedger \<Rightarrow> ExecutionBudgetLedger" where
  "record_provider_failed =
     if_locked (\<lambda>s. s\<lparr>provider_failed := wrapping_add (provider_failed s) 1\<rparr>)"

definition record_provider_timed_out :: "ExecutionBudgetLedger \<Rightarrow> ExecutionBudgetLedger" where
  "record_provider_timed_out =
     if_locked (\<lambda>s. s\<lparr>provider_timed_out := wrapping_add (provider_timed_out s) 1\<rparr>)"

definition record_provider_rejected :: "ExecutionBudgetLedger \<Rightarrow> ExecutionBudgetLedger" where
  "record_provider_rejected =
     if_locked (\<lambda>s. s\<lparr>provider_rejected := wrapping_add (provider_rejected s) 1\<rparr>)"

definition record_tool_completed :: "ExecutionBudgetLedger \<Rightarrow> ExecutionBudgetLedger" where
  "record_tool_completed =
     if_locked (\<lambda>s. s\<lparr>tool_completed := wrapping_add (tool_completed s) 1\<rparr>)"

definition mark_terminal :: "ExecutionBudgetLedger \<Rightarrow> (BudgetExhaustion, unit) result \<times> ExecutionBudgetLedger" where
  "mark_terminal led =
     (if led_poisoned led then (Inl (ledger_unavailable None), led)
      else (Inr (), upd_state (\<lambda>s. s\<lparr>terminal := True\<rparr>) led))"

section \<open>Snapshots\<close>

record ExecutionBudgetSnapshot =
  snap_limits :: ExecutionBudgetLimits
  snap_provider_reserved :: nat
  snap_provider_started :: nat
  snap_provider_completed :: nat
  snap_provider_cancelled :: nat
  snap_provider_failed :: nat
  snap_provider_timed_out :: nat
  snap_provider_rejected :: nat
  snap_tool_reserved :: nat
  snap_tool_started :: nat
  snap_tool_completed :: nat
  snap_tool_rejected :: nat
  snap_tool_output_bytes :: nat
  snap_context_bytes_consumed :: nat
  snap_output_tokens_consumed :: nat
  snap_executor_tasks_admitted :: nat
  snap_repair_attempts_admitted :: nat
  snap_provider_admitted_by_role :: "(RoutingRole \<times> nat) list"
  snap_elapsed :: nat
  snap_elapsed_exhausted :: bool
  snap_terminal :: bool
  snap_last_exhaustion :: "BudgetExhaustion option"

text \<open>\<open>elapsed\<close> is the reading of the run's clock at the call.\<close>

definition budget_snapshot :: "nat \<Rightarrow> ExecutionBudgetLedger \<Rightarrow> ExecutionBudgetSnapshot" where
  "budget_snapshot elapsed led =
     (if led_poisoned led then
      \<lparr>snap_limits = led_limits led,
       snap_provider_reserved = 0,
       snap_provider_started = 0,
       snap_provider_completed = 0,
       snap_provider_cancelled = 0,
       snap_provider_failed = 0,
       snap_provider_timed_out = 0,
       snap_provider_rejected = 0,
       snap_tool_reserved = 0,
       snap_tool_started = 0,
       snap_tool_completed = 0,
       snap_tool_rejected = 0,
       snap_tool_output_bytes = 0,
       snap_context_bytes_consumed = 0,
       snap_output_tokens_consumed = 0,
       snap_executor_tasks_admitted = 0,
       snap_repair_attempts_admitted = 0,
       snap_provider_admitted_by_role = [], snap_elapsed = 0, snap_elapsed_exhausted = False,
       snap_terminal = True, snap_last_exhaustion = None\<rparr>
      else let st = led_state led in
      \<lparr>snap_limits = led_limits led,
       snap_provider_reserved = provider_reserved st,
       snap_provider_started = provider_started st,
       snap_provider_completed = provider_completed st,
       snap_provider_cancelled = provider_cancelled st,
       snap_provider_failed = provider_failed st,
       snap_provider_timed_out = provider_timed_out st,
       snap_provider_rejected = provider_rejected st,
       snap_tool_reserved = tool_reserved st,
       snap_tool_started = tool_started st,
       snap_tool_completed = tool_completed st,
       snap_tool_rejected = tool_rejected st,
       snap_tool_output_bytes = tool_output_bytes st,
       snap_context_bytes_consumed = context_bytes_consumed st,
       snap_output_tokens_consumed = output_tokens_consumed st,
       snap_executor_tasks_admitted = executor_tasks_admitted st,
       snap_repair_attempts_admitted = repair_attempts_admitted st,
       snap_provider_admitted_by_role = provider_by_role st, snap_elapsed = elapsed,
       snap_elapsed_exhausted = elapsed_exhausted st, snap_terminal = terminal st,
       snap_last_exhaustion = led_last_exhaustion led\<rparr>)"

section \<open>Reservations and guards\<close>

datatype ProviderInvocationTerminal = Term_Completed | Term_Failed | Term_Cancelled | Term_TimedOut

text \<open>Dropping an uncommitted reservation of a role.\<close>

definition drop_provider :: "RoutingRole \<Rightarrow> ExecutionBudgetLedger \<Rightarrow> ExecutionBudgetLedger" where
  "drop_provider role = if_locked (\<lambda>s. s\<lparr>
     provider_reserved := saturating_sub (provider_reserved s) 1,
     provider_by_role := (case bt_get (provider_by_role s) role of
         Some v \<Rightarrow> bt_insert role (saturating_sub v 1) (provider_by_role s)
       | None \<Rightarrow> provider_by_role s)\<rparr>)"

text \<open>\<open>commit\<close> consumes the reservation; on a poisoned mutex it returns early and the reservation is
  dropped uncommitted.\<close>

definition commit_provider ::
  "RoutingRole \<Rightarrow> ExecutionBudgetLedger \<Rightarrow> (BudgetExhaustion, unit) result \<times> ExecutionBudgetLedger" where
  "commit_provider role led =
     (if led_poisoned led then (Inl (ledger_unavailable (Some role)), drop_provider role led)
      else (Inr (), upd_state (\<lambda>s. s\<lparr>provider_reserved := saturating_sub (provider_reserved s) 1,
                                     provider_started := saturating_add (provider_started s) 1\<rparr>) led))"

type_synonym ProviderInvocationGuard = "ProviderInvocationTerminal option"

definition commit_with_guard ::
  "RoutingRole \<Rightarrow> ExecutionBudgetLedger \<Rightarrow>
   (BudgetExhaustion, ProviderInvocationGuard) result \<times> ExecutionBudgetLedger" where
  "commit_with_guard role led =
     (if led_poisoned led then (Inl (ledger_unavailable (Some role)), drop_provider role led)
      else (Inr (Some Term_Failed),
            upd_state (\<lambda>s. s\<lparr>provider_reserved := saturating_sub (provider_reserved s) 1,
                             provider_started := saturating_add (provider_started s) 1\<rparr>) led))"

fun record_terminal :: "ProviderInvocationTerminal \<Rightarrow> ExecutionBudgetLedger \<Rightarrow> ExecutionBudgetLedger" where
  "record_terminal Term_Completed = record_provider_completed"
| "record_terminal Term_Failed = record_provider_failed"
| "record_terminal Term_Cancelled = record_provider_cancelled"
| "record_terminal Term_TimedOut = record_provider_timed_out"

definition guard_finish ::
  "ProviderInvocationTerminal \<Rightarrow> ProviderInvocationGuard \<Rightarrow> ExecutionBudgetLedger \<Rightarrow>
   ProviderInvocationGuard \<times> ExecutionBudgetLedger" where
  "guard_finish t g led = (case g of None \<Rightarrow> (None, led) | Some _ \<Rightarrow> (None, record_terminal t led))"

definition guard_drop :: "ProviderInvocationGuard \<Rightarrow> ExecutionBudgetLedger \<Rightarrow> ExecutionBudgetLedger" where
  "guard_drop g led = (if g \<noteq> None then snd (guard_finish Term_Failed g led) else led)"

definition drop_tool :: "ExecutionBudgetLedger \<Rightarrow> ExecutionBudgetLedger" where
  "drop_tool = if_locked (\<lambda>s. s\<lparr>tool_reserved := saturating_sub (tool_reserved s) 1\<rparr>)"

definition commit_tool :: "ExecutionBudgetLedger \<Rightarrow> (BudgetExhaustion, unit) result \<times> ExecutionBudgetLedger" where
  "commit_tool led =
     (if led_poisoned led then (Inl (ledger_unavailable None), drop_tool led)
      else (Inr (), upd_state (\<lambda>s. s\<lparr>tool_reserved := saturating_sub (tool_reserved s) 1,
                                     tool_started := saturating_add (tool_started s) 1\<rparr>) led))"

section \<open>Refusals\<close>

text \<open>A refused call changes nothing but the last reported exhaustion and the elapsed flag.\<close>

definition refused :: "ExecutionBudgetLedger \<Rightarrow> ExecutionBudgetLedger \<Rightarrow> bool" where
  "refused led led' \<longleftrightarrow>
     (\<exists>x b. led' = led\<lparr>led_last_exhaustion := x, led_state := (led_state led)\<lparr>elapsed_exhausted := b\<rparr>\<rparr>)"

lemma refused_refl: "refused led led"
  by (auto simp: refused_def intro!: exI [where x = "led_last_exhaustion led"]
      exI [where x = "elapsed_exhausted (led_state led)"])

lemma refused_exhaustion: "refused led (led\<lparr>led_last_exhaustion := x\<rparr>)"
  unfolding refused_def by (rule exI [where x = x], rule exI [where x = "elapsed_exhausted (led_state led)"]) simp

lemma refused_elapsed:
  "refused led (led\<lparr>led_state := (led_state led)\<lparr>elapsed_exhausted := b\<rparr>, led_last_exhaustion := x\<rparr>)"
  unfolding refused_def by (rule exI [where x = x], rule exI [where x = b]) simp

lemma with_ledger_cases:
  obtains (Refused) e led' where "with_ledger t f led = (Inl e, led')" "refused led led'"
      "be_category e = LedgerUnavailable \<and> led_poisoned led
       \<or> be_category e = TotalElapsedTime \<and> \<not> terminal (led_state led) \<and> max_elapsed (led_limits led) \<le> fst t"
  | (Open) "with_ledger t f led = f led" "\<not> led_poisoned led"
      "terminal (led_state led) \<or> fst t < max_elapsed (led_limits led)"
proof (cases "led_poisoned led")
  case True
  then show thesis
    by (intro Refused [of "ledger_unavailable None" led])
      (simp_all add: with_ledger_def open_ledger_def refused_refl ledger_unavailable_def)
next
  case False
  show thesis
  proof (cases "terminal (led_state led) \<or> fst t < max_elapsed (led_limits led)")
    case True
    then show thesis using False
      by (intro Open) (auto simp: with_ledger_def open_ledger_def check_elapsed_def)
  next
    case late: False
    define e where "e = \<lparr>be_category = TotalElapsedTime, be_limit = as_millis_u64 (max_elapsed (led_limits led)),
      be_consumed_or_reserved = as_millis_u64 (snd t), be_role = None\<rparr>"
    show thesis
      using late False
      by (intro Refused [of e "led\<lparr>led_state := (led_state led)\<lparr>elapsed_exhausted := True\<rparr>, led_last_exhaustion := Some e\<rparr>"])
        (simp_all add: with_ledger_def open_ledger_def check_elapsed_def exhaustion_def e_def refused_elapsed Let_def)
  qed
qed

lemma wrapping_add_exact: "a + b \<le> u64_max \<Longrightarrow> wrapping_add a b = a + b"
  by (simp add: wrapping_add_def u64_max_def)

section \<open>Metered resources\<close>

text \<open>
  The contract that context bytes, output tokens, executor tasks, tool output and repair attempts
  share: a call asks for an amount; it is admitted only while the run is open and the total
  stays within the limit, and then exactly that amount is added; a refusal changes no counter.
\<close>

locale metered_resource =
  fixes admit :: "nat \<times> nat \<Rightarrow> nat \<Rightarrow> ExecutionBudgetLedger \<Rightarrow> (BudgetExhaustion, unit) result \<times> ExecutionBudgetLedger"
    and used :: "LedgerState \<Rightarrow> nat"
    and amount :: "nat \<Rightarrow> nat"
    and limit :: "ExecutionBudgetLimits \<Rightarrow> nat"
    and set_used :: "nat \<Rightarrow> LedgerState \<Rightarrow> LedgerState"
  assumes admit_ok: "limit (led_limits led) < u64_max \<Longrightarrow> used (led_state led) \<le> limit (led_limits led) \<Longrightarrow>
      admit t n led = (Inr u, led') \<Longrightarrow>
      \<not> led_poisoned led \<and> \<not> terminal (led_state led) \<and> fst t < max_elapsed (led_limits led)
      \<and> used (led_state led) + amount n \<le> limit (led_limits led)
      \<and> led' = upd_state (set_used (used (led_state led) + amount n)) led"
    and admit_err: "admit t n led = (Inl e, led') \<Longrightarrow> refused led led'"
    and used_set: "used (set_used v st) = v"
    and used_elapsed: "used (st\<lparr>elapsed_exhausted := b\<rparr>) = used st"
begin

lemma used_refused: "refused led led' \<Longrightarrow> used (led_state led') = used (led_state led)"
  by (auto simp: refused_def used_elapsed)

lemma limits_refused: "refused led led' \<Longrightarrow> led_limits led' = led_limits led"
  by (auto simp: refused_def)

text \<open>Over any series of calls the counter is the initial value plus the admitted amounts, and it
  stays within the limit.\<close>

fun admitted :: "((nat \<times> nat) \<times> nat) list \<Rightarrow> ExecutionBudgetLedger \<Rightarrow> nat" where
  "admitted [] led = 0"
| "admitted ((t, n) # cs) led =
     (case admit t n led of
        (Inl _, led') \<Rightarrow> admitted cs led'
      | (Inr _, led') \<Rightarrow> amount n + admitted cs led')"

lemma metered_total:
  "limit (led_limits led) < u64_max \<Longrightarrow> used (led_state led) \<le> limit (led_limits led) \<Longrightarrow>
   used (led_state led) + admitted cs led \<le> limit (led_limits led)
   \<and> used (led_state (foldl (\<lambda>led c. snd (admit (fst c) (snd c) led)) led cs)) =
       used (led_state led) + admitted cs led"
proof (induction cs arbitrary: led)
  case (Cons c cs)
  obtain t n where c: "c = (t, n)" by (cases c)
  show ?case
  proof (cases "admit t n led" rule: outcome_cases)
    case (Err e led')
    then have "refused led led'" by (rule admit_err)
    then show ?thesis using Cons.IH [of led'] Cons.prems Err c
      by (simp add: used_refused limits_refused)
  next
    case (Ok v led')
    have *: "used (led_state led) + amount n \<le> limit (led_limits led)"
      "led' = upd_state (set_used (used (led_state led) + amount n)) led"
      using admit_ok [OF Cons.prems] Ok by auto
    show ?thesis
      using Cons.IH [of led'] Cons.prems(1) Ok c *(1) unfolding *(2) by (simp add: used_set)
  qed
qed simp

end

lemma with_ledger_ok:
  "with_ledger t f led = (Inr x, led') \<Longrightarrow>
   f led = (Inr x, led') \<and> \<not> led_poisoned led
   \<and> (terminal (led_state led) \<or> fst t < max_elapsed (led_limits led))"
  by (rule with_ledger_cases [of t f led]) auto

lemma with_ledger_err:
  "with_ledger t f led = (Inl e, led') \<Longrightarrow> refused led led' \<or> f led = (Inl e, led')"
  by (rule with_ledger_cases [of t f led]) auto

lemma exhaustion_simps [simp]:
  "exhaustion c l v r led \<noteq> (Inr x, led')"
  "exhaustion c l v r led = (Inl e, led') \<longleftrightarrow>
     e = \<lparr>be_category = c, be_limit = l, be_consumed_or_reserved = v, be_role = r\<rparr>
     \<and> led' = led\<lparr>led_last_exhaustion := Some e\<rparr>"
  "snd (exhaustion c l v r led) = led\<lparr>led_last_exhaustion :=
     Some \<lparr>be_category = c, be_limit = l, be_consumed_or_reserved = v, be_role = r\<rparr>\<rparr>"
  by (auto simp: exhaustion_def Let_def)

text \<open>A saturating comparison against a limit below the word bound is the exact one, and the plain
  addition that follows does not wrap.\<close>

lemma admitted_amount_exact:
  "l < u64_max \<Longrightarrow> \<not> l < saturating_add a n \<Longrightarrow> a + n \<le> l \<and> wrapping_add a n = a + n"
  by (simp add: saturating_add_gt_iff wrapping_add_exact)

lemma counter_step_exact: "l < u64_max \<Longrightarrow> \<not> l \<le> a \<Longrightarrow> wrapping_add a (Suc 0) = Suc a"
  using wrapping_add_exact [of a 1] by simp

interpretation context_bytes: metered_resource reserve_context context_bytes_consumed "\<lambda>n. n" max_context_bytes
  "\<lambda>v s. s\<lparr>context_bytes_consumed := v\<rparr>"
proof
  fix led t n u led'
  assume "max_context_bytes (led_limits led) < u64_max" "reserve_context t n led = (Inr u, led')"
  then show "\<not> led_poisoned led \<and> \<not> terminal (led_state led) \<and> fst t < max_elapsed (led_limits led)
      \<and> context_bytes_consumed (led_state led) + n \<le> max_context_bytes (led_limits led)
      \<and> led' = upd_state (\<lambda>s. s\<lparr>context_bytes_consumed := context_bytes_consumed (led_state led) + n\<rparr>) led"
    unfolding reserve_context_def by (auto dest!: with_ledger_ok simp: Let_def admitted_amount_exact split: if_splits)
next
  fix t n led e led'
  assume "reserve_context t n led = (Inl e, led')"
  then show "refused led led'"
    unfolding reserve_context_def
    by (auto dest!: with_ledger_err simp: Let_def refused_exhaustion split: if_splits)
qed simp_all

interpretation output_tokens: metered_resource record_output_tokens output_tokens_consumed "\<lambda>n. n" max_output_tokens
  "\<lambda>v s. s\<lparr>output_tokens_consumed := v\<rparr>"
proof
  fix led t n u led'
  assume "max_output_tokens (led_limits led) < u64_max" "record_output_tokens t n led = (Inr u, led')"
  then show "\<not> led_poisoned led \<and> \<not> terminal (led_state led) \<and> fst t < max_elapsed (led_limits led)
      \<and> output_tokens_consumed (led_state led) + n \<le> max_output_tokens (led_limits led)
      \<and> led' = upd_state (\<lambda>s. s\<lparr>output_tokens_consumed := output_tokens_consumed (led_state led) + n\<rparr>) led"
    unfolding record_output_tokens_def by (auto dest!: with_ledger_ok simp: Let_def admitted_amount_exact split: if_splits)
next
  fix t n led e led'
  assume "record_output_tokens t n led = (Inl e, led')"
  then show "refused led led'"
    unfolding record_output_tokens_def
    by (auto dest!: with_ledger_err simp: Let_def refused_exhaustion split: if_splits)
qed simp_all

interpretation executor_tasks: metered_resource admit_executor_tasks executor_tasks_admitted "\<lambda>n. n" max_executor_tasks
  "\<lambda>v s. s\<lparr>executor_tasks_admitted := v\<rparr>"
proof
  fix led t n u led'
  assume "max_executor_tasks (led_limits led) < u64_max" "admit_executor_tasks t n led = (Inr u, led')"
  then show "\<not> led_poisoned led \<and> \<not> terminal (led_state led) \<and> fst t < max_elapsed (led_limits led)
      \<and> executor_tasks_admitted (led_state led) + n \<le> max_executor_tasks (led_limits led)
      \<and> led' = upd_state (\<lambda>s. s\<lparr>executor_tasks_admitted := executor_tasks_admitted (led_state led) + n\<rparr>) led"
    unfolding admit_executor_tasks_def by (auto dest!: with_ledger_ok simp: Let_def admitted_amount_exact split: if_splits)
next
  fix t n led e led'
  assume "admit_executor_tasks t n led = (Inl e, led')"
  then show "refused led led'"
    unfolding admit_executor_tasks_def
    by (auto dest!: with_ledger_err simp: Let_def refused_exhaustion split: if_splits)
qed simp_all

interpretation tool_output: metered_resource record_tool_output tool_output_bytes "\<lambda>n. n" max_tool_output_bytes
  "\<lambda>v s. s\<lparr>tool_output_bytes := v\<rparr>"
proof
  fix led t n u led'
  assume "max_tool_output_bytes (led_limits led) < u64_max" "record_tool_output t n led = (Inr u, led')"
  then show "\<not> led_poisoned led \<and> \<not> terminal (led_state led) \<and> fst t < max_elapsed (led_limits led)
      \<and> tool_output_bytes (led_state led) + n \<le> max_tool_output_bytes (led_limits led)
      \<and> led' = upd_state (\<lambda>s. s\<lparr>tool_output_bytes := tool_output_bytes (led_state led) + n\<rparr>) led"
    unfolding record_tool_output_def by (auto dest!: with_ledger_ok simp: Let_def admitted_amount_exact split: if_splits)
next
  fix t n led e led'
  assume "record_tool_output t n led = (Inl e, led')"
  then show "refused led led'"
    unfolding record_tool_output_def
    by (auto dest!: with_ledger_err simp: Let_def refused_exhaustion split: if_splits)
qed simp_all

interpretation repair_attempts: metered_resource "\<lambda>t n. admit_repair_attempt t" repair_attempts_admitted "\<lambda>n. 1"
  max_repair_attempts "\<lambda>v s. s\<lparr>repair_attempts_admitted := v\<rparr>"
proof
  fix led t n u led'
  assume "max_repair_attempts (led_limits led) < u64_max" "admit_repair_attempt t led = (Inr u, led')"
  then show "\<not> led_poisoned led \<and> \<not> terminal (led_state led) \<and> fst t < max_elapsed (led_limits led)
      \<and> repair_attempts_admitted (led_state led) + 1 \<le> max_repair_attempts (led_limits led)
      \<and> led' = upd_state (\<lambda>s. s\<lparr>repair_attempts_admitted := repair_attempts_admitted (led_state led) + 1\<rparr>) led"
    unfolding admit_repair_attempt_def
    by (auto dest!: with_ledger_ok simp: Let_def counter_step_exact split: if_splits)
next
  fix t and n :: nat and led e led'
  assume "admit_repair_attempt t led = (Inl e, led')"
  then show "refused led led'"
    unfolding admit_repair_attempt_def
    by (auto dest!: with_ledger_err simp: Let_def refused_exhaustion split: if_splits)
qed simp_all

section \<open>The ledger with its live reservations and guards\<close>

record budget_sys =
  sys_ledger :: ExecutionBudgetLedger
  sys_reservations :: "RoutingRole list"
  sys_guards :: "ProviderInvocationGuard list"
  sys_tools :: nat

definition sys_new :: "ResolvedExecutionPolicy \<Rightarrow> nat \<Rightarrow> budget_sys" where
  "sys_new rp g = \<lparr>sys_ledger = new_for_generation rp g, sys_reservations = [], sys_guards = [], sys_tools = 0\<rparr>"

datatype budget_op =
  Op_ReserveProvider "nat \<times> nat" RoutingRole
| Op_CommitProvider nat
| Op_CommitGuarded nat
| Op_DropProvider nat
| Op_GuardFinish nat ProviderInvocationTerminal
| Op_GuardDrop nat
| Op_ReserveTool "nat \<times> nat" RoutingRole
| Op_CommitTool
| Op_DropTool
| Op_Context "nat \<times> nat" nat
| Op_OutputTokens "nat \<times> nat" nat
| Op_ExecutorTasks "nat \<times> nat" nat
| Op_RepairAttempt "nat \<times> nat"
| Op_ToolOutput "nat \<times> nat" nat
| Op_RecordTerminal ProviderInvocationTerminal
| Op_RecordRejected
| Op_RecordToolCompleted
| Op_MarkTerminal

definition remove_nth :: "nat \<Rightarrow> 'a list \<Rightarrow> 'a list" where
  "remove_nth i xs = take i xs @ drop (Suc i) xs"

text \<open>Consuming a reservation or a guard that is not alive is no step of the program: the state is
  left alone.\<close>

fun budget_apply :: "budget_sys \<Rightarrow> budget_op \<Rightarrow> budget_sys" where
  "budget_apply s (Op_ReserveProvider t role) =
     (case reserve_provider t role (sys_ledger s) of
        (Inl _, led) \<Rightarrow> s\<lparr>sys_ledger := led\<rparr>
      | (Inr r, led) \<Rightarrow> s\<lparr>sys_ledger := led, sys_reservations := r # sys_reservations s\<rparr>)"
| "budget_apply s (Op_CommitProvider i) =
     (if i < length (sys_reservations s)
      then s\<lparr>sys_ledger := snd (commit_provider (sys_reservations s ! i) (sys_ledger s)),
             sys_reservations := remove_nth i (sys_reservations s)\<rparr>
      else s)"
| "budget_apply s (Op_CommitGuarded i) =
     (if i < length (sys_reservations s)
      then (case commit_with_guard (sys_reservations s ! i) (sys_ledger s) of
              (Inl _, led) \<Rightarrow> s\<lparr>sys_ledger := led, sys_reservations := remove_nth i (sys_reservations s)\<rparr>
            | (Inr g, led) \<Rightarrow> s\<lparr>sys_ledger := led, sys_reservations := remove_nth i (sys_reservations s),
                                sys_guards := g # sys_guards s\<rparr>)
      else s)"
| "budget_apply s (Op_DropProvider i) =
     (if i < length (sys_reservations s)
      then s\<lparr>sys_ledger := drop_provider (sys_reservations s ! i) (sys_ledger s),
             sys_reservations := remove_nth i (sys_reservations s)\<rparr>
      else s)"
| "budget_apply s (Op_GuardFinish i t) =
     (if i < length (sys_guards s)
      then (case guard_finish t (sys_guards s ! i) (sys_ledger s) of
              (g, led) \<Rightarrow> s\<lparr>sys_ledger := led, sys_guards := (sys_guards s)[i := g]\<rparr>)
      else s)"
| "budget_apply s (Op_GuardDrop i) =
     (if i < length (sys_guards s)
      then s\<lparr>sys_ledger := guard_drop (sys_guards s ! i) (sys_ledger s),
             sys_guards := remove_nth i (sys_guards s)\<rparr>
      else s)"
| "budget_apply s (Op_ReserveTool t role) =
     (case reserve_tool t role (sys_ledger s) of
        (Inl _, led) \<Rightarrow> s\<lparr>sys_ledger := led\<rparr>
      | (Inr _, led) \<Rightarrow> s\<lparr>sys_ledger := led, sys_tools := sys_tools s + 1\<rparr>)"
| "budget_apply s Op_CommitTool =
     (if sys_tools s = 0 then s
      else s\<lparr>sys_ledger := snd (commit_tool (sys_ledger s)), sys_tools := sys_tools s - 1\<rparr>)"
| "budget_apply s Op_DropTool =
     (if sys_tools s = 0 then s
      else s\<lparr>sys_ledger := drop_tool (sys_ledger s), sys_tools := sys_tools s - 1\<rparr>)"
| "budget_apply s (Op_Context t n) = s\<lparr>sys_ledger := snd (reserve_context t n (sys_ledger s))\<rparr>"
| "budget_apply s (Op_OutputTokens t n) = s\<lparr>sys_ledger := snd (record_output_tokens t n (sys_ledger s))\<rparr>"
| "budget_apply s (Op_ExecutorTasks t n) = s\<lparr>sys_ledger := snd (admit_executor_tasks t n (sys_ledger s))\<rparr>"
| "budget_apply s (Op_RepairAttempt t) = s\<lparr>sys_ledger := snd (admit_repair_attempt t (sys_ledger s))\<rparr>"
| "budget_apply s (Op_ToolOutput t n) = s\<lparr>sys_ledger := snd (record_tool_output t n (sys_ledger s))\<rparr>"
| "budget_apply s (Op_RecordTerminal t) = s\<lparr>sys_ledger := record_terminal t (sys_ledger s)\<rparr>"
| "budget_apply s Op_RecordRejected = s\<lparr>sys_ledger := record_provider_rejected (sys_ledger s)\<rparr>"
| "budget_apply s Op_RecordToolCompleted = s\<lparr>sys_ledger := record_tool_completed (sys_ledger s)\<rparr>"
| "budget_apply s Op_MarkTerminal = s\<lparr>sys_ledger := snd (mark_terminal (sys_ledger s))\<rparr>"

section \<open>Invariants\<close>

definition limits_small :: "ExecutionBudgetLimits \<Rightarrow> bool" where
  "limits_small l \<longleftrightarrow> max_provider_invocations l < u64_max \<and> (\<forall>r. fst (provider_limit l r) < u64_max)
     \<and> max_tool_calls l < u64_max \<and> max_tool_output_bytes l < u64_max \<and> max_context_bytes l < u64_max
     \<and> max_output_tokens l < u64_max \<and> max_executor_tasks l < u64_max \<and> max_repair_attempts l < u64_max"

definition provider_inv :: "ExecutionBudgetLimits \<Rightarrow> LedgerState \<Rightarrow> RoutingRole list \<Rightarrow> bool" where
  "provider_inv l st res \<longleftrightarrow>
     bt_wf (provider_by_role st)
     \<and> provider_reserved st = length res
     \<and> sum_list (bt_values (provider_by_role st)) = provider_started st + provider_reserved st
     \<and> provider_started st + provider_reserved st \<le> max_provider_invocations l
     \<and> (\<forall>r. count_list res r \<le> role_used st r \<and> role_used st r \<le> fst (provider_limit l r))"

definition tool_inv :: "ExecutionBudgetLimits \<Rightarrow> LedgerState \<Rightarrow> nat \<Rightarrow> bool" where
  "tool_inv l st n \<longleftrightarrow> tool_reserved st = n \<and> tool_started st + tool_reserved st \<le> max_tool_calls l"

definition metered_inv :: "ExecutionBudgetLimits \<Rightarrow> LedgerState \<Rightarrow> bool" where
  "metered_inv l st \<longleftrightarrow>
     tool_output_bytes st \<le> max_tool_output_bytes l \<and> context_bytes_consumed st \<le> max_context_bytes l
     \<and> output_tokens_consumed st \<le> max_output_tokens l \<and> executor_tasks_admitted st \<le> max_executor_tasks l
     \<and> repair_attempts_admitted st \<le> max_repair_attempts l"

definition budget_inv :: "budget_sys \<Rightarrow> bool" where
  "budget_inv s \<longleftrightarrow>
     (let led = sys_ledger s; l = led_limits led; st = led_state led in
      limits_small l \<and> \<not> led_poisoned led
      \<and> provider_inv l st (sys_reservations s) \<and> tool_inv l st (sys_tools s) \<and> metered_inv l st)"

lemma sum_bt_insert:
  "bt_wf m \<Longrightarrow> sum_list (bt_values (bt_insert k v m)) + (case bt_get m k of None \<Rightarrow> 0 | Some x \<Rightarrow> x) =
     sum_list (bt_values m) + (v :: nat)"
proof (induction k v m rule: bt_insert.induct)
  case (2 k v a b m)
  have "k < a \<Longrightarrow> bt_get m k = None" using "2.prems" by (force simp: bt_get_None_iff)
  then show ?case using 2 by (auto simp: bt_values_def)
qed (simp add: bt_values_def)

lemma role_used_le_sum: "bt_wf (provider_by_role st) \<Longrightarrow> role_used st r \<le> sum_list (bt_values (provider_by_role st))"
  by (auto simp: role_used_def intro!: member_le_sum_list dest: bt_get_values split: option.splits)

lemma role_used_insert:
  "role_used (st\<lparr>provider_by_role := bt_insert role v (provider_by_role st)\<rparr>) r =
     (if r = role then v else role_used st r)"
  by (simp add: role_used_def)

lemma count_remove_nth:
  "i < length xs \<Longrightarrow> count_list (remove_nth i xs) r + (if r = xs ! i then 1 else 0) = count_list xs r"
proof (induction xs arbitrary: i)
  case (Cons x xs)
  then show ?case by (cases i) (auto simp: remove_nth_def)
qed simp

lemma length_remove_nth: "i < length xs \<Longrightarrow> length (remove_nth i xs) = length xs - 1"
  by (simp add: remove_nth_def)

text \<open>Changes that the invariants do not see.\<close>

lemma provider_inv_irrelevant:
  "provider_inv l (st\<lparr>elapsed_exhausted := b\<rparr>) res \<longleftrightarrow> provider_inv l st res"
  "provider_inv l (st\<lparr>terminal := b\<rparr>) res \<longleftrightarrow> provider_inv l st res"
  "provider_inv l (st\<lparr>provider_rejected := n\<rparr>) res \<longleftrightarrow> provider_inv l st res"
  "provider_inv l (st\<lparr>provider_completed := n\<rparr>) res \<longleftrightarrow> provider_inv l st res"
  "provider_inv l (st\<lparr>provider_failed := n\<rparr>) res \<longleftrightarrow> provider_inv l st res"
  "provider_inv l (st\<lparr>provider_cancelled := n\<rparr>) res \<longleftrightarrow> provider_inv l st res"
  "provider_inv l (st\<lparr>provider_timed_out := n\<rparr>) res \<longleftrightarrow> provider_inv l st res"
  "provider_inv l (st\<lparr>tool_rejected := n\<rparr>) res \<longleftrightarrow> provider_inv l st res"
  "provider_inv l (st\<lparr>tool_completed := n\<rparr>) res \<longleftrightarrow> provider_inv l st res"
  "provider_inv l (st\<lparr>tool_reserved := n\<rparr>) res \<longleftrightarrow> provider_inv l st res"
  "provider_inv l (st\<lparr>tool_reserved := n, tool_started := n'\<rparr>) res \<longleftrightarrow> provider_inv l st res"
  "provider_inv l (st\<lparr>tool_output_bytes := n\<rparr>) res \<longleftrightarrow> provider_inv l st res"
  "provider_inv l (st\<lparr>context_bytes_consumed := n\<rparr>) res \<longleftrightarrow> provider_inv l st res"
  "provider_inv l (st\<lparr>output_tokens_consumed := n\<rparr>) res \<longleftrightarrow> provider_inv l st res"
  "provider_inv l (st\<lparr>executor_tasks_admitted := n\<rparr>) res \<longleftrightarrow> provider_inv l st res"
  "provider_inv l (st\<lparr>repair_attempts_admitted := n\<rparr>) res \<longleftrightarrow> provider_inv l st res"
  by (simp_all add: provider_inv_def role_used_def)

lemmas inv_simps = budget_inv_def Let_def provider_inv_irrelevant tool_inv_def metered_inv_def

lemma budget_inv_refused: "budget_inv s \<Longrightarrow> refused (sys_ledger s) led \<Longrightarrow> budget_inv (s\<lparr>sys_ledger := led\<rparr>)"
  by (auto simp: refused_def inv_simps)

lemma budget_inv_record:
  assumes "budget_inv s"
  shows "budget_inv (s\<lparr>sys_ledger := record_terminal t (sys_ledger s)\<rparr>)"
    "budget_inv (s\<lparr>sys_ledger := record_provider_rejected (sys_ledger s)\<rparr>)"
    "budget_inv (s\<lparr>sys_ledger := record_tool_completed (sys_ledger s)\<rparr>)"
    "budget_inv (s\<lparr>sys_ledger := snd (mark_terminal (sys_ledger s))\<rparr>)"
proof -
  show "budget_inv (s\<lparr>sys_ledger := record_terminal t (sys_ledger s)\<rparr>)"
    using assms
    by (cases t) (simp_all add: inv_simps if_locked_def record_provider_completed_def record_provider_failed_def
        record_provider_cancelled_def record_provider_timed_out_def)
qed (use assms in \<open>simp_all add: inv_simps if_locked_def record_provider_rejected_def
    record_tool_completed_def mark_terminal_def\<close>)

text \<open>The metered resources, through their contract.\<close>

lemma budget_inv_metered:
  assumes "budget_inv s"
  shows "budget_inv (s\<lparr>sys_ledger := snd (reserve_context t n (sys_ledger s))\<rparr>)"
    "budget_inv (s\<lparr>sys_ledger := snd (record_output_tokens t n (sys_ledger s))\<rparr>)"
    "budget_inv (s\<lparr>sys_ledger := snd (admit_executor_tasks t n (sys_ledger s))\<rparr>)"
    "budget_inv (s\<lparr>sys_ledger := snd (record_tool_output t n (sys_ledger s))\<rparr>)"
    "budget_inv (s\<lparr>sys_ledger := snd (admit_repair_attempt t (sys_ledger s))\<rparr>)"
proof -
  note i = assms [unfolded inv_simps limits_small_def]
  show "budget_inv (s\<lparr>sys_ledger := snd (reserve_context t n (sys_ledger s))\<rparr>)"
    using i assms context_bytes.admit_ok [of "sys_ledger s" t n] context_bytes.admit_err [of t n "sys_ledger s"]
    by (cases "reserve_context t n (sys_ledger s)" rule: outcome_cases)
      (simp add: budget_inv_refused, simp add: inv_simps limits_small_def)
  show "budget_inv (s\<lparr>sys_ledger := snd (record_output_tokens t n (sys_ledger s))\<rparr>)"
    using i assms output_tokens.admit_ok [of "sys_ledger s" t n] output_tokens.admit_err [of t n "sys_ledger s"]
    by (cases "record_output_tokens t n (sys_ledger s)" rule: outcome_cases)
      (simp add: budget_inv_refused, simp add: inv_simps limits_small_def)
  show "budget_inv (s\<lparr>sys_ledger := snd (admit_executor_tasks t n (sys_ledger s))\<rparr>)"
    using i assms executor_tasks.admit_ok [of "sys_ledger s" t n] executor_tasks.admit_err [of t n "sys_ledger s"]
    by (cases "admit_executor_tasks t n (sys_ledger s)" rule: outcome_cases)
      (simp add: budget_inv_refused, simp add: inv_simps limits_small_def)
  show "budget_inv (s\<lparr>sys_ledger := snd (record_tool_output t n (sys_ledger s))\<rparr>)"
    using i assms tool_output.admit_ok [of "sys_ledger s" t n] tool_output.admit_err [of t n "sys_ledger s"]
    by (cases "record_tool_output t n (sys_ledger s)" rule: outcome_cases)
      (simp add: budget_inv_refused, simp add: inv_simps limits_small_def)
  show "budget_inv (s\<lparr>sys_ledger := snd (admit_repair_attempt t (sys_ledger s))\<rparr>)"
    using i assms repair_attempts.admit_ok [of "sys_ledger s" t] repair_attempts.admit_err [of t "sys_ledger s"]
    by (cases "admit_repair_attempt t (sys_ledger s)" rule: outcome_cases)
      (simp add: budget_inv_refused, simp add: inv_simps limits_small_def)
qed

text \<open>Admission of a provider call, with exact arithmetic under the invariant.\<close>

lemma provider_used_exact:
  "provider_inv l st res \<Longrightarrow> limits_small l \<Longrightarrow> provider_used st = provider_started st + provider_reserved st"
  by (simp add: provider_used_def provider_inv_def limits_small_def wrapping_add_exact)

lemma tool_used_exact:
  "tool_inv l st n \<Longrightarrow> limits_small l \<Longrightarrow> tool_used st = tool_started st + tool_reserved st"
  by (simp add: tool_used_def tool_inv_def limits_small_def wrapping_add_exact)

lemma reserve_provider_ok:
  assumes "reserve_provider t role led = (Inr r, led')"
  shows "\<not> led_poisoned led" "\<not> terminal (led_state led)" "r = role"
    "provider_used (led_state led) < max_provider_invocations (led_limits led)"
    "role_used (led_state led) role < fst (provider_limit (led_limits led) role)"
    "led' = upd_state (\<lambda>s. s\<lparr>
       provider_reserved := wrapping_add (provider_reserved s) 1,
       provider_by_role := bt_insert role (wrapping_add (role_used s role) 1) (provider_by_role s)\<rparr>) led"
  using assms unfolding reserve_provider_def
  by (auto dest!: with_ledger_ok simp: Let_def split: if_splits)

lemma reserve_provider_err:
  assumes "reserve_provider t role led = (Inl e, led')"
  shows "refused led led' \<or>
    refused (upd_state (\<lambda>s. s\<lparr>provider_rejected := wrapping_add (provider_rejected s) 1\<rparr>) led) led'"
  using assms unfolding reserve_provider_def
  by (auto dest!: with_ledger_err simp: Let_def refused_exhaustion split: if_splits)

lemma reserve_tool_ok:
  assumes "reserve_tool t role led = (Inr r, led')"
  shows "\<not> led_poisoned led" "\<not> terminal (led_state led)"
    "tool_used (led_state led) < max_tool_calls (led_limits led)"
    "led' = upd_state (\<lambda>s. s\<lparr>tool_reserved := wrapping_add (tool_reserved s) 1\<rparr>) led"
  using assms unfolding reserve_tool_def
  by (auto dest!: with_ledger_ok simp: Let_def split: if_splits)

lemma reserve_tool_err:
  assumes "reserve_tool t role led = (Inl e, led')"
  shows "refused led led' \<or>
    refused (upd_state (\<lambda>s. s\<lparr>tool_rejected := wrapping_add (tool_rejected s) 1\<rparr>) led) led'"
  using assms unfolding reserve_tool_def
  by (auto dest!: with_ledger_err simp: Let_def refused_exhaustion split: if_splits)

lemma bt_sum_add_role:
  "bt_wf (provider_by_role st) \<Longrightarrow>
   sum_list (bt_values (bt_insert role v (provider_by_role st))) + role_used st role =
     sum_list (bt_values (provider_by_role st)) + v"
  using sum_bt_insert [of "provider_by_role st" role v] by (simp add: role_used_def)

lemma provider_inv_reserve:
  assumes "provider_inv l st res" "limits_small l"
    and "provider_used st < max_provider_invocations l" "role_used st role < fst (provider_limit l role)"
  shows "provider_inv l (st\<lparr>provider_reserved := wrapping_add (provider_reserved st) 1,
       provider_by_role := bt_insert role (wrapping_add (role_used st role) 1) (provider_by_role st)\<rparr>) (role # res)"
proof -
  let ?m = "provider_by_role st"
  have u: "provider_started st + provider_reserved st < max_provider_invocations l"
    using assms provider_used_exact by metis
  have "max_provider_invocations l < u64_max" "fst (provider_limit l role) < u64_max"
    using assms(2) by (simp_all add: limits_small_def)
  then have w: "wrapping_add (provider_reserved st) 1 = Suc (provider_reserved st)"
      "wrapping_add (role_used st role) 1 = Suc (role_used st role)"
    using u assms(4) by (simp_all add: wrapping_add_exact)
  have "sum_list (bt_values (bt_insert role (Suc (role_used st role)) ?m)) = Suc (sum_list (bt_values ?m))"
    using bt_sum_add_role [of st role "Suc (role_used st role)"] assms(1) by (simp add: provider_inv_def)
  then show ?thesis
    unfolding w using assms(1,4) u by (auto simp: provider_inv_def role_used_def)
qed

lemma count_remove_le: "i < length xs \<Longrightarrow> count_list (remove_nth i xs) r \<le> count_list xs r"
  using count_remove_nth [of i xs r] by simp

lemma provider_inv_commit:
  assumes "provider_inv l st res" "limits_small l" "i < length res"
  shows "provider_inv l (st\<lparr>provider_reserved := saturating_sub (provider_reserved st) 1,
       provider_started := saturating_add (provider_started st) 1\<rparr>) (remove_nth i res)"
proof -
  have r: "0 < provider_reserved st" "provider_started st + provider_reserved st < u64_max"
    using assms by (auto simp: provider_inv_def limits_small_def)
  then have w: "saturating_add (provider_started st) 1 = Suc (provider_started st)"
    by (simp add: saturating_add_def)
  have "count_list (remove_nth i res) q \<le> role_used st q" for q
    using assms(1) count_remove_le [OF assms(3), of q] by (auto simp: provider_inv_def intro: le_trans)
  then show ?thesis
    using assms r unfolding w by (auto simp: provider_inv_def saturating_sub_def role_used_def length_remove_nth)
qed

lemma provider_inv_drop:
  assumes "provider_inv l st res" "i < length res"
  shows "provider_inv l (st\<lparr>provider_reserved := saturating_sub (provider_reserved st) 1,
       provider_by_role := (case bt_get (provider_by_role st) (res ! i) of
           Some v \<Rightarrow> bt_insert (res ! i) (saturating_sub v 1) (provider_by_role st)
         | None \<Rightarrow> provider_by_role st)\<rparr>) (remove_nth i res)"
proof -
  let ?m = "provider_by_role st" and ?r = "res ! i"
  have "0 < count_list res ?r" using count_list_0_iff [of res ?r] nth_mem [OF assms(2)] by auto
  then have pos: "0 < role_used st ?r" using assms(1) by (auto simp: provider_inv_def dest: spec [of _ ?r])
  then obtain v where v: "bt_get ?m ?r = Some v" "role_used st ?r = v"
    by (auto simp: role_used_def split: option.splits)
  have "sum_list (bt_values (bt_insert ?r (v - Suc 0) ?m)) + v = sum_list (bt_values ?m) + (v - Suc 0)"
    using bt_sum_add_role [of st ?r "v - Suc 0"] assms(1) v(2) by (simp add: provider_inv_def)
  then have sum: "Suc (sum_list (bt_values (bt_insert ?r (v - Suc 0) ?m))) = sum_list (bt_values ?m)"
    using pos v(2) by simp
  have used: "role_used (st\<lparr>provider_reserved := n, provider_by_role := bt_insert ?r (v - Suc 0) ?m\<rparr>) q =
      (if q = ?r then v - Suc 0 else role_used st q)" for n q
    by (simp add: role_used_def)
  have cnt: "count_list (remove_nth i res) q \<le> (if q = ?r then v - Suc 0 else role_used st q)" for q
    using count_remove_nth [OF assms(2), of q] assms(1) v(2)
    by (auto simp: provider_inv_def dest: spec [of _ q])
  have lim: "(if q = ?r then v - Suc 0 else role_used st q) \<le> fst (provider_limit l q)" for q
    using assms(1) v(2) by (auto simp: provider_inv_def dest: spec [of _ q])
  have "provider_reserved st = length res" using assms(1) by (simp add: provider_inv_def)
  then show ?thesis
    using assms sum cnt lim v(1)
    by (auto simp: provider_inv_def saturating_sub_def used length_remove_nth)
qed

lemma budget_inv_provider:
  assumes "budget_inv s"
  shows "budget_inv (budget_apply s (Op_ReserveProvider t role))"
    "budget_inv (budget_apply s (Op_CommitProvider i))"
    "budget_inv (budget_apply s (Op_CommitGuarded i))"
    "budget_inv (budget_apply s (Op_DropProvider i))"
proof -
  note i = assms [unfolded budget_inv_def Let_def]
  show "budget_inv (budget_apply s (Op_ReserveProvider t role))"
  proof (cases "reserve_provider t role (sys_ledger s)" rule: outcome_cases)
    case (Err e led')
    have "budget_inv (s\<lparr>sys_ledger := upd_state (\<lambda>s. s\<lparr>provider_rejected := n\<rparr>) (sys_ledger s)\<rparr>)" for n
      using assms by (simp add: inv_simps)
    then have "budget_inv (s\<lparr>sys_ledger := led'\<rparr>)"
      using reserve_provider_err [OF Err] budget_inv_refused [OF assms] budget_inv_refused
      by fastforce
    then show ?thesis using Err by simp
  next
    case (Ok r led')
    from reserve_provider_ok [OF Ok] i show ?thesis
      by (simp add: Ok provider_inv_reserve [simplified] budget_inv_def tool_inv_def metered_inv_def)
  qed
  show "budget_inv (budget_apply s (Op_CommitProvider i))" "budget_inv (budget_apply s (Op_CommitGuarded i))"
    using i provider_inv_commit [of "led_limits (sys_ledger s)" "led_state (sys_ledger s)" "sys_reservations s" i]
    by (simp_all add: commit_provider_def commit_with_guard_def budget_inv_def tool_inv_def metered_inv_def)
  show "budget_inv (budget_apply s (Op_DropProvider i))"
    using i provider_inv_drop [of "led_limits (sys_ledger s)" "led_state (sys_ledger s)" "sys_reservations s" i]
    by (simp add: drop_provider_def if_locked_def budget_inv_def tool_inv_def metered_inv_def)
qed

lemma budget_inv_tool:
  assumes "budget_inv s"
  shows "budget_inv (budget_apply s (Op_ReserveTool t role))"
    "budget_inv (budget_apply s Op_CommitTool)"
    "budget_inv (budget_apply s Op_DropTool)"
proof -
  note i = assms [unfolded budget_inv_def Let_def]
  have small: "max_tool_calls (led_limits (sys_ledger s)) < u64_max" using i by (simp add: limits_small_def)
  show "budget_inv (budget_apply s (Op_ReserveTool t role))"
  proof (cases "reserve_tool t role (sys_ledger s)" rule: outcome_cases)
    case (Err e led')
    have "budget_inv (s\<lparr>sys_ledger := upd_state (\<lambda>s. s\<lparr>tool_rejected := n\<rparr>) (sys_ledger s)\<rparr>)" for n
      using assms by (simp add: inv_simps)
    then have "budget_inv (s\<lparr>sys_ledger := led'\<rparr>)"
      using reserve_tool_err [OF Err] budget_inv_refused [OF assms] budget_inv_refused
      by fastforce
    then show ?thesis using Err by simp
  next
    case (Ok r led')
    note ok = reserve_tool_ok [OF Ok]
    have "tool_started (led_state (sys_ledger s)) + tool_reserved (led_state (sys_ledger s))
        < max_tool_calls (led_limits (sys_ledger s))"
      using ok(3) i tool_used_exact by metis
    then show ?thesis using ok i small
      by (simp add: Ok inv_simps wrapping_add_exact)
  qed
  show "budget_inv (budget_apply s Op_CommitTool)" "budget_inv (budget_apply s Op_DropTool)"
    using i small by (auto simp: commit_tool_def drop_tool_def if_locked_def inv_simps saturating_sub_def saturating_add_def)
qed

lemma budget_inv_guard:
  assumes "budget_inv s"
  shows "budget_inv (budget_apply s (Op_GuardFinish i t))" "budget_inv (budget_apply s (Op_GuardDrop i))"
proof -
  have g: "budget_inv (s\<lparr>sys_ledger := led, sys_guards := gs\<rparr>) \<longleftrightarrow> budget_inv (s\<lparr>sys_ledger := led\<rparr>)" for led gs
    by (simp add: budget_inv_def)
  have same: "budget_inv (s\<lparr>sys_guards := gs\<rparr>) \<longleftrightarrow> budget_inv s" for gs by (simp add: budget_inv_def)
  show "budget_inv (budget_apply s (Op_GuardFinish i t))"
    using assms by (cases "sys_guards s ! i") (simp_all add: guard_finish_def g same budget_inv_record)
  show "budget_inv (budget_apply s (Op_GuardDrop i))"
    using assms budget_inv_record(1) [OF assms, of Term_Failed]
    by (cases "sys_guards s ! i") (simp_all add: guard_drop_def guard_finish_def g same del: record_terminal.simps)
qed

lemma budget_inv_step: "budget_inv s \<Longrightarrow> budget_inv (budget_apply s o')"
proof (cases o')
qed (use budget_inv_provider budget_inv_tool budget_inv_guard budget_inv_metered budget_inv_record in
    \<open>simp_all del: budget_apply.simps(1-9)\<close>)

lemma limits_small_resolved:
  assumes "resolve_mode sel = Inr rp"
  shows "limits_small (from_resolved rp)"
proof -
  have "ceilings_ok (resolved_policy rp)" by (rule resolved_ok(2) [OF assms])
  moreover have "ep_max_repair_attempts (resolved_policy rp) \<le> 1"
    using resolved_ok(3) [OF assms] by (simp add: repair_ok_def split: if_splits)
  moreover have "fst (provider_limit (from_resolved rp) r) = ep_max_provider_invocations (resolved_policy rp)" for r
    by (cases r) (simp_all add: from_resolved_def Let_def)
  ultimately show ?thesis
    by (simp add: limits_small_def from_resolved_def Let_def ceilings_ok_def u64_max_def limit_defs)
qed

lemma budget_inv_new:
  assumes "resolve_mode sel = Inr rp"
  shows "budget_inv (sys_new rp g)"
  using limits_small_resolved [OF assms]
  by (simp add: sys_new_def new_for_generation_def ledger_zero_def budget_inv_def provider_inv_def tool_inv_def
      metered_inv_def role_used_def bt_values_def)

interpretation budget: transition_system budget_apply
  "\<lambda>s. \<exists>sel rp g. resolve_mode sel = Inr rp \<and> s = sys_new rp g" budget_inv
  by unfold_locales (auto intro: budget_inv_new budget_inv_step)

text \<open>A run that is terminal admits nothing more: the gated operations only touch the reported
  exhaustion and the rejection count of tools.\<close>

definition gated_frame :: "ExecutionBudgetLedger \<Rightarrow> ExecutionBudgetLedger \<Rightarrow> bool" where
  "gated_frame led led' \<longleftrightarrow>
     led_limits led' = led_limits led \<and> terminal (led_state led') = terminal (led_state led)
     \<and> (terminal (led_state led) \<longrightarrow>
          (\<exists>x b n. led' = led\<lparr>led_last_exhaustion := x,
             led_state := (led_state led)\<lparr>elapsed_exhausted := b, tool_rejected := n\<rparr>\<rparr>))"

lemma gated_frame_refused: "refused led led' \<Longrightarrow> gated_frame led led'"
proof -
  assume "refused led led'"
  then obtain x b where r: "led' = led\<lparr>led_last_exhaustion := x, led_state := (led_state led)\<lparr>elapsed_exhausted := b\<rparr>\<rparr>"
    by (auto simp: refused_def)
  have "\<exists>x b n. led' = led\<lparr>led_last_exhaustion := x,
      led_state := (led_state led)\<lparr>elapsed_exhausted := b, tool_rejected := n\<rparr>\<rparr>"
    unfolding r by (rule exI [where x = x], rule exI [where x = b], rule exI [where x = "tool_rejected (led_state led)"]) simp
  then show ?thesis by (simp add: gated_frame_def r)
qed

lemma gated_frame_open:
  "\<not> terminal (led_state led) \<Longrightarrow>
   gated_frame led led' \<longleftrightarrow> led_limits led' = led_limits led \<and> \<not> terminal (led_state led')"
  by (auto simp: gated_frame_def)

lemma gated_frame_with_ledger:
  assumes "\<And>r led'. f led = (r, led') \<Longrightarrow> gated_frame led led'"
  shows "gated_frame led (snd (with_ledger t f led))"
proof (cases rule: with_ledger_cases [of t f led])
  case (Refused e led')
  then show ?thesis by (simp add: gated_frame_refused)
next
  case Open
  then show ?thesis using assms [of "fst (f led)" "snd (f led)"] by simp
qed

lemma gated_frame_exhaustion: "gated_frame led (led\<lparr>led_last_exhaustion := x\<rparr>)"
  by (simp add: gated_frame_refused refused_exhaustion)

lemma gated_frame_tool_rejected:
  "gated_frame led (led\<lparr>led_state := (led_state led)\<lparr>tool_rejected := n\<rparr>, led_last_exhaustion := x\<rparr>)"
proof -
  have "\<exists>x' b n'. led\<lparr>led_state := (led_state led)\<lparr>tool_rejected := n\<rparr>, led_last_exhaustion := x\<rparr> =
      led\<lparr>led_last_exhaustion := x', led_state := (led_state led)\<lparr>elapsed_exhausted := b, tool_rejected := n'\<rparr>\<rparr>"
    by (rule exI [where x = x], rule exI [where x = "elapsed_exhausted (led_state led)"], rule exI [where x = n]) simp
  then show ?thesis by (simp add: gated_frame_def)
qed

lemmas gated_frames = gated_frame_exhaustion gated_frame_tool_rejected gated_frame_open

lemma gated_ops_frame:
  "gated_frame led (snd (reserve_provider t role led))"
  "gated_frame led (snd (reserve_tool t role led))"
  "gated_frame led (snd (reserve_context t n led))"
  "gated_frame led (snd (record_output_tokens t n led))"
  "gated_frame led (snd (admit_executor_tasks t n led))"
  "gated_frame led (snd (admit_repair_attempt t led))"
  "gated_frame led (snd (record_tool_output t n led))"
proof -
  show "gated_frame led (snd (reserve_provider t role led))"
    unfolding reserve_provider_def
    by (rule gated_frame_with_ledger) (auto simp: Let_def exhaustion_def gated_frames split: if_splits)
  show "gated_frame led (snd (reserve_tool t role led))"
    unfolding reserve_tool_def
    by (rule gated_frame_with_ledger) (auto simp: Let_def exhaustion_def gated_frames split: if_splits)
  show "gated_frame led (snd (reserve_context t n led))"
    unfolding reserve_context_def
    by (rule gated_frame_with_ledger) (auto simp: Let_def exhaustion_def gated_frames split: if_splits)
  show "gated_frame led (snd (record_output_tokens t n led))"
    unfolding record_output_tokens_def
    by (rule gated_frame_with_ledger) (auto simp: Let_def exhaustion_def gated_frames split: if_splits)
  show "gated_frame led (snd (admit_executor_tasks t n led))"
    unfolding admit_executor_tasks_def
    by (rule gated_frame_with_ledger) (auto simp: Let_def exhaustion_def gated_frames split: if_splits)
  show "gated_frame led (snd (admit_repair_attempt t led))"
    unfolding admit_repair_attempt_def
    by (rule gated_frame_with_ledger) (auto simp: Let_def exhaustion_def gated_frames split: if_splits)
  show "gated_frame led (snd (record_tool_output t n led))"
    unfolding record_tool_output_def
    by (rule gated_frame_with_ledger) (auto simp: Let_def exhaustion_def gated_frames split: if_splits)
qed

lemma record_terminal_frame:
  "led_limits (record_terminal t led) = led_limits led"
  "terminal (led_state (record_terminal t led)) = terminal (led_state led)"
  by (cases t; simp add: if_locked_def record_provider_completed_def record_provider_failed_def
      record_provider_cancelled_def record_provider_timed_out_def)+

lemmas record_ops_defs = if_locked_def record_provider_rejected_def record_tool_completed_def mark_terminal_def
  commit_provider_def commit_with_guard_def drop_provider_def commit_tool_def drop_tool_def
  guard_drop_def guard_finish_def

lemma gated_limits [simp]: "gated_frame led led' \<Longrightarrow> led_limits led' = led_limits led"
  by (simp add: gated_frame_def)

lemma budget_apply_limits [simp]:
  "led_limits (sys_ledger (budget_apply s o')) = led_limits (sys_ledger s)"
proof (cases o')
  case (Op_ReserveProvider t role)
  then show ?thesis
    using gated_limits [OF gated_ops_frame(1) [of "sys_ledger s" t role]] by (auto split: prod.split sum.split)
next
  case (Op_ReserveTool t role)
  then show ?thesis
    using gated_limits [OF gated_ops_frame(2) [of "sys_ledger s" t role]] by (auto split: prod.split sum.split)
qed (simp_all add: gated_ops_frame record_terminal_frame record_ops_defs record_provider_failed_def
    split: option.split)

lemma budget_run_limits: "led_limits (sys_ledger (foldl budget_apply s ops)) = led_limits (sys_ledger s)"
  by (induction ops arbitrary: s) simp_all

text \<open>The consumption of a ledger, and that a terminal ledger stays terminal and consumes nothing
  more.\<close>

definition metered :: "LedgerState \<Rightarrow> nat list" where
  "metered st = [context_bytes_consumed st, output_tokens_consumed st, executor_tasks_admitted st,
     repair_attempts_admitted st, tool_output_bytes st]"

definition calls :: "LedgerState \<Rightarrow> nat \<times> nat" where
  "calls st = (provider_started st + provider_reserved st, tool_started st + tool_reserved st)"

definition no_more_work :: "LedgerState \<Rightarrow> LedgerState \<Rightarrow> bool" where
  "no_more_work st st' \<longleftrightarrow> terminal st' \<and> metered st' = metered st
     \<and> fst (calls st') \<le> fst (calls st) \<and> snd (calls st') \<le> snd (calls st)"

lemma no_more_work_refl: "terminal st \<Longrightarrow> no_more_work st st"
  by (simp add: no_more_work_def)

lemma no_more_work_trans: "no_more_work st st' \<Longrightarrow> no_more_work st' st'' \<Longrightarrow> no_more_work st st''"
  by (auto simp: no_more_work_def)

lemma no_more_work_gated:
  "gated_frame led led' \<Longrightarrow> terminal (led_state led) \<Longrightarrow> no_more_work (led_state led) (led_state led')"
proof -
  assume "gated_frame led led'" and t: "terminal (led_state led)"
  then obtain x b n where "led' = led\<lparr>led_last_exhaustion := x,
      led_state := (led_state led)\<lparr>elapsed_exhausted := b, tool_rejected := n\<rparr>\<rparr>"
    unfolding gated_frame_def by blast
  then show ?thesis using t by (simp add: no_more_work_def metered_def calls_def)
qed

lemma no_more_work_record:
  "terminal (led_state led) \<Longrightarrow> no_more_work (led_state led) (led_state (record_terminal t led))"
  by (cases t) (simp_all add: if_locked_def record_provider_completed_def record_provider_failed_def
      record_provider_cancelled_def record_provider_timed_out_def no_more_work_def metered_def calls_def)

lemma commit_keeps_calls: "0 < r \<Longrightarrow> saturating_add a (Suc 0) + (r - Suc 0) \<le> a + r"
  by (simp add: saturating_add_def)

lemma terminal_step:
  assumes "budget_inv s" "terminal (led_state (sys_ledger s))"
  shows "no_more_work (led_state (sys_ledger s)) (led_state (sys_ledger (budget_apply s o')))"
proof -
  note gated = gated_ops_frame [THEN no_more_work_gated, OF assms(2)]
  note inv = assms(1) [unfolded inv_simps]
  have pos: "i < length (sys_reservations s) \<Longrightarrow> 0 < provider_reserved (led_state (sys_ledger s))" for i
    using inv by (auto simp: provider_inv_def)
  have tool: "0 < sys_tools s \<Longrightarrow> 0 < tool_reserved (led_state (sys_ledger s))" using inv by simp
  show ?thesis
  proof (cases o')
    case (Op_ReserveProvider t role)
    then show ?thesis using gated(1) [of t role] by (auto split: prod.split sum.split)
  next
    case (Op_ReserveTool t role)
    then show ?thesis using gated(2) [of t role] by (auto split: prod.split sum.split)
  next
    case (Op_GuardFinish i t)
    then show ?thesis using assms(2) by (simp add: guard_finish_def no_more_work_refl no_more_work_record split: option.split)
  next
    case (Op_GuardDrop i)
    then show ?thesis using assms(2) no_more_work_record [OF assms(2), of Term_Failed]
      by (simp add: guard_drop_def guard_finish_def no_more_work_refl split: option.split)
  qed (use assms(2) pos tool in \<open>simp_all add: gated no_more_work_refl no_more_work_record,
      simp_all add: record_ops_defs no_more_work_def metered_def calls_def commit_keeps_calls saturating_sub_def\<close>)
qed

section \<open>Properties of the budget\<close>

abbreviation budget_run :: "ResolvedExecutionPolicy \<Rightarrow> nat \<Rightarrow> budget_op list \<Rightarrow> budget_sys" where
  "budget_run rp g ops \<equiv> foldl budget_apply (sys_new rp g) ops"

abbreviation run_ledger :: "ResolvedExecutionPolicy \<Rightarrow> nat \<Rightarrow> budget_op list \<Rightarrow> ExecutionBudgetLedger" where
  "run_ledger rp g ops \<equiv> sys_ledger (budget_run rp g ops)"

abbreviation run_state :: "ResolvedExecutionPolicy \<Rightarrow> nat \<Rightarrow> budget_op list \<Rightarrow> LedgerState" where
  "run_state rp g ops \<equiv> led_state (run_ledger rp g ops)"

lemma run_inv: "resolve_mode sel = Inr rp \<Longrightarrow> budget_inv (budget_run rp g ops)"
  by (rule budget.inv_run) blast

lemma run_limits [simp]: "led_limits (run_ledger rp g ops) = from_resolved rp"
  by (simp add: budget_run_limits sys_new_def new_for_generation_def)

lemma from_resolved_sel [simp]:
  "fst (provider_limit (from_resolved rp) r) = ep_max_provider_invocations (resolved_policy rp)"
  "max_provider_invocations (from_resolved rp) = ep_max_provider_invocations (resolved_policy rp)"
  "max_tool_calls (from_resolved rp) = ep_max_tool_calls (resolved_policy rp)"
  "max_tool_output_bytes (from_resolved rp) = ep_max_tool_output_bytes (resolved_policy rp)"
  "max_context_bytes (from_resolved rp) = ep_context_budget_bytes (resolved_policy rp)"
  "max_output_tokens (from_resolved rp) = ep_output_budget_tokens (resolved_policy rp)"
  "max_executor_tasks (from_resolved rp) = ep_max_subagents (resolved_policy rp)"
  "max_repair_attempts (from_resolved rp) = ep_max_repair_attempts (resolved_policy rp)"
  "max_elapsed (from_resolved rp) = ep_batch_timeout (resolved_policy rp)"
  by (cases r; simp add: from_resolved_def Let_def)+

text \<open>C2: Whatever calls a run makes on its ledger, in whatever order, with reservations committed,
  dropped or left open: the provider calls started plus those reserved stay within the policy's
  provider budget, in total and for every role; so do tool calls, context bytes, output tokens, tool
  output, executor tasks and repair attempts. The reserved counters are exactly the reservations
  that are alive, and the per-role counters add up to the total.\<close>

theorem budget_never_exceeded:
  assumes "resolve_mode sel = Inr rp"
  shows "let s = budget_run rp g ops; st = led_state (sys_ledger s); p = resolved_policy rp in
     provider_started st + provider_reserved st \<le> ep_max_provider_invocations p
     \<and> (\<forall>r. role_used st r \<le> ep_max_provider_invocations p)
     \<and> sum_list (bt_values (provider_by_role st)) = provider_started st + provider_reserved st
     \<and> provider_reserved st = length (sys_reservations s)
     \<and> tool_started st + tool_reserved st \<le> ep_max_tool_calls p \<and> tool_reserved st = sys_tools s
     \<and> context_bytes_consumed st \<le> ep_context_budget_bytes p
     \<and> output_tokens_consumed st \<le> ep_output_budget_tokens p
     \<and> tool_output_bytes st \<le> ep_max_tool_output_bytes p
     \<and> executor_tasks_admitted st \<le> ep_max_subagents p
     \<and> repair_attempts_admitted st \<le> ep_max_repair_attempts p"
  using run_inv [OF assms, of g ops]
  by (simp add: Let_def budget_inv_def provider_inv_def tool_inv_def metered_inv_def)

theorem budget_never_exceeded_witness:
  "\<exists>rp. resolve_mode Select_Fast = Inr rp
     \<and> provider_started (run_state rp 0 [Op_ReserveProvider (0, 0) Main, Op_CommitGuarded 0])
       + provider_reserved (run_state rp 0 [Op_ReserveProvider (0, 0) Main, Op_CommitGuarded 0])
       \<le> ep_max_provider_invocations (resolved_policy rp)"
proof -
  obtain rp where r: "resolve_mode Select_Fast = Inr rp"
    using resolve_builtin [OF selection_parts.simps(1)] by blast
  show ?thesis
    using budget_never_exceeded [OF r, of 0 "[Op_ReserveProvider (0, 0) Main, Op_CommitGuarded 0]"] r
    unfolding Let_def by blast
qed

text \<open>When a provider call is admitted. At any point of a run, a reservation is granted exactly
  while the run is not terminal, the batch time is not over and the calls started or reserved are
  fewer than the provider budget; otherwise the reported category is the first of these that fails.
  The per-role limits never decide: they equal the total, so the four role categories are never
  reported.\<close>

theorem reserve_provider_decision:
  assumes "resolve_mode sel = Inr rp"
  shows "let led = run_ledger rp g ops; p = resolved_policy rp; st = led_state led;
             used = provider_started st + provider_reserved st in
     map_sum be_category id (fst (reserve_provider t role led)) =
       (if terminal st then Inl RunTerminal
        else if fst t \<ge> ep_batch_timeout p then Inl TotalElapsedTime
        else if used \<ge> ep_max_provider_invocations p then Inl TotalProviderInvocations
        else Inr role)"
proof -
  let ?led = "run_ledger rp g ops"
  let ?st = "led_state ?led"
  have i: "limits_small (from_resolved rp)" "\<not> led_poisoned ?led"
      "provider_inv (from_resolved rp) ?st (sys_reservations (budget_run rp g ops))"
    using run_inv [OF assms, of g ops] by (simp_all add: budget_inv_def Let_def)
  note u = provider_used_exact [OF i(3,1)]
  have "role_used ?st role \<le> provider_started ?st + provider_reserved ?st"
    using role_used_le_sum [of ?st role] i(3) by (simp add: provider_inv_def)
  then show ?thesis
    using i(2) u
    by (simp add: reserve_provider_def with_ledger_def open_ledger_def check_elapsed_def exhaustion_def Let_def)
qed

theorem reserve_provider_decision_witness:
  "\<exists>rp. resolve_mode Select_Fast = Inr rp
     \<and> map_sum be_category id (fst (reserve_provider (0, 0) Main (run_ledger rp 0 [Op_MarkTerminal]))) = Inl RunTerminal"
proof -
  obtain rp where r: "resolve_mode Select_Fast = Inr rp"
    using resolve_builtin [OF selection_parts.simps(1)] by blast
  have "terminal (run_state rp 0 [Op_MarkTerminal])"
    by (simp add: sys_new_def new_for_generation_def mark_terminal_def)
  then show ?thesis
    using reserve_provider_decision [OF r, where t = "(0, 0)" and role = Main and g = 0 and ops = "[Op_MarkTerminal]"] r
    by (simp add: Let_def)
qed



section \<open>Conservation of provider invocations\<close>

text \<open>The calls that account for invocations through guards only: no unguarded commit and no direct
  recording of an outcome.\<close>

fun guarded_op :: "budget_op \<Rightarrow> bool" where
  "guarded_op (Op_CommitProvider _) = False"
| "guarded_op (Op_RecordTerminal _) = False"
| "guarded_op _ = True"

definition finished :: "LedgerState \<Rightarrow> nat" where
  "finished st = provider_completed st + provider_failed st + provider_cancelled st + provider_timed_out st"

definition live_guards :: "budget_sys \<Rightarrow> nat" where
  "live_guards s = length (filter (\<lambda>g. g \<noteq> None) (sys_guards s))"

definition conserved :: "budget_sys \<Rightarrow> bool" where
  "conserved s \<longleftrightarrow> provider_started (led_state (sys_ledger s)) = finished (led_state (sys_ledger s)) + live_guards s"

lemma filter_update_none:
  "i < length gs \<Longrightarrow> length (filter (\<lambda>g. g \<noteq> None) (gs[i := None])) + (if gs ! i = None then 0 else 1) =
     length (filter (\<lambda>g. g \<noteq> None) gs)"
proof (induction gs arbitrary: i)
  case (Cons g gs)
  then show ?case by (cases i) auto
qed simp

lemma filter_remove_nth:
  "i < length gs \<Longrightarrow> length (filter (\<lambda>g. g \<noteq> None) (remove_nth i gs)) + (if gs ! i = None then 0 else 1) =
     length (filter (\<lambda>g. g \<noteq> None) gs)"
proof (induction gs arbitrary: i)
  case (Cons g gs)
  then show ?case by (cases i) (auto simp: remove_nth_def)
qed simp

lemma finished_record:
  assumes "\<not> led_poisoned led" "finished (led_state led) < u64_max"
  shows "finished (led_state (record_terminal t led)) = Suc (finished (led_state led))"
    "provider_started (led_state (record_terminal t led)) = provider_started (led_state led)"
  using assms
  by (cases t; simp add: finished_def if_locked_def record_provider_completed_def record_provider_failed_def
      record_provider_cancelled_def record_provider_timed_out_def wrapping_add_exact)+

text \<open>The gated operations leave started and finished calls alone.\<close>

definition started_frame :: "ExecutionBudgetLedger \<Rightarrow> ExecutionBudgetLedger \<Rightarrow> bool" where
  "started_frame led led' \<longleftrightarrow> provider_started (led_state led') = provider_started (led_state led)
     \<and> finished (led_state led') = finished (led_state led)"

lemma started_frame_refused: "refused led led' \<Longrightarrow> started_frame led led'"
  by (auto simp: refused_def started_frame_def finished_def)

lemma started_frame_with_ledger:
  assumes "started_frame led (snd (f led))"
  shows "started_frame led (snd (with_ledger t f led))"
  using assms by (cases rule: with_ledger_cases [of t f led]) (simp_all add: started_frame_refused)

lemma started_frame_ops:
  "started_frame led (snd (reserve_provider t role led))"
  "started_frame led (snd (reserve_tool t role led))"
  "started_frame led (snd (reserve_context t n led))"
  "started_frame led (snd (record_output_tokens t n led))"
  "started_frame led (snd (admit_executor_tasks t n led))"
  "started_frame led (snd (admit_repair_attempt t led))"
  "started_frame led (snd (record_tool_output t n led))"
  unfolding reserve_provider_def reserve_tool_def reserve_context_def record_output_tokens_def
    admit_executor_tasks_def admit_repair_attempt_def record_tool_output_def
  by (rule started_frame_with_ledger, simp add: Let_def started_frame_def finished_def)+

lemma conserved_frame:
  "started_frame (sys_ledger s) led \<Longrightarrow> sys_guards s' = sys_guards s \<Longrightarrow> sys_ledger s' = led \<Longrightarrow>
   conserved s \<Longrightarrow> conserved s'"
  by (simp add: conserved_def started_frame_def live_guards_def)

lemma conserved_record:
  assumes "budget_inv s" "conserved s" "sys_ledger s' = record_terminal t (sys_ledger s)"
    and "live_guards s' + 1 = live_guards s"
  shows "conserved s'"
proof -
  have p: "\<not> led_poisoned (sys_ledger s)" using assms(1) by (simp add: budget_inv_def Let_def)
  have "provider_started (led_state (sys_ledger s)) < u64_max"
    using assms(1) by (simp add: budget_inv_def Let_def provider_inv_def limits_small_def)
  then have "finished (led_state (sys_ledger s)) < u64_max"
    using assms(2) by (simp add: conserved_def)
  from finished_record [OF p this, of t] show ?thesis
    using assms(2-4) by (simp add: conserved_def)
qed

lemma conserved_same:
  "sys_ledger s' = sys_ledger s \<Longrightarrow> live_guards s' = live_guards s \<Longrightarrow> conserved s \<Longrightarrow> conserved s'"
  by (simp add: conserved_def)

lemma conserved_guard_ops:
  assumes "budget_inv s" "conserved s"
  shows "conserved (budget_apply s (Op_GuardFinish i t))" "conserved (budget_apply s (Op_GuardDrop i))"
proof -
  note up = filter_update_none [of i "sys_guards s"] and rm = filter_remove_nth [of i "sys_guards s"]
  show "conserved (budget_apply s (Op_GuardFinish i t))"
  proof (cases "i < length (sys_guards s)")
    case i: True
    show ?thesis
    proof (cases "sys_guards s ! i")
      case None
      show ?thesis
        by (rule conserved_same [OF _ _ assms(2)])
          (use up i None in \<open>simp_all add: guard_finish_def live_guards_def del: not_None_eq\<close>)
    next
      case (Some v)
      show ?thesis
        by (rule conserved_record [OF assms, where t = t])
          (use up i Some in \<open>simp_all add: guard_finish_def live_guards_def del: not_None_eq\<close>)
    qed
  qed (use assms in simp)
  show "conserved (budget_apply s (Op_GuardDrop i))"
  proof (cases "i < length (sys_guards s)")
    case i: True
    show ?thesis
    proof (cases "sys_guards s ! i")
      case None
      show ?thesis
        by (rule conserved_same [OF _ _ assms(2)])
          (use rm i None in \<open>simp_all add: guard_drop_def live_guards_def del: not_None_eq\<close>)
    next
      case (Some v)
      show ?thesis
        by (rule conserved_record [OF assms, where t = Term_Failed])
          (use rm i Some in \<open>simp_all add: guard_drop_def guard_finish_def live_guards_def del: not_None_eq\<close>)
    qed
  qed (use assms in simp)
qed

lemma conserved_commit:
  assumes "budget_inv s" "conserved s"
  shows "conserved (budget_apply s (Op_CommitGuarded i))"
proof -
  have "provider_started (led_state (sys_ledger s)) < u64_max" "\<not> led_poisoned (sys_ledger s)"
    using assms(1) by (simp_all add: budget_inv_def Let_def provider_inv_def limits_small_def)
  then show ?thesis
    using assms(2) by (simp add: conserved_def finished_def live_guards_def commit_with_guard_def saturating_add_def)
qed

lemma conserved_step:
  assumes "budget_inv s" "conserved s" "guarded_op o'"
  shows "conserved (budget_apply s o')"
proof (cases o')
  note frame = started_frame_ops [THEN conserved_frame, OF _ _ assms(2)]
  {
    case (Op_ReserveProvider t role)
    show ?thesis unfolding Op_ReserveProvider
      by (rule conserved_frame [OF started_frame_ops(1) [of "sys_ledger s" t role] _ _ assms(2)])
        (simp_all split: prod.split sum.split)
  next
    case (Op_ReserveTool t role)
    show ?thesis unfolding Op_ReserveTool
      by (rule conserved_frame [OF started_frame_ops(2) [of "sys_ledger s" t role] _ _ assms(2)])
        (simp_all split: prod.split sum.split)
  next
    case (Op_Context t n)
    show ?thesis unfolding Op_Context by (rule frame(3)) simp_all
  next
    case (Op_OutputTokens t n)
    show ?thesis unfolding Op_OutputTokens by (rule frame(4)) simp_all
  next
    case (Op_ExecutorTasks t n)
    show ?thesis unfolding Op_ExecutorTasks by (rule frame(5)) simp_all
  next
    case (Op_RepairAttempt t)
    show ?thesis unfolding Op_RepairAttempt by (rule frame(6)) simp_all
  next
    case (Op_ToolOutput t n)
    show ?thesis unfolding Op_ToolOutput by (rule frame(7)) simp_all
  }
qed (use assms conserved_guard_ops conserved_commit in
    \<open>simp_all add: conserved_guard_ops conserved_commit del: budget_apply.simps(3,5,6),
      simp_all add: conserved_def finished_def live_guards_def record_ops_defs\<close>)

text \<open>C33: No invocation is lost or counted twice. When every call is committed through a guard, then at
  any point of the run a snapshot shows as started exactly the calls recorded as completed, failed, cancelled
  or timed out plus the guards still open: a guard reports once, dropping an open one reports a
  failure, dropping a finished one nothing.\<close>

theorem invocations_conserved:
  assumes "resolve_mode sel = Inr rp" "list_all guarded_op ops"
  shows "let s = budget_run rp g ops; snap = budget_snapshot elapsed (sys_ledger s) in
     snap_provider_started snap = snap_provider_completed snap + snap_provider_failed snap
       + snap_provider_cancelled snap + snap_provider_timed_out snap + live_guards s"
proof -
  have "conserved (budget_run rp g ops)"
    using assms(2)
  proof (induction ops rule: rev_induct)
    case Nil
    show ?case
      by (simp add: conserved_def finished_def live_guards_def sys_new_def new_for_generation_def ledger_zero_def)
  next
    case (snoc x xs)
    then show ?case using conserved_step [OF run_inv [OF assms(1), of g xs], of x] by simp
  qed
  moreover have "\<not> led_poisoned (run_ledger rp g ops)"
    using run_inv [OF assms(1), of g ops] by (simp add: budget_inv_def Let_def)
  ultimately show ?thesis by (simp add: conserved_def finished_def Let_def budget_snapshot_def)
qed

theorem invocations_conserved_witness:
  "\<exists>rp. resolve_mode Select_Fast = Inr rp
     \<and> (let s = budget_run rp 0 [Op_ReserveProvider (0, 0) Main, Op_CommitGuarded 0, Op_GuardDrop 0];
            snap = budget_snapshot 5 (sys_ledger s) in
        snap_provider_started snap = snap_provider_completed snap + snap_provider_failed snap
          + snap_provider_cancelled snap + snap_provider_timed_out snap + live_guards s)"
proof -
  obtain rp where r: "resolve_mode Select_Fast = Inr rp"
    using resolve_builtin [OF selection_parts.simps(1)] by blast
  show ?thesis
    using invocations_conserved [OF r, of "[Op_ReserveProvider (0, 0) Main, Op_CommitGuarded 0, Op_GuardDrop 0]" 0 5] r
    by (simp del: foldl.simps)
qed

section \<open>Releasing a reservation, and what a refusal reports\<close>

text \<open>Dropping a reservation undoes it. In any state of a run, reserving a provider call for a role
  and dropping the reservation uncommitted restores the reserved counter and every role's counter and
  leaves every other counter of the ledger alone.\<close>

theorem reserve_drop_restores:
  assumes "resolve_mode sel = Inr rp"
    and "reserve_provider t role (run_ledger rp g ops) = (Inr r, led)"
  shows "let st = run_state rp g ops; st' = led_state (drop_provider r led) in
     st'\<lparr>provider_by_role := provider_by_role st\<rparr> = st
     \<and> (\<forall>q. role_used st' q = role_used st q)"
proof -
  let ?st = "run_state rp g ops"
  have i: "limits_small (from_resolved rp)" "provider_inv (from_resolved rp) ?st (sys_reservations (budget_run rp g ops))"
    using run_inv [OF assms(1), of g ops] by (simp_all add: budget_inv_def Let_def)
  note ok = reserve_provider_ok [OF assms(2)]
  have "provider_reserved ?st < u64_max" "role_used ?st role < u64_max"
    using i by (auto simp: provider_inv_def limits_small_def intro: le_less_trans)
  then show ?thesis
    using ok(1,3) unfolding ok(6)
    by (simp add: Let_def drop_provider_def if_locked_def wrapping_add_exact saturating_sub_def role_used_def)
qed

lemma reserve_provider_first:
  assumes "resolve_mode sel = Inr rp" "fst t < ep_batch_timeout (resolved_policy rp)"
    "0 < ep_max_provider_invocations (resolved_policy rp)"
  shows "\<exists>led. reserve_provider t role (run_ledger rp g []) = (Inr role, led)"
  using assms
  by (simp add: reserve_provider_def with_ledger_def open_ledger_def check_elapsed_def sys_new_def
      new_for_generation_def ledger_zero_def Let_def provider_used_def role_used_def wrapping_add_def)

theorem reserve_drop_restores_witness:
  "\<exists>rp led. resolve_mode Select_Fast = Inr rp
     \<and> reserve_provider (0, 0) Main (run_ledger rp 0 []) = (Inr Main, led)
     \<and> role_used (led_state (drop_provider Main led)) Main = role_used (run_state rp 0 []) Main"
proof -
  obtain rp where r: "resolve_mode Select_Fast = Inr rp" "resolved_policy rp = builtin BuiltIn_Fast"
    using resolve_builtin [OF selection_parts.simps(1)] by simp
  have "ceilings_ok (resolved_policy rp)" by (rule resolved_ok(2) [OF r(1)])
  then have "0 < ep_batch_timeout (resolved_policy rp)" "0 < ep_max_provider_invocations (resolved_policy rp)"
    using min_timeout_pos unfolding ceilings_ok_def by linarith+
  then obtain led where "reserve_provider (0, 0) Main (run_ledger rp 0 []) = (Inr Main, led)"
    using reserve_provider_first [OF r(1), of "(0, 0)" Main 0] by auto
  then show ?thesis
    using reserve_drop_restores [OF r(1), of "(0, 0)" Main 0 "[]" Main led] r(1) unfolding Let_def by blast
qed

lemma mod_sum_wraps: "(m :: nat) \<le> a + n \<Longrightarrow> a < m \<Longrightarrow> n < m \<Longrightarrow> (a + n) mod m < a"
  by (simp add: le_mod_geq)

text \<open>What an over-budget refusal reports. In an open run within its time, an over-budget request
  for context bytes reports the consumption saturated at the word bound, so the report is never below
  the limit. Requests for executor tasks and for tool output compare with the same saturating sum but
  report the wrapped one: a request that overflows is refused with a reported consumption below what
  had been consumed already.\<close>

theorem refusal_reports:
  assumes "resolve_mode sel = Inr rp" "\<not> terminal (run_state rp g ops)"
    "fst t < ep_batch_timeout (resolved_policy rp)" "n < 2 ^ 64"
  shows "let led = run_ledger rp g ops; st = led_state led; p = resolved_policy rp in
     (context_bytes_consumed st + n > ep_context_budget_bytes p \<longrightarrow>
        (\<exists>e. fst (reserve_context t n led) = Inl e \<and> be_consumed_or_reserved e > be_limit e))
     \<and> (executor_tasks_admitted st + n \<ge> 2 ^ 64 \<longrightarrow>
        (\<exists>e. fst (admit_executor_tasks t n led) = Inl e
           \<and> be_consumed_or_reserved e < executor_tasks_admitted st))
     \<and> (tool_output_bytes st + n \<ge> 2 ^ 64 \<longrightarrow>
        (\<exists>e. fst (record_tool_output t n led) = Inl e
           \<and> be_consumed_or_reserved e < tool_output_bytes st))"
proof -
  let ?led = "run_ledger rp g ops"
  have p: "\<not> led_poisoned ?led" "limits_small (from_resolved rp)" "metered_inv (from_resolved rp) (led_state ?led)"
    using run_inv [OF assms(1), of g ops] by (simp_all add: budget_inv_def Let_def)
  note small = p(2) [unfolded limits_small_def]
  have wrap: "a + n \<ge> 2 ^ 64 \<Longrightarrow> a < 2 ^ 64 \<Longrightarrow> wrapping_add a n < a" for a
    using assms(4) mod_sum_wraps [of "2 ^ 64" a n] by (simp only: wrapping_add_def)
  have big: "a + n \<ge> 2 ^ 64 \<Longrightarrow> l < u64_max \<Longrightarrow> l < saturating_add a n" for a l
    by (simp add: saturating_add_def u64_max_def)
  have lt: "executor_tasks_admitted (led_state ?led) < 2 ^ 64" "tool_output_bytes (led_state ?led) < 2 ^ 64"
    using p(3) small by (simp_all add: metered_inv_def u64_max_def)
  show ?thesis
    using assms(2,3) p(1) small wrap big lt
    by (auto simp: Let_def reserve_context_def admit_executor_tasks_def record_tool_output_def with_ledger_def
        open_ledger_def check_elapsed_def exhaustion_def terminal_or_def saturating_add_gt_iff)
qed

theorem refusal_reports_witness:
  "\<exists>rp e. resolve_mode Select_Fast = Inr rp
     \<and> fst (reserve_context (0, 0) (ep_context_budget_bytes (resolved_policy rp) + 1) (run_ledger rp 0 [])) = Inl e
     \<and> be_consumed_or_reserved e > be_limit e"
proof -
  obtain rp where r: "resolve_mode Select_Fast = Inr rp"
    using resolve_builtin [OF selection_parts.simps(1)] by blast
  have c: "ceilings_ok (resolved_policy rp)" by (rule resolved_ok(2) [OF r])
  then have t: "0 < ep_batch_timeout (resolved_policy rp)"
    using min_timeout_pos unfolding ceilings_ok_def by linarith
  have n: "ep_context_budget_bytes (resolved_policy rp) + 1 < 2 ^ 64"
    using c by (simp add: ceilings_ok_def limit_defs)
  have "\<not> terminal (run_state rp 0 [])" by (simp add: sys_new_def new_for_generation_def ledger_zero_def)
  from refusal_reports [OF r this, of "(0, 0)", OF _ n] t r show ?thesis
    by (auto simp: Let_def)
qed

end
