(* ===== verification/Subagent_Tools.thy ===== *)
theory Subagent_Tools
  imports Execution_Modes
begin

text \<open>
  The approved repository tools of a subagent (\<open>subagent_tools.rs\<close>): tool kinds, session budgets,
  the approval policy, path validation and containment, and the read, search and git-status tools
  behind \<open>execute_tool\<close>.

  A path is the list of its components below the file-system root. The file system is a finite tree
  of nodes; a directory lists its entries in ascending name order, which is the order the source
  sorts them into. Canonicalisation (the \<open>dunce\<close> crate), the JSON decoding of the arguments and the
  outcome of the \<open>git\<close> process are parameters. Text is UTF-8 bytes, with Rust's validity check
  and character boundaries written out.
\<close>

section \<open>Kinds, budgets and policies\<close>

datatype SubagentToolKind = ReadFile | SearchText | GitStatus

fun tool_index :: "SubagentToolKind \<Rightarrow> nat" where
  "tool_index ReadFile = 0" | "tool_index SearchText = 1" | "tool_index GitStatus = 2"

lemma tool_index_inject: "tool_index a = tool_index b \<longleftrightarrow> a = b"
  by (cases a; cases b) simp_all

instantiation SubagentToolKind :: linorder
begin

definition less_eq_SubagentToolKind :: "SubagentToolKind \<Rightarrow> SubagentToolKind \<Rightarrow> bool" where
  "less_eq_SubagentToolKind a b \<longleftrightarrow> tool_index a \<le> tool_index b"

definition less_SubagentToolKind :: "SubagentToolKind \<Rightarrow> SubagentToolKind \<Rightarrow> bool" where
  "less_SubagentToolKind a b \<longleftrightarrow> tool_index a < tool_index b"

instance
  by standard (auto simp: less_eq_SubagentToolKind_def less_SubagentToolKind_def tool_index_inject)

end

definition all_tools :: "SubagentToolKind list" where
  "all_tools = [ReadFile, SearchText, GitStatus]"

definition from_provider_name :: "string \<Rightarrow> SubagentToolKind option" where
  "from_provider_name name =
     (if name = ''read_file'' then Some ReadFile
      else if name = ''search_text'' then Some SearchText
      else if name = ''git_status'' then Some GitStatus
      else None)"

fun provider_name :: "SubagentToolKind \<Rightarrow> string" where
  "provider_name ReadFile = ''read_file''"
| "provider_name SearchText = ''search_text''"
| "provider_name GitStatus = ''git_status''"

record SubagentSessionBudget =
  sb_max_provider_turns :: nat
  sb_max_tool_calls :: nat
  sb_max_calls_per_tool :: nat
  sb_max_tool_input_bytes :: nat
  sb_max_tool_output_bytes :: nat
  sb_max_aggregate_tool_output_bytes :: nat
  sb_max_file_bytes :: nat
  sb_max_file_read_bytes :: nat
  sb_max_file_read_lines :: nat
  sb_max_search_results :: nat
  sb_max_search_files :: nat
  sb_max_search_bytes :: nat
  sb_max_git_status_entries :: nat
  sb_max_git_output_bytes :: nat
  sb_session_timeout :: nat
  sb_per_tool_timeout :: nat

definition session_budget_default :: SubagentSessionBudget where
  "session_budget_default =
     \<lparr>sb_max_provider_turns = 8, sb_max_tool_calls = 16, sb_max_calls_per_tool = 8,
      sb_max_tool_input_bytes = 16 * 1024, sb_max_tool_output_bytes = 32 * 1024,
      sb_max_aggregate_tool_output_bytes = 128 * 1024, sb_max_file_bytes = 256 * 1024,
      sb_max_file_read_bytes = 32 * 1024, sb_max_file_read_lines = 512, sb_max_search_results = 64,
      sb_max_search_files = 256, sb_max_search_bytes = 2 * 1024 * 1024,
      sb_max_git_status_entries = 256, sb_max_git_output_bytes = 64 * 1024,
      sb_session_timeout = secs 120, sb_per_tool_timeout = secs 5\<rparr>"

type_synonym path = "string list"

type_synonym tool_set = "(SubagentToolKind, unit) btree_map"

record SubagentToolPolicy =
  tp_approved_tools :: tool_set
  tp_workspace_root :: "path option"
  tp_budget :: SubagentSessionBudget

datatype SubagentToolError =
  Tool_InvalidWorkspace | Tool_WorkspaceRequired | Tool_ToolNotApproved | Tool_InvalidInput
  | Tool_InputTooLarge | Tool_InvalidPath | Tool_PathOutsideWorkspace | Tool_NotARegularFile
  | Tool_FileTooLarge | Tool_InvalidUtf8 | Tool_OutputTooLarge | Tool_InvalidCallId
  | Tool_Cancelled | Tool_GitStatusFailed

section \<open>The file system\<close>

datatype fs_node =
  FileN nat "string option"
| DirN bool "(string \<times> fs_node) list"
| LinkN
| OtherN

text \<open>A file has the length its metadata report, and its bytes unless it cannot be read; a
  directory says whether it can be listed.\<close>

record file_system =
  fs_tree :: fs_node
  fs_canonicalize :: "path \<Rightarrow> path option"

fun node_at :: "fs_node \<Rightarrow> path \<Rightarrow> fs_node option" where
  "node_at n [] = Some n"
| "node_at (DirN r es) (c # cs) =
     (case map_of es c of None \<Rightarrow> None | Some n \<Rightarrow> node_at n cs)"
| "node_at _ (c # cs) = None"

text \<open>\<open>metadata\<close>, \<open>is_file\<close> and \<open>read\<close> follow links: they see the node at the canonical path.\<close>

definition follow :: "file_system \<Rightarrow> path \<Rightarrow> fs_node option" where
  "follow fs p = Option.bind (fs_canonicalize fs p) (node_at (fs_tree fs))"

fun is_file_node :: "fs_node option \<Rightarrow> bool" where
  "is_file_node (Some (FileN _ _)) = True"
| "is_file_node _ = False"

fun is_dir_node :: "fs_node option \<Rightarrow> bool" where
  "is_dir_node (Some (DirN _ _)) = True"
| "is_dir_node _ = False"

fun node_len :: "fs_node option \<Rightarrow> nat" where
  "node_len (Some (FileN n _)) = n"
| "node_len _ = 0"

fun node_read :: "fs_node option \<Rightarrow> string option" where
  "node_read (Some (FileN _ c)) = c"
| "node_read _ = None"

section \<open>Policies\<close>

definition policy_empty :: SubagentToolPolicy where
  "policy_empty = \<lparr>tp_approved_tools = [], tp_workspace_root = None, tp_budget = session_budget_default\<rparr>"

definition policy_for_workspace ::
  "file_system \<Rightarrow> path \<Rightarrow> SubagentSessionBudget \<Rightarrow> (SubagentToolError, SubagentToolPolicy) result" where
  "policy_for_workspace fs workspace_root budget =
     res_bind (ok_or (fs_canonicalize fs workspace_root) Tool_InvalidWorkspace) (\<lambda>root.
     res_bind (ensure (is_dir_node (follow fs root)) Tool_InvalidWorkspace) (\<lambda>_.
       Inr \<lparr>tp_approved_tools = [], tp_workspace_root = Some root, tp_budget = budget\<rparr>))"

definition policy_approve :: "SubagentToolKind \<Rightarrow> SubagentToolPolicy \<Rightarrow> SubagentToolPolicy" where
  "policy_approve tool p = p\<lparr>tp_approved_tools := bt_insert tool () (tp_approved_tools p)\<rparr>"

definition requires_workspace :: "SubagentToolPolicy \<Rightarrow> bool" where
  "requires_workspace p \<longleftrightarrow> tp_approved_tools p \<noteq> []"

definition with_repair_limits :: "nat \<Rightarrow> nat \<Rightarrow> SubagentToolPolicy \<Rightarrow> SubagentToolPolicy" where
  "with_repair_limits turns calls p =
     p\<lparr>tp_budget := (tp_budget p)\<lparr>
        sb_max_provider_turns := min (sb_max_provider_turns (tp_budget p)) turns,
        sb_max_tool_calls := min (sb_max_tool_calls (tp_budget p)) calls\<rparr>\<rparr>"

definition with_execution_limits :: "nat \<Rightarrow> nat \<Rightarrow> nat \<Rightarrow> SubagentToolPolicy \<Rightarrow> SubagentToolPolicy" where
  "with_execution_limits turns calls bytes p =
     p\<lparr>tp_budget := (tp_budget p)\<lparr>
        sb_max_provider_turns := min (sb_max_provider_turns (tp_budget p)) turns,
        sb_max_tool_calls := min (sb_max_tool_calls (tp_budget p)) calls,
        sb_max_aggregate_tool_output_bytes := min (sb_max_aggregate_tool_output_bytes (tp_budget p)) bytes\<rparr>\<rparr>"

section \<open>UTF-8 text\<close>

definition is_cont :: "nat \<Rightarrow> bool" where
  "is_cont b \<longleftrightarrow> 128 \<le> b \<and> b \<le> 191"

text \<open>The byte length of the character a sequence starts with, 0 when it starts with none.\<close>

fun utf8_char_len :: "nat list \<Rightarrow> nat" where
  "utf8_char_len [] = 0"
| "utf8_char_len (b # bs) =
     (if b < 128 then 1
      else if 194 \<le> b \<and> b \<le> 223
      then (case bs of c # _ \<Rightarrow> if is_cont c then 2 else 0 | _ \<Rightarrow> 0)
      else if 224 \<le> b \<and> b \<le> 239
      then (case bs of c # d # _ \<Rightarrow>
              if is_cont c \<and> is_cont d \<and> (b = 224 \<longrightarrow> 160 \<le> c) \<and> (b = 237 \<longrightarrow> c \<le> 159) then 3 else 0
            | _ \<Rightarrow> 0)
      else if 240 \<le> b \<and> b \<le> 244
      then (case bs of c # d # e # _ \<Rightarrow>
              if is_cont c \<and> is_cont d \<and> is_cont e \<and> (b = 240 \<longrightarrow> 144 \<le> c) \<and> (b = 244 \<longrightarrow> c \<le> 143)
              then 4 else 0
            | _ \<Rightarrow> 0)
      else 0)"

function valid_utf8_bytes :: "nat list \<Rightarrow> bool" where
  "valid_utf8_bytes bs =
     (if bs = [] then True
      else if utf8_char_len bs = 0 then False
      else valid_utf8_bytes (drop (utf8_char_len bs) bs))"
  by pat_completeness auto
termination
  by (relation "measure length") (auto simp del: utf8_char_len.simps)

declare valid_utf8_bytes.simps [simp del]

definition valid_utf8 :: "string \<Rightarrow> bool" where
  "valid_utf8 s = valid_utf8_bytes (map of_char s)"

definition is_char_boundary :: "string \<Rightarrow> nat \<Rightarrow> bool" where
  "is_char_boundary s i \<longleftrightarrow>
     i = 0 \<or> i = length s \<or> (i < length s \<and> \<not> is_cont (of_char (s ! i)))"

text \<open>\<open>while !value.is_char_boundary(end) { end -= 1; }\<close>\<close>

fun boundary_below :: "string \<Rightarrow> nat \<Rightarrow> nat" where
  "boundary_below s 0 = 0"
| "boundary_below s (Suc n) = (if is_char_boundary s (Suc n) then Suc n else boundary_below s n)"

definition bound_output :: "string \<Rightarrow> nat \<Rightarrow> string \<times> bool" where
  "bound_output v limit =
     (if length v \<le> limit then (v, False) else (take (boundary_below v limit) v, True))"

definition bounded_excerpt :: "string \<Rightarrow> nat \<Rightarrow> string" where
  "bounded_excerpt v limit = fst (bound_output v limit)"

text \<open>\<open>str::lines\<close>: split at line feeds, one carriage return dropped at the end of a line, no
  empty line after a final line feed.\<close>

definition strip_cr :: "string \<Rightarrow> string" where
  "strip_cr l = (if l \<noteq> [] \<and> last l = CHR 0x0D then butlast l else l)"

fun split_on :: "char \<Rightarrow> string \<Rightarrow> string list" where
  "split_on c [] = [[]]"
| "split_on c (x # xs) =
     (if x = c then [] # split_on c xs
      else (case split_on c xs of [] \<Rightarrow> [[x]] | y # ys \<Rightarrow> (x # y) # ys))"

fun lf_lines :: "string \<Rightarrow> (string \<times> bool) list" where
  "lf_lines [] = []"
| "lf_lines (x # xs) =
     (if x = CHR 0x0A then ([], True) # lf_lines xs
      else (case lf_lines xs of [] \<Rightarrow> [([x], False)] | (l, t) # ls \<Rightarrow> (x # l, t) # ls))"

text \<open>The carriage return is dropped only before a line feed.\<close>

definition text_lines :: "string \<Rightarrow> string list" where
  "text_lines s = map (\<lambda>(l, terminated). if terminated then strip_cr l else l) (lf_lines s)"

definition contains_text :: "string \<Rightarrow> string \<Rightarrow> bool" where
  "contains_text q s \<longleftrightarrow> list_ex (\<lambda>i. take (length q) (drop i s) = q) [0..<Suc (length s)]"

fun join_with :: "string \<Rightarrow> string list \<Rightarrow> string" where
  "join_with sep [] = []"
| "join_with sep [x] = x"
| "join_with sep (x # y # ys) = x @ sep @ join_with sep (y # ys)"

definition newline :: string where
  "newline = [CHR 0x0A]"

fun show_nat :: "nat \<Rightarrow> string" where
  "show_nat n = (if n < 10 then [char_of (48 + n)] else show_nat (n div 10) @ [char_of (48 + n mod 10)])"

declare show_nat.simps [simp del]

section \<open>Paths\<close>

definition is_ascii_alphabetic :: "char \<Rightarrow> bool" where
  "is_ascii_alphabetic c \<longleftrightarrow> (65 \<le> byte_of c \<and> byte_of c \<le> 90) \<or> (97 \<le> byte_of c \<and> byte_of c \<le> 122)"

fun has_drive_prefix :: "string \<Rightarrow> bool" where
  "has_drive_prefix (a # b # _) = (is_ascii_alphabetic a \<and> b = CHR '':'')"
| "has_drive_prefix _ = False"

definition starts_with :: "string \<Rightarrow> string \<Rightarrow> bool" where
  "starts_with p s \<longleftrightarrow> take (length p) s = p"

text \<open>The components of a relative path: separators and single dots vanish.\<close>

definition path_components :: "string \<Rightarrow> path" where
  "path_components s = filter (\<lambda>c. c \<noteq> [] \<and> c \<noteq> ''.'') (split_on CHR ''/'' s)"

definition backslash :: char where
  "backslash = CHR 0x5C"

definition split_separators :: "string \<Rightarrow> string list" where
  "split_separators s = concat (map (split_on backslash) (split_on CHR ''/'' s))"

definition validate_relative_path :: "path \<Rightarrow> string \<Rightarrow> (SubagentToolError, path) result" where
  "validate_relative_path root relative =
     (if relative = [] \<or> CHR 0x00 \<in> set relative then Inl Tool_InvalidPath
      else if starts_with ''/'' relative \<or> starts_with [backslash, backslash] relative
              \<or> starts_with ''//'' relative \<or> has_drive_prefix relative then Inl Tool_InvalidPath
      else if ''..'' \<in> set (split_separators relative) then Inl Tool_InvalidPath
      else let candidate = root @ path_components relative in
        if ''..'' \<in> set candidate then Inl Tool_InvalidPath else Inr candidate)"

definition ensure_inside :: "path \<Rightarrow> path \<Rightarrow> (SubagentToolError, unit) result" where
  "ensure_inside root p = ensure (take (length root) p = root) Tool_PathOutsideWorkspace"

definition resolve_existing_path :: "file_system \<Rightarrow> path \<Rightarrow> string \<Rightarrow> (SubagentToolError, path) result" where
  "resolve_existing_path fs root relative =
     res_bind (validate_relative_path root relative) (\<lambda>candidate.
     res_bind (ok_or (fs_canonicalize fs candidate) Tool_InvalidPath) (\<lambda>canonical.
     res_bind (ensure_inside root canonical) (\<lambda>_. Inr canonical)))"

definition resolve_file_path :: "file_system \<Rightarrow> path \<Rightarrow> string \<Rightarrow> (SubagentToolError, path) result" where
  "resolve_file_path fs root relative =
     res_bind (resolve_existing_path fs root relative) (\<lambda>p.
     res_bind (ensure (is_file_node (follow fs p)) Tool_NotARegularFile) (\<lambda>_. Inr p))"

section \<open>The tools\<close>

record ToolExecution =
  te_content :: string
  te_input_bytes :: nat
  te_descriptor :: string
  te_truncated :: bool

record ReadFileArgs =
  rf_path :: string
  rf_start_line :: "nat option"
  rf_max_lines :: "nat option"

record SearchTextArgs =
  st_query :: string
  st_path :: "string option"
  st_max_results :: "nat option"

text \<open>The numbered lines from a first line on, at most a number of them.\<close>

fun numbered_lines :: "nat \<Rightarrow> nat \<Rightarrow> nat \<Rightarrow> nat \<Rightarrow> string list \<Rightarrow> string list" where
  "numbered_lines start limit taken no [] = []"
| "numbered_lines start limit taken no (l # ls) =
     (if no < start then numbered_lines start limit taken (no + 1) ls
      else if taken \<ge> limit then []
      else (show_nat no @ '': '' @ l) # numbered_lines start limit (taken + 1) (no + 1) ls)"

definition tool_read_file ::
  "(string \<Rightarrow> ReadFileArgs option) \<Rightarrow> file_system \<Rightarrow> SubagentToolPolicy \<Rightarrow> path \<Rightarrow> string \<Rightarrow>
   (SubagentToolError, ToolExecution) result" where
  "tool_read_file decode fs policy root arguments =
     (let b = tp_budget policy in
      res_bind (ok_or (decode arguments) Tool_InvalidInput) (\<lambda>args.
      res_bind (resolve_file_path fs root (rf_path args)) (\<lambda>p.
      res_bind (ensure (follow fs p \<noteq> None) Tool_NotARegularFile) (\<lambda>_.
      res_bind (ensure (is_file_node (follow fs p)) Tool_NotARegularFile) (\<lambda>_.
      res_bind (ensure (node_len (follow fs p) \<le> sb_max_file_bytes b) Tool_FileTooLarge) (\<lambda>_.
      res_bind (ok_or (node_read (follow fs p)) Tool_NotARegularFile) (\<lambda>text.
      res_bind (ensure (valid_utf8 text) Tool_InvalidUtf8) (\<lambda>_.
        let start_line = max (case rf_start_line args of None \<Rightarrow> 1 | Some n \<Rightarrow> n) 1;
            max_lines = min (case rf_max_lines args of None \<Rightarrow> sb_max_file_read_lines b | Some n \<Rightarrow> n)
                          (sb_max_file_read_lines b);
            (content, truncated) =
              bound_output (join_with newline (numbered_lines start_line max_lines 0 1 (text_lines text)))
                (min (sb_max_file_read_bytes b) (sb_max_tool_output_bytes b)) in
        Inr \<lparr>te_content = content, te_input_bytes = length arguments,
             te_descriptor = ''path_bytes='' @ show_nat (length (rf_path args)),
             te_truncated = truncated\<rparr>))))))))"

text \<open>The walk below a path. Errors below a directory are dropped by the source.\<close>

fun collect_files ::
  "file_system \<Rightarrow> path \<Rightarrow> nat \<Rightarrow> path \<Rightarrow> fs_node option \<Rightarrow> path list \<Rightarrow>
   (SubagentToolError, unit) result \<times> path list"
  and collect_entries ::
  "file_system \<Rightarrow> path \<Rightarrow> nat \<Rightarrow> path \<Rightarrow> (string \<times> fs_node) list \<Rightarrow> path list \<Rightarrow> path list" where
  "collect_files fs root limit p node files =
     (if length files \<ge> limit then (Inr (), files)
      else case node of
          None \<Rightarrow> (Inl Tool_InvalidPath, files)
        | Some LinkN \<Rightarrow> (Inr (), files)
        | Some (FileN _ _) \<Rightarrow>
            (case fs_canonicalize fs p of
               None \<Rightarrow> (Inl Tool_InvalidPath, files)
             | Some canonical \<Rightarrow>
                 (case ensure_inside root canonical of
                    Inl e \<Rightarrow> (Inl e, files)
                  | Inr _ \<Rightarrow> (Inr (), files @ [canonical])))
        | Some OtherN \<Rightarrow> (Inr (), files)
        | Some (DirN readable entries) \<Rightarrow>
            if \<not> readable then (Inl Tool_InvalidPath, files)
            else (Inr (), collect_entries fs root limit p entries files))"
| "collect_entries fs root limit p [] files = files"
| "collect_entries fs root limit p ((name, n) # es) files =
     (if length files \<ge> limit then files
      else collect_entries fs root limit p es
             (snd (collect_files fs root limit (p @ [name]) (Some n) files)))"

record search_state =
  ss_scanned :: nat
  ss_results :: "string list"
  ss_truncated :: bool

text \<open>The lines of one file, then the files; the boolean says whether the loop over the files goes
  on.\<close>

fun search_lines :: "string \<Rightarrow> string \<Rightarrow> nat \<Rightarrow> nat \<Rightarrow> string list \<Rightarrow> search_state \<Rightarrow> search_state" where
  "search_lines query shown limit no [] s = s"
| "search_lines query shown limit no (l # ls) s =
     (if contains_text query l
      then let s' = s\<lparr>ss_results := ss_results s @ [shown @ '':'' @ show_nat (no + 1) @ '': '' @ bounded_excerpt l 512]\<rparr> in
        if length (ss_results s') \<ge> limit then s'\<lparr>ss_truncated := True\<rparr>
        else search_lines query shown limit (no + 1) ls s'
      else search_lines query shown limit (no + 1) ls s)"

fun search_files ::
  "file_system \<Rightarrow> path \<Rightarrow> nat \<Rightarrow> string \<Rightarrow> nat \<Rightarrow> path list \<Rightarrow> search_state \<Rightarrow>
   (SubagentToolError, search_state) result" where
  "search_files fs root byte_limit query limit [] s = Inr s"
| "search_files fs root byte_limit query limit (f # files) s =
     (if length (ss_results s) \<ge> limit then Inr (s\<lparr>ss_truncated := True\<rparr>)
      else case node_read (follow fs f) of
          None \<Rightarrow> search_files fs root byte_limit query limit files s
        | Some bytes \<Rightarrow>
            let s1 = s\<lparr>ss_scanned := saturating_add (ss_scanned s) (length bytes)\<rparr> in
            if ss_scanned s1 > byte_limit then Inr (s1\<lparr>ss_truncated := True\<rparr>)
            else if \<not> valid_utf8 bytes then search_files fs root byte_limit query limit files s1
            else if take (length root) f \<noteq> root \<and> list_ex (contains_text query) (text_lines bytes)
            then Inl Tool_PathOutsideWorkspace
            else search_files fs root byte_limit query limit files
                   (search_lines query (join_with ''/'' (drop (length root) f)) limit 0 (text_lines bytes) s1))"

definition tool_search_text ::
  "(string \<Rightarrow> SearchTextArgs option) \<Rightarrow> file_system \<Rightarrow> SubagentToolPolicy \<Rightarrow> path \<Rightarrow> string \<Rightarrow>
   (SubagentToolError, ToolExecution) result" where
  "tool_search_text decode fs policy root arguments =
     (let b = tp_budget policy in
      res_bind (ok_or (decode arguments) Tool_InvalidInput) (\<lambda>args.
      res_bind (ensure (st_query args \<noteq> []) Tool_InvalidInput) (\<lambda>_.
      res_bind (case st_path args of Some p \<Rightarrow> resolve_existing_path fs root p | None \<Rightarrow> Inr root) (\<lambda>scope.
        let max_results = min (case st_max_results args of None \<Rightarrow> sb_max_search_results b | Some n \<Rightarrow> n)
                            (sb_max_search_results b);
            (walk, files) = collect_files fs root (sb_max_search_files b) scope (node_at (fs_tree fs) scope) [] in
        res_bind walk (\<lambda>_.
        res_bind (search_files fs root (sb_max_search_bytes b) (st_query args) max_results files
                    \<lparr>ss_scanned = 0, ss_results = [], ss_truncated = False\<rparr>) (\<lambda>s.
          let (content, output_truncated) =
                bound_output (join_with newline (ss_results s)) (sb_max_tool_output_bytes b) in
          Inr \<lparr>te_content = content, te_input_bytes = length arguments,
               te_descriptor = ''query_bytes='' @ show_nat (length (st_query args)),
               te_truncated = ss_truncated s \<or> output_truncated\<rparr>))))))"

text \<open>What the \<open>git\<close> process left behind: standard output, the length of standard error and success;
  \<open>Git_TimedOut\<close> stands for a timeout or a process that could not run.\<close>

datatype git_outcome = Git_Cancelled | Git_TimedOut | Git_Output string nat bool

fun split_once :: "char \<Rightarrow> string \<Rightarrow> (string \<times> string) option" where
  "split_once c [] = None"
| "split_once c (x # xs) =
     (if x = c then Some ([], xs)
      else map_option (\<lambda>(a, b). (x # a, b)) (split_once c xs))"

definition git_record :: "string \<Rightarrow> string" where
  "git_record r =
     (case split_once CHR '' '' r of
        Some (status, p) \<Rightarrow> trim status @ '' '' @ show_nat (length p)
      | None \<Rightarrow> ''record_bytes='' @ show_nat (length r))"

definition tool_git_status ::
  "(string \<Rightarrow> unit option) \<Rightarrow> git_outcome \<Rightarrow> SubagentToolPolicy \<Rightarrow> string \<Rightarrow>
   (SubagentToolError, ToolExecution) result" where
  "tool_git_status decode git policy arguments =
     (let b = tp_budget policy in
      res_bind (ok_or (decode arguments) Tool_InvalidInput) (\<lambda>_.
        case git of
          Git_Cancelled \<Rightarrow> Inl Tool_Cancelled
        | Git_TimedOut \<Rightarrow> Inl Tool_GitStatusFailed
        | Git_Output out err_len success \<Rightarrow>
            if length out > sb_max_git_output_bytes b \<or> err_len > sb_max_git_output_bytes b \<or> \<not> success
            then Inl Tool_GitStatusFailed
            else if \<not> valid_utf8 out then Inl Tool_GitStatusFailed
            else let records = filter (\<lambda>r. r \<noteq> []) (split_on CHR 0x00 out) in
              Inr \<lparr>te_content = join_with newline (map git_record (take (sb_max_git_status_entries b) records)),
                   te_input_bytes = length arguments, te_descriptor = ''status'',
                   te_truncated = length records > sb_max_git_status_entries b\<rparr>))"

definition is_safe_call_id :: "string \<Rightarrow> bool" where
  "is_safe_call_id v \<longleftrightarrow> v \<noteq> [] \<and> length v \<le> 128
     \<and> list_all (\<lambda>c. is_ascii_alphanumeric c \<or> c = CHR ''-'' \<or> c = CHR ''_'') v"

text \<open>Everything outside the crate that a tool call may consult.\<close>

record tool_env =
  env_fs :: file_system
  env_decode_read :: "string \<Rightarrow> ReadFileArgs option"
  env_decode_search :: "string \<Rightarrow> SearchTextArgs option"
  env_decode_git :: "string \<Rightarrow> unit option"
  env_git :: "path \<Rightarrow> git_outcome"

definition execute_tool ::
  "tool_env \<Rightarrow> SubagentToolPolicy \<Rightarrow> SubagentToolKind \<Rightarrow> string \<Rightarrow> string \<Rightarrow> bool \<Rightarrow>
   (SubagentToolError, ToolExecution) result" where
  "execute_tool env policy tool call_id arguments cancelled =
     res_bind (ensure (is_safe_call_id call_id) Tool_InvalidCallId) (\<lambda>_.
     res_bind (ensure (bt_get (tp_approved_tools policy) tool \<noteq> None) Tool_ToolNotApproved) (\<lambda>_.
     res_bind (ok_or (tp_workspace_root policy) Tool_WorkspaceRequired) (\<lambda>root.
     res_bind (ensure (length arguments \<le> sb_max_tool_input_bytes (tp_budget policy)) Tool_InputTooLarge) (\<lambda>_.
     res_bind (ensure (\<not> cancelled) Tool_Cancelled) (\<lambda>_.
       case tool of
         ReadFile \<Rightarrow> tool_read_file (env_decode_read env) (env_fs env) policy root arguments
       | SearchText \<Rightarrow> tool_search_text (env_decode_search env) (env_fs env) policy root arguments
       | GitStatus \<Rightarrow> tool_git_status (env_decode_git env) (env_git env root) policy arguments)))))"

section \<open>Truncation at character boundaries\<close>

lemma boundary_below_le: "boundary_below s n \<le> n"
  by (induction n) auto

lemma boundary_below_boundary: "is_char_boundary s (boundary_below s n)"
  by (induction n) (auto simp: is_char_boundary_def)

lemma boundary_below_greatest: "is_char_boundary s m \<Longrightarrow> m \<le> n \<Longrightarrow> m \<le> boundary_below s n"
  by (induction n) (auto simp: le_Suc_eq)

lemma utf8_char_len_le: "utf8_char_len bs \<le> length bs"
  by (cases bs) (auto split: list.splits)

lemma nth_small_cases: "0 < i \<Longrightarrow> i < 4 \<Longrightarrow> i = 1 \<or> i = 2 \<or> i = (3 :: nat)"
  by arith

lemma utf8_char_len_cont:
  assumes "0 < i" "i < utf8_char_len bs"
  shows "is_cont (bs ! i)"
proof -
  have "utf8_char_len bs \<le> 4" by (cases bs) (auto split: list.splits)
  then have "i = 1 \<or> i = 2 \<or> i = 3" using assms nth_small_cases by simp
  then show ?thesis using assms(2) by (cases bs) (auto split: list.splits if_splits)
qed

lemma utf8_char_len_take:
  assumes "utf8_char_len bs \<le> e" "0 < e"
  shows "utf8_char_len bs \<noteq> 0 \<Longrightarrow> utf8_char_len (take e bs) = utf8_char_len bs"
  using assms
  by (cases bs; cases e) (auto simp: take_Cons' split: list.splits if_splits)

lemma valid_utf8_bytes_take:
  "valid_utf8_bytes bs \<Longrightarrow> e = 0 \<or> e = length bs \<or> (e < length bs \<and> \<not> is_cont (bs ! e)) \<Longrightarrow>
   valid_utf8_bytes (take e bs)"
proof (induction bs arbitrary: e rule: valid_utf8_bytes.induct)
  case (1 bs)
  let ?k = "utf8_char_len bs"
  show ?case
  proof (cases "e = 0 \<or> bs = []")
    case True
    then show ?thesis by (auto simp: valid_utf8_bytes.simps [of "[]"])
  next
    case False
    then have k: "?k \<noteq> 0" "valid_utf8_bytes (drop ?k bs)"
      using "1.prems"(1) by (simp_all add: valid_utf8_bytes.simps [of bs] split: if_splits)
    have ke: "?k \<le> e"
    proof (rule ccontr)
      assume "\<not> ?k \<le> e"
      then show False
        using utf8_char_len_cont [of e bs] utf8_char_len_le [of bs] False "1.prems"(2) by auto
    qed
    have "e - ?k = 0 \<or> e - ?k = length (drop ?k bs)
        \<or> (e - ?k < length (drop ?k bs) \<and> \<not> is_cont (drop ?k bs ! (e - ?k)))"
      using "1.prems"(2) ke False by auto
    then have "valid_utf8_bytes (take (e - ?k) (drop ?k bs))"
      using "1.IH" [OF _ k(1) k(2)] False by blast
    then have "valid_utf8_bytes (drop ?k (take e bs))" by (simp add: drop_take)
    moreover have "utf8_char_len (take e bs) = ?k" using utf8_char_len_take ke k(1) False by blast
    ultimately show ?thesis using k(1) by (simp add: valid_utf8_bytes.simps [of "take e bs"])
  qed
qed

lemma valid_utf8_take: "valid_utf8 s \<Longrightarrow> is_char_boundary s e \<Longrightarrow> valid_utf8 (take e s)"
  using valid_utf8_bytes_take [of "map of_char s" e]
  by (auto simp: valid_utf8_def is_char_boundary_def take_map)

lemma bound_output_length: "length (fst (bound_output v limit)) \<le> limit"
  using boundary_below_le [of v limit] by (auto simp: bound_output_def min_def)

text \<open>Bounding a text. The result is a prefix of at most the limit that ends at a character
  boundary, the longest such prefix, so valid UTF-8 stays valid; a text within the limit is returned
  whole, and the flag says whether anything was cut.\<close>

theorem bound_output_spec:
  "let (out, cut) = bound_output v limit in
   length out \<le> limit \<and> (cut \<longleftrightarrow> length v > limit) \<and> (\<not> cut \<longrightarrow> out = v)
   \<and> out = take (length out) v \<and> is_char_boundary v (length out)
   \<and> (\<forall>m \<le> limit. is_char_boundary v m \<longrightarrow> m \<le> length out)
   \<and> (valid_utf8 v \<longrightarrow> valid_utf8 out)"
proof (cases "length v \<le> limit")
  case True
  then show ?thesis by (auto simp: bound_output_def is_char_boundary_def)
next
  case False
  let ?e = "boundary_below v limit"
  have e: "?e \<le> limit" by (rule boundary_below_le)
  then have len: "length (take ?e v) = ?e" using False by simp
  show ?thesis
    using False e len boundary_below_boundary [of v limit] boundary_below_greatest [of v _ limit]
      valid_utf8_take [OF _ boundary_below_boundary [of v limit]]
    by (simp add: bound_output_def)
qed

theorem bound_output_spec_witness:
  "bound_output ''abcd'' 3 = (''abc'', True) \<and> length (fst (bound_output ''abcd'' 3)) \<le> 3"
  using bound_output_spec [of "''abcd''" 3] by (auto simp: bound_output_def numeral_3_eq_3 is_char_boundary_def is_cont_def)

section \<open>Confinement to the workspace\<close>

text \<open>What the tools rely on of canonicalisation: a canonical path is its own canonical path.\<close>

definition canonicalize_idempotent :: "file_system \<Rightarrow> bool" where
  "canonicalize_idempotent fs \<longleftrightarrow> (\<forall>p q. fs_canonicalize fs p = Some q \<longrightarrow> fs_canonicalize fs q = Some q)"

abbreviation inside :: "path \<Rightarrow> path \<Rightarrow> bool" where
  "inside root p \<equiv> take (length root) p = root"

text \<open>Two file systems that agree on canonicalisation and on the tree below a root.\<close>

definition agree_inside :: "path \<Rightarrow> file_system \<Rightarrow> file_system \<Rightarrow> bool" where
  "agree_inside root fs fs' \<longleftrightarrow> fs_canonicalize fs' = fs_canonicalize fs \<and> canonicalize_idempotent fs
     \<and> node_at (fs_tree fs') root = node_at (fs_tree fs) root"

lemma node_at_append: "node_at n (p @ q) = Option.bind (node_at n p) (\<lambda>m. node_at m q)"
  by (induction n p rule: node_at.induct) (auto split: option.split)

lemma agree_node:
  assumes "agree_inside root fs fs'" "inside root p"
  shows "node_at (fs_tree fs') p = node_at (fs_tree fs) p"
proof -
  have "p = root @ drop (length root) p" using assms(2) by (metis append_take_drop_id)
  then show ?thesis using assms(1) node_at_append unfolding agree_inside_def by metis
qed

definition canonical_inside :: "file_system \<Rightarrow> path \<Rightarrow> path \<Rightarrow> bool" where
  "canonical_inside fs root p \<longleftrightarrow> fs_canonicalize fs p = Some p \<and> inside root p"

lemma agree_follow:
  "agree_inside root fs fs' \<Longrightarrow> canonical_inside fs root p \<Longrightarrow> follow fs' p = follow fs p"
  using agree_node [of root fs fs' p] by (simp add: follow_def canonical_inside_def agree_inside_def)

lemma resolve_existing_inside:
  "canonicalize_idempotent fs \<Longrightarrow> resolve_existing_path fs root r = Inr p \<Longrightarrow> canonical_inside fs root p"
  by (auto simp: resolve_existing_path_def result_simps ensure_inside_def canonicalize_idempotent_def
      canonical_inside_def)

lemma resolve_existing_agree:
  "agree_inside root fs fs' \<Longrightarrow> resolve_existing_path fs' root r = resolve_existing_path fs root r"
  by (simp add: resolve_existing_path_def agree_inside_def)

lemma resolve_file_agree:
  assumes "agree_inside root fs fs'"
  shows "resolve_file_path fs' root r = resolve_file_path fs root r"
proof (cases "resolve_existing_path fs root r")
  case (Inr p)
  then have "canonical_inside fs root p" using resolve_existing_inside assms by (auto simp: agree_inside_def)
  then show ?thesis using Inr resolve_existing_agree [OF assms] agree_follow [OF assms]
    by (simp add: resolve_file_path_def)
qed (simp add: resolve_file_path_def resolve_existing_agree [OF assms])

lemma resolve_file_inside:
  "canonicalize_idempotent fs \<Longrightarrow> resolve_file_path fs root r = Inr p \<Longrightarrow> canonical_inside fs root p"
  by (auto simp: resolve_file_path_def result_simps intro: resolve_existing_inside)

lemma tool_read_file_agree:
  assumes "agree_inside root fs fs'"
  shows "tool_read_file decode fs' policy root args = tool_read_file decode fs policy root args"
proof (cases "decode args")
  case (Some a)
  show ?thesis
  proof (cases "resolve_file_path fs root (rf_path a)")
    case (Inr p)
    then have "follow fs' p = follow fs p"
      using resolve_file_inside assms agree_follow by (metis agree_inside_def)
    then show ?thesis using Some Inr by (simp add: tool_read_file_def resolve_file_agree [OF assms])
  qed (simp add: tool_read_file_def Some resolve_file_agree [OF assms])
qed (simp add: tool_read_file_def)

lemma collect_files_canonicalize:
  "fs_canonicalize fs' = fs_canonicalize fs \<Longrightarrow> collect_files fs' root limit p n files = collect_files fs root limit p n files"
  "fs_canonicalize fs' = fs_canonicalize fs \<Longrightarrow> collect_entries fs' root limit p es files = collect_entries fs root limit p es files"
proof (induction fs root limit p n files and fs root limit p es files rule: collect_files_collect_entries.induct)
  case (1 fs root limit p node files)
  then show ?case by (subst (1 2) collect_files.simps) (auto split: option.split fs_node.split)
qed simp_all

lemma canonicalized_inside:
  "canonicalize_idempotent fs \<Longrightarrow> fs_canonicalize fs p = Some q \<Longrightarrow> ensure_inside root q = Inr u \<Longrightarrow>
   canonical_inside fs root q"
  by (simp add: canonicalize_idempotent_def ensure_inside_def ensure_eq_Inr canonical_inside_def)

lemma collect_files_inside:
  "canonicalize_idempotent fs \<Longrightarrow> list_all (canonical_inside fs root) files \<Longrightarrow>
     list_all (canonical_inside fs root) (snd (collect_files fs root limit p n files))"
  "canonicalize_idempotent fs \<Longrightarrow> list_all (canonical_inside fs root) files \<Longrightarrow>
     list_all (canonical_inside fs root) (collect_entries fs root limit p es files)"
proof (induction fs root limit p n files and fs root limit p es files rule: collect_files_collect_entries.induct)
  case (1 fs root limit p node files)
  then show ?case
    by (subst collect_files.simps)
      (auto intro: canonicalized_inside split: option.split fs_node.split sum.split)
qed simp_all

lemma search_files_agree:
  assumes "agree_inside root fs fs'"
  shows "list_all (canonical_inside fs root) files \<Longrightarrow>
    search_files fs' root bl q l files s = search_files fs root bl q l files s"
  by (induction files arbitrary: s) (auto simp: agree_follow [OF assms] Let_def split: option.split)

lemma tool_search_text_agree:
  assumes "agree_inside root fs fs'"
  shows "tool_search_text decode fs' policy root args = tool_search_text decode fs policy root args"
proof (cases "decode args")
  case (Some a)
  have same: "(case st_path a of Some p \<Rightarrow> resolve_existing_path fs' root p | None \<Rightarrow> Inr root) =
      (case st_path a of Some p \<Rightarrow> resolve_existing_path fs root p | None \<Rightarrow> Inr root)"
    using resolve_existing_agree [OF assms] by (simp split: option.split)
  have idem: "canonicalize_idempotent fs" "fs_canonicalize fs' = fs_canonicalize fs"
    using assms by (simp_all add: agree_inside_def)
  show ?thesis
  proof (cases "case st_path a of Some p \<Rightarrow> resolve_existing_path fs root p | None \<Rightarrow> Inr root")
    case (Inr scope)
    then have "inside root scope"
      using resolve_existing_inside [OF idem(1)] by (auto simp: canonical_inside_def split: option.splits)
    then have node: "node_at (fs_tree fs') scope = node_at (fs_tree fs) scope" by (rule agree_node [OF assms])
    let ?walk = "collect_files fs root (sb_max_search_files (tp_budget policy)) scope (node_at (fs_tree fs) scope) []"
    obtain w files where walk: "?walk = (w, files)" by (cases ?walk)
    then have "list_all (canonical_inside fs root) files"
      using collect_files_inside(1) [OF idem(1), of root "[]"] by (metis list.pred_inject(1) snd_conv)
    then show ?thesis
      using Some Inr walk search_files_agree [OF assms]
      by (simp add: tool_search_text_def same node collect_files_canonicalize(1) [OF idem(2)] Let_def
          del: collect_files.simps)
  qed (simp add: tool_search_text_def Some same)
qed (simp add: tool_search_text_def)


definition demo_fs :: "string \<Rightarrow> file_system" where
  "demo_fs secret =
     \<lparr>fs_tree = DirN True [(''etc'', FileN (length secret) (Some secret)),
                           (''ws'', DirN True [(''a.txt'', FileN 2 (Some ''hi''))])],
      fs_canonicalize = (\<lambda>p. Some p)\<rparr>"

definition demo_tool_env :: "string \<Rightarrow> tool_env" where
  "demo_tool_env secret =
     \<lparr>env_fs = demo_fs secret,
      env_decode_read = (\<lambda>a. Some \<lparr>rf_path = a, rf_start_line = None, rf_max_lines = None\<rparr>),
      env_decode_search = (\<lambda>a. Some \<lparr>st_query = a, st_path = None, st_max_results = None\<rparr>),
      env_decode_git = (\<lambda>a. Some ()), env_git = (\<lambda>_. Git_TimedOut)\<rparr>"

definition demo_tool_policy :: SubagentToolPolicy where
  "demo_tool_policy = policy_approve ReadFile (policy_approve SearchText
     \<lparr>tp_approved_tools = [], tp_workspace_root = Some [''ws''], tp_budget = session_budget_default\<rparr>)"


lemma tool_read_file_result:
  assumes "tool_read_file decode fs policy root arguments = Inr x"
  shows "\<exists>v. te_content x = fst (bound_output v
           (min (sb_max_file_read_bytes (tp_budget policy)) (sb_max_tool_output_bytes (tp_budget policy))))"
    and "te_input_bytes x = length arguments"
  using assms by (auto simp: tool_read_file_def Let_def split_beta result_simps)

lemma tool_search_text_result:
  assumes "tool_search_text decode fs policy root arguments = Inr x"
  shows "\<exists>v. te_content x = fst (bound_output v (sb_max_tool_output_bytes (tp_budget policy)))"
    and "te_input_bytes x = length arguments"
  using assms
  by (auto simp: tool_search_text_def Let_def split_beta result_simps simp del: collect_files.simps)

lemma tool_git_status_result:
  assumes "tool_git_status decode git policy arguments = Inr x"
  shows "\<exists>es. te_content x = join_with newline es \<and> length es \<le> sb_max_git_status_entries (tp_budget policy)"
    and "te_input_bytes x = length arguments"
proof -
  obtain rs where rs: "te_content x = join_with newline (map git_record (take (sb_max_git_status_entries (tp_budget policy)) rs))"
      "te_input_bytes x = length arguments"
    using assms by (auto simp: tool_git_status_def Let_def result_simps split: git_outcome.splits if_splits)
  show "\<exists>es. te_content x = join_with newline es \<and> length es \<le> sb_max_git_status_entries (tp_budget policy)"
    using rs(1) by (metis length_map length_take min.cobounded2)
  show "te_input_bytes x = length arguments" by (rule rs(2))
qed

lemma execute_tool_authorised:
  assumes "execute_tool env policy tool call_id arguments cancelled = Inr x"
  shows "is_safe_call_id call_id" "bt_get (tp_approved_tools policy) tool = Some ()"
    "tp_workspace_root policy \<noteq> None" "length arguments \<le> sb_max_tool_input_bytes (tp_budget policy)"
    "\<not> cancelled"
  using assms by (auto simp: execute_tool_def res_bind_eq_Inr ensure_eq_Inr ok_or_eq_Inr)

lemma execute_tool_runs:
  assumes "execute_tool env policy tool call_id arguments cancelled = Inr x"
  obtains (read) root where "tool = ReadFile"
      "tool_read_file (env_decode_read env) (env_fs env) policy root arguments = Inr x"
  | (search) root where "tool = SearchText"
      "tool_search_text (env_decode_search env) (env_fs env) policy root arguments = Inr x"
  | (git) root where "tool = GitStatus"
      "tool_git_status (env_decode_git env) (env_git env root) policy arguments = Inr x"
  using assms
  by (cases tool) (auto simp: execute_tool_def res_bind_eq_Inr ensure_eq_Inr ok_or_eq_Inr)


definition small_session_budget :: SubagentSessionBudget where
  "small_session_budget =
     \<lparr>sb_max_provider_turns = 2, sb_max_tool_calls = 2, sb_max_calls_per_tool = 2,
      sb_max_tool_input_bytes = 16, sb_max_tool_output_bytes = 12,
      sb_max_aggregate_tool_output_bytes = 16, sb_max_file_bytes = 16,
      sb_max_file_read_bytes = 12, sb_max_file_read_lines = 4, sb_max_search_results = 4,
      sb_max_search_files = 4, sb_max_search_bytes = 16,
      sb_max_git_status_entries = 4, sb_max_git_output_bytes = 16,
      sb_session_timeout = 9, sb_per_tool_timeout = 5\<rparr>"

definition small_tool_policy :: SubagentToolPolicy where
  "small_tool_policy = \<lparr>tp_approved_tools = [(ReadFile, ()), (SearchText, ())],
     tp_workspace_root = Some [''ws''], tp_budget = small_session_budget\<rparr>"

lemma demo_read: "execute_tool (demo_tool_env ''x'') small_tool_policy ReadFile ''c1'' ''a.txt'' False =
  Inr \<lparr>te_content = ''1: hi'', te_input_bytes = 5, te_descriptor = ''path_bytes=5'', te_truncated = False\<rparr>"
  by code_simp


section \<open>Git records\<close>

text \<open>The porcelain record of an unstaged change starts with a space, so splitting at the first space
  loses the status and counts the status letter as part of the path.\<close>

lemma git_record_loses_unstaged_status: "git_record ('' M '' @ p) = '' '' @ show_nat (2 + length p)"
proof -
  have "trim [] = []" by code_simp
  then show ?thesis by (simp add: git_record_def)
qed

end
