(* ===== verification/Orch_Cleanup.thy ===== *)
theory Orch_Cleanup
  imports Execution_Budget Subagent_Tools
begin

text \<open>
  Ownership of child work in one live run (\<open>orchestration_cleanup.rs\<close>) and the arbiter of its terminal
  cause (\<open>TerminalCauseArbiter\<close> in \<open>orchestration_failure.rs\<close>).

  The registry hands out handles for children and reservations, refuses new ones once cleanup was
  requested, and completes only when everything was given back. A guard owns one handle and gives it
  back when it is completed, resolved or dropped; a system state keeps the guards that are alive in
  slots, so that every interleaving of their owners is a sequence of operations. A poisoned mutex is
  a flag. The error type of the source is the unit type.
\<close>

section \<open>Failure values\<close>

datatype LiveOrchestrationTerminal =
  LT_Completed | LT_Failed | LT_Cancelled | LT_TimedOut | LT_BudgetExhausted

datatype OrchestrationFailureKind =
  FK_InvalidRequest | FK_InvalidPolicy | FK_InvalidTask | FK_InvalidRoute | FK_InvalidLifecycleState
  | FK_StaleGeneration | FK_PlannerProviderFailure | FK_PlannerToolFailure | FK_PlannerCancelled
  | FK_PlannerTimedOut | FK_PlannerBudgetExhausted | FK_PlannerJoinFailure
  | FK_ExecutorProviderFailure | FK_ExecutorToolFailure | FK_ExecutorCancelled | FK_ExecutorTimedOut
  | FK_ExecutorBudgetExhausted | FK_ExecutorJoinFailure | FK_ExecutorBatchFailure
  | FK_VerifierRejected | FK_VerifierProviderFailure | FK_VerifierToolFailure | FK_VerifierCancelled
  | FK_VerifierTimedOut | FK_VerifierBudgetExhausted | FK_VerifierJoinFailure | FK_RepairNotEligible
  | FK_RepairDisabled | FK_RepairProviderFailure | FK_RepairToolFailure | FK_RepairCancelled
  | FK_RepairTimedOut | FK_RepairBudgetExhausted | FK_RepairJoinFailure | FK_RepairFailed
  | FK_UserCancelled | FK_TotalTimedOut | FK_BudgetExhausted BudgetExhaustionCategory
  | FK_LifecycleViolation | FK_RoutingFailure | FK_ProviderFailure | FK_ToolFailure
  | FK_TaskJoinFailure | FK_InternalCoordinatorFailure

datatype Retryability = NotRetryable | RetryableSameRoute | RetryableAfterUserAction | Retry_Unknown

record OrchestrationFailure =
  of_kind :: OrchestrationFailureKind
  of_retryability :: Retryability
  of_role :: "RoutingRole option"
  of_tool :: "SubagentToolKind option"
  of_terminal :: LiveOrchestrationTerminal

section \<open>The terminal-cause arbiter\<close>

datatype TerminalCauseSubmission =
  Cause_Accepted OrchestrationFailure | Cause_Retained OrchestrationFailure
  | Cause_Replaced OrchestrationFailure | Cause_StaleGeneration | Cause_Frozen OrchestrationFailure

record TerminalCauseArbiter =
  tca_generation :: nat
  tca_accepted :: "OrchestrationFailure option"
  tca_frozen :: bool
  tca_poisoned :: bool

definition arbiter_new :: "nat \<Rightarrow> TerminalCauseArbiter" where
  "arbiter_new g = \<lparr>tca_generation = g, tca_accepted = None, tca_frozen = False, tca_poisoned = False\<rparr>"

fun cause_priority :: "OrchestrationFailureKind \<Rightarrow> nat" where
  "cause_priority FK_UserCancelled = 6"
| "cause_priority FK_TotalTimedOut = 5"
| "cause_priority (FK_BudgetExhausted _) = 4"
| "cause_priority FK_TaskJoinFailure = 2"
| "cause_priority FK_PlannerJoinFailure = 2"
| "cause_priority FK_ExecutorJoinFailure = 2"
| "cause_priority FK_VerifierJoinFailure = 2"
| "cause_priority FK_RepairJoinFailure = 2"
| "cause_priority FK_InternalCoordinatorFailure = 1"
| "cause_priority _ = 3"

definition arbiter_submit ::
  "nat \<Rightarrow> OrchestrationFailure \<Rightarrow> TerminalCauseArbiter \<Rightarrow> TerminalCauseSubmission \<times> TerminalCauseArbiter" where
  "arbiter_submit g candidate a =
     (if tca_poisoned a then (Cause_Frozen candidate, a)
      else if g \<noteq> tca_generation a then (Cause_StaleGeneration, a)
      else if tca_frozen a
      then (Cause_Frozen (case tca_accepted a of Some f \<Rightarrow> f | None \<Rightarrow> candidate), a)
      else case tca_accepted a of
          None \<Rightarrow> (Cause_Accepted candidate, a\<lparr>tca_accepted := Some candidate\<rparr>)
        | Some existing \<Rightarrow>
            if of_kind existing = FK_TotalTimedOut \<and> of_kind candidate = FK_UserCancelled
            then (Cause_Retained existing, a)
            else if cause_priority (of_kind candidate) > cause_priority (of_kind existing)
            then (Cause_Replaced candidate, a\<lparr>tca_accepted := Some candidate\<rparr>)
            else (Cause_Retained existing, a))"

definition arbiter_freeze ::
  "nat \<Rightarrow> TerminalCauseArbiter \<Rightarrow> (unit, OrchestrationFailure option) result \<times> TerminalCauseArbiter" where
  "arbiter_freeze g a =
     (if tca_poisoned a \<or> g \<noteq> tca_generation a then (Inl (), a)
      else (Inr (tca_accepted a), a\<lparr>tca_frozen := True\<rparr>))"

definition arbiter_current :: "nat \<Rightarrow> TerminalCauseArbiter \<Rightarrow> (unit, OrchestrationFailure option) result" where
  "arbiter_current g a =
     (if tca_poisoned a \<or> g \<noteq> tca_generation a then Inl () else Inr (tca_accepted a))"

section \<open>The cleanup registry\<close>

datatype CleanupChildKind =
  Child_Planner | Child_ExecutorBatch | Child_Verifier | Child_Repair | Child_Provider | Child_Tool

datatype CleanupReservationKind = Reservation_Provider | Reservation_Tool

type_synonym handle_set = "(nat, unit) btree_map"

text \<open>\<open>contains\<close> and \<open>contains_key\<close>.\<close>

definition bt_has :: "(nat, 'v) btree_map \<Rightarrow> nat \<Rightarrow> bool" where
  "bt_has m h \<longleftrightarrow> bt_get m h \<noteq> None"

lemma bt_has_simps [simp]:
  "\<not> bt_has [] j"
  "bt_has (bt_insert h v m) j \<longleftrightarrow> j = h \<or> bt_has m j"
  "bt_wf m \<Longrightarrow> bt_has (bt_remove h m) j \<longleftrightarrow> j \<noteq> h \<and> bt_has m j"
  by (auto simp: bt_has_def)

lemma bt_empty_iff: "m = [] \<longleftrightarrow> (\<forall>h. \<not> bt_has m h)"
  by (cases m) (auto simp: bt_has_def intro: exI [of _ "fst (hd m)"])

record CleanupState =
  next_handle_value :: nat
  active_children :: "(nat, CleanupChildKind) btree_map"
  completed_children :: handle_set
  provider_reservations :: handle_set
  tool_reservations :: handle_set
  resolved_provider_reservations :: handle_set
  resolved_tool_reservations :: handle_set
  cleanup_requested :: bool
  cleanup_in_progress :: bool
  cleanup_complete :: bool

record OrchestrationCleanup =
  oc_generation :: nat
  oc_state :: CleanupState
  oc_poisoned :: bool
  oc_cause_arbiter :: TerminalCauseArbiter

definition cleanup_new :: "nat \<Rightarrow> OrchestrationCleanup" where
  "cleanup_new g =
     \<lparr>oc_generation = g,
      oc_state = \<lparr>next_handle_value = 0, active_children = [], completed_children = [],
        provider_reservations = [], tool_reservations = [], resolved_provider_reservations = [],
        resolved_tool_reservations = [], cleanup_requested = False, cleanup_in_progress = False,
        cleanup_complete = False\<rparr>,
      oc_poisoned = False, oc_cause_arbiter = arbiter_new g\<rparr>"

definition submit_failure ::
  "nat \<Rightarrow> OrchestrationFailure \<Rightarrow> OrchestrationCleanup \<Rightarrow> TerminalCauseSubmission \<times> OrchestrationCleanup" where
  "submit_failure g f c =
     (case arbiter_submit g f (oc_cause_arbiter c) of (r, a) \<Rightarrow> (r, c\<lparr>oc_cause_arbiter := a\<rparr>))"

definition freeze_failure ::
  "nat \<Rightarrow> OrchestrationCleanup \<Rightarrow> (unit, OrchestrationFailure option) result \<times> OrchestrationCleanup" where
  "freeze_failure g c =
     (case arbiter_freeze g (oc_cause_arbiter c) of (r, a) \<Rightarrow> (r, c\<lparr>oc_cause_arbiter := a\<rparr>))"

definition current_failure :: "nat \<Rightarrow> OrchestrationCleanup \<Rightarrow> (unit, OrchestrationFailure option) result" where
  "current_failure g c = arbiter_current g (oc_cause_arbiter c)"

text \<open>Lock the state and check the generation, which every operation on it does first.\<close>

definition with_cleanup ::
  "nat \<Rightarrow> (CleanupState \<Rightarrow> (unit, 'a) result \<times> CleanupState) \<Rightarrow> OrchestrationCleanup \<Rightarrow>
   (unit, 'a) result \<times> OrchestrationCleanup" where
  "with_cleanup g f c =
     (if oc_poisoned c then (Inl (), c)
      else if g \<noteq> oc_generation c then (Inl (), c)
      else case f (oc_state c) of (r, st) \<Rightarrow> (r, c\<lparr>oc_state := st\<rparr>))"

definition next_handle :: "CleanupState \<Rightarrow> (unit, nat) result \<times> CleanupState" where
  "next_handle st =
     (if next_handle_value st + 1 > u64_max then (Inl (), st)
      else (Inr (next_handle_value st + 1), st\<lparr>next_handle_value := next_handle_value st + 1\<rparr>))"

definition register_child ::
  "nat \<Rightarrow> CleanupChildKind \<Rightarrow> OrchestrationCleanup \<Rightarrow> (unit, nat) result \<times> OrchestrationCleanup" where
  "register_child g kind = with_cleanup g (\<lambda>st.
     if cleanup_requested st \<or> cleanup_complete st then (Inl (), st)
     else case next_handle st of
         (Inl e, st') \<Rightarrow> (Inl e, st')
       | (Inr h, st') \<Rightarrow> (Inr h, st'\<lparr>active_children := bt_insert h kind (active_children st')\<rparr>))"

definition complete_child ::
  "nat \<Rightarrow> nat \<Rightarrow> OrchestrationCleanup \<Rightarrow> (unit, unit) result \<times> OrchestrationCleanup" where
  "complete_child g h = with_cleanup g (\<lambda>st.
     if bt_has (completed_children st) h then (Inr (), st)
     else if \<not> bt_has (active_children st) h then (Inl (), st)
     else (Inr (), st\<lparr>active_children := bt_remove h (active_children st),
                      completed_children := bt_insert h () (completed_children st)\<rparr>))"

fun reservations :: "CleanupReservationKind \<Rightarrow> CleanupState \<Rightarrow> handle_set" where
  "reservations Reservation_Provider st = provider_reservations st"
| "reservations Reservation_Tool st = tool_reservations st"

fun resolved_reservations :: "CleanupReservationKind \<Rightarrow> CleanupState \<Rightarrow> handle_set" where
  "resolved_reservations Reservation_Provider st = resolved_provider_reservations st"
| "resolved_reservations Reservation_Tool st = resolved_tool_reservations st"

fun set_reservations ::
  "CleanupReservationKind \<Rightarrow> (handle_set \<Rightarrow> handle_set) \<Rightarrow> (handle_set \<Rightarrow> handle_set) \<Rightarrow> CleanupState \<Rightarrow> CleanupState" where
  "set_reservations Reservation_Provider f g st =
     st\<lparr>provider_reservations := f (provider_reservations st),
        resolved_provider_reservations := g (resolved_provider_reservations st)\<rparr>"
| "set_reservations Reservation_Tool f g st =
     st\<lparr>tool_reservations := f (tool_reservations st),
        resolved_tool_reservations := g (resolved_tool_reservations st)\<rparr>"

definition register_reservation ::
  "nat \<Rightarrow> CleanupReservationKind \<Rightarrow> OrchestrationCleanup \<Rightarrow> (unit, nat) result \<times> OrchestrationCleanup" where
  "register_reservation g kind = with_cleanup g (\<lambda>st.
     if cleanup_requested st \<or> cleanup_complete st then (Inl (), st)
     else case next_handle st of
         (Inl e, st') \<Rightarrow> (Inl e, st')
       | (Inr h, st') \<Rightarrow> (Inr h, set_reservations kind (bt_insert h ()) (\<lambda>m. m) st'))"

definition resolve_reservation ::
  "nat \<Rightarrow> CleanupReservationKind \<Rightarrow> nat \<Rightarrow> OrchestrationCleanup \<Rightarrow> (unit, unit) result \<times> OrchestrationCleanup" where
  "resolve_reservation g kind h = with_cleanup g (\<lambda>st.
     if bt_has (reservations kind st) h
     then (Inr (), set_reservations kind (bt_remove h) (bt_insert h ()) st)
     else if bt_has (resolved_reservations kind st) h then (Inr (), st)
     else (Inl (), st))"

definition cleanup_begin :: "nat \<Rightarrow> OrchestrationCleanup \<Rightarrow> (unit, unit) result \<times> OrchestrationCleanup" where
  "cleanup_begin g = with_cleanup g (\<lambda>st.
     if cleanup_complete st then (Inr (), st)
     else if cleanup_requested st then (Inr (), st)
     else (Inr (), st\<lparr>cleanup_requested := True, cleanup_in_progress := True\<rparr>))"

definition cleanup_finish :: "nat \<Rightarrow> OrchestrationCleanup \<Rightarrow> (unit, unit) result \<times> OrchestrationCleanup" where
  "cleanup_finish g = with_cleanup g (\<lambda>st.
     if cleanup_complete st then (Inr (), st)
     else if \<not> cleanup_requested st \<or> active_children st \<noteq> [] \<or> provider_reservations st \<noteq> []
             \<or> tool_reservations st \<noteq> []
     then (Inl (), st)
     else (Inr (), st\<lparr>cleanup_in_progress := False, cleanup_complete := True\<rparr>))"

record CleanupSnapshot =
  cs_active_children :: nat
  cs_active_planner_children :: nat
  cs_active_executor_children :: nat
  cs_active_verifier_children :: nat
  cs_active_repair_children :: nat
  cs_active_provider_futures :: nat
  cs_active_tool_futures :: nat
  cs_unresolved_provider_reservations :: nat
  cs_unresolved_tool_reservations :: nat
  cs_cleanup_requested :: bool
  cs_cleanup_in_progress :: bool
  cs_cleanup_complete :: bool

definition count_kind :: "CleanupChildKind \<Rightarrow> CleanupState \<Rightarrow> nat" where
  "count_kind kind st = length (filter (\<lambda>k. k = kind) (bt_values (active_children st)))"

definition cleanup_snapshot :: "nat \<Rightarrow> OrchestrationCleanup \<Rightarrow> (unit, CleanupSnapshot) result" where
  "cleanup_snapshot g c = fst (with_cleanup g (\<lambda>st.
     (Inr \<lparr>cs_active_children = length (active_children st),
           cs_active_planner_children = count_kind Child_Planner st,
           cs_active_executor_children = count_kind Child_ExecutorBatch st,
           cs_active_verifier_children = count_kind Child_Verifier st,
           cs_active_repair_children = count_kind Child_Repair st,
           cs_active_provider_futures = count_kind Child_Provider st,
           cs_active_tool_futures = count_kind Child_Tool st,
           cs_unresolved_provider_reservations = length (provider_reservations st),
           cs_unresolved_tool_reservations = length (tool_reservations st),
           cs_cleanup_requested = cleanup_requested st,
           cs_cleanup_in_progress = cleanup_in_progress st,
           cs_cleanup_complete = cleanup_complete st\<rparr>, st)) c)"

fun active_children_by_kind :: "CleanupSnapshot \<Rightarrow> CleanupChildKind \<Rightarrow> nat" where
  "active_children_by_kind s Child_Provider = cs_active_provider_futures s"
| "active_children_by_kind s Child_Tool = cs_active_tool_futures s"
| "active_children_by_kind s Child_Planner = cs_active_planner_children s"
| "active_children_by_kind s Child_ExecutorBatch = cs_active_executor_children s"
| "active_children_by_kind s Child_Verifier = cs_active_verifier_children s"
| "active_children_by_kind s Child_Repair = cs_active_repair_children s"

definition ready_for_terminalization :: "CleanupSnapshot \<Rightarrow> bool" where
  "ready_for_terminalization s \<longleftrightarrow>
     cs_cleanup_complete s \<and> cs_active_children s = 0 \<and> cs_active_provider_futures s = 0
     \<and> cs_active_tool_futures s = 0 \<and> cs_unresolved_provider_reservations s = 0
     \<and> cs_unresolved_tool_reservations s = 0"

section \<open>Guards\<close>

record CleanupChildGuard =
  cg_generation :: nat
  cg_handle :: "nat option"

record CleanupReservationGuard =
  rg_generation :: nat
  rg_kind :: CleanupReservationKind
  rg_handle :: "nat option"

definition register_child_guard ::
  "nat \<Rightarrow> CleanupChildKind \<Rightarrow> OrchestrationCleanup \<Rightarrow> (unit, CleanupChildGuard) result \<times> OrchestrationCleanup" where
  "register_child_guard g kind c =
     (case register_child g kind c of
        (Inl e, c') \<Rightarrow> (Inl e, c')
      | (Inr h, c') \<Rightarrow> (Inr \<lparr>cg_generation = g, cg_handle = Some h\<rparr>, c'))"

definition register_reservation_guard ::
  "nat \<Rightarrow> CleanupReservationKind \<Rightarrow> OrchestrationCleanup \<Rightarrow>
   (unit, CleanupReservationGuard) result \<times> OrchestrationCleanup" where
  "register_reservation_guard g kind c =
     (case register_reservation g kind c of
        (Inl e, c') \<Rightarrow> (Inl e, c')
      | (Inr h, c') \<Rightarrow> (Inr \<lparr>rg_generation = g, rg_kind = kind, rg_handle = Some h\<rparr>, c'))"

definition child_guard_complete ::
  "CleanupChildGuard \<Rightarrow> OrchestrationCleanup \<Rightarrow> (unit, unit) result \<times> CleanupChildGuard \<times> OrchestrationCleanup" where
  "child_guard_complete gd c =
     (case cg_handle gd of
        None \<Rightarrow> (Inr (), gd, c)
      | Some h \<Rightarrow>
          (case complete_child (cg_generation gd) h c of
             (Inl e, c') \<Rightarrow> (Inl e, gd, c')
           | (Inr _, c') \<Rightarrow> (Inr (), gd\<lparr>cg_handle := None\<rparr>, c')))"

definition child_guard_drop :: "CleanupChildGuard \<Rightarrow> OrchestrationCleanup \<Rightarrow> OrchestrationCleanup" where
  "child_guard_drop gd c =
     (case cg_handle gd of None \<Rightarrow> c | Some h \<Rightarrow> snd (complete_child (cg_generation gd) h c))"

definition reservation_guard_resolve ::
  "CleanupReservationGuard \<Rightarrow> OrchestrationCleanup \<Rightarrow>
   (unit, unit) result \<times> CleanupReservationGuard \<times> OrchestrationCleanup" where
  "reservation_guard_resolve gd c =
     (case rg_handle gd of
        None \<Rightarrow> (Inr (), gd, c)
      | Some h \<Rightarrow>
          (case resolve_reservation (rg_generation gd) (rg_kind gd) h c of
             (Inl e, c') \<Rightarrow> (Inl e, gd, c')
           | (Inr _, c') \<Rightarrow> (Inr (), gd\<lparr>rg_handle := None\<rparr>, c')))"

definition reservation_guard_drop :: "CleanupReservationGuard \<Rightarrow> OrchestrationCleanup \<Rightarrow> OrchestrationCleanup" where
  "reservation_guard_drop gd c =
     (case rg_handle gd of
        None \<Rightarrow> c
      | Some h \<Rightarrow> snd (resolve_reservation (rg_generation gd) (rg_kind gd) h c))"

section \<open>The arbiter selects the earliest of the gravest causes\<close>

text \<open>A user's cancellation and a total timeout do not displace each other, so they rank alike.\<close>

definition cause_rank :: "OrchestrationFailure \<Rightarrow> nat" where
  "cause_rank f = min (cause_priority (of_kind f)) 5"

definition earliest_gravest :: "OrchestrationFailure list \<Rightarrow> OrchestrationFailure option" where
  "earliest_gravest fs = List.find (\<lambda>f. list_all (\<lambda>g. cause_rank g \<le> cause_rank f) fs) fs"

definition graver :: "OrchestrationFailure option \<Rightarrow> OrchestrationFailure \<Rightarrow> OrchestrationFailure option" where
  "graver acc f = (case acc of None \<Rightarrow> Some f | Some e \<Rightarrow> Some (if cause_rank f > cause_rank e then f else e))"

lemma cause_priority_le: "cause_priority k \<le> 6"
  by (cases k) simp_all

lemma cause_priority_6: "cause_priority k = 6 \<longleftrightarrow> k = FK_UserCancelled"
  by (cases k) simp_all

lemma cause_priority_5: "cause_priority k = 5 \<longleftrightarrow> k = FK_TotalTimedOut"
  by (cases k) simp_all

lemma cause_displaces_iff:
  "(\<not> (of_kind e = FK_TotalTimedOut \<and> of_kind f = FK_UserCancelled)
     \<and> cause_priority (of_kind f) > cause_priority (of_kind e)) \<longleftrightarrow> cause_rank f > cause_rank e"
  using cause_priority_le [of "of_kind f"] cause_priority_le [of "of_kind e"]
    cause_priority_6 [of "of_kind f"] cause_priority_5 [of "of_kind e"]
  by (auto simp: cause_rank_def min_def)

lemma arbiter_submit_accepted:
  "\<not> tca_poisoned a \<Longrightarrow> \<not> tca_frozen a \<Longrightarrow> tca_accepted (snd (arbiter_submit (tca_generation a) f a)) = graver (tca_accepted a) f"
  using cause_displaces_iff [of "the (tca_accepted a)" f]
  by (auto simp: arbiter_submit_def graver_def split: option.split)

lemma gravest_exists: "fs \<noteq> [] \<Longrightarrow> \<exists>m \<in> set fs. \<forall>g \<in> set fs. cause_rank g \<le> cause_rank m"
proof (induction fs rule: list_nonempty_induct)
  case (cons f fs)
  then obtain m where "m \<in> set fs" "\<forall>g \<in> set fs. cause_rank g \<le> cause_rank m" by blast
  then show ?case by (cases "cause_rank f \<le> cause_rank m") (auto intro: order_trans)
qed simp

lemma find_snoc: "List.find P (xs @ [x]) = (case List.find P xs of None \<Rightarrow> if P x then Some x else None | Some y \<Rightarrow> Some y)"
  by (induction xs) auto

lemma earliest_gravest_snoc: "earliest_gravest (fs @ [f]) = graver (earliest_gravest fs) f"
proof (cases "earliest_gravest fs")
  case None
  then have "fs = []"
  proof (rule contrapos_pp)
    assume "fs \<noteq> []"
    then obtain m where "m \<in> set fs" "\<forall>g \<in> set fs. cause_rank g \<le> cause_rank m"
      using gravest_exists by blast
    then show "earliest_gravest fs \<noteq> None" by (auto simp: earliest_gravest_def find_None_iff list_all_iff)
  qed
  then show ?thesis using None by (simp add: earliest_gravest_def graver_def)
next
  case (Some e)
  then have e: "e \<in> set fs" "\<forall>g \<in> set fs. cause_rank g \<le> cause_rank e"
    using find_Some_set unfolding earliest_gravest_def by (fastforce simp: list_all_iff)+
  show ?thesis
  proof (cases "cause_rank f > cause_rank e")
    case True
    then have "List.find (\<lambda>x. list_all (\<lambda>g. cause_rank g \<le> cause_rank x) (fs @ [f])) fs = None"
      using e by (auto simp: find_None_iff list_all_iff)
    then show ?thesis using Some True e
      by (auto simp: earliest_gravest_def graver_def find_snoc list_all_iff)
  next
    case False
    have "(\<lambda>x. list_all (\<lambda>g. cause_rank g \<le> cause_rank x) (fs @ [f])) y =
        list_all (\<lambda>g. cause_rank g \<le> cause_rank y) fs" for y
      using False e by (auto simp: list_all_iff)
    then show ?thesis using Some False by (simp add: earliest_gravest_def graver_def find_snoc)
  qed
qed

datatype arbiter_op = Arb_Submit nat OrchestrationFailure | Arb_Freeze nat

fun arbiter_apply :: "TerminalCauseArbiter \<Rightarrow> arbiter_op \<Rightarrow> TerminalCauseArbiter" where
  "arbiter_apply a (Arb_Submit g f) = snd (arbiter_submit g f a)"
| "arbiter_apply a (Arb_Freeze g) = snd (arbiter_freeze g a)"

text \<open>The causes that count: those of the run's own generation submitted before it was frozen.\<close>

fun counted_causes :: "nat \<Rightarrow> arbiter_op list \<Rightarrow> OrchestrationFailure list" where
  "counted_causes g [] = []"
| "counted_causes g (Arb_Submit h f # ops) = (if h = g then f # counted_causes g ops else counted_causes g ops)"
| "counted_causes g (Arb_Freeze h # ops) = (if h = g then [] else counted_causes g ops)"

definition froze :: "nat \<Rightarrow> arbiter_op list \<Rightarrow> bool" where
  "froze g ops \<longleftrightarrow> Arb_Freeze g \<in> set ops"

lemma counted_causes_snoc:
  "counted_causes g (ops @ [x]) =
     (if froze g ops then counted_causes g ops
      else case x of Arb_Submit h f \<Rightarrow> counted_causes g ops @ (if h = g then [f] else []) | Arb_Freeze h \<Rightarrow> counted_causes g ops)"
  by (induction g ops rule: counted_causes.induct) (auto simp: froze_def split: arbiter_op.split)

lemma arbiter_run_frame:
  "tca_generation (foldl arbiter_apply (arbiter_new g) ops) = g
   \<and> \<not> tca_poisoned (foldl arbiter_apply (arbiter_new g) ops)
   \<and> tca_frozen (foldl arbiter_apply (arbiter_new g) ops) = froze g ops"
proof (induction ops rule: rev_induct)
  case (snoc x ops)
  then show ?case
    by (cases x) (auto simp: arbiter_submit_def arbiter_freeze_def froze_def split: option.split)
qed (simp add: arbiter_new_def froze_def)

text \<open>C28: The terminal cause. Whatever failures are submitted in whatever order, under whatever
  generation, and whenever the run is frozen, the cause the arbiter holds is the earliest among the
  gravest of the causes that count, a user's cancellation and a total timeout ranking alike; nothing
  submitted after the freeze or for another generation changes it.\<close>

theorem arbiter_selects_earliest_gravest:
  "arbiter_current g (foldl arbiter_apply (arbiter_new g) ops) = Inr (earliest_gravest (counted_causes g ops))"
proof -
  have "tca_accepted (foldl arbiter_apply (arbiter_new g) ops) = earliest_gravest (counted_causes g ops)"
  proof (induction ops rule: rev_induct)
    case Nil
    show ?case by (simp add: arbiter_new_def earliest_gravest_def)
  next
    case (snoc x ops)
    let ?a = "foldl arbiter_apply (arbiter_new g) ops"
    have frame: "tca_generation ?a = g" "\<not> tca_poisoned ?a" "tca_frozen ?a = froze g ops"
      using arbiter_run_frame by blast+
    show ?case
    proof (cases x)
      case (Arb_Submit h f)
      then show ?thesis
        using snoc frame arbiter_submit_accepted [of ?a f]
        by (cases "h = g \<and> \<not> froze g ops")
          (auto simp: counted_causes_snoc earliest_gravest_snoc arbiter_submit_def)
    next
      case (Arb_Freeze h)
      then show ?thesis using snoc frame by (auto simp: counted_causes_snoc arbiter_freeze_def)
    qed
  qed
  then show ?thesis using arbiter_run_frame [of g ops] by (simp add: arbiter_current_def)
qed

section \<open>Handles and completion\<close>

definition holders :: "CleanupState \<Rightarrow> nat \<Rightarrow> nat" where
  "holders st h =
     of_bool (bt_has (active_children st) h) + of_bool (bt_has (completed_children st) h)
     + of_bool (bt_has (provider_reservations st) h) + of_bool (bt_has (resolved_provider_reservations st) h)
     + of_bool (bt_has (tool_reservations st) h) + of_bool (bt_has (resolved_tool_reservations st) h)"

definition state_wf :: "CleanupState \<Rightarrow> bool" where
  "state_wf st \<longleftrightarrow>
     bt_wf (active_children st) \<and> bt_wf (completed_children st) \<and> bt_wf (provider_reservations st)
     \<and> bt_wf (resolved_provider_reservations st) \<and> bt_wf (tool_reservations st)
     \<and> bt_wf (resolved_tool_reservations st)"

text \<open>Every handle that was issued is in exactly one registry, no other handle is in any; a completed
  cleanup holds nothing.\<close>

definition handles_partitioned :: "CleanupState \<Rightarrow> bool" where
  "handles_partitioned st \<longleftrightarrow>
     (\<forall>h. holders st h = (if 0 < h \<and> h \<le> next_handle_value st then 1 else 0))"

definition nothing_held :: "CleanupState \<Rightarrow> bool" where
  "nothing_held st \<longleftrightarrow>
     active_children st = [] \<and> provider_reservations st = [] \<and> tool_reservations st = []"

definition cleanup_inv :: "OrchestrationCleanup \<Rightarrow> bool" where
  "cleanup_inv c \<longleftrightarrow>
     state_wf (oc_state c) \<and> handles_partitioned (oc_state c)
     \<and> next_handle_value (oc_state c) \<le> u64_max
     \<and> (cleanup_complete (oc_state c) \<longrightarrow> cleanup_requested (oc_state c) \<and> nothing_held (oc_state c))
     \<and> (cleanup_in_progress (oc_state c) \<longleftrightarrow> cleanup_requested (oc_state c) \<and> \<not> cleanup_complete (oc_state c))"

datatype cleanup_op =
  Op_RegisterChild nat CleanupChildKind | Op_CompleteChild nat nat
  | Op_RegisterReservation nat CleanupReservationKind | Op_ResolveReservation nat CleanupReservationKind nat
  | Op_Begin nat | Op_Finish nat | Op_Submit nat OrchestrationFailure | Op_Freeze nat

fun cleanup_apply :: "OrchestrationCleanup \<Rightarrow> cleanup_op \<Rightarrow> OrchestrationCleanup" where
  "cleanup_apply c (Op_RegisterChild g k) = snd (register_child g k c)"
| "cleanup_apply c (Op_CompleteChild g h) = snd (complete_child g h c)"
| "cleanup_apply c (Op_RegisterReservation g k) = snd (register_reservation g k c)"
| "cleanup_apply c (Op_ResolveReservation g k h) = snd (resolve_reservation g k h c)"
| "cleanup_apply c (Op_Begin g) = snd (cleanup_begin g c)"
| "cleanup_apply c (Op_Finish g) = snd (cleanup_finish g c)"
| "cleanup_apply c (Op_Submit g f) = snd (submit_failure g f c)"
| "cleanup_apply c (Op_Freeze g) = snd (freeze_failure g c)"

lemma with_cleanup_cases:
  obtains (refused) "with_cleanup g f c = (Inl (), c)" "oc_poisoned c \<or> g \<noteq> oc_generation c"
  | (entered) "with_cleanup g f c = (fst (f (oc_state c)), c\<lparr>oc_state := snd (f (oc_state c))\<rparr>)"
      "\<not> oc_poisoned c" "g = oc_generation c"
  by (cases "oc_poisoned c \<or> g \<noteq> oc_generation c") (auto simp: with_cleanup_def split_beta)

text \<open>An operation on the state alone keeps whatever it keeps of the state.\<close>

lemma with_cleanup_keeps:
  assumes "P c" "\<And>st. oc_state c = st \<Longrightarrow> P (c\<lparr>oc_state := snd (f st)\<rparr>)"
  shows "P (snd (with_cleanup g f c))"
  using assms by (cases rule: with_cleanup_cases [of g f c]) auto

lemma fresh_handle:
  assumes "handles_partitioned st" "next_handle_value st < h"
  shows "\<not> bt_has (active_children st) h" "\<not> bt_has (completed_children st) h"
    "\<not> bt_has (provider_reservations st) h" "\<not> bt_has (resolved_provider_reservations st) h"
    "\<not> bt_has (tool_reservations st) h" "\<not> bt_has (resolved_tool_reservations st) h"
proof -
  have "holders st h = 0" using assms by (simp add: handles_partitioned_def)
  then show "\<not> bt_has (active_children st) h" "\<not> bt_has (completed_children st) h"
    "\<not> bt_has (provider_reservations st) h" "\<not> bt_has (resolved_provider_reservations st) h"
    "\<not> bt_has (tool_reservations st) h" "\<not> bt_has (resolved_tool_reservations st) h"
    by (simp_all add: holders_def)
qed

lemma partitioned_move:
  assumes "handles_partitioned st" "next_handle_value st' = next_handle_value st"
    "\<And>j. holders st' j = holders st j"
  shows "handles_partitioned st'"
  using assms by (simp add: handles_partitioned_def)

lemma partitioned_issue:
  assumes "handles_partitioned st" "next_handle_value st' = Suc (next_handle_value st)"
    "\<And>j. holders st' j =
        (if j = Suc (next_handle_value st) then 1 else holders st j)"
  shows "handles_partitioned st'"
  using assms by (auto simp: handles_partitioned_def)

lemma partitioned_flags [simp]:
  "handles_partitioned (st\<lparr>cleanup_requested := b, cleanup_in_progress := b'\<rparr>) = handles_partitioned st"
  "handles_partitioned (st\<lparr>cleanup_in_progress := b, cleanup_complete := b'\<rparr>) = handles_partitioned st"
  by (simp_all add: handles_partitioned_def holders_def)

lemma partitioned_register_child:
  assumes "handles_partitioned st" "h = Suc (next_handle_value st)"
  shows "handles_partitioned (st\<lparr>next_handle_value := h, active_children := bt_insert h k (active_children st)\<rparr>)"
proof (rule partitioned_issue [OF assms(1)])
  fix j
  show "holders (st\<lparr>next_handle_value := h, active_children := bt_insert h k (active_children st)\<rparr>) j =
      (if j = Suc (next_handle_value st) then 1 else holders st j)"
    using fresh_handle [OF assms(1), of h] assms(2) by (cases "j = h") (simp_all add: holders_def)
qed (simp add: assms(2))

lemma partitioned_register_reservation:
  assumes "handles_partitioned st" "h = Suc (next_handle_value st)"
  shows "handles_partitioned (set_reservations k (bt_insert h ()) (\<lambda>m. m) (st\<lparr>next_handle_value := h\<rparr>))"
proof (rule partitioned_issue [OF assms(1)])
  fix j
  show "holders (set_reservations k (bt_insert h ()) (\<lambda>m. m) (st\<lparr>next_handle_value := h\<rparr>)) j =
      (if j = Suc (next_handle_value st) then 1 else holders st j)"
    using fresh_handle [OF assms(1), of h] assms(2) by (cases "j = h"; cases k) (simp_all add: holders_def)
qed (cases k; simp add: assms(2))

lemma partitioned_complete_child:
  assumes "handles_partitioned st" "state_wf st" "bt_has (active_children st) h" "\<not> bt_has (completed_children st) h"
  shows "handles_partitioned (st\<lparr>active_children := bt_remove h (active_children st),
    completed_children := bt_insert h () (completed_children st)\<rparr>)"
proof (rule partitioned_move [OF assms(1)])
  fix j
  show "holders (st\<lparr>active_children := bt_remove h (active_children st),
      completed_children := bt_insert h () (completed_children st)\<rparr>) j = holders st j"
    using assms(2-4) by (cases "j = h") (simp_all add: holders_def state_wf_def)
qed simp

lemma reservation_not_resolved:
  assumes "handles_partitioned st" "bt_has (reservations k st) h"
  shows "\<not> bt_has (resolved_reservations k st) h"
proof
  assume "bt_has (resolved_reservations k st) h"
  then have "holders st h \<ge> 2" using assms(2) by (cases k) (simp_all add: holders_def)
  moreover have "holders st h \<le> 1" using assms(1) by (simp add: handles_partitioned_def)
  ultimately show False by simp
qed

lemma active_not_completed:
  assumes "handles_partitioned st" "bt_has (active_children st) h"
  shows "\<not> bt_has (completed_children st) h"
proof
  assume "bt_has (completed_children st) h"
  then have "holders st h \<ge> 2" using assms(2) by (simp add: holders_def)
  moreover have "holders st h \<le> 1" using assms(1) by (simp add: handles_partitioned_def)
  ultimately show False by simp
qed

lemma partitioned_resolve:
  assumes "handles_partitioned st" "state_wf st" "bt_has (reservations k st) h"
  shows "handles_partitioned (set_reservations k (bt_remove h) (bt_insert h ()) st)"
proof (rule partitioned_move [OF assms(1)])
  fix j
  show "holders (set_reservations k (bt_remove h) (bt_insert h ()) st) j = holders st j"
    using assms(2,3) reservation_not_resolved [OF assms(1,3)]
    by (cases "j = h"; cases k) (simp_all add: holders_def state_wf_def)
qed (cases k; simp)

lemma register_child_inv: "cleanup_inv c \<Longrightarrow> cleanup_inv (snd (register_child g k c))"
  unfolding register_child_def
  by (rule with_cleanup_keeps, assumption)
    (auto simp: cleanup_inv_def next_handle_def state_wf_def intro!: partitioned_register_child)

lemma complete_child_inv: "cleanup_inv c \<Longrightarrow> cleanup_inv (snd (complete_child g h c))"
  unfolding complete_child_def
  by (rule with_cleanup_keeps, assumption)
    (auto simp: cleanup_inv_def nothing_held_def partitioned_complete_child, auto simp: state_wf_def)

lemma state_wf_reservations:
  "state_wf st \<Longrightarrow> state_wf (set_reservations k (bt_insert h ()) (\<lambda>m. m) (st\<lparr>next_handle_value := n\<rparr>))"
  "state_wf st \<Longrightarrow> state_wf (set_reservations k (bt_remove h) (bt_insert h ()) st)"
  by (cases k; simp add: state_wf_def)+

lemma set_reservations_frame [simp]:
  "next_handle_value (set_reservations k f f' st) = next_handle_value st"
  "active_children (set_reservations k f f' st) = active_children st"
  "cleanup_requested (set_reservations k f f' st) = cleanup_requested st"
  "cleanup_in_progress (set_reservations k f f' st) = cleanup_in_progress st"
  "cleanup_complete (set_reservations k f f' st) = cleanup_complete st"
  by (cases k; simp)+

lemma register_reservation_inv: "cleanup_inv c \<Longrightarrow> cleanup_inv (snd (register_reservation g k c))"
  unfolding register_reservation_def
  by (rule with_cleanup_keeps, assumption)
    (auto simp: cleanup_inv_def next_handle_def state_wf_reservations intro!: partitioned_register_reservation)

lemma nothing_held_reservations: "nothing_held st \<Longrightarrow> \<not> bt_has (reservations k st) h"
  by (cases k) (simp_all add: nothing_held_def)

lemma resolve_reservation_inv: "cleanup_inv c \<Longrightarrow> cleanup_inv (snd (resolve_reservation g k h c))"
  unfolding resolve_reservation_def
  by (rule with_cleanup_keeps, assumption)
    (auto simp: cleanup_inv_def state_wf_reservations nothing_held_reservations intro!: partitioned_resolve)

lemma cleanup_begin_inv: "cleanup_inv c \<Longrightarrow> cleanup_inv (snd (cleanup_begin g c))"
  unfolding cleanup_begin_def
  by (rule with_cleanup_keeps, assumption) (auto simp: cleanup_inv_def state_wf_def)

lemma cleanup_finish_inv: "cleanup_inv c \<Longrightarrow> cleanup_inv (snd (cleanup_finish g c))"
  unfolding cleanup_finish_def
  by (rule with_cleanup_keeps, assumption) (auto simp: cleanup_inv_def state_wf_def nothing_held_def)

lemma failure_ops_inv:
  "cleanup_inv c \<Longrightarrow> cleanup_inv (snd (submit_failure g f c))"
  "cleanup_inv c \<Longrightarrow> cleanup_inv (snd (freeze_failure g c))"
  by (auto simp: submit_failure_def freeze_failure_def cleanup_inv_def split: prod.split)

lemmas cleanup_ops_inv = register_child_inv complete_child_inv register_reservation_inv
  resolve_reservation_inv cleanup_begin_inv cleanup_finish_inv failure_ops_inv

interpretation cleanup: transition_system cleanup_apply "\<lambda>c. \<exists>g. c = cleanup_new g" cleanup_inv
proof
  fix c assume "\<exists>g. c = cleanup_new g"
  then show "cleanup_inv c"
    by (auto simp: cleanup_new_def cleanup_inv_def state_wf_def handles_partitioned_def holders_def
        nothing_held_def)
next
  fix c x assume "cleanup_inv c"
  then show "cleanup_inv (cleanup_apply c x)" by (cases x) (simp_all add: cleanup_ops_inv)
qed

definition same_run :: "OrchestrationCleanup \<Rightarrow> OrchestrationCleanup \<Rightarrow> bool" where
  "same_run c c' \<longleftrightarrow> oc_generation c' = oc_generation c \<and> oc_poisoned c' = oc_poisoned c"

lemma with_cleanup_same_run: "same_run c (snd (with_cleanup g f c))"
  by (cases rule: with_cleanup_cases [of g f c]) (auto simp: same_run_def)

lemma cleanup_apply_same_run: "same_run c (cleanup_apply c x)"
  by (cases x) (simp_all add: register_child_def complete_child_def register_reservation_def
      resolve_reservation_def cleanup_begin_def cleanup_finish_def with_cleanup_same_run,
      simp_all add: submit_failure_def freeze_failure_def same_run_def split: prod.split)

lemma cleanup_run_same_run: "same_run c (foldl cleanup_apply c ops)"
  using cleanup_apply_same_run
  by (induction ops rule: rev_induct) (auto simp: same_run_def)

lemma cleanup_complete_stable:
  "cleanup_complete (oc_state c) \<Longrightarrow> cleanup_complete (oc_state (cleanup_apply c x))"
  by (cases x) (auto simp: register_child_def complete_child_def register_reservation_def
      resolve_reservation_def cleanup_begin_def cleanup_finish_def submit_failure_def freeze_failure_def
      with_cleanup_def split: prod.split if_splits)

lemma cleanup_complete_run:
  "cleanup_complete (oc_state c) \<Longrightarrow> cleanup_complete (oc_state (foldl cleanup_apply c ops))"
  by (induction ops rule: rev_induct) (auto intro: cleanup_complete_stable)

lemma snapshot_ready:
  assumes "cleanup_inv c" "\<not> oc_poisoned c" "cleanup_complete (oc_state c)"
  shows "\<exists>s. cleanup_snapshot (oc_generation c) c = Inr s \<and> ready_for_terminalization s"
  using assms
  by (auto simp: cleanup_snapshot_def with_cleanup_def cleanup_inv_def nothing_held_def
      ready_for_terminalization_def count_kind_def bt_values_def)

lemma cleanup_new_frame [simp]: "oc_generation (cleanup_new g) = g" "\<not> oc_poisoned (cleanup_new g)"
  by (simp_all add: cleanup_new_def)

text \<open>C29: Completion of cleanup is final. When cleanup of a run completes, then after any further calls,
  in any order, for this or another generation, its snapshot says ready for terminalization, and every
  attempt to register a child or a reservation is refused.\<close>

theorem cleanup_completion_is_final:
  assumes "cleanup_finish g (foldl cleanup_apply (cleanup_new g) ops) = (Inr (), c)"
  shows "(\<exists>s. cleanup_snapshot g (foldl cleanup_apply c ops') = Inr s \<and> ready_for_terminalization s)
    \<and> fst (register_child g' k (foldl cleanup_apply c ops')) = Inl ()
    \<and> fst (register_reservation g' k' (foldl cleanup_apply c ops')) = Inl ()"
proof -
  let ?before = "foldl cleanup_apply (cleanup_new g) ops" and ?after = "foldl cleanup_apply c ops'"
  have run: "oc_generation ?before = g" "\<not> oc_poisoned ?before"
    using cleanup_run_same_run [of "cleanup_new g" ops] by (simp_all add: same_run_def)
  have c: "c = cleanup_apply ?before (Op_Finish g)" using assms by simp
  then have inv: "cleanup_inv ?after"
    using cleanup.inv_reaches [OF reaches_foldl, of "cleanup_new g" "ops @ Op_Finish g # ops'"]
      cleanup.inv_init by auto
  have complete: "cleanup_complete (oc_state ?after)"
    using assms run by (intro cleanup_complete_run) (auto simp: cleanup_finish_def with_cleanup_def split: if_splits)
  have "same_run ?before c" unfolding c by (rule cleanup_apply_same_run)
  then have "oc_generation ?after = g" "\<not> oc_poisoned ?after"
    using run cleanup_run_same_run [of c ops'] by (simp_all add: same_run_def)
  then show ?thesis
    using snapshot_ready [OF inv _ complete] complete
    by (simp add: register_child_def register_reservation_def with_cleanup_def)
qed

theorem cleanup_completion_is_final_witness:
  "fst (register_child 4 Child_Tool (foldl cleanup_apply
     (snd (cleanup_finish 4 (foldl cleanup_apply (cleanup_new 4)
        [Op_RegisterChild 4 Child_Planner, Op_CompleteChild 4 1, Op_Begin 4]))) [Op_Begin 4])) = Inl ()"
proof -
  have "cleanup_finish 4 (foldl cleanup_apply (cleanup_new 4)
      [Op_RegisterChild 4 Child_Planner, Op_CompleteChild 4 1, Op_Begin 4]) =
      (Inr (), snd (cleanup_finish 4 (foldl cleanup_apply (cleanup_new 4)
        [Op_RegisterChild 4 Child_Planner, Op_CompleteChild 4 1, Op_Begin 4])))"
    by (simp add: cleanup_finish_def register_child_def complete_child_def cleanup_begin_def with_cleanup_def
        cleanup_new_def next_handle_def u64_max_def bt_has_def)
  then show ?thesis using cleanup_completion_is_final by blast
qed

section \<open>Guards never leak\<close>

record cleanup_sys =
  gs_cleanup :: OrchestrationCleanup
  gs_children :: "CleanupChildGuard option list"
  gs_reservations :: "CleanupReservationGuard option list"

text \<open>A slot holds a guard until it is dropped.\<close>

datatype guard_op =
  G_RegisterChild nat CleanupChildKind | G_CompleteChild nat | G_DropChild nat
  | G_RegisterReservation nat CleanupReservationKind | G_Resolve nat | G_DropReservation nat
  | G_Begin nat | G_Finish nat | G_Submit nat OrchestrationFailure | G_Freeze nat

definition cleanup_sys_new :: "nat \<Rightarrow> cleanup_sys" where
  "cleanup_sys_new g = \<lparr>gs_cleanup = cleanup_new g, gs_children = [], gs_reservations = []\<rparr>"

definition slot :: "'a option list \<Rightarrow> nat \<Rightarrow> 'a option" where
  "slot xs i = (if i < length xs then xs ! i else None)"

fun guard_apply :: "cleanup_sys \<Rightarrow> guard_op \<Rightarrow> cleanup_sys" where
  "guard_apply s (G_RegisterChild g k) =
     (case register_child_guard g k (gs_cleanup s) of
        (Inl _, c) \<Rightarrow> s\<lparr>gs_cleanup := c\<rparr>
      | (Inr gd, c) \<Rightarrow> s\<lparr>gs_cleanup := c, gs_children := gs_children s @ [Some gd]\<rparr>)"
| "guard_apply s (G_CompleteChild i) =
     (case slot (gs_children s) i of
        None \<Rightarrow> s
      | Some gd \<Rightarrow>
          (case child_guard_complete gd (gs_cleanup s) of
             (_, gd', c) \<Rightarrow> s\<lparr>gs_cleanup := c, gs_children := (gs_children s)[i := Some gd']\<rparr>))"
| "guard_apply s (G_DropChild i) =
     (case slot (gs_children s) i of
        None \<Rightarrow> s
      | Some gd \<Rightarrow> s\<lparr>gs_cleanup := child_guard_drop gd (gs_cleanup s),
                       gs_children := (gs_children s)[i := None]\<rparr>)"
| "guard_apply s (G_RegisterReservation g k) =
     (case register_reservation_guard g k (gs_cleanup s) of
        (Inl _, c) \<Rightarrow> s\<lparr>gs_cleanup := c\<rparr>
      | (Inr gd, c) \<Rightarrow> s\<lparr>gs_cleanup := c, gs_reservations := gs_reservations s @ [Some gd]\<rparr>)"
| "guard_apply s (G_Resolve i) =
     (case slot (gs_reservations s) i of
        None \<Rightarrow> s
      | Some gd \<Rightarrow>
          (case reservation_guard_resolve gd (gs_cleanup s) of
             (_, gd', c) \<Rightarrow> s\<lparr>gs_cleanup := c, gs_reservations := (gs_reservations s)[i := Some gd']\<rparr>))"
| "guard_apply s (G_DropReservation i) =
     (case slot (gs_reservations s) i of
        None \<Rightarrow> s
      | Some gd \<Rightarrow> s\<lparr>gs_cleanup := reservation_guard_drop gd (gs_cleanup s),
                       gs_reservations := (gs_reservations s)[i := None]\<rparr>)"
| "guard_apply s (G_Begin g) = s\<lparr>gs_cleanup := snd (cleanup_begin g (gs_cleanup s))\<rparr>"
| "guard_apply s (G_Finish g) = s\<lparr>gs_cleanup := snd (cleanup_finish g (gs_cleanup s))\<rparr>"
| "guard_apply s (G_Submit g f) = s\<lparr>gs_cleanup := snd (submit_failure g f (gs_cleanup s))\<rparr>"
| "guard_apply s (G_Freeze g) = s\<lparr>gs_cleanup := snd (freeze_failure g (gs_cleanup s))\<rparr>"

text \<open>The handles a list of slots owns; owning one that the registry does not hold, or the same one
  twice, is excluded.\<close>

definition owns :: "nat option list \<Rightarrow> (nat, 'v) btree_map \<Rightarrow> bool" where
  "owns hs m \<longleftrightarrow> (\<forall>h. count_list hs (Some h) = (if bt_has m h then 1 else 0))"

definition child_handles :: "CleanupChildGuard option list \<Rightarrow> nat option list" where
  "child_handles = map (\<lambda>x. Option.bind x cg_handle)"

definition reservation_handles ::
  "CleanupReservationKind \<Rightarrow> CleanupReservationGuard option list \<Rightarrow> nat option list" where
  "reservation_handles k = map (\<lambda>x. Option.bind x (\<lambda>gd. if rg_kind gd = k then rg_handle gd else None))"

definition guards_current :: "cleanup_sys \<Rightarrow> bool" where
  "guards_current s \<longleftrightarrow>
     (\<forall>gd. Some gd \<in> set (gs_children s) \<longrightarrow> cg_generation gd = oc_generation (gs_cleanup s))
     \<and> (\<forall>gd. Some gd \<in> set (gs_reservations s) \<longrightarrow> rg_generation gd = oc_generation (gs_cleanup s))"

definition guards_inv :: "cleanup_sys \<Rightarrow> bool" where
  "guards_inv s \<longleftrightarrow>
     cleanup_inv (gs_cleanup s) \<and> \<not> oc_poisoned (gs_cleanup s) \<and> guards_current s
     \<and> owns (child_handles (gs_children s)) (active_children (oc_state (gs_cleanup s)))
     \<and> (\<forall>k. owns (reservation_handles k (gs_reservations s)) (reservations k (oc_state (gs_cleanup s))))"

lemma count_list_update:
  "i < length xs \<Longrightarrow> count_list (xs[i := y]) x + of_bool (xs ! i = x) = count_list xs x + of_bool (y = x)"
proof (induction xs arbitrary: i)
  case (Cons a xs)
  then show ?case using Cons.IH [of "i - 1"] by (cases i) auto
qed simp

lemma owns_issue: "owns hs m \<Longrightarrow> \<not> bt_has m h \<Longrightarrow> owns (hs @ [Some h]) (bt_insert h v m)"
  by (auto simp: owns_def)

lemma owns_append_None [simp]: "owns (hs @ [None]) m = owns hs m"
  by (simp add: owns_def)

lemma owns_has: "owns hs m \<Longrightarrow> i < length hs \<Longrightarrow> hs ! i = Some h \<Longrightarrow> bt_has m h"
  unfolding owns_def by (metis count_list_0_iff nth_mem)

lemma owns_release:
  assumes "owns hs m" "bt_wf m" "i < length hs" "hs ! i = Some h"
  shows "owns (hs[i := None]) (bt_remove h m)"
  unfolding owns_def
proof
  fix j
  have "count_list (hs[i := None]) (Some j) + of_bool (j = h) = count_list hs (Some j)"
    using count_list_update [OF assms(3), of None "Some j"] assms(4) by (simp add: eq_commute)
  then show "count_list (hs[i := None]) (Some j) = (if bt_has (bt_remove h m) j then 1 else 0)"
    using assms(1,2) owns_has [OF assms(1,3,4)] by (auto simp: owns_def)
qed

lemma owns_all_None: "owns hs m \<Longrightarrow> m = [] \<longleftrightarrow> list_all (\<lambda>x. x = None) hs"
  unfolding owns_def bt_empty_iff list_all_iff
  by (metis count_list_0_iff not_None_eq one_neq_zero)

lemma slot_Some: "slot xs i = Some x \<longleftrightarrow> i < length xs \<and> xs ! i = Some x"
  by (auto simp: slot_def)

lemma handles_update [simp]:
  "child_handles (cs[i := x]) = (child_handles cs)[i := Option.bind x cg_handle]"
  "reservation_handles k (rs[i := y]) =
     (reservation_handles k rs)[i := Option.bind y (\<lambda>gd. if rg_kind gd = k then rg_handle gd else None)]"
  "length (child_handles cs) = length cs" "length (reservation_handles k rs) = length rs"
  "child_handles (cs @ [x]) = child_handles cs @ [Option.bind x cg_handle]"
  "reservation_handles k (rs @ [y]) =
     reservation_handles k rs @ [Option.bind y (\<lambda>gd. if rg_kind gd = k then rg_handle gd else None)]"
  by (simp_all add: child_handles_def reservation_handles_def map_update)

lemma set_update_current:
  "\<forall>gd. Some gd \<in> set xs \<longrightarrow> P gd \<Longrightarrow> (case x of None \<Rightarrow> True | Some gd \<Rightarrow> P gd) \<Longrightarrow> \<forall>gd. Some gd \<in> set (xs[i := x]) \<longrightarrow> P gd"
  using set_update_subset_insert [of xs i x] by (auto split: option.splits)

lemma register_child_guard_cases:
  assumes "\<not> oc_poisoned c"
  obtains (Err) "register_child_guard g k c = (Inl (), c)"
  | (Ok) h where "h = Suc (next_handle_value (oc_state c))" "g = oc_generation c"
      "register_child g k c = (Inr h, c\<lparr>oc_state := (oc_state c)\<lparr>next_handle_value := h,
         active_children := bt_insert h k (active_children (oc_state c))\<rparr>\<rparr>)"
      "register_child_guard g k c = (Inr \<lparr>cg_generation = g, cg_handle = Some h\<rparr>, snd (register_child g k c))"
  using assms
  by (cases "g = oc_generation c \<and> \<not> cleanup_requested (oc_state c) \<and> \<not> cleanup_complete (oc_state c)
        \<and> next_handle_value (oc_state c) + 1 \<le> u64_max")
    (auto simp: register_child_guard_def register_child_def with_cleanup_def next_handle_def)

lemma register_reservation_guard_cases:
  assumes "\<not> oc_poisoned c"
  obtains (Err) "register_reservation_guard g k c = (Inl (), c)"
  | (Ok) h where "h = Suc (next_handle_value (oc_state c))" "g = oc_generation c"
      "register_reservation g k c = (Inr h, c\<lparr>oc_state :=
         set_reservations k (bt_insert h ()) (\<lambda>m. m) ((oc_state c)\<lparr>next_handle_value := h\<rparr>)\<rparr>)"
      "register_reservation_guard g k c =
         (Inr \<lparr>rg_generation = g, rg_kind = k, rg_handle = Some h\<rparr>, snd (register_reservation g k c))"
  using assms
  by (cases "g = oc_generation c \<and> \<not> cleanup_requested (oc_state c) \<and> \<not> cleanup_complete (oc_state c)
        \<and> next_handle_value (oc_state c) + 1 \<le> u64_max")
    (auto simp: register_reservation_guard_def register_reservation_def with_cleanup_def next_handle_def)

lemma complete_child_owned:
  assumes "cleanup_inv c" "\<not> oc_poisoned c" "bt_has (active_children (oc_state c)) h"
  shows "complete_child (oc_generation c) h c = (Inr (), c\<lparr>oc_state := (oc_state c)\<lparr>
     active_children := bt_remove h (active_children (oc_state c)),
     completed_children := bt_insert h () (completed_children (oc_state c))\<rparr>\<rparr>)"
  using assms active_not_completed [of "oc_state c" h]
  by (simp add: complete_child_def with_cleanup_def cleanup_inv_def)

lemma resolve_reservation_owned:
  assumes "\<not> oc_poisoned c" "bt_has (reservations k (oc_state c)) h"
  shows "resolve_reservation (oc_generation c) k h c =
    (Inr (), c\<lparr>oc_state := set_reservations k (bt_remove h) (bt_insert h ()) (oc_state c)\<rparr>)"
  using assms by (simp add: resolve_reservation_def with_cleanup_def)

lemma reservations_set [simp]:
  "reservations k (set_reservations k' f f' st) = (if k = k' then f (reservations k st) else reservations k st)"
  "reservations k (st\<lparr>next_handle_value := n\<rparr>) = reservations k st"
  "reservations k (st\<lparr>active_children := a\<rparr>) = reservations k st"
  "reservations k (st\<lparr>completed_children := b\<rparr>) = reservations k st"
  by (cases k; cases k'; simp)+

lemma release_child:
  assumes inv: "guards_inv s" and slot: "slot (gs_children s) i = Some gd" and h: "cg_handle gd = Some h"
    and x: "x = None \<or> x = Some (gd\<lparr>cg_handle := None\<rparr>)"
  shows "guards_inv (s\<lparr>gs_cleanup := snd (complete_child (cg_generation gd) h (gs_cleanup s)),
    gs_children := (gs_children s)[i := x]\<rparr>)"
    and "fst (complete_child (cg_generation gd) h (gs_cleanup s)) = Inr ()"
proof -
  let ?c = "gs_cleanup s"
  have i: "i < length (gs_children s)" "child_handles (gs_children s) ! i = Some h"
    and gen: "cg_generation gd = oc_generation ?c"
    using slot h inv nth_mem [of i "gs_children s"]
    by (auto simp: slot_Some child_handles_def guards_inv_def guards_current_def)
  have own: "owns (child_handles (gs_children s)) (active_children (oc_state ?c))"
    and c: "cleanup_inv ?c" "\<not> oc_poisoned ?c" and wf: "bt_wf (active_children (oc_state ?c))"
    using inv by (simp_all add: guards_inv_def cleanup_inv_def state_wf_def)
  have eff: "complete_child (cg_generation gd) h ?c = (Inr (), ?c\<lparr>oc_state := (oc_state ?c)\<lparr>
     active_children := bt_remove h (active_children (oc_state ?c)),
     completed_children := bt_insert h () (completed_children (oc_state ?c))\<rparr>\<rparr>)"
    unfolding gen using complete_child_owned [OF c] owns_has [OF own] i by simp
  have x': "Option.bind x cg_handle = None" using x by auto
  have "owns ((child_handles (gs_children s))[i := None]) (bt_remove h (active_children (oc_state ?c)))"
    using owns_release [OF own wf] i by simp
  moreover have "\<forall>gd'. Some gd' \<in> set ((gs_children s)[i := x]) \<longrightarrow> cg_generation gd' = oc_generation ?c"
    using inv x gen by (intro set_update_current) (auto simp: guards_inv_def guards_current_def)
  ultimately show "guards_inv (s\<lparr>gs_cleanup := snd (complete_child (cg_generation gd) h (gs_cleanup s)),
      gs_children := (gs_children s)[i := x]\<rparr>)"
    using inv complete_child_inv [OF c(1), of "cg_generation gd" h] x'
    by (simp add: guards_inv_def eff guards_current_def)
  show "fst (complete_child (cg_generation gd) h (gs_cleanup s)) = Inr ()" by (simp add: eff)
qed

lemma release_reservation:
  assumes inv: "guards_inv s" and slot: "slot (gs_reservations s) i = Some gd" and h: "rg_handle gd = Some h"
    and x: "x = None \<or> x = Some (gd\<lparr>rg_handle := None\<rparr>)"
  shows "guards_inv (s\<lparr>gs_cleanup := snd (resolve_reservation (rg_generation gd) (rg_kind gd) h (gs_cleanup s)),
    gs_reservations := (gs_reservations s)[i := x]\<rparr>)"
    and "fst (resolve_reservation (rg_generation gd) (rg_kind gd) h (gs_cleanup s)) = Inr ()"
proof -
  let ?c = "gs_cleanup s" and ?k = "rg_kind gd"
  have i: "i < length (gs_reservations s)" "reservation_handles ?k (gs_reservations s) ! i = Some h"
    and gen: "rg_generation gd = oc_generation ?c"
    and other: "\<And>k. k \<noteq> ?k \<Longrightarrow> reservation_handles k (gs_reservations s) ! i = None"
    using slot h inv nth_mem [of i "gs_reservations s"]
    by (auto simp: slot_Some reservation_handles_def guards_inv_def guards_current_def)
  have own: "\<And>k. owns (reservation_handles k (gs_reservations s)) (reservations k (oc_state ?c))"
    and c: "cleanup_inv ?c" "\<not> oc_poisoned ?c"
    using inv by (simp_all add: guards_inv_def)
  have wf: "bt_wf (reservations ?k (oc_state ?c))"
    using c(1) by (cases ?k) (simp_all add: cleanup_inv_def state_wf_def)
  have eff: "resolve_reservation (rg_generation gd) ?k h ?c =
      (Inr (), ?c\<lparr>oc_state := set_reservations ?k (bt_remove h) (bt_insert h ()) (oc_state ?c)\<rparr>)"
    unfolding gen using resolve_reservation_owned [OF c(2)] owns_has [OF own] i by simp
  have x': "Option.bind x (\<lambda>gd. if rg_kind gd = k then rg_handle gd else None) = None" for k using x by auto
  have "owns ((reservation_handles k (gs_reservations s))[i := None])
      (reservations k (set_reservations ?k (bt_remove h) (bt_insert h ()) (oc_state ?c)))" for k
    using owns_release [OF own wf] i own [of k] other [of k] list_update_id [of "reservation_handles k (gs_reservations s)" i]
    by (cases "k = ?k") simp_all
  moreover have "\<forall>gd'. Some gd' \<in> set ((gs_reservations s)[i := x]) \<longrightarrow> rg_generation gd' = oc_generation ?c"
    using inv x gen by (intro set_update_current) (auto simp: guards_inv_def guards_current_def)
  ultimately show "guards_inv (s\<lparr>gs_cleanup := snd (resolve_reservation (rg_generation gd) (rg_kind gd) h (gs_cleanup s)),
      gs_reservations := (gs_reservations s)[i := x]\<rparr>)"
    using inv resolve_reservation_inv [OF c(1), of "rg_generation gd" ?k h]
    by (simp add: guards_inv_def eff guards_current_def x')
  show "fst (resolve_reservation (rg_generation gd) (rg_kind gd) h (gs_cleanup s)) = Inr ()" by (simp add: eff)
qed

lemma released_child_slot:
  assumes "guards_inv s" "slot (gs_children s) i = Some gd" "cg_handle gd = None"
  shows "guards_inv (s\<lparr>gs_children := (gs_children s)[i := None]\<rparr>)"
proof -
  have "(child_handles (gs_children s))[i := None] = child_handles (gs_children s)"
    using assms(2,3) by (intro nth_equalityI) (auto simp: slot_Some child_handles_def nth_list_update)
  then show ?thesis using assms(1) set_update_current [of "gs_children s" "\<lambda>gd. cg_generation gd = oc_generation (gs_cleanup s)" None i]
    by (simp add: guards_inv_def guards_current_def)
qed

lemma released_reservation_slot:
  assumes "guards_inv s" "slot (gs_reservations s) i = Some gd" "rg_handle gd = None"
  shows "guards_inv (s\<lparr>gs_reservations := (gs_reservations s)[i := None]\<rparr>)"
proof -
  have "(reservation_handles k (gs_reservations s))[i := None] = reservation_handles k (gs_reservations s)" for k
    using assms(2,3) by (intro nth_equalityI) (auto simp: slot_Some reservation_handles_def nth_list_update)
  then show ?thesis using assms(1) set_update_current [of "gs_reservations s" "\<lambda>gd. rg_generation gd = oc_generation (gs_cleanup s)" None i]
    by (simp add: guards_inv_def guards_current_def)
qed

lemma register_guard_inv:
  assumes inv: "guards_inv s"
  shows "guards_inv (guard_apply s (G_RegisterChild g k))" "guards_inv (guard_apply s (G_RegisterReservation g k'))"
proof -
  let ?c = "gs_cleanup s"
  have c: "cleanup_inv ?c" "\<not> oc_poisoned ?c" "handles_partitioned (oc_state ?c)"
    using inv by (simp_all add: guards_inv_def cleanup_inv_def)
  note fresh = fresh_handle [OF c(3), of "Suc (next_handle_value (oc_state ?c))"]
  show "guards_inv (guard_apply s (G_RegisterChild g k))"
    using c(2)
  proof (cases rule: register_child_guard_cases [where g = g and k = k])
    case Err
    then show ?thesis using inv by simp
  next
    case (Ok h)
    then show ?thesis
      using inv register_child_inv [OF c(1), of g k] fresh
      by (auto simp: guards_inv_def guards_current_def intro!: owns_issue)
  qed
  show "guards_inv (guard_apply s (G_RegisterReservation g k'))"
    using c(2)
  proof (cases rule: register_reservation_guard_cases [where g = g and k = k'])
    case Err
    then show ?thesis using inv by simp
  next
    case (Ok h)
    have "\<not> bt_has (reservations k' (oc_state ?c)) h" using fresh Ok(1) by (cases k') simp_all
    then show ?thesis
      using inv register_reservation_inv [OF c(1), of g k'] Ok
      by (auto simp: guards_inv_def guards_current_def intro!: owns_issue)
  qed
qed

lemma guard_sys_same [simp]:
  "s\<lparr>gs_cleanup := gs_cleanup s, gs_children := gs_children s\<rparr> = s"
  "s\<lparr>gs_cleanup := gs_cleanup s, gs_reservations := gs_reservations s\<rparr> = s"
  "s\<lparr>gs_cleanup := gs_cleanup s, gs_children := cs\<rparr> = s\<lparr>gs_children := cs\<rparr>"
  "s\<lparr>gs_cleanup := gs_cleanup s, gs_reservations := rs\<rparr> = s\<lparr>gs_reservations := rs\<rparr>"
  by simp_all

lemma release_guard_inv:
  assumes inv: "guards_inv s"
  shows "guards_inv (guard_apply s (G_CompleteChild i))" "guards_inv (guard_apply s (G_DropChild i))"
    "guards_inv (guard_apply s (G_Resolve i))" "guards_inv (guard_apply s (G_DropReservation i))"
proof -
  show "guards_inv (guard_apply s (G_CompleteChild i))"
  proof (cases "slot (gs_children s) i")
    case (Some gd)
    then have same: "(gs_children s)[i := Some gd] = gs_children s" by (metis list_update_id slot_Some)
    show ?thesis
    proof (cases "cg_handle gd")
      case None
      then show ?thesis using inv Some same by (simp add: child_guard_complete_def)
    next
      case (Some h)
      note rel = release_child [OF inv \<open>slot (gs_children s) i = Some gd\<close> Some disjI2, OF refl]
      then show ?thesis using Some \<open>slot (gs_children s) i = Some gd\<close>
        by (auto simp: child_guard_complete_def split: prod.split sum.split)
    qed
  qed (simp add: inv)
  show "guards_inv (guard_apply s (G_DropChild i))"
  proof (cases "slot (gs_children s) i")
    case (Some gd)
    then show ?thesis using inv release_child(1) [OF inv Some] released_child_slot [OF inv Some]
      by (cases "cg_handle gd") (auto simp: child_guard_drop_def)
  qed (simp add: inv)
  show "guards_inv (guard_apply s (G_Resolve i))"
  proof (cases "slot (gs_reservations s) i")
    case (Some gd)
    then have same: "(gs_reservations s)[i := Some gd] = gs_reservations s" by (metis list_update_id slot_Some)
    show ?thesis
    proof (cases "rg_handle gd")
      case None
      then show ?thesis using inv Some same by (simp add: reservation_guard_resolve_def)
    next
      case (Some h)
      note rel = release_reservation [OF inv \<open>slot (gs_reservations s) i = Some gd\<close> Some disjI2, OF refl]
      then show ?thesis using Some \<open>slot (gs_reservations s) i = Some gd\<close>
        by (auto simp: reservation_guard_resolve_def split: prod.split sum.split)
    qed
  qed (simp add: inv)
  show "guards_inv (guard_apply s (G_DropReservation i))"
  proof (cases "slot (gs_reservations s) i")
    case (Some gd)
    then show ?thesis using inv release_reservation(1) [OF inv Some] released_reservation_slot [OF inv Some]
      by (cases "rg_handle gd") (auto simp: reservation_guard_drop_def)
  qed (simp add: inv)
qed

text \<open>The remaining calls touch neither the registries nor the guards.\<close>

definition same_registries :: "OrchestrationCleanup \<Rightarrow> OrchestrationCleanup \<Rightarrow> bool" where
  "same_registries c c' \<longleftrightarrow> same_run c c' \<and> active_children (oc_state c') = active_children (oc_state c)
     \<and> (\<forall>k. reservations k (oc_state c') = reservations k (oc_state c))"

lemma same_registries_inv:
  "guards_inv s \<Longrightarrow> same_registries (gs_cleanup s) c \<Longrightarrow> cleanup_inv c \<Longrightarrow> guards_inv (s\<lparr>gs_cleanup := c\<rparr>)"
  by (simp add: guards_inv_def guards_current_def same_registries_def same_run_def)

lemma all_reservations: "(\<forall>k. P k) \<longleftrightarrow> P Reservation_Provider \<and> P Reservation_Tool"
  using CleanupReservationKind.exhaust by metis

lemma flag_ops_same_registries:
  "same_registries c (snd (cleanup_begin g c))" "same_registries c (snd (cleanup_finish g c))"
  "same_registries c (snd (submit_failure g f c))" "same_registries c (snd (freeze_failure g c))"
  by (auto simp: same_registries_def same_run_def cleanup_begin_def cleanup_finish_def submit_failure_def
      freeze_failure_def with_cleanup_def all_reservations split: prod.split)

interpretation guards: transition_system guard_apply "\<lambda>s. \<exists>g. s = cleanup_sys_new g" guards_inv
proof
  fix s assume "\<exists>g. s = cleanup_sys_new g"
  then obtain g where s: "s = cleanup_sys_new g" by blast
  have "cleanup_inv (cleanup_new g)" using cleanup.inv_init by blast
  then show "guards_inv s"
    by (simp add: s cleanup_sys_new_def guards_inv_def guards_current_def child_handles_def
        reservation_handles_def owns_def all_reservations)
      (simp add: cleanup_new_def)
next
  fix s x assume inv: "guards_inv s"
  then have "cleanup_inv (gs_cleanup s)" by (simp add: guards_inv_def)
  then show "guards_inv (guard_apply s x)"
    using inv register_guard_inv [OF inv] release_guard_inv [OF inv]
    by (cases x) (simp_all add: same_registries_inv flag_ops_same_registries cleanup_ops_inv
        del: guard_apply.simps(1-6))
qed

definition all_released :: "cleanup_sys \<Rightarrow> bool" where
  "all_released s \<longleftrightarrow>
     list_all (\<lambda>x. x = None) (child_handles (gs_children s))
     \<and> list_all (\<lambda>x. Option.bind x rg_handle = None) (gs_reservations s)"

definition drop_everything :: "cleanup_sys \<Rightarrow> guard_op list" where
  "drop_everything s = map G_DropChild [0..<length (gs_children s)] @ map G_DropReservation [0..<length (gs_reservations s)]"

lemma finish_after_begin:
  assumes "cleanup_inv c" "\<not> oc_poisoned c"
  shows "fst (cleanup_finish (oc_generation c) (snd (cleanup_begin (oc_generation c) c))) = Inr () \<longleftrightarrow> nothing_held (oc_state c)"
  using assms by (auto simp: cleanup_begin_def cleanup_finish_def with_cleanup_def cleanup_inv_def nothing_held_def)

lemma bind_by_kind:
  "Option.bind x rg_handle = None \<longleftrightarrow>
     Option.bind x (\<lambda>gd. if rg_kind gd = Reservation_Provider then rg_handle gd else None) = None
     \<and> Option.bind x (\<lambda>gd. if rg_kind gd = Reservation_Tool then rg_handle gd else None) = None"
proof (cases x)
  case (Some gd)
  then show ?thesis by (cases "rg_kind gd") simp_all
qed simp

lemma nothing_held_iff_released:
  assumes "guards_inv s"
  shows "nothing_held (oc_state (gs_cleanup s)) \<longleftrightarrow> all_released s"
proof -
  have own: "owns (child_handles (gs_children s)) (active_children (oc_state (gs_cleanup s)))"
    "owns (reservation_handles Reservation_Provider (gs_reservations s)) (provider_reservations (oc_state (gs_cleanup s)))"
    "owns (reservation_handles Reservation_Tool (gs_reservations s)) (tool_reservations (oc_state (gs_cleanup s)))"
    using assms by (simp_all add: guards_inv_def all_reservations)
  show ?thesis
    unfolding nothing_held_def all_released_def
    using owns_all_None [OF own(1)] owns_all_None [OF own(2)] owns_all_None [OF own(3)]
    by (auto simp: reservation_handles_def list_all_iff bind_by_kind)
qed

lemma guard_run_frame:
  "oc_generation (gs_cleanup (foldl guard_apply s ops)) = oc_generation (gs_cleanup s)"
proof (induction ops rule: rev_induct)
  case (snoc x ops)
  have run: "same_run c (snd (complete_child g h c))" "same_run c (snd (resolve_reservation g k h c))"
    "same_run c (snd (register_child g kd c))" "same_run c (snd (register_reservation g k c))"
    "same_run c (snd (cleanup_begin g c))" "same_run c (snd (cleanup_finish g c))" for c g h k kd
    by (simp_all add: complete_child_def resolve_reservation_def register_child_def register_reservation_def
        cleanup_begin_def cleanup_finish_def with_cleanup_same_run)
  let ?s = "foldl guard_apply s ops"
  have "oc_generation (gs_cleanup (guard_apply t x)) = oc_generation (gs_cleanup t)" for t
    using run [of "gs_cleanup t"] unfolding same_run_def
    by (cases x) (auto simp: register_child_guard_def register_reservation_guard_def child_guard_complete_def
        child_guard_drop_def reservation_guard_resolve_def reservation_guard_drop_def submit_failure_def
        freeze_failure_def split: option.split prod.split sum.split, (metis snd_conv)+)
  then show ?case using snoc by simp
qed simp

lemma drop_children_released:
  "n \<le> length (gs_children s) \<Longrightarrow>
   let t = foldl guard_apply s (map G_DropChild [0..<n]) in
   gs_reservations t = gs_reservations s \<and> length (gs_children t) = length (gs_children s)
   \<and> (\<forall>i < n. gs_children t ! i = None)"
proof (induction n)
  case (Suc n)
  then show ?case
    by (auto simp: Let_def slot_def nth_list_update less_Suc_eq split: option.split)
qed simp

lemma drop_reservations_released:
  "n \<le> length (gs_reservations s) \<Longrightarrow>
   let t = foldl guard_apply s (map G_DropReservation [0..<n]) in
   gs_children t = gs_children s \<and> length (gs_reservations t) = length (gs_reservations s)
   \<and> (\<forall>i < n. gs_reservations t ! i = None)"
proof (induction n)
  case (Suc n)
  then show ?case
    by (auto simp: Let_def slot_def nth_list_update less_Suc_eq split: option.split)
qed simp

lemma all_None_released:
  "(\<forall>i < length (gs_children s). gs_children s ! i = None) \<Longrightarrow>
   (\<forall>i < length (gs_reservations s). gs_reservations s ! i = None) \<Longrightarrow> all_released s"
  by (auto simp: all_released_def child_handles_def list_all_iff in_set_conv_nth)

lemma drop_everything_releases: "all_released (foldl guard_apply s (drop_everything s))"
proof -
  let ?t = "foldl guard_apply s (map G_DropChild [0..<length (gs_children s)])"
  let ?u = "foldl guard_apply ?t (map G_DropReservation [0..<length (gs_reservations s)])"
  note c = drop_children_released [of "length (gs_children s)" s, unfolded Let_def, simplified]
  note r = drop_reservations_released [of "length (gs_reservations s)" ?t, unfolded Let_def]
  have "all_released ?u" using c r by (intro all_None_released) simp_all
  then show ?thesis by (simp add: drop_everything_def)
qed

text \<open>C9: Guards never leak. After any interleaving of guard operations, requesting and completing the
  cleanup succeeds exactly when every guard was completed, resolved or dropped; and dropping the guards
  that are still alive, which leaving their scope does, always brings that about.\<close>

theorem guards_never_leak:
  "let s = foldl guard_apply (cleanup_sys_new g) ops; t = foldl guard_apply s (drop_everything s) in
   (fst (cleanup_finish g (snd (cleanup_begin g (gs_cleanup s)))) = Inr () \<longleftrightarrow> all_released s)
   \<and> fst (cleanup_finish g (snd (cleanup_begin g (gs_cleanup t)))) = Inr ()"
proof -
  define s where "s = foldl guard_apply (cleanup_sys_new g) ops"
  define t where "t = foldl guard_apply s (drop_everything s)"
  have frame: "oc_generation (gs_cleanup s) = g" "oc_generation (gs_cleanup t) = g"
    using guard_run_frame [of "cleanup_sys_new g"] by (simp_all add: s_def t_def guard_run_frame cleanup_sys_new_def)
  have inv: "guards_inv s" "guards_inv t"
    using guards.inv_run [of "cleanup_sys_new g" ops] guards.inv_reaches [OF reaches_foldl, of s]
    by (auto simp: s_def t_def)
  have ends: "fst (cleanup_finish g (snd (cleanup_begin g (gs_cleanup x)))) = Inr () \<longleftrightarrow> all_released x"
    if "guards_inv x" "oc_generation (gs_cleanup x) = g" for x
    using finish_after_begin [of "gs_cleanup x"] nothing_held_iff_released [OF that(1)] that
    by (simp add: guards_inv_def)
  have "all_released t" unfolding t_def by (rule drop_everything_releases)
  then show ?thesis
    unfolding Let_def s_def [symmetric] t_def [symmetric]
    using ends [OF inv(1) frame(1)] ends [OF inv(2) frame(2)] by blast
qed

end
