(* ===== verification/Subagent_Runtime.thy ===== *)
theory Subagent_Runtime
  imports Orch_Cleanup Provider_Failure
begin

text \<open>
  The bounded subagent runtime (\<open>subagent.rs\<close>, with the request and result types of \<open>invocation.rs\<close>):
  request validation, routing of the role, and the tool session, a loop of provider turns and tool
  calls that reserves each of them in the execution budget and registers it for cleanup.

  The provider, the repository tools' surroundings and the clock are parameters of the session, given
  per turn: what the provider answers to a request, which branch of a \<open>select!\<close> was taken, whether
  the cancellation or the timeout signal was set when the loop looked at it, and the elapsed times the
  ledger reads. The ledger and the cleanup registry are threaded as the state the session shares; the
  session runs alone on it. A guard that was completed, resolved or finished is inert, so only the
  drops of guards that still own something are written out. The loop is a total function: every turn
  uses up one of the provider turns of the session budget.
\<close>

section \<open>Requests, results and outcomes\<close>

definition SUBAGENT_MIN_OUTPUT_TOKENS :: nat where "SUBAGENT_MIN_OUTPUT_TOKENS = 1"
definition SUBAGENT_MAX_OUTPUT_TOKENS :: nat where "SUBAGENT_MAX_OUTPUT_TOKENS = 16000"
definition SUBAGENT_MAX_TASK_ID_BYTES :: nat where "SUBAGENT_MAX_TASK_ID_BYTES = 128"
definition SUBAGENT_MAX_INSTRUCTION_BYTES :: nat where "SUBAGENT_MAX_INSTRUCTION_BYTES = 32 * 1024"
definition SUBAGENT_MAX_CONTEXT_BYTES :: nat where "SUBAGENT_MAX_CONTEXT_BYTES = 128 * 1024"

record ProviderInvocationToolCall =
  tc_id :: string
  tc_name :: string
  tc_arguments :: string

record ProviderInvocationToolResult =
  tr_id :: string
  tr_content :: string
  tr_is_error :: bool

record ProviderInvocationRequest =
  pr_provider :: string
  pr_model :: string
  pr_system :: "string option"
  pr_user :: string
  pr_max_output_tokens :: nat
  pr_tools :: "string list"
  pr_tool_results :: "ProviderInvocationToolResult list"

record ProviderInvocationUsage =
  pu_input_tokens :: "nat option"
  pu_output_tokens :: "nat option"
  pu_total_tokens :: "nat option"

record ProviderInvocationResult =
  pres_provider :: string
  pres_model :: string
  pres_text :: string
  pres_finish_reason :: "string option"
  pres_usage :: "ProviderInvocationUsage option"
  pres_request_id :: "string option"
  pres_tool_call :: "ProviderInvocationToolCall option"

record SubagentResolvedRoute =
  sres_provider_id :: string
  sres_connection_id :: string
  sres_model_id :: string

record SubagentRequest =
  sr_task_id :: string
  sr_parent_id :: "string option"
  sr_role :: RoutingRole
  sr_instruction :: string
  sr_context :: "string option"
  sr_timeout :: nat
  sr_max_output_tokens :: nat
  sr_depth :: nat
  sr_tool_policy :: SubagentToolPolicy

datatype SubagentStatus =
  SS_Completed | SS_CompletedWithTruncation | SS_Cancelled | SS_TimedOut | SS_RoutingFailed
  | SS_AuthenticationFailed | SS_ProviderRejected | SS_TransportFailed | SS_InvalidResponse
  | SS_OutputLimitReached | SS_InvalidToolPolicy | SS_ToolPolicyRejected | SS_ToolExecutionFailed
  | SS_BudgetExhausted | SS_InternalFailure

datatype SubagentLifecycle =
  SL_Created | SL_Validating | SL_Routing | SL_Running | SL_InvokingProvider
  | SL_AwaitingToolExecution | SL_ExecutingTool | SL_ReturningToolResult | SL_Completed | SL_Failed
  | SL_Cancelled | SL_TimedOut | SL_BudgetExhausted

datatype SubagentDataQuality = SDQ_Exact | SDQ_Unavailable

record SubagentUsage =
  su_input_tokens :: "nat option"
  su_output_tokens :: "nat option"
  su_total_tokens :: "nat option"
  su_quality :: SubagentDataQuality

record SubagentToolCallRecord =
  cr_tool :: SubagentToolKind
  cr_call_id :: string
  cr_descriptor :: string
  cr_succeeded :: bool
  cr_duration_ms :: nat
  cr_input_bytes :: nat
  cr_output_bytes :: nat
  cr_truncated :: bool

record SubagentOutcome =
  so_task_id :: string
  so_parent_id :: "string option"
  so_role :: RoutingRole
  so_profile_id :: string
  so_provider_id :: string
  so_connection_id :: string
  so_model_id :: string
  so_status :: SubagentStatus
  so_output :: "string option"
  so_usage :: "SubagentUsage option"
  so_latency_ms :: nat
  so_lifecycle :: "SubagentLifecycle list"
  so_warnings :: "string list"
  so_provider_turns :: nat
  so_tool_calls :: nat
  so_tool_call_counts :: "(SubagentToolKind, nat) btree_map"
  so_tool_audit :: "SubagentToolCallRecord list"
  so_output_truncated :: bool
  so_budget_exhausted :: bool

datatype SubagentError =
  SE_InvalidTaskId | SE_EmptyInstruction | SE_InstructionTooLarge | SE_ContextTooLarge
  | SE_InvalidTimeout | SE_InvalidOutputLimit | SE_RecursionNotAllowed | SE_CancelledBeforeStart
  | SE_NoActiveProfile | SE_UnknownActiveProfile | SE_MissingRoleAssignment | SE_UnknownProvider
  | SE_UnknownConnection | SE_ConnectionDisabled | SE_ConnectionUnconfigured
  | SE_ReauthenticationRequired | SE_InvalidModel | SE_ModelUnverified | SE_UnsupportedProvider
  | SE_InvocationCancelled | SE_InvocationTimedOut | SE_AuthenticationFailed | SE_ProviderRejected
  | SE_TransportFailed | SE_InvalidResponse | SE_OutputLimitReached | SE_InvalidToolPolicy
  | SE_JoinFailure | SE_InternalFailure

fun subagent_error_message :: "SubagentError \<Rightarrow> string" where
  "subagent_error_message SE_InvalidTaskId = ''subagent task ID is invalid''"
| "subagent_error_message SE_EmptyInstruction = ''subagent instruction is empty''"
| "subagent_error_message SE_InstructionTooLarge = ''subagent instruction is too large''"
| "subagent_error_message SE_ContextTooLarge = ''subagent context is too large''"
| "subagent_error_message SE_InvalidTimeout = ''subagent timeout is invalid''"
| "subagent_error_message SE_InvalidOutputLimit = ''subagent output limit is invalid''"
| "subagent_error_message SE_RecursionNotAllowed = ''subagent recursion is not allowed''"
| "subagent_error_message SE_CancelledBeforeStart = ''subagent was cancelled before start''"
| "subagent_error_message SE_NoActiveProfile = ''no active routing profile is configured''"
| "subagent_error_message SE_UnknownActiveProfile = ''active routing profile was not found''"
| "subagent_error_message SE_MissingRoleAssignment = ''requested subagent role is not assigned''"
| "subagent_error_message SE_UnknownProvider = ''subagent provider is unknown''"
| "subagent_error_message SE_UnknownConnection = ''subagent connection is unknown''"
| "subagent_error_message SE_ConnectionDisabled = ''subagent connection is disabled''"
| "subagent_error_message SE_ConnectionUnconfigured = ''subagent connection is unconfigured''"
| "subagent_error_message SE_ReauthenticationRequired = ''subagent connection requires reauthentication''"
| "subagent_error_message SE_InvalidModel = ''subagent model is invalid''"
| "subagent_error_message SE_ModelUnverified = ''subagent model is unverified''"
| "subagent_error_message SE_UnsupportedProvider = ''subagent provider is unsupported''"
| "subagent_error_message SE_InvocationCancelled = ''subagent invocation was cancelled''"
| "subagent_error_message SE_InvocationTimedOut = ''subagent invocation timed out''"
| "subagent_error_message SE_AuthenticationFailed = ''subagent authentication failed''"
| "subagent_error_message SE_ProviderRejected = ''subagent provider rejected the request''"
| "subagent_error_message SE_TransportFailed = ''subagent transport failed''"
| "subagent_error_message SE_InvalidResponse = ''subagent response is invalid''"
| "subagent_error_message SE_OutputLimitReached = ''subagent output limit was reached''"
| "subagent_error_message SE_InvalidToolPolicy = ''subagent tool policy is invalid''"
| "subagent_error_message SE_JoinFailure = ''subagent child task join failed''"
| "subagent_error_message SE_InternalFailure = ''subagent runtime failed internally''"

fun tool_error_message :: "SubagentToolError \<Rightarrow> string" where
  "tool_error_message Tool_InvalidWorkspace = ''approved tool workspace is invalid''"
| "tool_error_message Tool_WorkspaceRequired = ''approved tool workspace is required''"
| "tool_error_message Tool_ToolNotApproved = ''tool is not approved''"
| "tool_error_message Tool_InvalidInput = ''tool input is invalid''"
| "tool_error_message Tool_InputTooLarge = ''tool input is too large''"
| "tool_error_message Tool_InvalidPath = ''tool path is invalid''"
| "tool_error_message Tool_PathOutsideWorkspace = ''tool path is outside the approved workspace''"
| "tool_error_message Tool_NotARegularFile = ''tool path is not a regular file''"
| "tool_error_message Tool_FileTooLarge = ''tool file is too large''"
| "tool_error_message Tool_InvalidUtf8 = ''tool file is not valid UTF-8''"
| "tool_error_message Tool_OutputTooLarge = ''tool output is too large''"
| "tool_error_message Tool_InvalidCallId = ''tool call identifier is invalid''"
| "tool_error_message Tool_Cancelled = ''tool was cancelled''"
| "tool_error_message Tool_GitStatusFailed = ''git status failed safely''"

fun category_name :: "BudgetExhaustionCategory \<Rightarrow> string" where
  "category_name TotalProviderInvocations = ''TotalProviderInvocations''"
| "category_name PlannerProviderInvocations = ''PlannerProviderInvocations''"
| "category_name ExecutorProviderInvocations = ''ExecutorProviderInvocations''"
| "category_name VerifierProviderInvocations = ''VerifierProviderInvocations''"
| "category_name RepairProviderInvocations = ''RepairProviderInvocations''"
| "category_name TotalToolCalls = ''TotalToolCalls''"
| "category_name AggregateToolOutput = ''AggregateToolOutput''"
| "category_name InputOrContextLimit = ''InputOrContextLimit''"
| "category_name OutputTokenLimit = ''OutputTokenLimit''"
| "category_name ExecutorTaskCount = ''ExecutorTaskCount''"
| "category_name ExecutorConcurrency = ''ExecutorConcurrency''"
| "category_name RepairAttempts = ''RepairAttempts''"
| "category_name TotalElapsedTime = ''TotalElapsedTime''"
| "category_name RepairElapsedTime = ''RepairElapsedTime''"
| "category_name SubagentDepth = ''SubagentDepth''"
| "category_name RunTerminal = ''RunTerminal''"
| "category_name LedgerUnavailable = ''LedgerUnavailable''"

definition safe_budget_message :: "BudgetExhaustion \<Rightarrow> string" where
  "safe_budget_message e =
     ''execution budget exhausted: '' @ category_name (be_category e) @ '' (''
     @ show_nat (be_consumed_or_reserved e) @ ''/'' @ show_nat (be_limit e) @ '')''"

section \<open>Validation and routing\<close>

definition validate_request :: "SubagentRequest \<Rightarrow> (SubagentError, unit) result" where
  "validate_request r =
     (let b = tp_budget (sr_tool_policy r) in
      res_bind (ensure (\<not> (is_blank (sr_task_id r) \<or> length (sr_task_id r) > SUBAGENT_MAX_TASK_ID_BYTES)) SE_InvalidTaskId) (\<lambda>_.
      res_bind (ensure (\<not> is_blank (sr_instruction r)) SE_EmptyInstruction) (\<lambda>_.
      res_bind (ensure (length (sr_instruction r) \<le> SUBAGENT_MAX_INSTRUCTION_BYTES) SE_InstructionTooLarge) (\<lambda>_.
      res_bind (ensure (case sr_context r of None \<Rightarrow> True | Some c \<Rightarrow> length c \<le> SUBAGENT_MAX_CONTEXT_BYTES)
                  SE_ContextTooLarge) (\<lambda>_.
      res_bind (ensure (SUBAGENT_MIN_TIMEOUT \<le> sr_timeout r \<and> sr_timeout r \<le> SUBAGENT_MAX_TIMEOUT)
                  SE_InvalidTimeout) (\<lambda>_.
      res_bind (ensure (SUBAGENT_MIN_OUTPUT_TOKENS \<le> sr_max_output_tokens r
                        \<and> sr_max_output_tokens r \<le> SUBAGENT_MAX_OUTPUT_TOKENS) SE_InvalidOutputLimit) (\<lambda>_.
      res_bind (ensure (sr_depth r = 1) SE_RecursionNotAllowed) (\<lambda>_.
      res_bind (ensure (\<not> (sb_max_provider_turns b = 0 \<or> sb_max_tool_calls b = 0 \<or> sb_max_calls_per_tool b = 0
                          \<or> sb_max_tool_input_bytes b = 0 \<or> sb_max_tool_output_bytes b = 0
                          \<or> sb_max_aggregate_tool_output_bytes b = 0 \<or> sb_max_file_bytes b = 0
                          \<or> sb_max_file_read_bytes b = 0 \<or> sb_max_file_read_lines b = 0
                          \<or> sb_max_search_results b = 0 \<or> sb_max_search_files b = 0 \<or> sb_max_search_bytes b = 0
                          \<or> sb_max_git_status_entries b = 0 \<or> sb_max_git_output_bytes b = 0
                          \<or> sb_session_timeout b = 0 \<or> sb_per_tool_timeout b = 0)) SE_InvalidToolPolicy) (\<lambda>_.
      ensure (\<not> (requires_workspace (sr_tool_policy r) \<and> tp_workspace_root (sr_tool_policy r) = None))
        SE_InvalidToolPolicy)))))))))"

definition newlines2 :: string where
  "newlines2 = newline @ newline"

definition build_prompt :: "RoutingRole \<Rightarrow> string \<Rightarrow> string option \<Rightarrow> string \<times> string" where
  "build_prompt role instruction ctx =
     (''You are the Syndrid '' @ RoutingRole_display role @ '' subagent. You have no tools. Do not claim to have modified files or run commands. Return only a bounded result, concise summary, assumptions, unresolved issues, and verification status.'',
      case ctx of
        Some c \<Rightarrow> ''Task:'' @ newline @ instruction @ newlines2 @ ''Bounded context:'' @ newline @ c
      | None \<Rightarrow> ''Task:'' @ newline @ instruction)"

definition parse_tool_kind :: "string \<Rightarrow> SubagentToolKind option" where
  "parse_tool_kind name =
     (if name = ''read_file'' then Some ReadFile
      else if name = ''search_text'' then Some SearchText
      else if name = ''git_status'' then Some GitStatus
      else None)"

definition bound_text :: "string \<Rightarrow> nat \<Rightarrow> string \<times> bool" where
  "bound_text v limit =
     (if length v \<le> limit then (v, False) else (take (boundary_below v limit) v, True))"

definition bound_provider_output :: "string \<Rightarrow> nat \<Rightarrow> string \<times> bool" where
  "bound_provider_output v tokens = bound_text v (min (tokens * 4) u64_max)"

definition map_routing_error :: "RoutingProfileError \<Rightarrow> SubagentError" where
  "map_routing_error e =
     (case e of
        RP_UnknownConnection \<Rightarrow> SE_UnknownConnection
      | RP_DisabledConnection \<Rightarrow> SE_ConnectionDisabled
      | RP_UnvalidatedConnection \<Rightarrow> SE_ConnectionUnconfigured
      | RP_ModelNotFound \<Rightarrow> SE_InvalidModel
      | RP_InvalidModelId \<Rightarrow> SE_InvalidModel
      | RP_UnsupportedAuthenticationMethod \<Rightarrow> SE_UnsupportedProvider
      | RP_ProviderMismatch \<Rightarrow> SE_UnknownProvider
      | RP_MissingRoleAssignment \<Rightarrow> SE_MissingRoleAssignment
      | _ \<Rightarrow> SE_InternalFailure)"

fun map_invocation_error :: "ProviderInvocationError \<Rightarrow> SubagentError" where
  "map_invocation_error Inv_Cancelled = SE_InvocationCancelled"
| "map_invocation_error Inv_RequestTimedOut = SE_InvocationTimedOut"
| "map_invocation_error Inv_Unauthorized = SE_AuthenticationFailed"
| "map_invocation_error Inv_Forbidden = SE_AuthenticationFailed"
| "map_invocation_error Inv_MissingCredentialReference = SE_AuthenticationFailed"
| "map_invocation_error Inv_CredentialNotFound = SE_AuthenticationFailed"
| "map_invocation_error Inv_CredentialStoreUnavailable = SE_AuthenticationFailed"
| "map_invocation_error Inv_CredentialStoreRejected = SE_AuthenticationFailed"
| "map_invocation_error Inv_ReauthenticationRequired = SE_AuthenticationFailed"
| "map_invocation_error Inv_ProviderRejected = SE_ProviderRejected"
| "map_invocation_error Inv_PaymentRequired = SE_ProviderRejected"
| "map_invocation_error Inv_RateLimited = SE_ProviderRejected"
| "map_invocation_error (Inv_RateLimitedWithRetryAfter _) = SE_ProviderRejected"
| "map_invocation_error Inv_QuotaExhausted = SE_ProviderRejected"
| "map_invocation_error Inv_TransportUnavailable = SE_TransportFailed"
| "map_invocation_error Inv_ProviderUnavailable = SE_TransportFailed"
| "map_invocation_error Inv_StreamTerminated = SE_TransportFailed"
| "map_invocation_error Inv_InvalidResponse = SE_InvalidResponse"
| "map_invocation_error Inv_InvalidContentType = SE_InvalidResponse"
| "map_invocation_error Inv_MissingOutput = SE_InvalidResponse"
| "map_invocation_error Inv_ResponseTooLarge = SE_InvalidResponse"
| "map_invocation_error Inv_InvalidConfiguration = SE_InternalFailure"
| "map_invocation_error Inv_UnsupportedProvider = SE_InternalFailure"
| "map_invocation_error Inv_UnsupportedAuthenticationMethod = SE_InternalFailure"
| "map_invocation_error Inv_ConnectionDisabled = SE_InternalFailure"
| "map_invocation_error Inv_ConnectionUnvalidated = SE_InternalFailure"
| "map_invocation_error Inv_InvalidModelId = SE_InternalFailure"
| "map_invocation_error Inv_InvalidRequest = SE_InternalFailure"
| "map_invocation_error Inv_InputTooLarge = SE_InternalFailure"
| "map_invocation_error Inv_OutputLimitInvalid = SE_InternalFailure"
| "map_invocation_error Inv_OrchestrationConversionFailed = SE_InternalFailure"
| "map_invocation_error Inv_LiveCodexInvocationUnavailable = SE_InternalFailure"
| "map_invocation_error Inv_ScopedSessionConstructionFailed = SE_InternalFailure"

fun status_for_error :: "SubagentError \<Rightarrow> SubagentStatus" where
  "status_for_error SE_InvocationCancelled = SS_Cancelled"
| "status_for_error SE_InvocationTimedOut = SS_TimedOut"
| "status_for_error SE_AuthenticationFailed = SS_AuthenticationFailed"
| "status_for_error SE_ProviderRejected = SS_ProviderRejected"
| "status_for_error SE_TransportFailed = SS_TransportFailed"
| "status_for_error SE_InvalidResponse = SS_InvalidResponse"
| "status_for_error SE_OutputLimitReached = SS_OutputLimitReached"
| "status_for_error _ = SS_InternalFailure"

record SubagentRuntime =
  rt_profiles :: RoutingProfileRegistry
  rt_directory :: RoutingConnectionDirectory

fun map_active_error :: "RoutingProfileError \<Rightarrow> SubagentError" where
  "map_active_error RP_MissingActiveProfile = SE_NoActiveProfile"
| "map_active_error _ = SE_UnknownActiveProfile"

text \<open>The routing shared by \<open>resolved_route\<close> and \<open>run_subagent\<close>: the active profile's assignment of
  the role, validated against the directory unless it is bound to a pool.\<close>

definition route_assignment ::
  "SubagentRuntime \<Rightarrow> SubagentRequest \<Rightarrow> (SubagentError, RoutingProfile \<times> RoutingAssignment) result" where
  "route_assignment rt r =
     res_bind (map_err map_active_error (active (rt_profiles rt))) (\<lambda>profile.
     res_bind (ok_or (bt_get (rp_assignments profile) (sr_role r)) SE_MissingRoleAssignment) (\<lambda>a.
     res_bind (if ra_pool_id a = None
               then res_bind (map_err map_routing_error (directory_validate_assignment (rt_directory rt) a)) (\<lambda>resolution.
                      ensure (resolution \<noteq> ModelUnverified) SE_ModelUnverified)
               else Inr ()) (\<lambda>_.
     res_bind (ensure (ra_provider_id a \<in> {''codex'', ''openrouter'', ''omniroute''}) SE_UnsupportedProvider) (\<lambda>_.
       Inr (profile, a)))))"

definition resolved_route ::
  "SubagentRuntime \<Rightarrow> SubagentRequest \<Rightarrow> (SubagentError, string \<times> string \<times> string \<times> string \<times> RoutingRole) result" where
  "resolved_route rt r =
     res_bind (validate_request r) (\<lambda>_.
     res_bind (route_assignment rt r) (\<lambda>(profile, a).
       Inr (rp_id profile, ra_provider_id a, ra_connection_id a, ra_model_id a, sr_role r)))"

definition validate_for_batch :: "SubagentRuntime \<Rightarrow> SubagentRequest \<Rightarrow> (SubagentError, string) result" where
  "validate_for_batch rt r = res_bind (resolved_route rt r) (\<lambda>x. Inr (fst x))"

section \<open>The shared state of a session\<close>

record shared =
  sh_budget :: "ExecutionBudgetLedger option"
  sh_cleanup :: "OrchestrationCleanup option"

definition sh_generation :: "shared \<Rightarrow> nat" where
  "sh_generation sh = (case sh_budget sh of None \<Rightarrow> 0 | Some b \<Rightarrow> led_generation b)"

definition own_reservation ::
  "CleanupReservationKind \<Rightarrow> shared \<Rightarrow> (unit, CleanupReservationGuard option) result \<times> shared" where
  "own_reservation k sh =
     (case sh_cleanup sh of
        None \<Rightarrow> (Inr None, sh)
      | Some c \<Rightarrow>
          (case register_reservation_guard (sh_generation sh) k c of
             (Inl e, c') \<Rightarrow> (Inl e, sh\<lparr>sh_cleanup := Some c'\<rparr>)
           | (Inr gd, c') \<Rightarrow> (Inr (Some gd), sh\<lparr>sh_cleanup := Some c'\<rparr>)))"

definition own_child :: "CleanupChildKind \<Rightarrow> shared \<Rightarrow> (unit, CleanupChildGuard option) result \<times> shared" where
  "own_child k sh =
     (case sh_cleanup sh of
        None \<Rightarrow> (Inr None, sh)
      | Some c \<Rightarrow>
          (case register_child_guard (sh_generation sh) k c of
             (Inl e, c') \<Rightarrow> (Inl e, sh\<lparr>sh_cleanup := Some c'\<rparr>)
           | (Inr gd, c') \<Rightarrow> (Inr (Some gd), sh\<lparr>sh_cleanup := Some c'\<rparr>)))"

definition resolve_owned ::
  "CleanupReservationGuard option \<Rightarrow> shared \<Rightarrow> (unit, unit) result \<times> CleanupReservationGuard option \<times> shared" where
  "resolve_owned og sh =
     (case (og, sh_cleanup sh) of
        (Some gd, Some c) \<Rightarrow>
          (case reservation_guard_resolve gd c of (r, gd', c') \<Rightarrow> (r, Some gd', sh\<lparr>sh_cleanup := Some c'\<rparr>))
      | _ \<Rightarrow> (Inr (), og, sh))"

definition complete_owned ::
  "CleanupChildGuard option \<Rightarrow> shared \<Rightarrow> (unit, unit) result \<times> CleanupChildGuard option \<times> shared" where
  "complete_owned og sh =
     (case (og, sh_cleanup sh) of
        (Some gd, Some c) \<Rightarrow>
          (case child_guard_complete gd c of (r, gd', c') \<Rightarrow> (r, Some gd', sh\<lparr>sh_cleanup := Some c'\<rparr>))
      | _ \<Rightarrow> (Inr (), og, sh))"

definition drop_owned_reservation :: "CleanupReservationGuard option \<Rightarrow> shared \<Rightarrow> shared" where
  "drop_owned_reservation og sh =
     (case og of None \<Rightarrow> sh | Some gd \<Rightarrow> sh\<lparr>sh_cleanup := map_option (reservation_guard_drop gd) (sh_cleanup sh)\<rparr>)"

definition drop_owned_child :: "CleanupChildGuard option \<Rightarrow> shared \<Rightarrow> shared" where
  "drop_owned_child og sh =
     (case og of None \<Rightarrow> sh | Some gd \<Rightarrow> sh\<lparr>sh_cleanup := map_option (child_guard_drop gd) (sh_cleanup sh)\<rparr>)"

text \<open>\<open>budget.as_ref().map(..).transpose()\<close>: without a budget there is nothing to reserve or record.\<close>

definition with_budget ::
  "(ExecutionBudgetLedger \<Rightarrow> (BudgetExhaustion, 'a) result \<times> ExecutionBudgetLedger) \<Rightarrow> shared \<Rightarrow>
   (BudgetExhaustion, 'a option) result \<times> shared" where
  "with_budget f sh =
     (case sh_budget sh of
        None \<Rightarrow> (Inr None, sh)
      | Some b \<Rightarrow>
          (case f b of
             (Inl e, b') \<Rightarrow> (Inl e, sh\<lparr>sh_budget := Some b'\<rparr>)
           | (Inr x, b') \<Rightarrow> (Inr (Some x), sh\<lparr>sh_budget := Some b'\<rparr>)))"

definition on_budget :: "(ExecutionBudgetLedger \<Rightarrow> ExecutionBudgetLedger) \<Rightarrow> shared \<Rightarrow> shared" where
  "on_budget f sh = sh\<lparr>sh_budget := map_option f (sh_budget sh)\<rparr>"

section \<open>The session\<close>

text \<open>What a session learns from outside in one turn.\<close>

datatype select_branch = Branch_Cancelled | Branch_TimedOut | Branch_Ready

record turn_input =
  ti_cancelled :: bool
  ti_timed_out :: bool
  ti_reserve_clock :: "nat \<times> nat"
  ti_provider :: select_branch
  ti_tokens_clock :: "nat \<times> nat"
  ti_route :: "SubagentResolvedRoute option"
  ti_tool_clock :: "nat \<times> nat"
  ti_tool_finished :: bool
  ti_tool_cancelled :: bool
  ti_timed_out_after_tool :: bool
  ti_output_clock :: "nat \<times> nat"
  ti_latency_ms :: nat
  ti_call_ms :: nat

record session_env =
  se_provider :: "nat \<Rightarrow> RoutingRole \<Rightarrow> ProviderInvocationRequest \<Rightarrow> (ProviderInvocationError, ProviderInvocationResult) result"
  se_tools :: "nat \<Rightarrow> tool_env"
  se_inputs :: "nat \<Rightarrow> turn_input"

record SessionMetrics =
  sm_provider_turns :: nat
  sm_tool_calls :: nat
  sm_tool_call_counts :: "(SubagentToolKind, nat) btree_map"
  sm_tool_audit :: "SubagentToolCallRecord list"
  sm_aggregate_tool_output_bytes :: nat

definition metrics_default :: SessionMetrics where
  "metrics_default =
     \<lparr>sm_provider_turns = 0, sm_tool_calls = 0, sm_tool_call_counts = [], sm_tool_audit = [],
      sm_aggregate_tool_output_bytes = 0\<rparr>"

definition subagent_usage :: "ProviderInvocationUsage \<Rightarrow> SubagentUsage" where
  "subagent_usage u =
     \<lparr>su_input_tokens = pu_input_tokens u, su_output_tokens = pu_output_tokens u,
      su_total_tokens = pu_total_tokens u, su_quality = SDQ_Exact\<rparr>"

definition outcome ::
  "SubagentRequest \<Rightarrow> string \<Rightarrow> RoutingAssignment \<Rightarrow> SubagentStatus \<Rightarrow> string option \<Rightarrow>
   ProviderInvocationUsage option \<Rightarrow> nat \<Rightarrow> SubagentLifecycle list \<Rightarrow> string list \<Rightarrow> SessionMetrics \<Rightarrow>
   bool \<Rightarrow> bool \<Rightarrow> SubagentOutcome" where
  "outcome r profile_id a status out usage latency_ms lifecycle warnings mt truncated exhausted =
     \<lparr>so_task_id = sr_task_id r, so_parent_id = sr_parent_id r, so_role = sr_role r,
      so_profile_id = profile_id, so_provider_id = ra_provider_id a,
      so_connection_id = ra_connection_id a, so_model_id = ra_model_id a, so_status = status,
      so_output = out, so_usage = map_option subagent_usage usage, so_latency_ms = latency_ms,
      so_lifecycle = lifecycle, so_warnings = warnings,
      so_provider_turns = sm_provider_turns mt, so_tool_calls = sm_tool_calls mt,
      so_tool_call_counts = sm_tool_call_counts mt, so_tool_audit = sm_tool_audit mt,
      so_output_truncated = truncated, so_budget_exhausted = exhausted\<rparr>"

subsection \<open>A provider turn\<close>

datatype provider_turn_end =
  Turn_Internal
| Turn_Budget BudgetExhaustion
| Turn_Done "(SubagentError, ProviderInvocationResult) result"

fun turn_terminal :: "(SubagentError, ProviderInvocationResult) result \<Rightarrow> ProviderInvocationTerminal" where
  "turn_terminal (Inr _) = Term_Completed"
| "turn_terminal (Inl SE_InvocationCancelled) = Term_Cancelled"
| "turn_terminal (Inl SE_InvocationTimedOut) = Term_TimedOut"
| "turn_terminal (Inl _) = Term_Failed"

fun awaited_result ::
  "select_branch \<Rightarrow> (ProviderInvocationError, ProviderInvocationResult) result \<Rightarrow>
   (SubagentError, ProviderInvocationResult) result" where
  "awaited_result Branch_Cancelled x = Inl SE_InvocationCancelled"
| "awaited_result Branch_TimedOut x = Inl SE_InvocationTimedOut"
| "awaited_result Branch_Ready x = map_err map_invocation_error x"

definition commit_owned ::
  "RoutingRole option \<Rightarrow> shared \<Rightarrow> (BudgetExhaustion, ProviderInvocationGuard option) result \<times> shared" where
  "commit_owned res sh =
     (case res of None \<Rightarrow> (Inr None, sh) | Some role \<Rightarrow> with_budget (commit_with_guard role) sh)"

definition drop_owned_provider :: "RoutingRole option \<Rightarrow> shared \<Rightarrow> shared" where
  "drop_owned_provider res sh = (case res of None \<Rightarrow> sh | Some role \<Rightarrow> on_budget (drop_provider role) sh)"

definition drop_lifecycle :: "ProviderInvocationGuard option \<Rightarrow> shared \<Rightarrow> shared" where
  "drop_lifecycle life sh = (case life of None \<Rightarrow> sh | Some gd \<Rightarrow> on_budget (guard_drop gd) sh)"

definition finish_lifecycle ::
  "ProviderInvocationTerminal \<Rightarrow> ProviderInvocationGuard option \<Rightarrow> shared \<Rightarrow> shared" where
  "finish_lifecycle t life sh =
     (case life of None \<Rightarrow> sh | Some gd \<Rightarrow> on_budget (\<lambda>b. snd (guard_finish t gd b)) sh)"

definition provider_turn ::
  "nat \<times> nat \<Rightarrow> RoutingRole \<Rightarrow> (SubagentError, ProviderInvocationResult) result \<Rightarrow> shared \<Rightarrow>
   provider_turn_end \<times> shared" where
  "provider_turn clock role answer sh =
     (case own_reservation Reservation_Provider sh of
        (Inl _, sh1) \<Rightarrow> (Turn_Internal, sh1)
      | (Inr own, sh1) \<Rightarrow>
     (case with_budget (reserve_provider clock role) sh1 of
        (Inl e, sh2) \<Rightarrow> (Turn_Budget e, drop_owned_reservation own sh2)
      | (Inr res, sh2) \<Rightarrow>
     (case own_child Child_Provider sh2 of
        (Inl _, sh3) \<Rightarrow> (Turn_Internal, drop_owned_reservation own (drop_owned_provider res sh3))
      | (Inr child, sh3) \<Rightarrow>
     (case commit_owned res sh3 of
        (Inl _, sh4) \<Rightarrow> (Turn_Internal, drop_owned_reservation own (drop_owned_child child sh4))
      | (Inr life, sh4) \<Rightarrow>
     (case resolve_owned own sh4 of
        (Inl _, own', sh5) \<Rightarrow>
          (Turn_Internal, drop_owned_reservation own' (drop_owned_child child (drop_lifecycle life sh5)))
      | (Inr _, own', sh5) \<Rightarrow>
     (case complete_owned child sh5 of
        (Inl _, child', sh6) \<Rightarrow>
          (Turn_Internal, drop_owned_reservation own' (drop_owned_child child' (drop_lifecycle life sh6)))
      | (Inr _, child', sh6) \<Rightarrow>
          (Turn_Done answer, finish_lifecycle (turn_terminal answer) life sh6)))))))"

subsection \<open>A tool call\<close>

datatype tool_turn_end =
  Tool_Internal
| Tool_Budget BudgetExhaustion
| Tool_SessionTimedOut
| Tool_Done "(SubagentToolError, ToolExecution) result"

definition tool_turn ::
  "nat \<times> nat \<Rightarrow> RoutingRole \<Rightarrow> (SubagentToolError, ToolExecution) result \<Rightarrow> bool \<Rightarrow> shared \<Rightarrow>
   tool_turn_end \<times> shared" where
  "tool_turn clock role execution timed_out sh =
     (case own_reservation Reservation_Tool sh of
        (Inl _, sh1) \<Rightarrow> (Tool_Internal, sh1)
      | (Inr own, sh1) \<Rightarrow>
     (case with_budget (reserve_tool clock role) sh1 of
        (Inl e, sh2) \<Rightarrow> (Tool_Budget e, drop_owned_reservation own sh2)
      | (Inr res, sh2) \<Rightarrow>
     (case own_child Child_Tool sh2 of
        (Inl _, sh3) \<Rightarrow>
          (Tool_Internal, drop_owned_reservation own (if res = None then sh3 else on_budget drop_tool sh3))
      | (Inr child, sh3) \<Rightarrow>
     (case (if res = None then (Inr None, sh3) else with_budget commit_tool sh3) of
        (Inl _, sh4) \<Rightarrow> (Tool_Internal, drop_owned_reservation own (drop_owned_child child sh4))
      | (Inr _, sh4) \<Rightarrow>
     (case resolve_owned own sh4 of
        (Inl _, own', sh5) \<Rightarrow> (Tool_Internal, drop_owned_reservation own' (drop_owned_child child sh5))
      | (Inr _, own', sh5) \<Rightarrow>
     (case complete_owned child sh5 of
        (Inl _, child', sh6) \<Rightarrow> (Tool_Internal, drop_owned_reservation own' (drop_owned_child child' sh6))
      | (Inr _, child', sh6) \<Rightarrow>
          (if timed_out then Tool_SessionTimedOut else Tool_Done execution, sh6)))))))"

subsection \<open>The loop\<close>

record session_state =
  ls_lifecycle :: "SubagentLifecycle list"
  ls_tool_results :: "ProviderInvocationToolResult list"
  ls_seen_call_ids :: "string list"
  ls_metrics :: SessionMetrics
  ls_usage :: "ProviderInvocationUsage option"
  ls_shared :: shared

type_synonym session_result = "(SubagentError, SubagentOutcome) result \<times> shared"

datatype session_step = Again session_state | Return session_result

text \<open>The fixed data of a session: the request, the profile identifier and the assignment.\<close>

record session_plan =
  sp_request :: SubagentRequest
  sp_profile_id :: string
  sp_assignment :: RoutingAssignment

abbreviation plan_budget :: "session_plan \<Rightarrow> SubagentSessionBudget" where
  "plan_budget p \<equiv> tp_budget (sr_tool_policy (sp_request p))"

text \<open>\<open>lifecycle.push(..); return Ok(outcome(..))\<close>.\<close>

definition ends ::
  "session_plan \<Rightarrow> turn_input \<Rightarrow> session_state \<Rightarrow> SubagentStatus \<Rightarrow> SubagentLifecycle \<Rightarrow> string option \<Rightarrow>
   string list \<Rightarrow> bool \<Rightarrow> bool \<Rightarrow> session_step" where
  "ends p i st status last_state out warnings truncated exhausted =
     Return (Inr (outcome (sp_request p) (sp_profile_id p) (sp_assignment p) status out (ls_usage st)
                    (ti_latency_ms i) (ls_lifecycle st @ [last_state]) warnings (ls_metrics st)
                    truncated exhausted),
             ls_shared st)"

definition session_request :: "session_plan \<Rightarrow> session_state \<Rightarrow> ProviderInvocationRequest" where
  "session_request p st =
     (let r = sp_request p; prompt = build_prompt (sr_role r) (sr_instruction r) (sr_context r) in
      \<lparr>pr_provider = ra_provider_id (sp_assignment p), pr_model = ra_model_id (sp_assignment p),
       pr_system = Some (fst prompt), pr_user = snd prompt,
       pr_max_output_tokens = sr_max_output_tokens r,
       pr_tools = map provider_name (bt_keys (tp_approved_tools (sr_tool_policy r))),
       pr_tool_results = ls_tool_results st\<rparr>)"

text \<open>After the tool ran: cancellation, the aggregate bound, the ledger, the audit, the next turn.\<close>

definition return_tool_result ::
  "session_plan \<Rightarrow> turn_input \<Rightarrow> ProviderInvocationToolCall \<Rightarrow> SubagentToolKind option \<Rightarrow>
   (SubagentToolError, ToolExecution) result \<Rightarrow> session_state \<Rightarrow> session_step" where
  "return_tool_result p i call tool execution st =
     (if execution = Inl Tool_Cancelled
      then ends p i st SS_Cancelled SL_Cancelled None [''subagent tool execution was cancelled''] False False
      else
        let (content, is_error, cut, succeeded) =
              (case execution of
                 Inr x \<Rightarrow> (te_content x, False, te_truncated x, True)
               | Inl e \<Rightarrow> (''tool error: '' @ tool_error_message e, True, False, False));
            mt = ls_metrics st;
            (content, aggregate_cut) =
              bound_text content (saturating_sub (sb_max_aggregate_tool_output_bytes (plan_budget p))
                                    (sm_aggregate_tool_output_bytes mt)) in
        case with_budget (record_tool_output (ti_output_clock i) (length content)) (ls_shared st) of
          (Inl e, sh) \<Rightarrow>
            ends p i (st\<lparr>ls_shared := sh\<rparr>) SS_BudgetExhausted SL_BudgetExhausted None [safe_budget_message e] False True
        | (Inr _, sh) \<Rightarrow>
            Again (st\<lparr>ls_shared := on_budget record_tool_completed sh,
                      ls_metrics := mt\<lparr>
                        sm_aggregate_tool_output_bytes :=
                          saturating_add (sm_aggregate_tool_output_bytes mt) (length content),
                        sm_tool_audit := sm_tool_audit mt @
                          [\<lparr>cr_tool = (case tool of Some k \<Rightarrow> k | None \<Rightarrow> GitStatus),
                            cr_call_id = tc_id call,
                            cr_descriptor = (case tool of Some k \<Rightarrow> provider_name k | None \<Rightarrow> ''unknown''),
                            cr_succeeded = succeeded, cr_duration_ms = ti_call_ms i,
                            cr_input_bytes = length (tc_arguments call),
                            cr_output_bytes = length content, cr_truncated = cut \<or> aggregate_cut\<rparr>]\<rparr>,
                      ls_lifecycle := ls_lifecycle st @ [SL_ReturningToolResult],
                      ls_tool_results := ls_tool_results st @
                        [\<lparr>tr_id = tc_id call, tr_content = content, tr_is_error = is_error\<rparr>]\<rparr>))"

text \<open>The state in which a tool call is answered: the call is counted and its identifier seen.\<close>

definition counted :: "ProviderInvocationToolCall \<Rightarrow> session_state \<Rightarrow> session_state" where
  "counted call st =
     st\<lparr>ls_seen_call_ids := List.insert (tc_id call) (ls_seen_call_ids st),
        ls_metrics := (ls_metrics st)\<lparr>sm_tool_calls := sm_tool_calls (ls_metrics st) + 1\<rparr>,
        ls_lifecycle := ls_lifecycle st @ [SL_AwaitingToolExecution, SL_ExecutingTool]\<rparr>"

definition tool_count :: "SubagentToolKind \<Rightarrow> session_state \<Rightarrow> nat" where
  "tool_count k st = (case bt_get (sm_tool_call_counts (ls_metrics st)) k of None \<Rightarrow> 0 | Some c \<Rightarrow> c)"

definition counted_tool :: "SubagentToolKind \<Rightarrow> session_state \<Rightarrow> session_state" where
  "counted_tool k st =
     st\<lparr>ls_metrics := (ls_metrics st)\<lparr>sm_tool_call_counts :=
          bt_insert k (tool_count k st + 1) (sm_tool_call_counts (ls_metrics st))\<rparr>\<rparr>"

definition tool_execution ::
  "session_env \<Rightarrow> session_plan \<Rightarrow> nat \<Rightarrow> ProviderInvocationToolCall \<Rightarrow> SubagentToolKind \<Rightarrow>
   (SubagentToolError, ToolExecution) result" where
  "tool_execution env p n call k =
     (if ti_tool_finished (se_inputs env n)
      then execute_tool (se_tools env n) (sr_tool_policy (sp_request p)) k (tc_id call) (tc_arguments call)
             (ti_tool_cancelled (se_inputs env n))
      else Inl Tool_Cancelled)"

text \<open>The call is refused when it is a duplicate, unknown or over the limit of its tool; else it runs.\<close>

definition handle_tool_call ::
  "session_env \<Rightarrow> session_plan \<Rightarrow> nat \<Rightarrow> ProviderInvocationToolCall \<Rightarrow> session_state \<Rightarrow> session_step" where
  "handle_tool_call env p n call st =
     (let i = se_inputs env n; tool = parse_tool_kind (tc_name call); st1 = counted call st in
      if sm_tool_calls (ls_metrics st) \<ge> sb_max_tool_calls (plan_budget p)
      then ends p i (st\<lparr>ls_lifecycle := ls_lifecycle st @ [SL_AwaitingToolExecution]\<rparr>) SS_BudgetExhausted
             SL_BudgetExhausted None [''maximum tool calls reached''] False True
      else if tc_id call \<in> set (ls_seen_call_ids st)
      then return_tool_result p i call tool (Inl Tool_InvalidCallId) st1
      else case tool of
          None \<Rightarrow> return_tool_result p i call tool (Inl Tool_ToolNotApproved) st1
        | Some k \<Rightarrow>
            if tool_count k st + 1 > sb_max_calls_per_tool (plan_budget p)
            then return_tool_result p i call tool (Inl Tool_ToolNotApproved) (counted_tool k st1)
            else case tool_turn (ti_tool_clock i) (sr_role (sp_request p)) (tool_execution env p n call k)
                        (ti_timed_out_after_tool i) (ls_shared st) of
                (Tool_Internal, sh) \<Rightarrow> Return (Inl SE_InternalFailure, sh)
              | (Tool_Budget e, sh) \<Rightarrow>
                  ends p i (counted_tool k st1\<lparr>ls_shared := sh\<rparr>) SS_BudgetExhausted SL_BudgetExhausted None
                    [safe_budget_message e] False True
              | (Tool_SessionTimedOut, sh) \<Rightarrow>
                  ends p i (counted_tool k st1\<lparr>ls_shared := sh\<rparr>) SS_TimedOut SL_TimedOut None
                    [''subagent session reached its time limit''] False False
              | (Tool_Done x, sh) \<Rightarrow> return_tool_result p i call tool x (counted_tool k st1\<lparr>ls_shared := sh\<rparr>))"

text \<open>The answer of the provider: output tokens, route metadata, then text or a tool call.\<close>

definition handle_answer ::
  "session_env \<Rightarrow> session_plan \<Rightarrow> nat \<Rightarrow> ProviderInvocationResult \<Rightarrow> session_state \<Rightarrow> session_step" where
  "handle_answer env p n x st =
     (let i = se_inputs env n; a = sp_assignment p in
      case (case Option.bind (pres_usage x) pu_output_tokens of
              None \<Rightarrow> (Inr None, ls_shared st)
            | Some tokens \<Rightarrow> with_budget (record_output_tokens (ti_tokens_clock i) tokens) (ls_shared st)) of
        (Inl e, sh) \<Rightarrow>
          ends p i (st\<lparr>ls_shared := sh, ls_usage := pres_usage x\<rparr>) SS_BudgetExhausted SL_BudgetExhausted None
            [safe_budget_message e] False True
      | (Inr _, sh) \<Rightarrow>
          let st' = st\<lparr>ls_shared := sh, ls_usage := pres_usage x\<rparr>;
              expected_provider = (case ti_route i of None \<Rightarrow> ra_provider_id a | Some r \<Rightarrow> sres_provider_id r);
              expected_model = (case ti_route i of None \<Rightarrow> ra_model_id a | Some r \<Rightarrow> sres_model_id r) in
          if pres_provider x \<noteq> expected_provider \<or> pres_model x \<noteq> expected_model
          then ends p i st' SS_InvalidResponse SL_Failed None
                 [''provider response routing metadata did not match the request''] False False
          else case pres_tool_call x of
              None \<Rightarrow>
                let (out, cut) = bound_provider_output (pres_text x) (sr_max_output_tokens (sp_request p)) in
                ends p i st' (if cut then SS_OutputLimitReached else SS_Completed)
                  (if cut then SL_Failed else SL_Completed) (Some out)
                  (if cut then [''provider output exceeded the local byte cap''] else []) cut False
            | Some call \<Rightarrow> handle_tool_call env p n call st')"

fun failure_lifecycle :: "SubagentError \<Rightarrow> SubagentLifecycle" where
  "failure_lifecycle SE_InvocationCancelled = SL_Cancelled"
| "failure_lifecycle SE_InvocationTimedOut = SL_TimedOut"
| "failure_lifecycle _ = SL_Failed"

definition session_turn :: "session_env \<Rightarrow> session_plan \<Rightarrow> session_state \<Rightarrow> session_step" where
  "session_turn env p st =
     (let n = sm_provider_turns (ls_metrics st); i = se_inputs env n; r = sp_request p in
      if ti_cancelled i
      then ends p i st SS_Cancelled SL_Cancelled None [''subagent session was cancelled''] False False
      else if ti_timed_out i
      then ends p i st SS_TimedOut SL_TimedOut None [''subagent session reached its time limit''] False False
      else if n \<ge> sb_max_provider_turns (plan_budget p)
      then ends p i st SS_BudgetExhausted SL_BudgetExhausted None [''maximum provider turns reached''] False True
      else
        let st1 = st\<lparr>ls_lifecycle := ls_lifecycle st @ [SL_InvokingProvider]\<rparr>;
            answer = awaited_result (ti_provider i) (se_provider env n (sr_role r) (session_request p st)) in
        case provider_turn (ti_reserve_clock i) (sr_role r) answer (ls_shared st1) of
          (Turn_Internal, sh) \<Rightarrow> Return (Inl SE_InternalFailure, sh)
        | (Turn_Budget e, sh) \<Rightarrow>
            ends p i (st1\<lparr>ls_shared := sh\<rparr>) SS_BudgetExhausted SL_BudgetExhausted None
              [safe_budget_message e] False True
        | (Turn_Done result, sh) \<Rightarrow>
            let st2 = st1\<lparr>ls_shared := sh, ls_tool_results := [],
                          ls_metrics := (ls_metrics st1)\<lparr>sm_provider_turns := n + 1\<rparr>\<rparr> in
            case result of
              Inl e \<Rightarrow>
                ends p i st2 (status_for_error e) (failure_lifecycle e) None [subagent_error_message e] False False
            | Inr x \<Rightarrow> handle_answer env p n x st2)"

lemma ends_not_Again [simp]: "ends p i st s l out w t x \<noteq> Again st'"
  by (simp add: ends_def)

text \<open>What a turn that goes on did to the session: one audit record was added and its output counted.\<close>

definition tool_returned ::
  "session_plan \<Rightarrow> ProviderInvocationToolCall \<Rightarrow> SubagentToolKind option \<Rightarrow> bool \<Rightarrow> session_state \<Rightarrow> session_state \<Rightarrow> bool" where
  "tool_returned p call tool ok st st' \<longleftrightarrow>
     sm_provider_turns (ls_metrics st') = sm_provider_turns (ls_metrics st)
     \<and> sm_tool_calls (ls_metrics st') = sm_tool_calls (ls_metrics st)
     \<and> sm_tool_call_counts (ls_metrics st') = sm_tool_call_counts (ls_metrics st)
     \<and> ls_seen_call_ids st' = ls_seen_call_ids st
     \<and> (\<exists>rec. sm_tool_audit (ls_metrics st') = sm_tool_audit (ls_metrics st) @ [rec]
          \<and> sm_aggregate_tool_output_bytes (ls_metrics st') =
              saturating_add (sm_aggregate_tool_output_bytes (ls_metrics st)) (cr_output_bytes rec)
          \<and> cr_call_id rec = tc_id call \<and> cr_succeeded rec = ok
          \<and> cr_tool rec = (case tool of Some k \<Rightarrow> k | None \<Rightarrow> GitStatus)
          \<and> cr_input_bytes rec = length (tc_arguments call)
          \<and> cr_output_bytes rec \<le> sb_max_aggregate_tool_output_bytes (plan_budget p)
                                    - sm_aggregate_tool_output_bytes (ls_metrics st))"

lemma bound_text_length: "length (fst (bound_text v n)) \<le> n"
  using bound_output_length [of v n] by (simp add: bound_text_def bound_output_def)

lemma return_tool_result_Again:
  assumes "return_tool_result p i call tool execution st = Again st'"
  shows "tool_returned p call tool (is_ok execution) st st'"
proof -
  let ?rest = "saturating_sub (sb_max_aggregate_tool_output_bytes (plan_budget p)) (sm_aggregate_tool_output_bytes (ls_metrics st))"
  have len: "\<And>v c b. bound_text v ?rest = (c, b) \<Longrightarrow>
      length c \<le> sb_max_aggregate_tool_output_bytes (plan_budget p) - sm_aggregate_tool_output_bytes (ls_metrics st)"
    using bound_text_length [of _ ?rest] by (metis fst_conv saturating_sub_def)
  show ?thesis
    using assms
    by (cases execution)
      (auto simp: return_tool_result_def tool_returned_def Let_def split: prod.splits sum.splits if_splits
        dest!: len)
qed

section \<open>What the audit of a session may contain\<close>

definition successes :: "SubagentToolKind \<Rightarrow> SubagentToolCallRecord list \<Rightarrow> nat" where
  "successes k audit = length (filter (\<lambda>r. cr_succeeded r \<and> cr_tool r = k) audit)"

definition output_total :: "SubagentToolCallRecord list \<Rightarrow> nat" where
  "output_total audit = sum_list (map cr_output_bytes audit)"

definition record_authorised :: "SubagentToolPolicy \<Rightarrow> SubagentToolCallRecord \<Rightarrow> bool" where
  "record_authorised pol r \<longleftrightarrow>
     (cr_succeeded r \<longrightarrow>
        bt_get (tp_approved_tools pol) (cr_tool r) \<noteq> None \<and> is_safe_call_id (cr_call_id r)
        \<and> cr_input_bytes r \<le> sb_max_tool_input_bytes (tp_budget pol))"

definition audit_ok :: "SubagentToolPolicy \<Rightarrow> SubagentToolCallRecord list \<Rightarrow> bool" where
  "audit_ok pol audit \<longleftrightarrow>
     list_all (record_authorised pol) audit
     \<and> distinct (map cr_call_id (filter cr_succeeded audit))
     \<and> (\<forall>k. successes k audit \<le> sb_max_calls_per_tool (tp_budget pol))
     \<and> output_total audit \<le> sb_max_aggregate_tool_output_bytes (tp_budget pol)"

definition metrics_ok :: "SubagentToolPolicy \<Rightarrow> SessionMetrics \<Rightarrow> bool" where
  "metrics_ok pol mt \<longleftrightarrow>
     sm_provider_turns mt \<le> sb_max_provider_turns (tp_budget pol)
     \<and> sm_tool_calls mt \<le> sb_max_tool_calls (tp_budget pol)
     \<and> sm_tool_calls mt \<le> sm_provider_turns mt
     \<and> length (sm_tool_audit mt) \<le> sm_tool_calls mt
     \<and> audit_ok pol (sm_tool_audit mt)
     \<and> sm_aggregate_tool_output_bytes mt = output_total (sm_tool_audit mt)"

definition counts_cover :: "SessionMetrics \<Rightarrow> bool" where
  "counts_cover mt \<longleftrightarrow>
     (\<forall>k. successes k (sm_tool_audit mt) \<le> (case bt_get (sm_tool_call_counts mt) k of None \<Rightarrow> 0 | Some c \<Rightarrow> c))"

definition ids_seen :: "session_state \<Rightarrow> bool" where
  "ids_seen st \<longleftrightarrow> cr_call_id ` set (sm_tool_audit (ls_metrics st)) \<subseteq> set (ls_seen_call_ids st)"

text \<open>At the head of the loop every counted tool call has its record.\<close>

definition session_inv :: "SubagentToolPolicy \<Rightarrow> session_state \<Rightarrow> bool" where
  "session_inv pol st \<longleftrightarrow>
     metrics_ok pol (ls_metrics st) \<and> counts_cover (ls_metrics st) \<and> ids_seen st
     \<and> length (sm_tool_audit (ls_metrics st)) = sm_tool_calls (ls_metrics st)"

definition outcome_ok :: "session_plan \<Rightarrow> SubagentOutcome \<Rightarrow> bool" where
  "outcome_ok p x \<longleftrightarrow>
     (let b = plan_budget p in
      so_provider_turns x \<le> sb_max_provider_turns b
      \<and> so_tool_calls x \<le> sb_max_tool_calls b \<and> so_tool_calls x \<le> so_provider_turns x
      \<and> length (so_tool_audit x) \<le> so_tool_calls x
      \<and> audit_ok (sr_tool_policy (sp_request p)) (so_tool_audit x)
      \<and> (case so_output x of None \<Rightarrow> True | Some out \<Rightarrow> length out \<le> 4 * sr_max_output_tokens (sp_request p))
      \<and> (so_status x = SS_Completed \<longrightarrow> so_output x \<noteq> None \<and> \<not> so_output_truncated x \<and> \<not> so_budget_exhausted x))"

fun step_ok :: "session_plan \<Rightarrow> session_step \<Rightarrow> bool" where
  "step_ok p (Again st) = session_inv (sr_tool_policy (sp_request p)) st"
| "step_ok p (Return (Inr x, sh)) = outcome_ok p x"
| "step_ok p (Return (Inl e, sh)) = True"

abbreviation plan_policy :: "session_plan \<Rightarrow> SubagentToolPolicy" where
  "plan_policy p \<equiv> sr_tool_policy (sp_request p)"

lemma ends_ok:
  assumes "metrics_ok (plan_policy p) (ls_metrics st)"
    "case out of None \<Rightarrow> True | Some v \<Rightarrow> length v \<le> 4 * sr_max_output_tokens (sp_request p)"
    "s = SS_Completed \<Longrightarrow> out \<noteq> None \<and> \<not> t \<and> \<not> x"
  shows "step_ok p (ends p i st s l out w t x)"
  using assms by (simp add: ends_def outcome_ok_def outcome_def metrics_ok_def Let_def)

lemma successes_snoc [simp]:
  "successes k (audit @ [r]) = successes k audit + of_bool (cr_succeeded r \<and> cr_tool r = k)"
  by (simp add: successes_def)

lemma output_total_snoc [simp]: "output_total (audit @ [r]) = output_total audit + cr_output_bytes r"
  by (simp add: output_total_def)

text \<open>Adding a record to the audit: what a successful call must have shown.\<close>

definition call_admitted ::
  "SubagentToolPolicy \<Rightarrow> ProviderInvocationToolCall \<Rightarrow> SubagentToolKind option \<Rightarrow> SessionMetrics \<Rightarrow> bool" where
  "call_admitted pol call tool mt \<longleftrightarrow>
     (\<exists>k. tool = Some k \<and> bt_get (tp_approved_tools pol) k \<noteq> None \<and> is_safe_call_id (tc_id call)
        \<and> length (tc_arguments call) \<le> sb_max_tool_input_bytes (tp_budget pol)
        \<and> tc_id call \<notin> cr_call_id ` set (sm_tool_audit mt)
        \<and> Suc (successes k (sm_tool_audit mt)) \<le> (case bt_get (sm_tool_call_counts mt) k of None \<Rightarrow> 0 | Some c \<Rightarrow> c)
        \<and> Suc (successes k (sm_tool_audit mt)) \<le> sb_max_calls_per_tool (tp_budget pol))"

lemma tool_returned_inv:
  assumes mt: "metrics_ok (plan_policy p) (ls_metrics st)" "counts_cover (ls_metrics st)" "ids_seen st"
    and one: "Suc (length (sm_tool_audit (ls_metrics st))) = sm_tool_calls (ls_metrics st)"
    and seen: "tc_id call \<in> set (ls_seen_call_ids st)"
    and small: "sb_max_aggregate_tool_output_bytes (plan_budget p) \<le> u64_max"
    and admitted: "ok \<Longrightarrow> call_admitted (plan_policy p) call tool (ls_metrics st)"
    and ret: "tool_returned p call tool ok st st'"
  shows "session_inv (plan_policy p) st'"
proof -
  let ?m = "ls_metrics st" and ?m' = "ls_metrics st'" and ?pol = "plan_policy p"
  obtain rec where rec: "sm_tool_audit ?m' = sm_tool_audit ?m @ [rec]"
      "sm_aggregate_tool_output_bytes ?m' = saturating_add (sm_aggregate_tool_output_bytes ?m) (cr_output_bytes rec)"
      "cr_call_id rec = tc_id call" "cr_succeeded rec = ok"
      "cr_tool rec = (case tool of Some k \<Rightarrow> k | None \<Rightarrow> GitStatus)" "cr_input_bytes rec = length (tc_arguments call)"
      "cr_output_bytes rec \<le> sb_max_aggregate_tool_output_bytes (plan_budget p) - sm_aggregate_tool_output_bytes ?m"
    using ret by (auto simp: tool_returned_def)
  have same: "sm_provider_turns ?m' = sm_provider_turns ?m" "sm_tool_calls ?m' = sm_tool_calls ?m"
      "sm_tool_call_counts ?m' = sm_tool_call_counts ?m" "ls_seen_call_ids st' = ls_seen_call_ids st"
    using ret by (auto simp: tool_returned_def)
  have ok: "audit_ok ?pol (sm_tool_audit ?m)" "sm_aggregate_tool_output_bytes ?m = output_total (sm_tool_audit ?m)"
    using mt(1) by (simp_all add: metrics_ok_def)
  have total: "output_total (sm_tool_audit ?m') \<le> sb_max_aggregate_tool_output_bytes (plan_budget p)"
      "sm_aggregate_tool_output_bytes ?m' = output_total (sm_tool_audit ?m')"
    using ok rec small by (auto simp: audit_ok_def saturating_add_def)
  have "audit_ok ?pol (sm_tool_audit ?m')"
    using ok(1) total(1) rec admitted unfolding audit_ok_def
    by (auto simp: record_authorised_def call_admitted_def of_bool_def)
  moreover have "counts_cover ?m'"
    using mt(2) same rec admitted by (auto simp: counts_cover_def call_admitted_def of_bool_def)
  moreover have "ids_seen st'" using mt(3) same rec seen by (auto simp: ids_seen_def)
  ultimately show ?thesis
    using mt(1) same rec(1) one total(2) by (simp add: session_inv_def metrics_ok_def)
qed

definition ends_with :: "session_plan \<Rightarrow> session_state \<Rightarrow> session_step \<Rightarrow> bool" where
  "ends_with p st step \<longleftrightarrow>
     (\<exists>i sh u lc s l w t x. step = ends p i (st\<lparr>ls_shared := sh, ls_usage := u, ls_lifecycle := lc\<rparr>) s l None w t x \<and> s \<noteq> SS_Completed)"

lemma ends_with_ok: "metrics_ok (plan_policy p) (ls_metrics st) \<Longrightarrow> ends_with p st step \<Longrightarrow> step_ok p step"
  by (auto simp: ends_with_def intro!: ends_ok)

lemma ends_withI:
  "s \<noteq> SS_Completed \<Longrightarrow> ends_with p st (ends p i st s l None w t x)"
  "s \<noteq> SS_Completed \<Longrightarrow> ends_with p st (ends p i (st\<lparr>ls_shared := sh\<rparr>) s l None w t x)"
proof -
  have "st = st\<lparr>ls_shared := ls_shared st, ls_usage := ls_usage st, ls_lifecycle := ls_lifecycle st\<rparr>"
    "st\<lparr>ls_shared := sh\<rparr> = st\<lparr>ls_shared := sh, ls_usage := ls_usage st, ls_lifecycle := ls_lifecycle st\<rparr>" by simp_all
  then show "s \<noteq> SS_Completed \<Longrightarrow> ends_with p st (ends p i st s l None w t x)"
    "s \<noteq> SS_Completed \<Longrightarrow> ends_with p st (ends p i (st\<lparr>ls_shared := sh\<rparr>) s l None w t x)"
    unfolding ends_with_def by metis+
qed

lemma return_tool_result_total:
  "(\<exists>st'. return_tool_result p i call tool execution st = Again st')
   \<or> ends_with p st (return_tool_result p i call tool execution st)"
  by (cases execution)
    (auto simp: return_tool_result_def Let_def split_beta intro: ends_withI split: sum.split)

lemma return_tool_result_cases:
  obtains (again) st' where "return_tool_result p i call tool execution st = Again st'"
  | (ended) "ends_with p st (return_tool_result p i call tool execution st)"
  using return_tool_result_total by blast

lemma return_tool_result_ok:
  assumes "metrics_ok (plan_policy p) (ls_metrics st)" "counts_cover (ls_metrics st)" "ids_seen st"
    "Suc (length (sm_tool_audit (ls_metrics st))) = sm_tool_calls (ls_metrics st)"
    "tc_id call \<in> set (ls_seen_call_ids st)"
    "sb_max_aggregate_tool_output_bytes (plan_budget p) \<le> u64_max"
    "is_ok execution \<Longrightarrow> call_admitted (plan_policy p) call tool (ls_metrics st)"
  shows "step_ok p (return_tool_result p i call tool execution st)"
proof (cases rule: return_tool_result_cases [of p i call tool execution st])
  case (again st')
  then show ?thesis using tool_returned_inv [OF assms return_tool_result_Again [OF again]] by simp
next
  case ended
  then show ?thesis by (rule ends_with_ok [OF assms(1)])
qed

lemma counted_ok:
  assumes "session_inv pol st" "sm_tool_calls (ls_metrics st) < sb_max_tool_calls (tp_budget pol)"
    "sm_tool_calls (ls_metrics st) < sm_provider_turns (ls_metrics st)"
  shows "metrics_ok pol (ls_metrics (counted call st))" "counts_cover (ls_metrics (counted call st))"
    "ids_seen (counted call st)"
    "Suc (length (sm_tool_audit (ls_metrics (counted call st)))) = sm_tool_calls (ls_metrics (counted call st))"
    "tc_id call \<in> set (ls_seen_call_ids (counted call st))"
  using assms by (auto simp: session_inv_def counted_def metrics_ok_def counts_cover_def ids_seen_def)

lemma counted_tool_ok:
  "metrics_ok pol (ls_metrics st) \<Longrightarrow> metrics_ok pol (ls_metrics (counted_tool k st))"
  "counts_cover (ls_metrics st) \<Longrightarrow> counts_cover (ls_metrics (counted_tool k st))"
  "ids_seen (counted_tool k st) = ids_seen st"
  "sm_tool_audit (ls_metrics (counted_tool k st)) = sm_tool_audit (ls_metrics st)"
  "sm_tool_calls (ls_metrics (counted_tool k st)) = sm_tool_calls (ls_metrics st)"
  "ls_seen_call_ids (counted_tool k st) = ls_seen_call_ids st"
  by (auto simp: counted_tool_def metrics_ok_def counts_cover_def ids_seen_def tool_count_def le_SucI)

lemma call_admitted_run:
  assumes "execute_tool env pol k (tc_id call) (tc_arguments call) c = Inr x"
    "counts_cover (ls_metrics st)" "tc_id call \<notin> cr_call_id ` set (sm_tool_audit (ls_metrics st))"
    "tool_count k st + 1 \<le> sb_max_calls_per_tool (tp_budget pol)"
  shows "call_admitted pol call (Some k) (ls_metrics (counted_tool k st))"
proof -
  have "successes k (sm_tool_audit (ls_metrics st)) \<le> tool_count k st"
    using assms(2) by (simp add: counts_cover_def tool_count_def)
  then show ?thesis
    using assms(3,4) execute_tool_authorised [OF assms(1)]
    by (auto simp: call_admitted_def counted_tool_def)
qed

lemma tool_turn_Done: "tool_turn clock role x t sh = (Tool_Done y, sh') \<Longrightarrow> y = x"
  by (auto simp: tool_turn_def split: prod.splits sum.splits if_splits)

lemma ls_shared_update [simp]:
  "ls_metrics (st\<lparr>ls_shared := sh\<rparr>) = ls_metrics st" "ids_seen (st\<lparr>ls_shared := sh\<rparr>) = ids_seen st"
  by (simp_all add: ids_seen_def)

lemma handle_tool_call_ok:
  assumes inv: "session_inv (plan_policy p) st"
    and room: "sm_tool_calls (ls_metrics st) < sm_provider_turns (ls_metrics st)"
    and small: "sb_max_aggregate_tool_output_bytes (plan_budget p) \<le> u64_max"
  shows "step_ok p (handle_tool_call env p n call st)"
proof -
  let ?i = "se_inputs env n" and ?tool = "parse_tool_kind (tc_name call)" and ?st1 = "counted call st"
  consider (full) "sm_tool_calls (ls_metrics st) \<ge> sb_max_tool_calls (plan_budget p)"
    | (go) "sm_tool_calls (ls_metrics st) < sb_max_tool_calls (plan_budget p)" by linarith
  then show ?thesis
  proof cases
    case full
    have "metrics_ok (plan_policy p) (ls_metrics st)" using inv by (simp add: session_inv_def)
    then show ?thesis using full by (auto simp: handle_tool_call_def Let_def intro!: ends_ok)
  next
    case go
    note c = counted_ok [OF inv go room, of call]
    have refuse: "step_ok p (return_tool_result p ?i call ?tool (Inl e) ?st1)" for e
      using c small by (intro return_tool_result_ok) simp_all
    have tool: "step_ok p (return_tool_result p ?i call ?tool x (counted_tool k ?st1\<lparr>ls_shared := sh\<rparr>))"
      if "is_ok x \<Longrightarrow> call_admitted (plan_policy p) call ?tool (ls_metrics (counted_tool k ?st1))" for x k sh
      using c small that by (intro return_tool_result_ok) (simp_all add: counted_tool_ok)
    have refuse_tool: "step_ok p (return_tool_result p ?i call ?tool (Inl e) (counted_tool k ?st1))" for e k
      using c small by (intro return_tool_result_ok) (simp_all add: counted_tool_ok)
    have stop: "step_ok p (ends p ?i (counted_tool k ?st1\<lparr>ls_shared := sh\<rparr>) s l None w t x)"
      if "s \<noteq> SS_Completed" for k sh s l w t x
      using c that by (intro ends_ok) (simp_all add: counted_tool_ok)
    show ?thesis
    proof (cases "tc_id call \<in> set (ls_seen_call_ids st)")
      case True
      then show ?thesis using go refuse by (simp add: handle_tool_call_def Let_def)
    next
      case new: False
      show ?thesis
      proof (cases ?tool)
        case None
        then show ?thesis using go new refuse [of Tool_ToolNotApproved] by (simp add: handle_tool_call_def Let_def)
      next
        case (Some k)
        have "call_admitted (plan_policy p) call ?tool (ls_metrics (counted_tool k ?st1))"
          if "is_ok (tool_execution env p n call k)" "tool_count k st + 1 \<le> sb_max_calls_per_tool (plan_budget p)"
        proof -
          have "tool_count k ?st1 = tool_count k st" "sm_tool_audit (ls_metrics ?st1) = sm_tool_audit (ls_metrics st)"
            by (simp_all add: counted_def tool_count_def)
          moreover have "tc_id call \<notin> cr_call_id ` set (sm_tool_audit (ls_metrics st))"
            using inv new by (auto simp: session_inv_def ids_seen_def)
          ultimately show ?thesis
            using that c(2) Some by (auto simp: tool_execution_def is_ok_iff split: if_splits intro!: call_admitted_run)
        qed
        then show ?thesis
          using go new Some refuse_tool [of Tool_ToolNotApproved k] stop [where k = k] tool [where k = k]
          by (auto simp: handle_tool_call_def Let_def dest!: tool_turn_Done split: prod.split tool_turn_end.split)
      qed
    qed
  qed
qed

lemma handle_answer_ok:
  assumes inv: "session_inv (plan_policy p) st"
    and room: "sm_tool_calls (ls_metrics st) < sm_provider_turns (ls_metrics st)"
    and small: "sb_max_aggregate_tool_output_bytes (plan_budget p) \<le> u64_max"
  shows "step_ok p (handle_answer env p n x st)"
proof -
  have mt: "metrics_ok (plan_policy p) (ls_metrics st)" using inv by (simp add: session_inv_def)
  have call: "step_ok p (handle_tool_call env p n call (st\<lparr>ls_shared := sh, ls_usage := u\<rparr>))" for call sh u
    using inv room small by (intro handle_tool_call_ok) (simp_all add: session_inv_def ids_seen_def)
  have call_same: "step_ok p (handle_tool_call env p n call (st\<lparr>ls_usage := u\<rparr>))" for call u
    using call [where sh = "ls_shared st" and u = u] by simp
  have cap: "length (fst (bound_provider_output v m)) \<le> 4 * m" for v m
    using bound_text_length [of v "min (m * 4) u64_max"] by (simp add: bound_provider_output_def)
  show ?thesis
    unfolding handle_answer_def Let_def split_beta
    using mt cap call call_same by (auto intro!: ends_ok split: option.split sum.split)
qed

lemma handle_answer_Again:
  assumes "handle_answer env p n x st = Again st'"
  shows "sm_provider_turns (ls_metrics st') = sm_provider_turns (ls_metrics st)"
proof -
  have frame: "sm_provider_turns (ls_metrics (counted_tool k s)) = sm_provider_turns (ls_metrics s)"
    "sm_provider_turns (ls_metrics (counted call s)) = sm_provider_turns (ls_metrics s)" for k s call
    by (simp_all add: counted_tool_def counted_def)
  have ret: "return_tool_result p i call tool e s = Again st' \<Longrightarrow>
      sm_provider_turns (ls_metrics st') = sm_provider_turns (ls_metrics s)" for i call tool e s
    using return_tool_result_Again by (auto simp: tool_returned_def)
  have "handle_tool_call env p n call s = Again st' \<Longrightarrow>
      sm_provider_turns (ls_metrics st') = sm_provider_turns (ls_metrics s)" for call s
    by (auto simp: handle_tool_call_def Let_def frame dest!: ret split: if_splits option.splits prod.splits tool_turn_end.splits)
  then show ?thesis
    using assms by (auto simp: handle_answer_def Let_def split_beta split: if_splits option.splits sum.splits)
qed

lemma session_turn_Again:
  assumes "session_turn env p st = Again st'"
  shows "sm_provider_turns (ls_metrics st) < sb_max_provider_turns (plan_budget p)"
    and "sm_provider_turns (ls_metrics st') = Suc (sm_provider_turns (ls_metrics st))"
  using assms
  by (auto simp: session_turn_def Let_def dest!: handle_answer_Again
      split: if_splits prod.splits provider_turn_end.splits sum.splits)

lemma session_turn_decreases:
  "session_turn env p st = Again st' \<Longrightarrow>
   sb_max_provider_turns (plan_budget p) - sm_provider_turns (ls_metrics st')
     < sb_max_provider_turns (plan_budget p) - sm_provider_turns (ls_metrics st)"
  using session_turn_Again [of env p st st'] by simp

lemma session_turn_ok:
  assumes inv: "session_inv (plan_policy p) st"
    and small: "sb_max_aggregate_tool_output_bytes (plan_budget p) \<le> u64_max"
  shows "step_ok p (session_turn env p st)"
proof (cases "sm_provider_turns (ls_metrics st) < sb_max_provider_turns (plan_budget p)")
  case False
  then show ?thesis
    using inv by (auto simp: session_turn_def Let_def session_inv_def intro!: ends_ok)
next
  case True
  let ?next = "\<lambda>sh lc. st\<lparr>ls_lifecycle := lc, ls_shared := sh, ls_tool_results := [],
      ls_metrics := (ls_metrics st)\<lparr>sm_provider_turns := Suc (sm_provider_turns (ls_metrics st))\<rparr>\<rparr>"
  have mt: "metrics_ok (plan_policy p) (ls_metrics st)" using inv by (simp add: session_inv_def)
  have next_inv: "session_inv (plan_policy p) (?next sh lc)" for sh lc
    using inv True by (auto simp: session_inv_def metrics_ok_def counts_cover_def ids_seen_def)
  have next_mt: "metrics_ok (plan_policy p) (ls_metrics (?next sh lc))" for sh lc
    using next_inv by (simp add: session_inv_def)
  have room: "sm_tool_calls (ls_metrics (?next sh lc)) < sm_provider_turns (ls_metrics (?next sh lc))" for sh lc
    using mt by (simp add: metrics_ok_def)
  have failed: "status_for_error e \<noteq> SS_Completed" for e by (cases e) simp_all
  show ?thesis
    using True mt next_mt failed handle_answer_ok [OF next_inv room small]
    by (auto simp: session_turn_def Let_def intro!: ends_ok split: prod.split provider_turn_end.split sum.split)
qed

function session_loop :: "session_env \<Rightarrow> session_plan \<Rightarrow> session_state \<Rightarrow> session_result" where
  "session_loop env p st =
     (case session_turn env p st of
        Return x \<Rightarrow> x
      | Again st' \<Rightarrow> session_loop env p st')"
  by pat_completeness auto
termination
  by (relation "measure (\<lambda>(env, p, st). sb_max_provider_turns (plan_budget p) - sm_provider_turns (ls_metrics st))")
    (auto intro: session_turn_decreases)

declare session_loop.simps [simp del]

definition run_tool_session ::
  "session_env \<Rightarrow> session_plan \<Rightarrow> SubagentLifecycle list \<Rightarrow> shared \<Rightarrow> session_result" where
  "run_tool_session env p lifecycle sh =
     session_loop env p
       \<lparr>ls_lifecycle = lifecycle, ls_tool_results = [], ls_seen_call_ids = [],
        ls_metrics = metrics_default, ls_usage = None, ls_shared = sh\<rparr>"

text \<open>The two cancellation checks before the session, then the session; the timer only sets the
  timeout signal, which the turns report.\<close>

definition run_subagent ::
  "session_env \<Rightarrow> SubagentRuntime \<Rightarrow> bool \<Rightarrow> bool \<Rightarrow> SubagentRequest \<Rightarrow> shared \<Rightarrow> session_result" where
  "run_subagent env rt cancelled_before_routing cancelled_after_routing r sh =
     (case res_bind (validate_request r) (\<lambda>_.
           res_bind (ensure (\<not> cancelled_before_routing) SE_CancelledBeforeStart) (\<lambda>_.
           res_bind (route_assignment rt r) (\<lambda>x.
           res_bind (ensure (\<not> cancelled_after_routing) SE_CancelledBeforeStart) (\<lambda>_. Inr x)))) of
        Inl e \<Rightarrow> (Inl e, sh)
      | Inr (profile, a) \<Rightarrow>
          run_tool_session env \<lparr>sp_request = r, sp_profile_id = rp_id profile, sp_assignment = a\<rparr>
            [SL_Created, SL_Validating, SL_Routing] sh)"

lemma session_loop_ok:
  "sb_max_aggregate_tool_output_bytes (plan_budget p) \<le> u64_max \<Longrightarrow> session_inv (plan_policy p) st \<Longrightarrow>
   step_ok p (Return (session_loop env p st))"
proof (induction env p st rule: session_loop.induct)
  case (1 env p st)
  then have ok: "step_ok p (session_turn env p st)" using session_turn_ok by blast
  show ?case
  proof (cases "session_turn env p st")
    case (Again st')
    then have "step_ok p (Return (session_loop env p st'))" using 1 ok by simp
    then show ?thesis using Again by (subst session_loop.simps) simp
  next
    case (Return x)
    then show ?thesis using ok by (subst session_loop.simps) simp
  qed
qed

lemma session_init_inv:
  "session_inv pol \<lparr>ls_lifecycle = lc, ls_tool_results = [], ls_seen_call_ids = [],
     ls_metrics = metrics_default, ls_usage = None, ls_shared = sh\<rparr>"
  by (simp add: session_inv_def metrics_default_def metrics_ok_def audit_ok_def counts_cover_def
      ids_seen_def successes_def output_total_def)

lemma run_subagent_outcome:
  assumes "run_subagent env rt c1 c2 r sh = (Inr x, sh')"
    "sb_max_aggregate_tool_output_bytes (tp_budget (sr_tool_policy r)) \<le> u64_max"
  obtains p where "sp_request p = r" "outcome_ok p x" "validate_request r = Inr ()"
proof -
  obtain p lc where p: "sp_request p = r" "run_tool_session env p lc sh = (Inr x, sh')"
    using assms(1)
    by (auto simp: run_subagent_def split: sum.splits prod.splits) (metis session_plan.select_convs(1))
  have "step_ok p (Return (run_tool_session env p lc sh))"
    unfolding run_tool_session_def using assms(2) p(1) session_init_inv by (intro session_loop_ok) simp_all
  then have "outcome_ok p x" using p(2) by simp
  moreover have "validate_request r = Inr ()"
    using assms(1) by (auto simp: run_subagent_def result_simps split: sum.splits prod.splits)
  ultimately show thesis using p(1) that by blast
qed

text \<open>C8: A subagent stays within its session budget. Whatever the provider answers, however often it asks
  for tools and whenever the session is cancelled or times out, the outcome reports at most the allowed
  provider turns and tool calls, at most one tool call per turn, tool outputs that together fit the
  aggregate limit, and a text of at most four bytes per permitted output token; an outcome that says
  completed carries an untruncated text.\<close>

theorem session_within_budget:
  assumes "run_subagent env rt c1 c2 r sh = (Inr x, sh')"
    "sb_max_aggregate_tool_output_bytes (tp_budget (sr_tool_policy r)) \<le> u64_max"
  shows "let b = tp_budget (sr_tool_policy r) in
    so_provider_turns x \<le> sb_max_provider_turns b
    \<and> so_tool_calls x \<le> sb_max_tool_calls b \<and> so_tool_calls x \<le> so_provider_turns x
    \<and> length (so_tool_audit x) \<le> so_tool_calls x
    \<and> sum_list (map cr_output_bytes (so_tool_audit x)) \<le> sb_max_aggregate_tool_output_bytes b
    \<and> (\<forall>out. so_output x = Some out \<longrightarrow> length out \<le> 4 * sr_max_output_tokens r \<and> length out \<le> 64000)
    \<and> (so_status x = SS_Completed \<longrightarrow> so_output x \<noteq> None \<and> \<not> so_output_truncated x \<and> \<not> so_budget_exhausted x)"
proof -
  obtain p where p: "sp_request p = r" "outcome_ok p x" "validate_request r = Inr ()"
    using run_subagent_outcome [OF assms] by blast
  have "sr_max_output_tokens r \<le> 16000"
    using p(3) by (simp add: validate_request_def result_simps SUBAGENT_MAX_OUTPUT_TOKENS_def Let_def)
  then show ?thesis
    using p by (auto simp: outcome_ok_def audit_ok_def output_total_def Let_def split: option.splits)
qed

text \<open>C13: A subagent runs only the tools it was granted. Every tool call the audit reports as successful was
  of an approved tool, had a well-formed call identifier and arguments within the input limit; no two
  successful calls share an identifier, and no tool succeeds more often than the limit per tool.\<close>

theorem session_tools_authorised:
  assumes "run_subagent env rt c1 c2 r sh = (Inr x, sh')"
    "sb_max_aggregate_tool_output_bytes (tp_budget (sr_tool_policy r)) \<le> u64_max"
  shows "list_all (\<lambda>c. \<not> cr_succeeded c \<or>
        (bt_get (tp_approved_tools (sr_tool_policy r)) (cr_tool c) \<noteq> None \<and> is_safe_call_id (cr_call_id c)
         \<and> cr_input_bytes c \<le> sb_max_tool_input_bytes (tp_budget (sr_tool_policy r)))) (so_tool_audit x)
    \<and> distinct (map cr_call_id (filter cr_succeeded (so_tool_audit x)))
    \<and> (\<forall>k. length (filter (\<lambda>c. cr_succeeded c \<and> cr_tool c = k) (so_tool_audit x))
            \<le> sb_max_calls_per_tool (tp_budget (sr_tool_policy r)))"
proof -
  obtain p where p: "sp_request p = r" "outcome_ok p x"
    using run_subagent_outcome [OF assms] by blast
  then show ?thesis
    by (auto simp: outcome_ok_def audit_ok_def successes_def record_authorised_def list_all_iff Let_def)
qed

text \<open>A session with one tool call and an answer, on which the properties are instantiated.\<close>

definition demo_request :: SubagentRequest where
  "demo_request =
     \<lparr>sr_task_id = ''t1'', sr_parent_id = None, sr_role = Executor, sr_instruction = ''do'', sr_context = None,
      sr_timeout = secs 60, sr_max_output_tokens = 4, sr_depth = 1, sr_tool_policy = small_tool_policy\<rparr>"

definition demo_runtime :: SubagentRuntime where
  "demo_runtime = \<lparr>rt_profiles = demo_registry, rt_directory = []\<rparr>"

definition demo_answer :: "ProviderInvocationToolCall option \<Rightarrow> ProviderInvocationResult" where
  "demo_answer call =
     \<lparr>pres_provider = ''codex'', pres_model = ''gpt'', pres_text = ''ok'', pres_finish_reason = None,
      pres_usage = None, pres_request_id = None, pres_tool_call = call\<rparr>"

definition demo_call :: ProviderInvocationToolCall where
  "demo_call = \<lparr>tc_id = ''c1'', tc_name = ''read_file'', tc_arguments = ''a.txt''\<rparr>"

definition demo_input :: turn_input where
  "demo_input =
     \<lparr>ti_cancelled = False, ti_timed_out = False, ti_reserve_clock = (0, 0), ti_provider = Branch_Ready,
      ti_tokens_clock = (0, 0), ti_route = None, ti_tool_clock = (0, 0), ti_tool_finished = True,
      ti_tool_cancelled = False, ti_timed_out_after_tool = False, ti_output_clock = (0, 0),
      ti_latency_ms = 7, ti_call_ms = 1\<rparr>"

definition demo_session :: session_env where
  "demo_session =
     \<lparr>se_provider = (\<lambda>n role q. Inr (demo_answer (if n = 0 then Some demo_call else None))),
      se_tools = (\<lambda>n. demo_tool_env ''x''), se_inputs = (\<lambda>n. demo_input)\<rparr>"

definition alone :: shared where
  "alone = \<lparr>sh_budget = None, sh_cleanup = None\<rparr>"

definition demo_plan :: session_plan where
  "demo_plan = \<lparr>sp_request = demo_request, sp_profile_id = ''prod'', sp_assignment = demo_pool_assignment\<rparr>"

lemma turns_alone [simp]:
  "provider_turn clock role answer alone = (Turn_Done answer, alone)"
  "tool_turn clock role x t alone = (if t then Tool_SessionTimedOut else Tool_Done x, alone)"
  "with_budget f alone = (Inr None, alone)" "on_budget g alone = alone"
  by (simp_all add: provider_turn_def tool_turn_def own_reservation_def own_child_def with_budget_def alone_def
      commit_owned_def resolve_owned_def complete_owned_def finish_lifecycle_def on_budget_def)

lemma demo_small_policy [simp]:
  "sb_max_provider_turns (tp_budget small_tool_policy) = 2" "sb_max_tool_calls (tp_budget small_tool_policy) = 2"
  "sb_max_calls_per_tool (tp_budget small_tool_policy) = 2"
  "sb_max_aggregate_tool_output_bytes (tp_budget small_tool_policy) = 16"
  by (simp_all add: small_tool_policy_def small_session_budget_def)

lemma demo_parse: "parse_tool_kind ''read_file'' = Some ReadFile"
  by (simp add: parse_tool_kind_def)

lemma demo_session_result:
  "\<exists>x. run_tool_session demo_session demo_plan lc alone = (Inr x, alone)
     \<and> so_status x = SS_Completed \<and> so_output x = Some ''ok'' \<and> so_provider_turns x = 2 \<and> so_tool_calls x = 1
     \<and> map cr_call_id (filter cr_succeeded (so_tool_audit x)) = [''c1'']"
proof -
  define first where "first = session_turn demo_session demo_plan
    \<lparr>ls_lifecycle = lc, ls_tool_results = [], ls_seen_call_ids = [],
     ls_metrics = metrics_default, ls_usage = None, ls_shared = alone\<rparr>"
  obtain st where st: "first = Again st" "sm_provider_turns (ls_metrics st) = 1" "sm_tool_calls (ls_metrics st) = 1"
      "ls_shared st = alone" "map cr_call_id (filter cr_succeeded (sm_tool_audit (ls_metrics st))) = [''c1'']"
    using demo_read demo_parse
    by (simp add: first_def session_turn_def demo_session_def demo_plan_def demo_request_def demo_input_def
        metrics_default_def handle_answer_def demo_answer_def demo_call_def demo_pool_assignment_def
        handle_tool_call_def tool_count_def counted_def counted_tool_def tool_execution_def return_tool_result_def
        bound_text_def saturating_sub_def)
  have "\<exists>x. session_turn demo_session demo_plan st = Return (Inr x, alone)
     \<and> so_status x = SS_Completed \<and> so_output x = Some ''ok'' \<and> so_provider_turns x = 2 \<and> so_tool_calls x = 1
     \<and> map cr_call_id (filter cr_succeeded (so_tool_audit x)) = [''c1'']"
    using st
    by (simp add: session_turn_def demo_session_def demo_plan_def demo_request_def demo_input_def
        handle_answer_def demo_answer_def demo_pool_assignment_def
        ends_def outcome_def bound_provider_output_def bound_text_def u64_max_def)
  then show ?thesis
    using st(1) unfolding run_tool_session_def first_def
    by (subst session_loop.simps, simp, subst session_loop.simps) auto
qed

lemma demo_valid: "validate_request demo_request = Inr ()"
proof -
  have "\<not> is_blank ''t1''" "\<not> is_blank ''do''" by code_simp+
  then show ?thesis
    by (simp add: validate_request_def demo_request_def small_tool_policy_def small_session_budget_def
        SUBAGENT_MAX_TASK_ID_BYTES_def SUBAGENT_MAX_INSTRUCTION_BYTES_def SUBAGENT_MIN_TIMEOUT_def
        SUBAGENT_MAX_TIMEOUT_def SUBAGENT_MIN_OUTPUT_TOKENS_def SUBAGENT_MAX_OUTPUT_TOKENS_def secs_def)
qed

lemma demo_routed: "route_assignment demo_runtime demo_request = Inr (demo_profile, demo_pool_assignment)"
proof -
  have "active demo_registry = Inr demo_profile" by code_simp
  then show ?thesis
    by (simp add: route_assignment_def demo_runtime_def demo_request_def demo_profile_def demo_pool_assignment_def)
qed

lemma demo_run:
  "\<exists>x. run_subagent demo_session demo_runtime False False demo_request alone = (Inr x, alone)
     \<and> so_status x = SS_Completed \<and> so_provider_turns x = 2
     \<and> map cr_call_id (filter cr_succeeded (so_tool_audit x)) = [''c1'']"
proof -
  have "demo_plan = \<lparr>sp_request = demo_request, sp_profile_id = rp_id demo_profile, sp_assignment = demo_pool_assignment\<rparr>"
    by (simp add: demo_plan_def demo_profile_def)
  then show ?thesis
    using demo_session_result [of "[SL_Created, SL_Validating, SL_Routing]"]
    by (auto simp: run_subagent_def demo_valid demo_routed)
qed

lemma demo_aggregate: "sb_max_aggregate_tool_output_bytes (tp_budget (sr_tool_policy demo_request)) \<le> u64_max"
  by (simp add: demo_request_def u64_max_def)

theorem session_within_budget_witness:
  "\<exists>x. run_subagent demo_session demo_runtime False False demo_request alone = (Inr x, alone)
     \<and> so_provider_turns x = 2 \<and> sum_list (map cr_output_bytes (so_tool_audit x)) \<le> 16 \<and> so_output x \<noteq> None"
proof -
  obtain x where x: "run_subagent demo_session demo_runtime False False demo_request alone = (Inr x, alone)"
      "so_status x = SS_Completed" "so_provider_turns x = 2"
    using demo_run by blast
  show ?thesis
    using session_within_budget [OF x(1) demo_aggregate] x by (auto simp: Let_def demo_request_def)
qed

theorem session_tools_authorised_witness:
  "\<exists>x. run_subagent demo_session demo_runtime False False demo_request alone = (Inr x, alone)
     \<and> map cr_call_id (filter cr_succeeded (so_tool_audit x)) = [''c1''] \<and> is_safe_call_id ''c1''"
proof -
  obtain x where x: "run_subagent demo_session demo_runtime False False demo_request alone = (Inr x, alone)"
      "map cr_call_id (filter cr_succeeded (so_tool_audit x)) = [''c1'']"
    using demo_run by (elim exE conjE)
  have "''c1'' \<in> set (map cr_call_id (filter cr_succeeded (so_tool_audit x)))" by (simp only: x(2) list.set_intros)
  then obtain c where c: "c \<in> set (so_tool_audit x)" "cr_succeeded c" "''c1'' = cr_call_id c"
    unfolding set_map set_filter by blast
  have "is_safe_call_id (cr_call_id c)"
    using session_tools_authorised [OF x(1) demo_aggregate] c(1,2) unfolding list_all_iff by blast
  then have "is_safe_call_id ''c1''" by (simp only: c(3) [symmetric])
  then show ?thesis using x by (intro exI [of _ x] conjI)
qed

end
