(* ===== verification/Session_Accounting.thy ===== *)
theory Session_Accounting
  imports Subagent_Runtime
begin

text \<open>
  A tool session of \<open>subagent.rs\<close> over the execution budget and the cleanup registry it shares:
  whatever way a session ends, it has given back every reservation and every child it registered.
  The proof follows the guards of the session through its turns.
\<close>

section \<open>A session gives back what it took\<close>

text \<open>What a reservation guard and a child guard of the session still own, relative to the registry as it
  was.\<close>

definition held_reservation :: "CleanupReservationGuard option \<Rightarrow> OrchestrationCleanup \<Rightarrow> OrchestrationCleanup \<Rightarrow> bool" where
  "held_reservation og c0 c \<longleftrightarrow>
     (case Option.bind og (\<lambda>gd. map_option (\<lambda>h. (gd, h)) (rg_handle gd)) of
        None \<Rightarrow> (\<forall>k. reservations k (oc_state c) = reservations k (oc_state c0))
      | Some (gd, h) \<Rightarrow>
          rg_generation gd = oc_generation c \<and> \<not> oc_poisoned c
          \<and> \<not> bt_has (reservations (rg_kind gd) (oc_state c0)) h
          \<and> (\<forall>k. reservations k (oc_state c) =
                 (if k = rg_kind gd then bt_insert h () (reservations k (oc_state c0)) else reservations k (oc_state c0))))"

definition held_child :: "CleanupChildGuard option \<Rightarrow> OrchestrationCleanup \<Rightarrow> OrchestrationCleanup \<Rightarrow> bool" where
  "held_child og c0 c \<longleftrightarrow>
     (case Option.bind og (\<lambda>gd. map_option (\<lambda>h. (gd, h)) (cg_handle gd)) of
        None \<Rightarrow> active_children (oc_state c) = active_children (oc_state c0)
      | Some (gd, h) \<Rightarrow>
          cg_generation gd = oc_generation c \<and> \<not> oc_poisoned c
          \<and> \<not> bt_has (active_children (oc_state c0)) h
          \<and> (\<exists>k. active_children (oc_state c) = bt_insert h k (active_children (oc_state c0))))"

definition owes :: "CleanupReservationGuard option \<Rightarrow> CleanupChildGuard option \<Rightarrow> shared \<Rightarrow> shared \<Rightarrow> bool" where
  "owes og oc sh0 sh \<longleftrightarrow>
     (case (sh_cleanup sh0, sh_cleanup sh) of
        (None, None) \<Rightarrow> og = None \<and> oc = None
      | (Some c0, Some c) \<Rightarrow>
          cleanup_inv c0 \<and> cleanup_inv c \<and> same_run c0 c \<and> held_reservation og c0 c \<and> held_child oc c0 c
      | _ \<Rightarrow> False)"

lemma owes_refl: "(\<And>c. sh_cleanup sh = Some c \<Longrightarrow> cleanup_inv c) \<Longrightarrow> owes None None sh sh"
  by (auto simp: owes_def held_reservation_def held_child_def same_run_def split: option.split)

lemma bt_remove_insert: "bt_wf m \<Longrightarrow> \<not> bt_has m h \<Longrightarrow> bt_remove h (bt_insert h v m) = m"
  by (rule bt_ext) (auto simp: bt_has_def)

lemma wf_registries:
  "cleanup_inv c \<Longrightarrow> bt_wf (active_children (oc_state c))"
  "cleanup_inv c \<Longrightarrow> bt_wf (reservations k (oc_state c))"
  by (cases k; simp add: cleanup_inv_def state_wf_def)+

lemma fresh_registries:
  assumes "cleanup_inv c"
  shows "\<not> bt_has (active_children (oc_state c)) (Suc (next_handle_value (oc_state c)))"
    "\<not> bt_has (reservations k (oc_state c)) (Suc (next_handle_value (oc_state c)))"
  using fresh_handle [of "oc_state c" "Suc (next_handle_value (oc_state c))"] assms
  by (cases k; simp add: cleanup_inv_def)+

lemma held_child_frame:
  "active_children (oc_state c') = active_children (oc_state c) \<Longrightarrow> same_run c c' \<Longrightarrow> held_child oc c0 c' = held_child oc c0 c"
  by (simp add: held_child_def same_run_def split: option.split)

lemma held_reservation_frame:
  "(\<And>k. reservations k (oc_state c') = reservations k (oc_state c)) \<Longrightarrow> same_run c c' \<Longrightarrow>
   held_reservation og c0 c' = held_reservation og c0 c"
  by (simp add: held_reservation_def same_run_def split: option.split)

lemma same_run_trans: "same_run a b \<Longrightarrow> same_run b c \<Longrightarrow> same_run a c"
  by (simp add: same_run_def)

lemma same_cleanup: "sh_cleanup sh = Some c \<Longrightarrow> sh\<lparr>sh_cleanup := Some c\<rparr> = sh"
  by (cases sh) simp

lemma own_reservation_owes:
  assumes "owes None oc sh0 sh" "own_reservation k sh = (r, sh')"
  shows "owes (case r of Inr og \<Rightarrow> og | Inl _ \<Rightarrow> None) oc sh0 sh'" "sh_budget sh' = sh_budget sh"
proof -
  have "owes (case r of Inr og \<Rightarrow> og | Inl _ \<Rightarrow> None) oc sh0 sh' \<and> sh_budget sh' = sh_budget sh"
  proof (cases "sh_cleanup sh")
    case None
    then show ?thesis using assms by (auto simp: own_reservation_def)
  next
    case (Some c)
    then obtain c0 where c0: "sh_cleanup sh0 = Some c0" "cleanup_inv c0" "cleanup_inv c" "same_run c0 c"
        "held_reservation None c0 c" "held_child oc c0 c"
      using assms(1) by (auto simp: owes_def split: option.splits)
    show ?thesis
    proof (cases "oc_poisoned c")
      case True
      then show ?thesis
        using assms Some by (auto simp: own_reservation_def register_reservation_guard_def register_reservation_def with_cleanup_def same_cleanup)
    next
      case False
      then show ?thesis
      proof (cases rule: register_reservation_guard_cases [where g = "sh_generation sh" and k = k])
        case Err
        then show ?thesis using assms Some by (auto simp: own_reservation_def same_cleanup)
      next
        case (Ok h)
        let ?c = "snd (register_reservation (sh_generation sh) k c)"
        have run: "same_run c ?c" by (simp add: Ok(3) same_run_def)
        have "held_child oc c0 ?c" using c0(6) held_child_frame [OF _ run] by (simp add: Ok(3))
        moreover have "held_reservation (Some \<lparr>rg_generation = sh_generation sh, rg_kind = k, rg_handle = Some h\<rparr>) c0 ?c"
          unfolding Ok(3) using c0(5) False Ok(1,2) fresh_registries(2) [OF c0(3), of k]
          by (simp add: held_reservation_def)
        ultimately show ?thesis
          using assms(2) Some c0 Ok(4) register_reservation_inv [OF c0(3)] same_run_trans [OF c0(4) run]
          by (auto simp: own_reservation_def owes_def)
      qed
    qed
  qed
  then show "owes (case r of Inr og \<Rightarrow> og | Inl _ \<Rightarrow> None) oc sh0 sh'" "sh_budget sh' = sh_budget sh" by auto
qed

lemma own_child_owes:
  assumes "owes og None sh0 sh" "own_child k sh = (r, sh')"
  shows "owes og (case r of Inr x \<Rightarrow> x | Inl _ \<Rightarrow> None) sh0 sh'" "sh_budget sh' = sh_budget sh"
proof -
  have "owes og (case r of Inr x \<Rightarrow> x | Inl _ \<Rightarrow> None) sh0 sh' \<and> sh_budget sh' = sh_budget sh"
  proof (cases "sh_cleanup sh")
    case None
    then show ?thesis using assms by (auto simp: own_child_def)
  next
    case (Some c)
    then obtain c0 where c0: "sh_cleanup sh0 = Some c0" "cleanup_inv c0" "cleanup_inv c" "same_run c0 c"
        "held_reservation og c0 c" "held_child None c0 c"
      using assms(1) by (auto simp: owes_def split: option.splits)
    show ?thesis
    proof (cases "oc_poisoned c")
      case True
      then show ?thesis
        using assms Some by (auto simp: own_child_def register_child_guard_def register_child_def with_cleanup_def same_cleanup)
    next
      case False
      then show ?thesis
      proof (cases rule: register_child_guard_cases [where g = "sh_generation sh" and k = k])
        case Err
        then show ?thesis using assms Some by (auto simp: own_child_def same_cleanup)
      next
        case (Ok h)
        let ?c = "snd (register_child (sh_generation sh) k c)"
        have run: "same_run c ?c" by (simp add: Ok(3) same_run_def)
        have "held_reservation og c0 ?c" using c0(5) held_reservation_frame [OF _ run] by (simp add: Ok(3))
        moreover have "held_child (Some \<lparr>cg_generation = sh_generation sh, cg_handle = Some h\<rparr>) c0 ?c"
          unfolding Ok(3) using c0(6) False Ok(1,2) fresh_registries(1) [OF c0(3)]
          by (auto simp: held_child_def)
        ultimately show ?thesis
          using assms(2) Some c0 Ok(4) register_child_inv [OF c0(3)] same_run_trans [OF c0(4) run]
          by (auto simp: own_child_def owes_def)
      qed
    qed
  qed
  then show "owes og (case r of Inr x \<Rightarrow> x | Inl _ \<Rightarrow> None) sh0 sh'" "sh_budget sh' = sh_budget sh" by auto
qed

lemma resolve_owned_owes:
  assumes "owes og oc sh0 sh" "resolve_owned og sh = (r, og', sh')"
  shows "r = Inr ()" "owes None oc sh0 sh'" "sh_budget sh' = sh_budget sh"
proof -
  have "r = Inr () \<and> owes None oc sh0 sh' \<and> sh_budget sh' = sh_budget sh"
  proof (cases "sh_cleanup sh")
    case None
    then show ?thesis using assms by (auto simp: resolve_owned_def owes_def split: option.splits)
  next
    case (Some c)
    then obtain c0 where c0: "sh_cleanup sh0 = Some c0" "cleanup_inv c0" "cleanup_inv c" "same_run c0 c"
        "held_reservation og c0 c" "held_child oc c0 c"
      using assms(1) by (auto simp: owes_def split: option.splits)
    show ?thesis
    proof (cases "Option.bind og (\<lambda>gd. map_option (\<lambda>h. (gd, h)) (rg_handle gd))")
      case None
      then have "held_reservation None c0 c" using c0(5) by (simp add: held_reservation_def)
      then show ?thesis
        using assms(2) Some None c0
        by (auto simp: resolve_owned_def reservation_guard_resolve_def owes_def same_cleanup bind_eq_None_conv
            split: option.splits)
    next
      case (Some x)
      then obtain gd h where gd: "og = Some gd" "rg_handle gd = Some h" by (auto simp: bind_eq_Some_conv)
      then have held: "rg_generation gd = oc_generation c" "\<not> oc_poisoned c"
          "\<not> bt_has (reservations (rg_kind gd) (oc_state c0)) h"
          "reservations (rg_kind gd) (oc_state c) = bt_insert h () (reservations (rg_kind gd) (oc_state c0))"
          "\<And>k. k \<noteq> rg_kind gd \<Longrightarrow> reservations k (oc_state c) = reservations k (oc_state c0)"
        using c0(5) by (auto simp: held_reservation_def)
      let ?c = "c\<lparr>oc_state := set_reservations (rg_kind gd) (bt_remove h) (bt_insert h ()) (oc_state c)\<rparr>"
      have eff: "resolve_reservation (rg_generation gd) (rg_kind gd) h c = (Inr (), ?c)"
        unfolding held(1) by (rule resolve_reservation_owned) (simp_all add: held)
      have "cleanup_inv ?c" using resolve_reservation_inv [OF c0(3)] eff by (metis snd_conv)
      moreover have "held_reservation None c0 ?c"
        using held bt_remove_insert [OF wf_registries(2) [OF c0(2)] held(3)] by (auto simp: held_reservation_def)
      moreover have "held_child oc c0 ?c" "same_run c0 ?c"
        using c0(4,6) held_child_frame [of ?c c] by (simp_all add: same_run_def)
      ultimately show ?thesis
        using assms(2) \<open>sh_cleanup sh = Some c\<close> gd eff c0(1,2)
        by (auto simp: resolve_owned_def reservation_guard_resolve_def owes_def)
    qed
  qed
  then show "r = Inr ()" "owes None oc sh0 sh'" "sh_budget sh' = sh_budget sh" by auto
qed

lemma complete_owned_owes:
  assumes "owes og oc sh0 sh" "complete_owned oc sh = (r, oc', sh')"
  shows "r = Inr ()" "owes og None sh0 sh'" "sh_budget sh' = sh_budget sh"
proof -
  have "r = Inr () \<and> owes og None sh0 sh' \<and> sh_budget sh' = sh_budget sh"
  proof (cases "sh_cleanup sh")
    case None
    then show ?thesis using assms by (auto simp: complete_owned_def owes_def split: option.splits)
  next
    case (Some c)
    then obtain c0 where c0: "sh_cleanup sh0 = Some c0" "cleanup_inv c0" "cleanup_inv c" "same_run c0 c"
        "held_reservation og c0 c" "held_child oc c0 c"
      using assms(1) by (auto simp: owes_def split: option.splits)
    show ?thesis
    proof (cases "Option.bind oc (\<lambda>gd. map_option (\<lambda>h. (gd, h)) (cg_handle gd))")
      case None
      then have "held_child None c0 c" using c0(6) by (simp add: held_child_def)
      then show ?thesis
        using assms(2) Some None c0
        by (auto simp: complete_owned_def child_guard_complete_def owes_def same_cleanup bind_eq_None_conv
            split: option.splits)
    next
      case (Some x)
      then obtain gd h where gd: "oc = Some gd" "cg_handle gd = Some h" by (auto simp: bind_eq_Some_conv)
      then obtain k where held: "cg_generation gd = oc_generation c" "\<not> oc_poisoned c"
          "\<not> bt_has (active_children (oc_state c0)) h"
          "active_children (oc_state c) = bt_insert h k (active_children (oc_state c0))"
        using c0(6) by (auto simp: held_child_def)
      let ?c = "c\<lparr>oc_state := (oc_state c)\<lparr>active_children := bt_remove h (active_children (oc_state c)),
          completed_children := bt_insert h () (completed_children (oc_state c))\<rparr>\<rparr>"
      have eff: "complete_child (cg_generation gd) h c = (Inr (), ?c)"
        unfolding held(1) by (rule complete_child_owned) (simp_all add: held c0)
      have "cleanup_inv ?c" using complete_child_inv [OF c0(3)] eff by (metis snd_conv)
      moreover have "held_child None c0 ?c"
        using held bt_remove_insert [OF wf_registries(1) [OF c0(2)] held(3)] by (auto simp: held_child_def)
      moreover have "held_reservation og c0 ?c" "same_run c0 ?c"
        using c0(4,5) held_reservation_frame [of ?c c] by (simp_all add: same_run_def)
      ultimately show ?thesis
        using assms(2) \<open>sh_cleanup sh = Some c\<close> gd eff c0(1,2)
        by (auto simp: complete_owned_def child_guard_complete_def owes_def)
    qed
  qed
  then show "r = Inr ()" "owes og None sh0 sh'" "sh_budget sh' = sh_budget sh" by auto
qed

text \<open>Dropping a guard does what completing or resolving it does.\<close>

lemma drop_owned_eq:
  "sh_cleanup (drop_owned_reservation og sh) = sh_cleanup (snd (snd (resolve_owned og sh)))"
  "sh_cleanup (drop_owned_child oc sh) = sh_cleanup (snd (snd (complete_owned oc sh)))"
  "sh_budget (drop_owned_reservation og sh) = sh_budget sh" "sh_budget (drop_owned_child oc sh) = sh_budget sh"
  by (auto simp: drop_owned_reservation_def resolve_owned_def reservation_guard_drop_def
      reservation_guard_resolve_def drop_owned_child_def complete_owned_def child_guard_drop_def
      child_guard_complete_def split: option.split prod.split sum.split)

lemma owes_cong: "sh_cleanup sh = sh_cleanup sh' \<Longrightarrow> owes og oc sh0 sh = owes og oc sh0 sh'"
  by (simp add: owes_def)

lemma drop_owned_owes:
  "owes og oc sh0 sh \<Longrightarrow> owes None oc sh0 (drop_owned_reservation og sh)"
  "owes og oc sh0 sh \<Longrightarrow> owes og None sh0 (drop_owned_child oc sh)"
  using resolve_owned_owes(2) [of og oc sh0 sh] complete_owned_owes(2) [of og oc sh0 sh]
    owes_cong [OF drop_owned_eq(1)] owes_cong [OF drop_owned_eq(2)]
  by (metis prod.collapse)+

text \<open>The reservations of the ledger: what a session has reserved and not yet committed or dropped.\<close>

definition reserved :: "ExecutionBudgetLedger \<Rightarrow> nat \<times> nat" where
  "reserved b = (provider_reserved (led_state b), tool_reserved (led_state b))"

definition ledger_owes :: "nat \<Rightarrow> nat \<Rightarrow> shared \<Rightarrow> shared \<Rightarrow> bool" where
  "ledger_owes p t sh0 sh \<longleftrightarrow>
     (case (sh_budget sh0, sh_budget sh) of
        (None, None) \<Rightarrow> p = 0 \<and> t = 0
      | (Some b0, Some b) \<Rightarrow>
          fst (reserved b0) < u64_max \<and> snd (reserved b0) < u64_max
          \<and> reserved b = (fst (reserved b0) + p, snd (reserved b0) + t)
          \<and> led_poisoned b = led_poisoned b0 \<and> (p + t = 0 \<or> \<not> led_poisoned b)
      | _ \<Rightarrow> False)"

lemmas ledger_unfold = with_ledger_def open_ledger_def check_elapsed_def exhaustion_def reserved_def Let_def

lemma reserve_provider_reserved:
  assumes "reserve_provider clk role b = (r, b')"
  shows "reserved b' = (if is_ok r then wrapping_add (fst (reserved b)) 1 else fst (reserved b), snd (reserved b))
    \<and> led_poisoned b' = led_poisoned b \<and> (is_ok r \<longrightarrow> \<not> led_poisoned b)"
  using assms by (auto simp: reserve_provider_def ledger_unfold split: if_splits)

lemma reserve_tool_reserved:
  assumes "reserve_tool clk role b = (r, b')"
  shows "reserved b' = (fst (reserved b), if is_ok r then wrapping_add (snd (reserved b)) 1 else snd (reserved b))
    \<and> led_poisoned b' = led_poisoned b \<and> (is_ok r \<longrightarrow> \<not> led_poisoned b)"
  using assms by (auto simp: reserve_tool_def ledger_unfold split: if_splits)

lemma metering_reserved:
  "reserved (snd (record_output_tokens clk n b)) = reserved b"
  "led_poisoned (snd (record_output_tokens clk n b)) = led_poisoned b"
  "reserved (snd (record_tool_output clk n b)) = reserved b"
  "led_poisoned (snd (record_tool_output clk n b)) = led_poisoned b"
  by (auto simp: record_output_tokens_def record_tool_output_def ledger_unfold)

lemma recording_reserved:
  "reserved (record_tool_completed b) = reserved b" "led_poisoned (record_tool_completed b) = led_poisoned b"
  "reserved (record_terminal t b) = reserved b" "led_poisoned (record_terminal t b) = led_poisoned b"
  by (cases t; simp add: record_tool_completed_def record_provider_completed_def record_provider_failed_def
      record_provider_cancelled_def record_provider_timed_out_def if_locked_def reserved_def)+

lemma release_reserved:
  "\<not> led_poisoned b \<Longrightarrow> reserved (drop_provider role b) = (fst (reserved b) - 1, snd (reserved b))"
  "\<not> led_poisoned b \<Longrightarrow> reserved (snd (commit_with_guard role b)) = (fst (reserved b) - 1, snd (reserved b))"
  "\<not> led_poisoned b \<Longrightarrow> reserved (drop_tool b) = (fst (reserved b), snd (reserved b) - 1)"
  "\<not> led_poisoned b \<Longrightarrow> reserved (snd (commit_tool b)) = (fst (reserved b), snd (reserved b) - 1)"
  "led_poisoned (drop_provider role b) = led_poisoned b" "led_poisoned (snd (commit_with_guard role b)) = led_poisoned b"
  "led_poisoned (drop_tool b) = led_poisoned b" "led_poisoned (snd (commit_tool b)) = led_poisoned b"
  by (auto simp: drop_provider_def commit_with_guard_def drop_tool_def commit_tool_def if_locked_def reserved_def
      saturating_sub_def)

lemma with_budget_frame: "with_budget f sh = (r, sh') \<Longrightarrow> sh_cleanup sh' = sh_cleanup sh"
  by (auto simp: with_budget_def split: option.splits prod.splits sum.splits)

lemma on_budget_frame [simp]: "sh_cleanup (on_budget f sh) = sh_cleanup sh"
  by (simp add: on_budget_def)

lemma ledger_owes_cong: "sh_budget sh = sh_budget sh' \<Longrightarrow> ledger_owes p t sh0 sh = ledger_owes p t sh0 sh'"
  by (simp add: ledger_owes_def)

text \<open>A ledger operation that changes the reservations in a known way changes what is owed accordingly.\<close>

lemma with_budget_owes:
  assumes "ledger_owes p t sh0 sh" "with_budget f sh = (r, sh')"
    and "\<And>b. sh_budget sh = Some b \<Longrightarrow> led_poisoned (snd (f b)) = led_poisoned b"
    and "\<And>b b0. sh_budget sh = Some b \<Longrightarrow> sh_budget sh0 = Some b0 \<Longrightarrow>
          reserved (snd (f b)) = (fst (reserved b0) + p', snd (reserved b0) + t') \<and> (p' + t' = 0 \<or> \<not> led_poisoned b)"
    and "sh_budget sh = None \<Longrightarrow> p' = 0 \<and> t' = 0"
  shows "ledger_owes p' t' sh0 sh'"
  using assms
  by (auto simp: ledger_owes_def with_budget_def split_beta split: option.splits sum.splits)

lemma on_budget_owes:
  assumes "ledger_owes p t sh0 sh"
    and "\<And>b. sh_budget sh = Some b \<Longrightarrow> led_poisoned (f b) = led_poisoned b"
    and "\<And>b b0. sh_budget sh = Some b \<Longrightarrow> sh_budget sh0 = Some b0 \<Longrightarrow>
          reserved (f b) = (fst (reserved b0) + p', snd (reserved b0) + t') \<and> (p' + t' = 0 \<or> \<not> led_poisoned b)"
    and "sh_budget sh = None \<Longrightarrow> p' = 0 \<and> t' = 0"
  shows "ledger_owes p' t' sh0 (on_budget f sh)"
  using assms by (auto simp: ledger_owes_def on_budget_def split: option.splits)

lemma ledger_owes_SomeD:
  "ledger_owes p t sh0 sh \<Longrightarrow> sh_budget sh = Some b \<Longrightarrow> sh_budget sh0 = Some b0 \<Longrightarrow>
   reserved b = (fst (reserved b0) + p, snd (reserved b0) + t) \<and> (p + t = 0 \<or> \<not> led_poisoned b)
   \<and> fst (reserved b0) < u64_max \<and> snd (reserved b0) < u64_max"
  by (auto simp: ledger_owes_def)

lemma ledger_owes_NoneD: "ledger_owes p t sh0 sh \<Longrightarrow> sh_budget sh = None \<Longrightarrow> p = 0 \<and> t = 0"
  by (auto simp: ledger_owes_def split: option.splits)

lemma wrapping_add_1: "n < u64_max \<Longrightarrow> wrapping_add n 1 = n + 1"
  by (simp add: wrapping_add_def u64_max_def)

lemma with_budget_result: "with_budget f sh = (r, sh') \<Longrightarrow> sh_budget sh = Some b \<Longrightarrow> is_ok r = is_ok (fst (f b))"
  by (auto simp: with_budget_def split: prod.splits sum.splits)

lemma with_budget_none: "with_budget f sh = (r, sh') \<Longrightarrow> sh_budget sh = None \<Longrightarrow> r = Inr None"
  by (simp add: with_budget_def)

lemma with_budget_some: "with_budget f sh = (Inr None, sh') \<Longrightarrow> sh_budget sh = None"
  by (auto simp: with_budget_def split: option.splits prod.splits sum.splits)

text \<open>How many reservations the result of a reservation stands for.\<close>

definition took :: "(BudgetExhaustion, 'a option) result \<Rightarrow> nat" where
  "took r = (case r of Inr (Some _) \<Rightarrow> 1 | _ \<Rightarrow> 0)"

lemma took_simps [simp]: "took (Inl e) = 0" "took (Inr None) = 0" "took (Inr (Some x)) = 1"
  by (simp_all add: took_def)

lemma took_ok: "with_budget f sh = (r, sh') \<Longrightarrow> sh_budget sh = Some b \<Longrightarrow> took r = (if is_ok r then 1 else 0)"
  by (auto simp: with_budget_def took_def split: prod.splits sum.splits)

lemma reserve_provider_owes:
  assumes "ledger_owes 0 0 sh0 sh" "with_budget (reserve_provider clk role) sh = (r, sh')"
  shows "ledger_owes (took r) 0 sh0 sh'"
proof (rule with_budget_owes [OF assms])
  fix b b0 assume b: "sh_budget sh = Some b" "sh_budget sh0 = Some b0"
  have eff: "reserved (snd (reserve_provider clk role b)) =
      (if is_ok (fst (reserve_provider clk role b)) then wrapping_add (fst (reserved b)) 1 else fst (reserved b), snd (reserved b))
    \<and> (is_ok (fst (reserve_provider clk role b)) \<longrightarrow> \<not> led_poisoned b)"
    using reserve_provider_reserved [of clk role b "fst (reserve_provider clk role b)" "snd (reserve_provider clk role b)"] by simp
  show "reserved (snd (reserve_provider clk role b)) = (fst (reserved b0) + took r, snd (reserved b0) + 0)
      \<and> (took r + 0 = 0 \<or> \<not> led_poisoned b)"
    using eff ledger_owes_SomeD [OF assms(1) b] with_budget_result [OF assms(2) b(1)] took_ok [OF assms(2) b(1)]
      wrapping_add_1 by auto
next
  fix b show "led_poisoned (snd (reserve_provider clk role b)) = led_poisoned b"
    using reserve_provider_reserved [of clk role b] by (metis prod.collapse)
next
  assume "sh_budget sh = None"
  then show "took r = 0 \<and> (0 :: nat) = 0" using with_budget_none [OF assms(2)] by simp
qed

lemma reserve_tool_owes:
  assumes "ledger_owes 0 0 sh0 sh" "with_budget (reserve_tool clk role) sh = (r, sh')"
  shows "ledger_owes 0 (took r) sh0 sh'"
proof (rule with_budget_owes [OF assms])
  fix b b0 assume b: "sh_budget sh = Some b" "sh_budget sh0 = Some b0"
  have eff: "reserved (snd (reserve_tool clk role b)) =
      (fst (reserved b), if is_ok (fst (reserve_tool clk role b)) then wrapping_add (snd (reserved b)) 1 else snd (reserved b))
    \<and> (is_ok (fst (reserve_tool clk role b)) \<longrightarrow> \<not> led_poisoned b)"
    using reserve_tool_reserved [of clk role b "fst (reserve_tool clk role b)" "snd (reserve_tool clk role b)"] by simp
  show "reserved (snd (reserve_tool clk role b)) = (fst (reserved b0) + 0, snd (reserved b0) + took r)
      \<and> (0 + took r = 0 \<or> \<not> led_poisoned b)"
    using eff ledger_owes_SomeD [OF assms(1) b] with_budget_result [OF assms(2) b(1)] took_ok [OF assms(2) b(1)]
      wrapping_add_1 by auto
next
  fix b show "led_poisoned (snd (reserve_tool clk role b)) = led_poisoned b"
    using reserve_tool_reserved [of clk role b] by (metis prod.collapse)
next
  assume "sh_budget sh = None"
  then show "(0 :: nat) = 0 \<and> took r = 0" using with_budget_none [OF assms(2)] by simp
qed

lemma commit_owned_owes:
  assumes "ledger_owes (if res = None then 0 else 1) 0 sh0 sh" "commit_owned res sh = (r, sh')"
  shows "ledger_owes 0 0 sh0 sh'" "sh_cleanup sh' = sh_cleanup sh"
proof -
  show "ledger_owes 0 0 sh0 sh'"
  proof (cases res)
    case (Some role)
    then have run: "with_budget (commit_with_guard role) sh = (r, sh')" using assms(2) by (simp add: commit_owned_def)
    show ?thesis
      using assms(1) ledger_owes_SomeD [OF assms(1)] Some
      by (intro with_budget_owes [OF assms(1) run]) (auto simp: release_reserved)
  qed (use assms in \<open>simp add: commit_owned_def\<close>)
  show "sh_cleanup sh' = sh_cleanup sh"
    using assms(2) by (auto simp: commit_owned_def with_budget_frame split: option.splits)
qed

lemma drop_owned_provider_owes:
  assumes "ledger_owes (if res = None then 0 else 1) 0 sh0 sh"
  shows "ledger_owes 0 0 sh0 (drop_owned_provider res sh)" "sh_cleanup (drop_owned_provider res sh) = sh_cleanup sh"
proof -
  show "ledger_owes 0 0 sh0 (drop_owned_provider res sh)"
  proof (cases res)
    case (Some role)
    have "ledger_owes 0 0 sh0 (on_budget (drop_provider role) sh)"
      using ledger_owes_SomeD [OF assms] ledger_owes_NoneD [OF assms] Some
      by (intro on_budget_owes [OF assms]) (auto simp: release_reserved)
    then show ?thesis using Some by (simp add: drop_owned_provider_def)
  qed (use assms in \<open>simp add: drop_owned_provider_def\<close>)
  show "sh_cleanup (drop_owned_provider res sh) = sh_cleanup sh" by (simp add: drop_owned_provider_def split: option.split)
qed

lemma guard_reserved:
  "reserved (snd (guard_finish t gd b)) = reserved b" "led_poisoned (snd (guard_finish t gd b)) = led_poisoned b"
  "reserved (guard_drop gd b) = reserved b" "led_poisoned (guard_drop gd b) = led_poisoned b"
  using recording_reserved(3,4) [of Term_Failed b] recording_reserved(3,4) [of t b]
  by (cases gd; simp add: guard_finish_def guard_drop_def)+

lemma lifecycle_owes:
  assumes "ledger_owes 0 0 sh0 sh"
  shows "ledger_owes 0 0 sh0 (finish_lifecycle t life sh)" "ledger_owes 0 0 sh0 (drop_lifecycle life sh)"
    "sh_cleanup (finish_lifecycle t life sh) = sh_cleanup sh" "sh_cleanup (drop_lifecycle life sh) = sh_cleanup sh"
proof -
  have keep: "ledger_owes 0 0 sh0 (on_budget f sh)"
    if "\<And>b. reserved (f b) = reserved b" "\<And>b. led_poisoned (f b) = led_poisoned b" for f
    using ledger_owes_SomeD [OF assms] that by (intro on_budget_owes [OF assms]) auto
  show "ledger_owes 0 0 sh0 (finish_lifecycle t life sh)"
    using assms by (cases life) (simp_all add: finish_lifecycle_def guard_reserved keep)
  show "ledger_owes 0 0 sh0 (drop_lifecycle life sh)"
    using assms by (cases life) (simp_all add: drop_lifecycle_def guard_reserved keep)
  show "sh_cleanup (finish_lifecycle t life sh) = sh_cleanup sh" "sh_cleanup (drop_lifecycle life sh) = sh_cleanup sh"
    by (simp_all add: finish_lifecycle_def drop_lifecycle_def split: option.split)
qed

lemma commit_tool_owes:
  assumes "ledger_owes 0 1 sh0 sh" "with_budget commit_tool sh = (r, sh')"
  shows "ledger_owes 0 0 sh0 sh'"
  using ledger_owes_SomeD [OF assms(1)] ledger_owes_NoneD [OF assms(1)]
  by (intro with_budget_owes [OF assms]) (auto simp: release_reserved)

lemma drop_tool_owes:
  assumes "ledger_owes 0 1 sh0 sh"
  shows "ledger_owes 0 0 sh0 (on_budget drop_tool sh)"
  using ledger_owes_SomeD [OF assms] ledger_owes_NoneD [OF assms]
  by (intro on_budget_owes [OF assms]) (auto simp: release_reserved)

definition settled :: "shared \<Rightarrow> shared \<Rightarrow> bool" where
  "settled sh0 sh \<longleftrightarrow> owes None None sh0 sh \<and> ledger_owes 0 0 sh0 sh"

lemma metering_settled:
  assumes "settled sh0 sh"
  shows "with_budget (record_output_tokens clk n) sh = (r, sh') \<Longrightarrow> settled sh0 sh'"
    "with_budget (record_tool_output clk n) sh = (r, sh') \<Longrightarrow> settled sh0 sh'"
    "settled sh0 (on_budget record_tool_completed sh)"
proof -
  have l: "ledger_owes 0 0 sh0 sh" and c: "owes None None sh0 sh" using assms by (simp_all add: settled_def)
  note some = ledger_owes_SomeD [OF l]
  show "settled sh0 sh'" if "with_budget (record_output_tokens clk n) sh = (r, sh')"
    using some with_budget_frame [OF that] c owes_cong [of sh' sh]
    by (auto simp: settled_def metering_reserved intro!: with_budget_owes [OF l that])
  show "settled sh0 sh'" if "with_budget (record_tool_output clk n) sh = (r, sh')"
    using some with_budget_frame [OF that] c owes_cong [of sh' sh]
    by (auto simp: settled_def metering_reserved intro!: with_budget_owes [OF l that])
  show "settled sh0 (on_budget record_tool_completed sh)"
    using some c owes_cong [of "on_budget record_tool_completed sh" sh]
    by (auto simp: settled_def recording_reserved intro!: on_budget_owes [OF l])
qed

text \<open>The state of a turn while it holds guards and a reservation.\<close>

definition holding ::
  "CleanupReservationGuard option \<Rightarrow> CleanupChildGuard option \<Rightarrow> nat \<Rightarrow> nat \<Rightarrow> shared \<Rightarrow> shared \<Rightarrow> bool" where
  "holding og oc p t sh0 sh \<longleftrightarrow> owes og oc sh0 sh \<and> ledger_owes p t sh0 sh"

lemma settled_holding: "settled sh0 sh \<longleftrightarrow> holding None None 0 0 sh0 sh"
  by (simp add: settled_def holding_def)

lemma holding_steps:
  "holding None oc p t sh0 sh \<Longrightarrow> own_reservation k sh = (Inl e, sh') \<Longrightarrow> holding None oc p t sh0 sh'"
  "holding None oc p t sh0 sh \<Longrightarrow> own_reservation k sh = (Inr og, sh') \<Longrightarrow> holding og oc p t sh0 sh'"
  "holding og None p t sh0 sh \<Longrightarrow> own_child kd sh = (Inl e, sh') \<Longrightarrow> holding og None p t sh0 sh'"
  "holding og None p t sh0 sh \<Longrightarrow> own_child kd sh = (Inr oc, sh') \<Longrightarrow> holding og oc p t sh0 sh'"
  "holding og oc p t sh0 sh \<Longrightarrow> resolve_owned og sh = (r, og', sh') \<Longrightarrow> r = Inr () \<and> holding None oc p t sh0 sh'"
  "holding og oc p t sh0 sh \<Longrightarrow> complete_owned oc sh = (r, oc', sh') \<Longrightarrow> r = Inr () \<and> holding og None p t sh0 sh'"
  "holding og oc p t sh0 sh \<Longrightarrow> holding None oc p t sh0 (drop_owned_reservation og sh)"
  "holding og oc p t sh0 sh \<Longrightarrow> holding og None p t sh0 (drop_owned_child oc sh)"
  unfolding holding_def
  using own_reservation_owes [of oc sh0 sh k] own_child_owes [of og sh0 sh kd]
    resolve_owned_owes [of og oc sh0 sh] complete_owned_owes [of og oc sh0 sh] drop_owned_owes [of og oc sh0 sh]
    drop_owned_eq(3,4) ledger_owes_cong [of sh' sh p t sh0] ledger_owes_cong [of _ sh p t sh0]
  by (metis sum.case(1) sum.case(2))+

lemma holding_budget:
  "holding og oc 0 0 sh0 sh \<Longrightarrow> with_budget (reserve_provider clk role) sh = (r, sh') \<Longrightarrow> holding og oc (took r) 0 sh0 sh'"
  "holding og oc 0 0 sh0 sh \<Longrightarrow> with_budget (reserve_tool clk role) sh = (r', sh') \<Longrightarrow> holding og oc 0 (took r') sh0 sh'"
  "holding og oc (if res = None then 0 else 1) 0 sh0 sh \<Longrightarrow> commit_owned res sh = (x, sh') \<Longrightarrow> holding og oc 0 0 sh0 sh'"
  "holding og oc (if res = None then 0 else 1) 0 sh0 sh \<Longrightarrow> holding og oc 0 0 sh0 (drop_owned_provider res sh)"
  "holding og oc 0 1 sh0 sh \<Longrightarrow> with_budget commit_tool sh = (y, sh') \<Longrightarrow> holding og oc 0 0 sh0 sh'"
  "holding og oc 0 1 sh0 sh \<Longrightarrow> holding og oc 0 0 sh0 (on_budget drop_tool sh)"
  "holding og oc 0 0 sh0 sh \<Longrightarrow> holding og oc 0 0 sh0 (finish_lifecycle t life sh)"
  "holding og oc 0 0 sh0 sh \<Longrightarrow> holding og oc 0 0 sh0 (drop_lifecycle life sh)"
  unfolding holding_def
  using reserve_provider_owes with_budget_frame owes_cong reserve_tool_owes commit_owned_owes
    drop_owned_provider_owes commit_tool_owes drop_tool_owes lifecycle_owes on_budget_frame
  by (meson | metis)+

text \<open>Resolving the reservation and completing the child succeed and settle the turn.\<close>

lemma holding_given_back:
  assumes "holding own child 0 0 sh0 sh"
  obtains own' sh1 child' sh2 where "resolve_owned own sh = (Inr (), own', sh1)"
    "complete_owned child sh1 = (Inr (), child', sh2)" "settled sh0 sh2"
proof -
  obtain x own' sh1 where 1: "resolve_owned own sh = (x, own', sh1)" by (cases "resolve_owned own sh")
  note h1 = holding_steps(5) [OF assms 1]
  obtain y child' sh2 where 2: "complete_owned child sh1 = (y, child', sh2)" by (cases "complete_owned child sh1")
  note h2 = holding_steps(6) [OF conjunct2 [OF h1] 2]
  show thesis using that [of own' sh1 child' sh2] 1 2 h1 h2 by (simp add: settled_holding)
qed

lemma provider_turn_settled:
  assumes "settled sh0 sh" "provider_turn clk role answer sh = (r, sh')"
  shows "settled sh0 sh'"
proof -
  obtain x1 sh1 where 1: "own_reservation Reservation_Provider sh = (x1, sh1)" by (cases "own_reservation Reservation_Provider sh")
  show ?thesis
  proof (cases x1)
    case (Inl e)
    then show ?thesis using assms 1 holding_steps(1) by (auto simp: provider_turn_def settled_holding)
  next
    case own: (Inr own)
    then have h1: "holding own None 0 0 sh0 sh1" using assms(1) 1 holding_steps(2) by (simp add: settled_holding)
    obtain x2 sh2 where 2: "with_budget (reserve_provider clk role) sh1 = (x2, sh2)" by (cases "with_budget (reserve_provider clk role) sh1")
    note h2 = holding_budget(1) [OF h1 2]
    show ?thesis
    proof (cases x2)
      case (Inl e)
      then show ?thesis using assms(2) 1 2 own h2 holding_steps(7) by (auto simp: provider_turn_def settled_holding)
    next
      case res: (Inr res)
      then have p: "took x2 = (if res = None then 0 else 1)" by (cases res) simp_all
      obtain x3 sh3 where 3: "own_child Child_Provider sh2 = (x3, sh3)" by (cases "own_child Child_Provider sh2")
      show ?thesis
      proof (cases x3)
        case (Inl e)
        then have "holding own None (took x2) 0 sh0 sh3" using 3 h2 holding_steps(3) by blast
        then have "settled sh0 (drop_owned_reservation own (drop_owned_provider res sh3))"
          unfolding p settled_holding by (intro holding_steps(7) holding_budget(4))
        then show ?thesis using assms(2) 1 2 3 own res Inl by (simp add: provider_turn_def)
      next
        case child: (Inr child)
        then have h3: "holding own child (if res = None then 0 else 1) 0 sh0 sh3"
          using 3 h2 holding_steps(4) unfolding p by blast
        obtain x4 sh4 where 4: "commit_owned res sh3 = (x4, sh4)" by (cases "commit_owned res sh3")
        note h4 = holding_budget(3) [OF h3 4]
        show ?thesis
        proof (cases x4)
          case (Inl e)
          have "settled sh0 (drop_owned_reservation own (drop_owned_child child sh4))"
            unfolding settled_holding by (intro holding_steps(7,8) h4)
          then show ?thesis using assms(2) 1 2 3 4 own res child Inl by (simp add: provider_turn_def)
        next
          case life: (Inr life)
          obtain own' sh5 child' sh6 where 5: "resolve_owned own sh4 = (Inr (), own', sh5)"
              "complete_owned child sh5 = (Inr (), child', sh6)" "settled sh0 sh6"
            using holding_given_back [OF h4] by blast
          then have "settled sh0 (finish_lifecycle (turn_terminal answer) life sh6)"
            unfolding settled_holding using holding_budget(7) by blast
          then show ?thesis using assms(2) 1 2 3 4 5 own res child life by (simp add: provider_turn_def)
        qed
      qed
    qed
  qed
qed

lemma tool_turn_settled:
  assumes "settled sh0 sh" "tool_turn clk role x timed_out sh = (r, sh')"
  shows "settled sh0 sh'"
proof -
  obtain x1 sh1 where 1: "own_reservation Reservation_Tool sh = (x1, sh1)" by (cases "own_reservation Reservation_Tool sh")
  show ?thesis
  proof (cases x1)
    case (Inl e)
    then show ?thesis using assms 1 holding_steps(1) by (auto simp: tool_turn_def settled_holding)
  next
    case own: (Inr own)
    then have h1: "holding own None 0 0 sh0 sh1" using assms(1) 1 holding_steps(2) by (simp add: settled_holding)
    obtain x2 sh2 where 2: "with_budget (reserve_tool clk role) sh1 = (x2, sh2)" by (cases "with_budget (reserve_tool clk role) sh1")
    note h2 = holding_budget(2) [OF h1 2]
    show ?thesis
    proof (cases x2)
      case (Inl e)
      then show ?thesis using assms(2) 1 2 own h2 holding_steps(7) by (auto simp: tool_turn_def settled_holding)
    next
      case res: (Inr res)
      then have p: "took x2 = (if res = None then 0 else 1)" by (cases res) simp_all
      obtain x3 sh3 where 3: "own_child Child_Tool sh2 = (x3, sh3)" by (cases "own_child Child_Tool sh2")
      show ?thesis
      proof (cases x3)
        case (Inl e)
        then have "holding own None 0 (took x2) sh0 sh3" using 3 h2 holding_steps(3) by blast
        then have "holding own None 0 0 sh0 (if res = None then sh3 else on_budget drop_tool sh3)"
          using holding_budget(6) unfolding p by auto
        then have "settled sh0 (drop_owned_reservation own (if res = None then sh3 else on_budget drop_tool sh3))"
          unfolding settled_holding by (rule holding_steps(7))
        then show ?thesis using assms(2) 1 2 3 own res Inl by (simp add: tool_turn_def)
      next
        case child: (Inr child)
        then have h3: "holding own child 0 (if res = None then 0 else 1) sh0 sh3"
          using 3 h2 holding_steps(4) unfolding p by blast
        obtain x4 sh4 where 4: "(if res = None then (Inr None, sh3) else with_budget commit_tool sh3) = (x4, sh4)"
          by (cases "if res = None then (Inr None, sh3) else with_budget commit_tool sh3")
        then have h4: "holding own child 0 0 sh0 sh4"
          using h3 holding_budget(5) by (cases res) auto
        show ?thesis
        proof (cases x4)
          case (Inl e)
          have "settled sh0 (drop_owned_reservation own (drop_owned_child child sh4))"
            unfolding settled_holding by (intro holding_steps(7,8) h4)
          then show ?thesis using assms(2) 1 2 3 4 own res child Inl by (simp add: tool_turn_def)
        next
          case (Inr u)
          obtain own' sh5 child' sh6 where "resolve_owned own sh4 = (Inr (), own', sh5)"
              "complete_owned child sh5 = (Inr (), child', sh6)" "settled sh0 sh6"
            using holding_given_back [OF h4] by blast
          then show ?thesis using assms(2) 1 2 3 4 own res child Inr by (simp add: tool_turn_def)
        qed
      qed
    qed
  qed
qed

section \<open>The whole session\<close>

fun step_settled :: "shared \<Rightarrow> session_step \<Rightarrow> bool" where
  "step_settled sh0 (Again st) = settled sh0 (ls_shared st)"
| "step_settled sh0 (Return (x, sh)) = settled sh0 sh"

lemma ends_settled [simp]: "step_settled sh0 (ends p i st s l out w t x) = settled sh0 (ls_shared st)"
  by (simp add: ends_def)

lemma return_tool_result_settled:
  "settled sh0 (ls_shared st) \<Longrightarrow> step_settled sh0 (return_tool_result p i call tool execution st)"
  by (auto simp: return_tool_result_def Let_def metering_settled(3) dest: metering_settled(2)
      split: prod.split sum.split)

lemma ls_shared_counted [simp]: "ls_shared (counted call st) = ls_shared st" "ls_shared (counted_tool k st) = ls_shared st"
  by (simp_all add: counted_def counted_tool_def)

lemma handle_tool_call_settled:
  "settled sh0 (ls_shared st) \<Longrightarrow> step_settled sh0 (handle_tool_call env p n call st)"
  by (auto simp: handle_tool_call_def Let_def dest: tool_turn_settled intro!: return_tool_result_settled
      split: option.split prod.split tool_turn_end.split)

lemma handle_answer_settled:
  assumes "settled sh0 (ls_shared st)"
  shows "step_settled sh0 (handle_answer env p n x st)"
proof -
  let ?metered = "case Option.bind (pres_usage x) pu_output_tokens of
      None \<Rightarrow> (Inr None, ls_shared st)
    | Some tokens \<Rightarrow> with_budget (record_output_tokens (ti_tokens_clock (se_inputs env n)) tokens) (ls_shared st)"
  obtain r sh where m: "?metered = (r, sh)" by (cases ?metered)
  then have "settled sh0 sh" using assms metering_settled(1) by (auto split: option.splits)
  then show ?thesis
    unfolding handle_answer_def Let_def m
    by (auto simp: handle_tool_call_settled split: sum.split option.split prod.split)
qed

lemma session_turn_settled:
  assumes "settled sh0 (ls_shared st)"
  shows "step_settled sh0 (session_turn env p st)"
  using assms
  by (auto simp: session_turn_def Let_def handle_answer_settled dest: provider_turn_settled
      split: prod.split provider_turn_end.split sum.split)

lemma session_loop_settled: "settled sh0 (ls_shared st) \<Longrightarrow> settled sh0 (snd (session_loop env p st))"
proof (induction env p st rule: session_loop.induct)
  case (1 env p st)
  then have "step_settled sh0 (session_turn env p st)" using session_turn_settled by blast
  then show ?case
    using 1 by (subst session_loop.simps) (auto split: session_step.split)
qed

lemma run_subagent_settled:
  assumes "settled sh sh" "run_subagent env rt c1 c2 r sh = (x, sh')"
  shows "settled sh sh'"
  using assms session_loop_settled [of sh]
  by (auto simp: run_subagent_def run_tool_session_def split: sum.splits prod.splits) (metis session_state.select_convs(6) snd_conv)

text \<open>What the registry still holds: children and reservations that were not given back.\<close>

definition holdings :: "OrchestrationCleanup \<Rightarrow> (nat, CleanupChildKind) btree_map \<times> handle_set \<times> handle_set" where
  "holdings c = (active_children (oc_state c), provider_reservations (oc_state c), tool_reservations (oc_state c))"

lemma settled_holdings:
  assumes "settled sh sh'" "sh_budget sh = Some b" "sh_cleanup sh = Some c"
  shows "\<exists>b' c'. sh_budget sh' = Some b' \<and> sh_cleanup sh' = Some c' \<and> reserved b' = reserved b \<and> holdings c' = holdings c"
  using assms
  by (auto simp: settled_def owes_def ledger_owes_def holdings_def held_reservation_def held_child_def
      all_reservations split: option.splits)

text \<open>C11: A session gives back what it took. However a subagent ends, with an outcome, with an error, by
  cancellation, timeout, refused reservation or refused registration, the ledger has the same outstanding
  provider and tool reservations as before, and the cleanup registry holds the same children and
  reservations as before: nothing the session reserved or registered is left behind.\<close>

theorem session_gives_back:
  assumes "run_subagent env rt c1 c2 r \<lparr>sh_budget = Some b, sh_cleanup = Some c\<rparr> = (x, sh')"
    "provider_reserved (led_state b) < u64_max" "tool_reserved (led_state b) < u64_max"
    "c = foldl cleanup_apply (cleanup_new g) ops"
  shows "\<exists>b' c'. sh' = \<lparr>sh_budget = Some b', sh_cleanup = Some c'\<rparr>
    \<and> provider_reserved (led_state b') = provider_reserved (led_state b)
    \<and> tool_reserved (led_state b') = tool_reserved (led_state b)
    \<and> active_children (oc_state c') = active_children (oc_state c)
    \<and> provider_reservations (oc_state c') = provider_reservations (oc_state c)
    \<and> tool_reservations (oc_state c') = tool_reservations (oc_state c)"
proof -
  let ?sh = "\<lparr>sh_budget = Some b, sh_cleanup = Some c\<rparr>"
  have "cleanup_inv c" using cleanup.inv_run [of "cleanup_new g" ops] assms(4) by blast
  then have "settled ?sh ?sh"
    using assms(2,3) owes_refl [of ?sh] by (simp add: settled_def ledger_owes_def reserved_def)
  then have "settled ?sh sh'" using assms(1) by (rule run_subagent_settled)
  then obtain b' c' where "sh_budget sh' = Some b'" "sh_cleanup sh' = Some c'" "reserved b' = reserved b" "holdings c' = holdings c"
    using settled_holdings [of ?sh sh' b c] by auto
  then show ?thesis by (cases sh') (auto simp: reserved_def holdings_def)
qed

definition demo_ledger :: ExecutionBudgetLedger where
  "demo_ledger =
     \<lparr>led_state = ledger_zero,
      led_limits = \<lparr>max_provider_invocations = 4, max_planner_provider_invocations = 4,
        max_executor_provider_invocations = 4, max_verifier_provider_invocations = 4,
        max_repair_provider_invocations = 4, max_tool_calls = 4, max_tool_output_bytes = 64,
        max_context_bytes = 64, max_output_tokens = 64, max_executor_tasks = 2,
        max_executor_concurrency = 1, max_repair_attempts = 1, max_elapsed = 9, max_repair_elapsed = 9,
        max_depth = 1\<rparr>,
      led_generation = 7, led_last_exhaustion = None, led_poisoned = False\<rparr>"

theorem session_gives_back_witness:
  "\<exists>b' c'. snd (run_subagent demo_session demo_runtime False False demo_request
       \<lparr>sh_budget = Some demo_ledger, sh_cleanup = Some (cleanup_new 7)\<rparr>) = \<lparr>sh_budget = Some b', sh_cleanup = Some c'\<rparr>
     \<and> provider_reserved (led_state b') = 0 \<and> tool_reserved (led_state b') = 0 \<and> active_children (oc_state c') = []"
proof -
  have "provider_reserved (led_state demo_ledger) < u64_max" "tool_reserved (led_state demo_ledger) < u64_max"
    by (simp_all add: demo_ledger_def ledger_zero_def u64_max_def)
  moreover have "cleanup_new 7 = foldl cleanup_apply (cleanup_new 7) []" by simp
  ultimately show ?thesis
    using session_gives_back [OF prod.collapse [symmetric], of demo_ledger "cleanup_new 7" 7 "[]" demo_session demo_runtime False False demo_request]
    by (auto simp: demo_ledger_def ledger_zero_def cleanup_new_def)
qed

section \<open>Two observations\<close>

text \<open>A call that was refused before it reserved anything, a duplicate, an unknown tool or one over its
  limit, is still recorded as completed, so the ledger can report more completed than started tools.\<close>

lemma record_tool_output_tools:
  "record_tool_output clk n b = (r, b') \<Longrightarrow> tool_completed (led_state b') = tool_completed (led_state b)
     \<and> tool_started (led_state b') = tool_started (led_state b) \<and> led_poisoned b' = led_poisoned b"
  by (auto simp: record_tool_output_def ledger_unfold split: if_splits)

lemma refused_call_counts_as_completed:
  assumes "return_tool_result p i call tool (Inl e) st = Again st'" "sh_budget (ls_shared st) = Some b" "\<not> led_poisoned b"
  shows "\<exists>b'. sh_budget (ls_shared st') = Some b'
    \<and> tool_completed (led_state b') = wrapping_add (tool_completed (led_state b)) 1
    \<and> tool_started (led_state b') = tool_started (led_state b)"
  using assms
  by (auto simp: return_tool_result_def Let_def with_budget_def on_budget_def record_tool_completed_def if_locked_def
      dest!: record_tool_output_tools split: prod.splits sum.splits if_splits)

text \<open>The system prompt denies that there are tools, also when the request offers some.\<close>

lemma prompt_denies_offered_tools:
  "\<exists>v w. pr_system (session_request p st) = Some (v @ '' subagent. You have no tools.'' @ w)
     \<and> pr_tools (session_request p st) = map provider_name (bt_keys (tp_approved_tools (plan_policy p)))"
  by (rule exI [where x = "''You are the Syndrid '' @ RoutingRole_display (sr_role (sp_request p))"])
    (simp add: session_request_def build_prompt_def Let_def)

end
