(* ===== verification/Role_Capabilities.thy ===== *)
theory Role_Capabilities
  imports Subagent_Runtime
begin

text \<open>
  The capabilities of the orchestration roles (\<open>role_capabilities.rs\<close>) and the file they are read
  from (\<open>role_capability_config.rs\<close>): declarations, their validation against the resolved execution
  policy and the authority of the session, and the bounded reader of the configuration. A
  \<open>PathBuf\<close> is its components and whether it is absolute, which is what Rust compares. The decoder
  of the file (\<open>serde_json\<close>) is a parameter, and the file is given by what the system calls on it
  return.
\<close>

section \<open>Declarations\<close>

definition REQUIRED_ROLES :: "RoutingRole list" where
  "REQUIRED_ROLES = [Planner, Executor, Verifier, Repair]"

datatype RoleCapabilityPermission = Permission_Prohibited | Permission_SessionBound

datatype RoleCapabilityApproval = Approval_AlreadyAuthorized | Approval_InteractiveRequired

datatype PathBuf = PathBuf (pb_absolute: bool) (pb_components: path)

record ExplicitRoleCapability =
  erc_tool_names :: "string list"
  erc_workspace_root :: "PathBuf option"
  erc_shell :: RoleCapabilityPermission
  erc_network :: RoleCapabilityPermission
  erc_max_output_bytes :: nat
  erc_max_tool_calls :: nat
  erc_approval :: RoleCapabilityApproval

datatype RoleCapabilityState = RCS_Missing | RCS_NoTools | RCS_Explicit ExplicitRoleCapability

record RoleCapabilityDeclaration =
  rcd_role :: RoutingRole
  rcd_state :: RoleCapabilityState

definition declaration_missing :: "RoutingRole \<Rightarrow> RoleCapabilityDeclaration" where
  "declaration_missing role = \<lparr>rcd_role = role, rcd_state = RCS_Missing\<rparr>"

definition declaration_no_tools :: "RoutingRole \<Rightarrow> RoleCapabilityDeclaration" where
  "declaration_no_tools role = \<lparr>rcd_role = role, rcd_state = RCS_NoTools\<rparr>"

definition declaration_explicit :: "RoutingRole \<Rightarrow> ExplicitRoleCapability \<Rightarrow> RoleCapabilityDeclaration" where
  "declaration_explicit role capability = \<lparr>rcd_role = role, rcd_state = RCS_Explicit capability\<rparr>"

type_synonym RoleCapabilityConfiguration = "RoleCapabilityDeclaration list"

record RoleCapabilityValidationContext =
  rcc_workspace_root :: PathBuf
  rcc_available_tools :: tool_set
  rcc_shell_allowed :: bool
  rcc_network_allowed :: bool

record ValidatedRoleCapability =
  vrc_role :: RoutingRole
  vrc_tool_policy :: SubagentToolPolicy
  vrc_shell :: RoleCapabilityPermission
  vrc_network :: RoleCapabilityPermission
  vrc_approval :: RoleCapabilityApproval
  vrc_max_output_bytes :: nat
  vrc_max_tool_calls :: nat

type_synonym ValidatedRoleCapabilitySet = "(RoutingRole, ValidatedRoleCapability) btree_map"

definition capability_get :: "ValidatedRoleCapabilitySet \<Rightarrow> RoutingRole \<Rightarrow> ValidatedRoleCapability option" where
  "capability_get s role = bt_get s role"

datatype RoleCapabilityValidationError =
  RC_MissingRole | RC_DuplicateRole | RC_Invalid | RC_UnknownTool | RC_DuplicateTool | RC_ToolUnavailable
  | RC_WorkspaceMismatch | RC_ShellCapabilityExceedsSession | RC_NetworkCapabilityExceedsSession
  | RC_OutputBoundInvalid | RC_ToolBudgetInvalid | RC_ApprovalUnavailable | RC_IntentionalNoToolsConflict

section \<open>Validation\<close>

definition policy_from_parts :: "tool_set \<Rightarrow> path option \<Rightarrow> SubagentSessionBudget \<Rightarrow> SubagentToolPolicy" where
  "policy_from_parts approved_tools workspace_root budget =
     \<lparr>tp_approved_tools = approved_tools, tp_workspace_root = workspace_root, tp_budget = budget\<rparr>"

definition saturating_mul :: "nat \<Rightarrow> nat \<Rightarrow> nat" where
  "saturating_mul a b = min (a * b) u64_max"

definition validated_no_tools :: "RoutingRole \<Rightarrow> ValidatedRoleCapability" where
  "validated_no_tools role =
     \<lparr>vrc_role = role,
      vrc_tool_policy = policy_from_parts [] None
        (session_budget_default\<lparr>sb_max_tool_calls := 0, sb_max_tool_output_bytes := 0,
           sb_max_aggregate_tool_output_bytes := 0\<rparr>),
      vrc_shell = Permission_Prohibited, vrc_network = Permission_Prohibited,
      vrc_approval = Approval_AlreadyAuthorized, vrc_max_output_bytes = 0, vrc_max_tool_calls = 0\<rparr>"

fun collect_tools ::
  "tool_set \<Rightarrow> string list \<Rightarrow> tool_set \<Rightarrow> (RoleCapabilityValidationError, tool_set) result" where
  "collect_tools available [] tools = Inr tools"
| "collect_tools available (name # names) tools =
     res_bind (ok_or (from_provider_name name) RC_UnknownTool) (\<lambda>tool.
     res_bind (ensure (bt_get tools tool = None) RC_DuplicateTool) (\<lambda>_.
     res_bind (ensure (bt_get available tool \<noteq> None) RC_ToolUnavailable) (\<lambda>_.
       collect_tools available names (bt_insert tool () tools))))"

definition explicit_budget :: "ExplicitRoleCapability \<Rightarrow> ExecutionPolicy \<Rightarrow> SubagentSessionBudget" where
  "explicit_budget spec p =
     session_budget_default\<lparr>
       sb_max_provider_turns := min (sb_max_provider_turns session_budget_default) (ep_max_provider_invocations p),
       sb_max_tool_calls := erc_max_tool_calls spec,
       sb_max_tool_output_bytes := erc_max_output_bytes spec,
       sb_max_aggregate_tool_output_bytes :=
         min (sb_max_aggregate_tool_output_bytes session_budget_default)
             (saturating_mul (erc_max_output_bytes spec) (erc_max_tool_calls spec))\<rparr>"

definition validate_explicit ::
  "RoutingRole \<Rightarrow> ExplicitRoleCapability \<Rightarrow> ResolvedExecutionPolicy \<Rightarrow> RoleCapabilityValidationContext \<Rightarrow>
   (RoleCapabilityValidationError, ValidatedRoleCapability) result" where
  "validate_explicit role spec policy ctx =
     (let p = resolved_policy policy in
      res_bind (ensure (erc_tool_names spec \<noteq> []) RC_IntentionalNoToolsConflict) (\<lambda>_.
      res_bind (ensure (\<not> (erc_max_output_bytes spec = 0 \<or> erc_max_output_bytes spec > ep_max_tool_output_bytes p))
                  RC_OutputBoundInvalid) (\<lambda>_.
      res_bind (ensure (\<not> (erc_max_tool_calls spec = 0 \<or> erc_max_tool_calls spec > ep_max_tool_calls p))
                  RC_ToolBudgetInvalid) (\<lambda>_.
      res_bind (ensure (\<not> (erc_shell spec = Permission_SessionBound \<and> \<not> rcc_shell_allowed ctx))
                  RC_ShellCapabilityExceedsSession) (\<lambda>_.
      res_bind (ensure (\<not> (erc_network spec = Permission_SessionBound \<and> \<not> rcc_network_allowed ctx))
                  RC_NetworkCapabilityExceedsSession) (\<lambda>_.
      res_bind (ensure (erc_approval spec \<noteq> Approval_InteractiveRequired) RC_ApprovalUnavailable) (\<lambda>_.
      res_bind (ok_or (erc_workspace_root spec) RC_WorkspaceMismatch) (\<lambda>workspace_root.
      res_bind (ensure (workspace_root = rcc_workspace_root ctx) RC_WorkspaceMismatch) (\<lambda>_.
      res_bind (collect_tools (rcc_available_tools ctx) (erc_tool_names spec) []) (\<lambda>tools.
        Inr \<lparr>vrc_role = role,
             vrc_tool_policy = policy_from_parts tools (Some (pb_components workspace_root)) (explicit_budget spec p),
             vrc_shell = erc_shell spec, vrc_network = erc_network spec, vrc_approval = erc_approval spec,
             vrc_max_output_bytes = erc_max_output_bytes spec,
             vrc_max_tool_calls = erc_max_tool_calls spec\<rparr>))))))))))"

fun collect_declarations ::
  "RoleCapabilityDeclaration list \<Rightarrow> (RoutingRole, RoleCapabilityDeclaration) btree_map \<Rightarrow>
   (RoleCapabilityValidationError, (RoutingRole, RoleCapabilityDeclaration) btree_map) result" where
  "collect_declarations [] m = Inr m"
| "collect_declarations (d # ds) m =
     (if bt_get m (rcd_role d) \<noteq> None then Inl RC_DuplicateRole
      else collect_declarations ds (bt_insert (rcd_role d) d m))"

definition validate_declaration ::
  "ResolvedExecutionPolicy \<Rightarrow> RoleCapabilityValidationContext \<Rightarrow> RoutingRole \<Rightarrow> RoleCapabilityDeclaration \<Rightarrow>
   (RoleCapabilityValidationError, ValidatedRoleCapability) result" where
  "validate_declaration policy ctx role d =
     (case rcd_state d of
        RCS_Missing \<Rightarrow> Inl RC_MissingRole
      | RCS_NoTools \<Rightarrow> Inr (validated_no_tools role)
      | RCS_Explicit spec \<Rightarrow> validate_explicit (rcd_role d) spec policy ctx)"

fun validate_each ::
  "ResolvedExecutionPolicy \<Rightarrow> RoleCapabilityValidationContext \<Rightarrow>
   (RoutingRole \<times> RoleCapabilityDeclaration) list \<Rightarrow> ValidatedRoleCapabilitySet \<Rightarrow>
   (RoleCapabilityValidationError, ValidatedRoleCapabilitySet) result" where
  "validate_each policy ctx [] acc = Inr acc"
| "validate_each policy ctx ((role, d) # ds) acc =
     res_bind (validate_declaration policy ctx role d) (\<lambda>capability.
       validate_each policy ctx ds (bt_insert role capability acc))"

definition validate_role_capabilities ::
  "RoleCapabilityConfiguration \<Rightarrow> ResolvedExecutionPolicy \<Rightarrow> RoleCapabilityValidationContext \<Rightarrow>
   (RoleCapabilityValidationError, ValidatedRoleCapabilitySet) result" where
  "validate_role_capabilities configuration policy ctx =
     res_bind (ensure (pb_absolute (rcc_workspace_root ctx)) RC_WorkspaceMismatch) (\<lambda>_.
     res_bind (collect_declarations configuration []) (\<lambda>declarations.
     res_bind (try_each (\<lambda>role. ensure (bt_get declarations role \<noteq> None) RC_MissingRole) REQUIRED_ROLES) (\<lambda>_.
       validate_each policy ctx declarations [])))"

section \<open>The configuration file\<close>

definition ROLE_CAPABILITY_SCHEMA_VERSION :: nat where "ROLE_CAPABILITY_SCHEMA_VERSION = 1"
definition MAX_ROLE_CAPABILITY_FILE_BYTES :: nat where "MAX_ROLE_CAPABILITY_FILE_BYTES = 128 * 1024"

datatype RoleCapabilityConfigError =
  RCF_Unavailable | RCF_Unreadable | RCF_Oversized | RCF_Malformed | RCF_UnsupportedVersion | RCF_Invalid

datatype PersistedWorkspaceScope = Scope_Session
datatype PersistedPermission = Persisted_Prohibited | Persisted_SessionBound
datatype PersistedApproval = Persisted_PreAuthorized

datatype PersistedRoleCapability =
  Persisted_NoTools
| Persisted_Explicit "string list" PersistedWorkspaceScope PersistedPermission PersistedPermission nat nat
    PersistedApproval

record PersistedRoleCapabilityFile =
  prf_schema_version :: nat
  prf_planner :: "PersistedRoleCapability option"
  prf_executor :: "PersistedRoleCapability option"
  prf_verifier :: "PersistedRoleCapability option"
  prf_repair :: "PersistedRoleCapability option"

fun permission :: "PersistedPermission \<Rightarrow> RoleCapabilityPermission" where
  "permission Persisted_Prohibited = Permission_Prohibited"
| "permission Persisted_SessionBound = Permission_SessionBound"

fun persisted_declaration ::
  "RoutingRole \<Rightarrow> PersistedRoleCapability option \<Rightarrow> RoleCapabilityValidationContext \<Rightarrow> RoleCapabilityDeclaration" where
  "persisted_declaration role None ctx = declaration_missing role"
| "persisted_declaration role (Some Persisted_NoTools) ctx = \<lparr>rcd_role = role, rcd_state = RCS_NoTools\<rparr>"
| "persisted_declaration role (Some (Persisted_Explicit tool_names Scope_Session shell network out_bytes
       call_limit Persisted_PreAuthorized)) ctx =
     declaration_explicit role
       \<lparr>erc_tool_names = tool_names, erc_workspace_root = Some (rcc_workspace_root ctx),
        erc_shell = permission shell, erc_network = permission network,
        erc_max_output_bytes = out_bytes, erc_max_tool_calls = call_limit,
        erc_approval = Approval_AlreadyAuthorized\<rparr>"

text \<open>What the system calls on the file return: \<open>open\<close> fails, with \<open>NotFound\<close> or otherwise, or gives
  a handle with the length of its metadata and the bytes that can be read from it, if any.\<close>

datatype capability_file =
  File_NotFound | File_Denied | File_Opened (file_metadata_len: "nat option") (file_bytes: "string option")

fun read_bounded_file :: "capability_file \<Rightarrow> (RoleCapabilityConfigError, string) result" where
  "read_bounded_file File_NotFound = Inl RCF_Unavailable"
| "read_bounded_file File_Denied = Inl RCF_Unreadable"
| "read_bounded_file (File_Opened metadata content) =
     res_bind (ok_or metadata RCF_Unreadable) (\<lambda>len.
     res_bind (ensure (len \<le> MAX_ROLE_CAPABILITY_FILE_BYTES) RCF_Oversized) (\<lambda>_.
     res_bind (ok_or (map_option (take (MAX_ROLE_CAPABILITY_FILE_BYTES + 1)) content) RCF_Unreadable) (\<lambda>bytes.
     res_bind (ensure (length bytes \<le> MAX_ROLE_CAPABILITY_FILE_BYTES) RCF_Oversized) (\<lambda>_.
       Inr bytes))))"

definition persisted_configuration ::
  "PersistedRoleCapabilityFile \<Rightarrow> RoleCapabilityValidationContext \<Rightarrow> RoleCapabilityConfiguration" where
  "persisted_configuration persisted ctx =
     [persisted_declaration Planner (prf_planner persisted) ctx,
      persisted_declaration Executor (prf_executor persisted) ctx,
      persisted_declaration Verifier (prf_verifier persisted) ctx,
      persisted_declaration Repair (prf_repair persisted) ctx]"

definition load_role_capabilities ::
  "(string \<Rightarrow> PersistedRoleCapabilityFile option) \<Rightarrow> capability_file \<Rightarrow> ResolvedExecutionPolicy \<Rightarrow>
   RoleCapabilityValidationContext \<Rightarrow> (RoleCapabilityConfigError, ValidatedRoleCapabilitySet) result" where
  "load_role_capabilities from_slice handle policy ctx =
     res_bind (read_bounded_file handle) (\<lambda>bytes.
     res_bind (ok_or (from_slice bytes) RCF_Malformed) (\<lambda>persisted.
     res_bind (ensure (prf_schema_version persisted = ROLE_CAPABILITY_SCHEMA_VERSION) RCF_UnsupportedVersion) (\<lambda>_.
       map_err (\<lambda>_. RCF_Invalid)
         (validate_role_capabilities (persisted_configuration persisted ctx) policy ctx))))"

section \<open>What validation accepts\<close>

lemma set_bt_insert_fresh: "bt_get m k = None \<Longrightarrow> set (bt_insert k v m) = insert (k, v) (set m)"
  by (induction k v m rule: bt_insert.induct) (auto split: if_splits)

lemma collect_declarations_ok:
  "is_ok (collect_declarations ds m) \<longleftrightarrow>
     distinct (map rcd_role ds) \<and> rcd_role ` set ds \<inter> fst ` set m = {}"
  by (induction ds m rule: collect_declarations.induct)
    (auto simp: bt_get_None_iff simp del: not_None_eq split: if_splits)

lemma collect_declarations_set:
  "collect_declarations ds m = Inr m' \<Longrightarrow> set m' = set m \<union> (\<lambda>d. (rcd_role d, d)) ` set ds"
  by (induction ds m rule: collect_declarations.induct) (auto simp: set_bt_insert_fresh split: if_splits)

lemma collect_declarations_wf: "collect_declarations ds m = Inr m' \<Longrightarrow> bt_wf m \<Longrightarrow> bt_wf m'"
  by (induction ds m rule: collect_declarations.induct) (auto split: if_splits)

lemma validate_each_ok:
  "is_ok (validate_each policy ctx ds acc) \<longleftrightarrow>
     (\<forall>(role, d) \<in> set ds. is_ok (validate_declaration policy ctx role d))"
proof (induction policy ctx ds acc rule: validate_each.induct)
  case (2 policy ctx role d ds acc)
  then show ?case by (cases "validate_declaration policy ctx role d") auto
qed simp

lemma validate_each_elem:
  "validate_each policy ctx ds acc = Inr s \<Longrightarrow> (role, c) \<in> set s \<Longrightarrow>
   (role, c) \<in> set acc \<or> (\<exists>d. (role, d) \<in> set ds \<and> validate_declaration policy ctx role d = Inr c)"
proof (induction policy ctx ds acc rule: validate_each.induct)
  case (2 policy ctx r d ds acc)
  then show ?case using set_bt_insert_subset by (fastforce simp: result_simps)
qed simp

lemma validate_each_keys:
  "validate_each policy ctx ds acc = Inr s \<Longrightarrow> fst ` set s = fst ` set acc \<union> fst ` set ds"
proof (induction policy ctx ds acc rule: validate_each.induct)
  case (2 policy ctx role d ds acc)
  then show ?case by (cases "validate_declaration policy ctx role d") simp_all
qed simp

lemma validate_each_wf: "validate_each policy ctx ds acc = Inr s \<Longrightarrow> bt_wf acc \<Longrightarrow> bt_wf s"
  by (induction policy ctx ds acc rule: validate_each.induct) (auto simp: result_simps)

lemma from_provider_name_inj: "from_provider_name a = Some t \<Longrightarrow> from_provider_name b = Some t \<Longrightarrow> a = b"
  by (auto simp: from_provider_name_def split: if_splits)

lemma Some_subset_insert: "N \<subseteq> Some ` (A - insert t T) \<longleftrightarrow> Some t \<notin> N \<and> N \<subseteq> Some ` (A - T)"
  by blast

lemma Some_mem_iff: "Some t \<in> Some ` X \<longleftrightarrow> t \<in> X"
  by blast

lemma named_iff: "from_provider_name name = Some t \<Longrightarrow> Some t \<in> from_provider_name ` set names \<longleftrightarrow> name \<in> set names"
  unfolding image_iff by (metis from_provider_name_inj)

lemma fresh_name:
  assumes "from_provider_name name = Some t"
  shows "t \<notin> T \<and> t \<in> A \<and> distinct names \<and> from_provider_name ` set names \<subseteq> Some ` (A - insert t T) \<longleftrightarrow>
    distinct (name # names) \<and> from_provider_name ` set (name # names) \<subseteq> Some ` (A - T)"
  by (simp only: Some_subset_insert named_iff [OF assms] list.set image_insert insert_subset assms Some_mem_iff
      distinct.simps Diff_iff) argo

lemma collect_tools_ok:
  "is_ok (collect_tools available names tools) \<longleftrightarrow>
     distinct names \<and> from_provider_name ` set names \<subseteq> Some ` (fst ` set available - fst ` set tools)"
proof (induction available names tools rule: collect_tools.induct)
  case (2 available name names tools)
  show ?case
  proof (cases "from_provider_name name")
    case (Some t)
    have "is_ok (collect_tools available (name # names) tools) \<longleftrightarrow>
        t \<notin> fst ` set tools \<and> t \<in> fst ` set available
        \<and> is_ok (collect_tools available names (bt_insert t () tools))"
      by (simp add: Some bt_get_None_iff ensure_def del: not_None_eq)
    then show ?thesis unfolding 2 [of t] fst_bt_insert fresh_name [OF Some] .
  next
    case None
    then show ?thesis by (simp add: image_iff)
  qed
qed simp

lemma collect_tools_set:
  "collect_tools available names tools = Inr ts \<Longrightarrow>
   Some ` fst ` set ts = Some ` fst ` set tools \<union> from_provider_name ` set names"
proof (induction available names tools rule: collect_tools.induct)
  case (2 available name names tools)
  then obtain t where t: "from_provider_name name = Some t"
    and rest: "collect_tools available names (bt_insert t () tools) = Inr ts"
    by (auto simp: result_simps)
  have "Some ` fst ` set ts = Some ` fst ` set (bt_insert t () tools) \<union> from_provider_name ` set names"
    using 2 t rest by (auto simp: result_simps)
  then show ?case by (simp add: t)
qed simp

definition explicit_accepted :: "ExecutionPolicy \<Rightarrow> RoleCapabilityValidationContext \<Rightarrow> ExplicitRoleCapability \<Rightarrow> bool" where
  "explicit_accepted p ctx spec \<longleftrightarrow>
     erc_tool_names spec \<noteq> [] \<and> distinct (erc_tool_names spec)
     \<and> list_all (\<lambda>n. case from_provider_name n of None \<Rightarrow> False
                    | Some t \<Rightarrow> t \<in> set (bt_keys (rcc_available_tools ctx))) (erc_tool_names spec)
     \<and> 0 < erc_max_output_bytes spec \<and> erc_max_output_bytes spec \<le> ep_max_tool_output_bytes p
     \<and> 0 < erc_max_tool_calls spec \<and> erc_max_tool_calls spec \<le> ep_max_tool_calls p
     \<and> (erc_shell spec = Permission_Prohibited \<or> rcc_shell_allowed ctx)
     \<and> (erc_network spec = Permission_Prohibited \<or> rcc_network_allowed ctx)
     \<and> erc_approval spec = Approval_AlreadyAuthorized
     \<and> erc_workspace_root spec = Some (rcc_workspace_root ctx)"

fun declaration_accepted :: "ExecutionPolicy \<Rightarrow> RoleCapabilityValidationContext \<Rightarrow> RoleCapabilityState \<Rightarrow> bool" where
  "declaration_accepted p ctx RCS_Missing \<longleftrightarrow> False"
| "declaration_accepted p ctx RCS_NoTools \<longleftrightarrow> True"
| "declaration_accepted p ctx (RCS_Explicit spec) \<longleftrightarrow> explicit_accepted p ctx spec"

lemma not_prohibited: "x \<noteq> Permission_SessionBound \<longleftrightarrow> x = Permission_Prohibited"
  by (cases x) auto

lemma not_interactive: "x \<noteq> Approval_InteractiveRequired \<longleftrightarrow> x = Approval_AlreadyAuthorized"
  by (cases x) auto

lemma bt_get_not_None: "bt_get m k \<noteq> None \<longleftrightarrow> k \<in> set (bt_keys m)"
  by (auto simp: bt_keys_def bt_get_None_iff)

lemma validate_explicit_ok:
  "is_ok (validate_explicit role spec policy ctx) \<longleftrightarrow> explicit_accepted (resolved_policy policy) ctx spec"
proof -
  have tools: "is_ok (collect_tools (rcc_available_tools ctx) (erc_tool_names spec) []) \<longleftrightarrow>
     distinct (erc_tool_names spec) \<and> list_all (\<lambda>n. case from_provider_name n of None \<Rightarrow> False
        | Some t \<Rightarrow> t \<in> set (bt_keys (rcc_available_tools ctx))) (erc_tool_names spec)"
    unfolding collect_tools_ok list_all_iff image_subset_iff bt_keys_def set_map
    by (intro conj_cong ball_cong refl) (simp_all add: image_iff split: option.split)
  show ?thesis
    unfolding explicit_accepted_def validate_explicit_def Let_def
    using tools
    by (auto simp: is_ok_iff result_simps not_prohibited not_interactive)
qed

lemma validate_declaration_ok:
  "is_ok (validate_declaration policy ctx role d) \<longleftrightarrow>
     declaration_accepted (resolved_policy policy) ctx (rcd_state d)"
  by (cases "rcd_state d") (simp_all add: validate_declaration_def validate_explicit_ok)

text \<open>Which role configurations are accepted. Validation succeeds exactly when the session's workspace is
  an absolute path, no role is declared twice, the planner, executor, verifier and repair roles are all
  declared, and every declaration either renounces tools or lists distinct known tools of the session,
  non-zero bounds within the resolved policy, no permission beyond the session's, no pending approval and
  the session's own workspace.\<close>

theorem role_capabilities_accepted_iff:
  "is_ok (validate_role_capabilities configuration policy ctx) \<longleftrightarrow>
     pb_absolute (rcc_workspace_root ctx)
     \<and> distinct (map rcd_role configuration)
     \<and> set REQUIRED_ROLES \<subseteq> set (map rcd_role configuration)
     \<and> list_all (\<lambda>d. declaration_accepted (resolved_policy policy) ctx (rcd_state d)) configuration"
proof (cases "collect_declarations configuration []")
  case (Inl e)
  then have "\<not> distinct (map rcd_role configuration)"
    using collect_declarations_ok [of configuration "[]"] by simp
  then show ?thesis
    using Inl by (simp add: validate_role_capabilities_def is_ok_iff result_simps)
next
  case (Inr m)
  have d: "distinct (map rcd_role configuration)"
    using Inr collect_declarations_ok [of configuration "[]"] by (simp add: is_ok_iff)
  have s: "set m = (\<lambda>d. (rcd_role d, d)) ` set configuration"
    using collect_declarations_set [OF Inr] by simp
  then have k: "bt_get m role \<noteq> None \<longleftrightarrow> role \<in> set (map rcd_role configuration)" for role
    by (simp add: bt_get_not_None bt_keys_def image_image del: not_None_eq)
  have "is_ok (validate_each policy ctx m []) \<longleftrightarrow>
      list_all (\<lambda>d. declaration_accepted (resolved_policy policy) ctx (rcd_state d)) configuration"
    by (auto simp: validate_each_ok s list_all_iff validate_declaration_ok)
  then show ?thesis
    using Inr d k by (auto simp: validate_role_capabilities_def is_ok_iff result_simps simp del: not_None_eq)
qed

section \<open>What an accepted configuration grants\<close>

definition within_authority ::
  "ExecutionPolicy \<Rightarrow> RoleCapabilityValidationContext \<Rightarrow> ValidatedRoleCapability \<Rightarrow> bool" where
  "within_authority p ctx c \<longleftrightarrow>
     (let t = vrc_tool_policy c; b = tp_budget t in
      set (bt_keys (tp_approved_tools t)) \<subseteq> set (bt_keys (rcc_available_tools ctx))
      \<and> (tp_approved_tools t = [] \<or> tp_workspace_root t = Some (pb_components (rcc_workspace_root ctx)))
      \<and> sb_max_tool_calls b = vrc_max_tool_calls c \<and> vrc_max_tool_calls c \<le> ep_max_tool_calls p
      \<and> sb_max_tool_output_bytes b = vrc_max_output_bytes c \<and> vrc_max_output_bytes c \<le> ep_max_tool_output_bytes p
      \<and> sb_max_aggregate_tool_output_bytes b \<le> vrc_max_output_bytes c * vrc_max_tool_calls c
      \<and> (vrc_shell c = Permission_Prohibited \<or> rcc_shell_allowed ctx)
      \<and> (vrc_network c = Permission_Prohibited \<or> rcc_network_allowed ctx)
      \<and> vrc_approval c = Approval_AlreadyAuthorized)"

lemma validate_explicit_result:
  assumes "validate_explicit role spec policy ctx = Inr c"
  shows "vrc_role c = role" "within_authority (resolved_policy policy) ctx c"
    "tp_approved_tools (vrc_tool_policy c) \<noteq> []"
    "tp_budget (vrc_tool_policy c) = explicit_budget spec (resolved_policy policy)"
    "0 < erc_max_output_bytes spec" "0 < erc_max_tool_calls spec"
    "tp_workspace_root (vrc_tool_policy c) \<noteq> None"
proof -
  have acc: "explicit_accepted (resolved_policy policy) ctx spec"
    using assms validate_explicit_ok [of role spec policy ctx] by simp
  obtain tools where tools: "collect_tools (rcc_available_tools ctx) (erc_tool_names spec) [] = Inr tools"
    and c: "c = \<lparr>vrc_role = role,
             vrc_tool_policy = policy_from_parts tools (Some (pb_components (rcc_workspace_root ctx)))
               (explicit_budget spec (resolved_policy policy)),
             vrc_shell = erc_shell spec, vrc_network = erc_network spec, vrc_approval = erc_approval spec,
             vrc_max_output_bytes = erc_max_output_bytes spec,
             vrc_max_tool_calls = erc_max_tool_calls spec\<rparr>"
    using assms by (auto simp: validate_explicit_def Let_def result_simps)
  have named: "Some ` fst ` set tools = from_provider_name ` set (erc_tool_names spec)"
    using collect_tools_set [OF tools] by simp
  have "from_provider_name ` set (erc_tool_names spec) \<subseteq> Some ` fst ` set (rcc_available_tools ctx)"
    using tools collect_tools_ok [of "rcc_available_tools ctx" "erc_tool_names spec" "[]"] by simp
  then have "fst ` set tools \<subseteq> fst ` set (rcc_available_tools ctx)"
    unfolding named [symmetric] by blast
  then show "within_authority (resolved_policy policy) ctx c"
    using acc by (auto simp: within_authority_def explicit_accepted_def c policy_from_parts_def
        explicit_budget_def saturating_mul_def bt_keys_def Let_def)
  have "erc_tool_names spec \<noteq> []" using acc by (simp add: explicit_accepted_def)
  then show "tp_approved_tools (vrc_tool_policy c) \<noteq> []" using named by (auto simp: c policy_from_parts_def)
  show "vrc_role c = role" "tp_budget (vrc_tool_policy c) = explicit_budget spec (resolved_policy policy)"
    "0 < erc_max_output_bytes spec" "0 < erc_max_tool_calls spec" "tp_workspace_root (vrc_tool_policy c) \<noteq> None"
    using acc by (simp_all add: c policy_from_parts_def explicit_accepted_def)
qed

lemma validated_role_origin:
  assumes "validate_role_capabilities configuration policy ctx = Inr s" "capability_get s role = Some c"
  obtains (no_tools) "c = validated_no_tools role"
  | (explicit) spec where "validate_explicit role spec policy ctx = Inr c"
proof -
  obtain m where m: "collect_declarations configuration [] = Inr m" "validate_each policy ctx m [] = Inr s"
    using assms(1) by (auto simp: validate_role_capabilities_def result_simps)
  have "(role, c) \<in> set s" using assms(2) bt_get_in_set unfolding capability_get_def by fast
  then obtain d where d: "(role, d) \<in> set m" "validate_declaration policy ctx role d = Inr c"
    using validate_each_elem [OF m(2)] by auto
  then have "rcd_role d = role" using collect_declarations_set [OF m(1)] by auto
  then show thesis
    using d(2) that by (cases "rcd_state d") (auto simp: validate_declaration_def)
qed

lemma validated_keys:
  assumes "validate_role_capabilities configuration policy ctx = Inr s"
  shows "set (bt_keys s) = set (map rcd_role configuration)" "bt_wf s"
proof -
  obtain m where m: "collect_declarations configuration [] = Inr m" "validate_each policy ctx m [] = Inr s"
    using assms(1) by (auto simp: validate_role_capabilities_def result_simps)
  show "set (bt_keys s) = set (map rcd_role configuration)"
    using validate_each_keys [OF m(2)] collect_declarations_set [OF m(1)]
    by (simp add: bt_keys_def image_image)
  show "bt_wf s" using validate_each_wf [OF m(2)] by simp
qed

lemma no_tools_within: "vrc_role (validated_no_tools role) = role" "within_authority p ctx (validated_no_tools role)"
  by (simp_all add: within_authority_def validated_no_tools_def policy_from_parts_def bt_keys_def)



section \<open>An example\<close>

definition demo_persisted :: PersistedRoleCapabilityFile where
  "demo_persisted =
     (let reader = Persisted_Explicit [''read_file'', ''search_text''] Scope_Session Persisted_Prohibited
            Persisted_Prohibited 4096 4 Persisted_PreAuthorized
      in \<lparr>prf_schema_version = 1, prf_planner = Some Persisted_NoTools, prf_executor = Some reader,
          prf_verifier = Some reader, prf_repair = Some Persisted_NoTools\<rparr>)"

definition demo_policy :: ResolvedExecutionPolicy where
  "demo_policy = \<lparr>resolved_selected_mode = Select_Balanced, resolved_source = Source_BuiltIn BuiltIn_Balanced,
     resolved_policy = builtin BuiltIn_Balanced\<rparr>"

definition demo_context :: RoleCapabilityValidationContext where
  "demo_context = \<lparr>rcc_workspace_root = PathBuf True [''w''],
     rcc_available_tools = [(ReadFile, ()), (SearchText, ())], rcc_shell_allowed = False,
     rcc_network_allowed = False\<rparr>"

lemma demo_declared:
  "persisted_configuration demo_persisted demo_context =
     (let reader = \<lparr>erc_tool_names = [''read_file'', ''search_text''], erc_workspace_root = Some (PathBuf True [''w'']),
        erc_shell = Permission_Prohibited, erc_network = Permission_Prohibited, erc_max_output_bytes = 4096,
        erc_max_tool_calls = 4, erc_approval = Approval_AlreadyAuthorized\<rparr>
      in [declaration_no_tools Planner, declaration_explicit Executor reader, declaration_explicit Verifier reader,
          declaration_no_tools Repair])"
  by (simp add: persisted_configuration_def demo_persisted_def demo_context_def declaration_no_tools_def Let_def)

lemma demo_validated:
  "\<exists>s. validate_role_capabilities (persisted_configuration demo_persisted demo_context) demo_policy demo_context = Inr s
     \<and> capability_get s Planner = Some (validated_no_tools Planner)"
  unfolding demo_declared
  by (simp add: Let_def declaration_no_tools_def declaration_explicit_def REQUIRED_ROLES_def
      validate_role_capabilities_def validate_declaration_def validate_explicit_def capability_get_def
      demo_context_def demo_policy_def from_provider_name_def make_policy_def less_RoutingRole_def
      less_SubagentToolKind_def)

lemma demo_loaded:
  "\<exists>s. load_role_capabilities (\<lambda>_. Some demo_persisted) (File_Opened (Some 2) (Some ''{}'')) demo_policy demo_context = Inr s
     \<and> validate_role_capabilities (persisted_configuration demo_persisted demo_context) demo_policy demo_context = Inr s"
proof -
  obtain s where "validate_role_capabilities (persisted_configuration demo_persisted demo_context) demo_policy demo_context = Inr s"
    using demo_validated by blast
  moreover have "prf_schema_version demo_persisted = ROLE_CAPABILITY_SCHEMA_VERSION"
    by (simp add: demo_persisted_def ROLE_CAPABILITY_SCHEMA_VERSION_def Let_def)
  ultimately show ?thesis
    by (simp add: load_role_capabilities_def MAX_ROLE_CAPABILITY_FILE_BYTES_def)
qed



end
