(* ===== verification/Task_Set.thy ===== *)
theory Task_Set
  imports Syn_Prelude
begin

text \<open>
  The set of spawned tasks that the batch schedulers share (\<open>tokio\<close>'s \<open>JoinSet\<close> as
  \<open>subagent_batch.rs\<close> and \<open>subagent_repair.rs\<close> use it): its live tasks with their identifiers, and
  the two counters the tasks themselves maintain, the active count and its peak. A task counts itself
  in when it is first polled and out when its guard is dropped. Joining takes a task that has ended
  out of the set.

  The schedulers remember which input a task belongs to in a map from identifiers to indices; the
  lemmas on \<open>indexed\<close> say that this map stays in step with the set as long as the executor gives a
  task an identifier no other live task has.
\<close>

datatype task_phase = Phase_Spawned | Phase_Active | Phase_Finished

record task_set =
  ts_tasks :: "(nat \<times> task_phase) list"
  ts_active :: nat
  ts_peak :: nat

abbreviation ts_ids :: "task_set \<Rightarrow> nat list" where
  "ts_ids ts \<equiv> map fst (ts_tasks ts)"

abbreviation ts_len :: "task_set \<Rightarrow> nat" where
  "ts_len ts \<equiv> length (ts_tasks ts)"

definition ts_empty :: task_set where
  "ts_empty = \<lparr>ts_tasks = [], ts_active = 0, ts_peak = 0\<rparr>"

definition ts_spawn :: "nat \<Rightarrow> task_set \<Rightarrow> task_set" where
  "ts_spawn i ts = ts\<lparr>ts_tasks := ts_tasks ts @ [(i, Phase_Spawned)]\<rparr>"

definition wrapping_pred :: "nat \<Rightarrow> nat" where
  "wrapping_pred n = (n + 2 ^ 64 - 1) mod 2 ^ 64"

definition start_task :: "nat \<Rightarrow> task_set \<Rightarrow> task_set" where
  "start_task p ts =
     (if p < ts_len ts \<and> snd (ts_tasks ts ! p) = Phase_Spawned
      then \<lparr>ts_tasks = (ts_tasks ts)[p := (fst (ts_tasks ts ! p), Phase_Active)],
            ts_active = wrapping_add (ts_active ts) 1,
            ts_peak = max (ts_peak ts) (wrapping_add (ts_active ts) 1)\<rparr>
      else ts)"

definition finish_task :: "nat \<Rightarrow> task_set \<Rightarrow> task_set" where
  "finish_task p ts =
     (if p < ts_len ts \<and> snd (ts_tasks ts ! p) = Phase_Active
      then ts\<lparr>ts_tasks := (ts_tasks ts)[p := (fst (ts_tasks ts ! p), Phase_Finished)],
              ts_active := wrapping_pred (ts_active ts)\<rparr>
      else ts)"

text \<open>What the tasks do while the scheduler waits, by their position in the set.\<close>

datatype activity = Starts nat | Finishes nat

fun do_activity :: "activity \<Rightarrow> task_set \<Rightarrow> task_set" where
  "do_activity (Starts p) ts = start_task p ts"
| "do_activity (Finishes p) ts = finish_task p ts"

definition remove_at :: "nat \<Rightarrow> 'a list \<Rightarrow> 'a list" where
  "remove_at p xs = take p xs @ drop (Suc p) xs"

text \<open>\<open>join_next_with_id\<close>: unless the executor aborted the task, it has run to its end by then.\<close>

definition take_joined :: "bool \<Rightarrow> nat \<Rightarrow> task_set \<Rightarrow> task_set" where
  "take_joined aborted p ts =
     (let ended = finish_task p (if aborted then ts else start_task p ts)
      in ended\<lparr>ts_tasks := remove_at p (ts_tasks ended)\<rparr>)"

section \<open>Removal\<close>

lemma map_remove_at: "map f (remove_at p xs) = remove_at p (map f xs)"
  by (simp add: remove_at_def take_map drop_map)

lemma length_remove_at: "p < length xs \<Longrightarrow> length (remove_at p xs) = length xs - 1"
  by (simp add: remove_at_def)

lemma set_remove_at: "distinct xs \<Longrightarrow> p < length xs \<Longrightarrow> set (remove_at p xs) = set xs - {xs ! p}"
proof -
  assume "distinct xs" "p < length xs"
  then have "distinct (take p xs @ xs ! p # drop (Suc p) xs)" "set xs = set (take p xs @ xs ! p # drop (Suc p) xs)"
    by (simp_all add: id_take_nth_drop [symmetric])
  then show ?thesis by (auto simp: remove_at_def)
qed

lemma distinct_remove_at: "distinct xs \<Longrightarrow> distinct (remove_at p xs)"
  using set_take_disj_set_drop_if_distinct [of xs p "Suc p"] by (auto simp: remove_at_def)

section \<open>Identifiers\<close>

lemma fst_phase_update [simp]: "map fst (xs[p := (fst (xs ! p), y)]) = map fst xs"
  by (cases "p < length xs") (simp_all add: map_update list_update_same_conv list_update_beyond)

lemma ts_ids_steps [simp]:
  "ts_ids (start_task p ts) = ts_ids ts" "ts_ids (finish_task p ts) = ts_ids ts"
  "ts_ids (do_activity a ts) = ts_ids ts"
  by (simp_all add: start_task_def finish_task_def, cases a)
    (simp_all add: start_task_def finish_task_def)

lemma ts_ids_activities [simp]: "ts_ids (fold do_activity as ts) = ts_ids ts"
  by (induction as arbitrary: ts) simp_all

lemma ts_len_steps [simp]:
  "ts_len (start_task p ts) = ts_len ts" "ts_len (finish_task p ts) = ts_len ts"
  "ts_len (fold do_activity as ts) = ts_len ts"
  using ts_ids_steps(1,2) [of p ts] ts_ids_activities [of as ts] by (metis length_map)+

lemma ts_ids_joined [simp]: "ts_ids (take_joined aborted p ts) = remove_at p (ts_ids ts)"
  by (simp add: take_joined_def Let_def map_remove_at)

lemma ts_len_joined [simp]: "p < ts_len ts \<Longrightarrow> ts_len (take_joined aborted p ts) = ts_len ts - 1"
  by (simp add: take_joined_def Let_def length_remove_at)

lemma ts_spawn_simps [simp]:
  "ts_ids (ts_spawn i ts) = ts_ids ts @ [i]" "ts_len (ts_spawn i ts) = Suc (ts_len ts)"
  "ts_tasks (ts_spawn i ts) = ts_tasks ts @ [(i, Phase_Spawned)]"
  by (simp_all add: ts_spawn_def)

lemma ts_empty_simps [simp]: "ts_tasks ts_empty = []" "ts_peak ts_empty = 0" "ts_active ts_empty = 0"
  by (simp_all add: ts_empty_def)

section \<open>Concurrency\<close>

definition active_tasks :: "task_set \<Rightarrow> nat" where
  "active_tasks ts = sum_list (map (\<lambda>x. of_bool (snd x = Phase_Active)) (ts_tasks ts))"

definition within_limit :: "nat \<Rightarrow> task_set \<Rightarrow> bool" where
  "within_limit n ts \<longleftrightarrow> ts_len ts \<le> n \<and> ts_active ts = active_tasks ts \<and> ts_peak ts \<le> n"

lemma active_tasks_le: "active_tasks ts \<le> ts_len ts"
proof -
  have "sum_list (map (\<lambda>x. of_bool (P x)) xs) \<le> length xs" for P and xs :: "'x list"
    by (induction xs) auto
  then show ?thesis by (simp add: active_tasks_def)
qed

lemma sum_list_map_update:
  "p < length xs \<Longrightarrow> sum_list (map f (xs[p := y])) + f (xs ! p) = sum_list (map f xs) + (f y :: nat)"
  using elem_le_sum_list [of p "map f xs"] by (simp add: map_update sum_list_update)

lemma sum_list_remove_at:
  "p < length xs \<Longrightarrow> sum_list (map f (remove_at p xs)) + f (xs ! p) = (sum_list (map f xs) :: nat)"
  using arg_cong [OF id_take_nth_drop [of p xs], of "\<lambda>ys. sum_list (map f ys)"] by (simp add: remove_at_def)

lemma active_tasks_update:
  assumes "p < ts_len ts" "snd (ts_tasks ts ! p) = ph"
  shows "active_tasks \<lparr>ts_tasks = (ts_tasks ts)[p := (i, ph')], ts_active = a, ts_peak = k\<rparr> + of_bool (ph = Phase_Active)
     = active_tasks ts + of_bool (ph' = Phase_Active)"
  using sum_list_map_update [OF assms(1), of "\<lambda>x. of_bool (snd x = Phase_Active)" "(i, ph')"] assms(2)
  by (simp add: active_tasks_def)

lemma wrapping_pred_Suc: "Suc n < 2 ^ 64 \<Longrightarrow> wrapping_pred (Suc n) = n"
  by (simp add: wrapping_pred_def)

lemma start_task_within:
  assumes "within_limit n ts" "n < 2 ^ 64"
  shows "within_limit n (start_task p ts)"
proof (cases "p < ts_len ts \<and> snd (ts_tasks ts ! p) = Phase_Spawned")
  case True
  then have "active_tasks (start_task p ts) = Suc (active_tasks ts)"
    using active_tasks_update [of p ts Phase_Spawned _ Phase_Active] by (simp add: start_task_def)
  moreover have "active_tasks (start_task p ts) \<le> ts_len ts" using active_tasks_le [of "start_task p ts"] by simp
  ultimately show ?thesis
    using assms True by (auto simp: within_limit_def start_task_def wrapping_add_def)
qed (use assms in \<open>auto simp: start_task_def\<close>)

lemma finish_task_within:
  assumes "within_limit n ts" "n < 2 ^ 64"
  shows "within_limit n (finish_task p ts)"
proof (cases "p < ts_len ts \<and> snd (ts_tasks ts ! p) = Phase_Active")
  case True
  then have less: "Suc (active_tasks (finish_task p ts)) = active_tasks ts"
    using active_tasks_update [of p ts Phase_Active _ Phase_Finished] by (cases ts) (simp add: finish_task_def)
  have "active_tasks ts < 2 ^ 64"
    using active_tasks_le [of ts] assms by (auto simp: within_limit_def)
  then have "wrapping_pred (active_tasks ts) = active_tasks (finish_task p ts)"
    using wrapping_pred_Suc [of "active_tasks (finish_task p ts)"] less by simp
  then show ?thesis
    using assms True by (simp add: within_limit_def finish_task_def)
qed (use assms in \<open>auto simp: finish_task_def\<close>)

lemma activities_within: "within_limit n ts \<Longrightarrow> n < 2 ^ 64 \<Longrightarrow> within_limit n (fold do_activity as ts)"
proof (induction as arbitrary: ts)
  case (Cons a as)
  then show ?case by (cases a) (simp_all add: start_task_within finish_task_within)
qed simp

lemma ended_not_active: "p < ts_len ts \<Longrightarrow> snd (ts_tasks (finish_task p ts) ! p) \<noteq> Phase_Active"
  by (simp add: finish_task_def)

lemma take_joined_within:
  assumes "within_limit n ts" "n < 2 ^ 64" "p < ts_len ts"
  shows "within_limit n (take_joined aborted p ts)"
proof -
  let ?ts = "finish_task p (if aborted then ts else start_task p ts)"
  have inv: "within_limit n ?ts" using assms(1,2) by (simp add: start_task_within finish_task_within)
  have len: "p < ts_len ?ts" using assms(3) by simp
  have "snd (ts_tasks ?ts ! p) \<noteq> Phase_Active" by (rule ended_not_active) (use assms(3) in simp)
  then have "active_tasks (?ts\<lparr>ts_tasks := remove_at p (ts_tasks ?ts)\<rparr>) = active_tasks ?ts"
    using sum_list_remove_at [OF len, of "\<lambda>x. of_bool (snd x = Phase_Active)"] by (simp add: active_tasks_def)
  then show ?thesis
    using inv length_remove_at [OF len] by (simp add: take_joined_def Let_def within_limit_def split: if_splits)
qed

lemma ts_spawn_within: "within_limit n ts \<Longrightarrow> ts_len ts < n \<Longrightarrow> within_limit n (ts_spawn i ts)"
  by (simp add: within_limit_def active_tasks_def ts_spawn_def)

lemma ts_empty_within: "within_limit n ts_empty"
  by (simp add: within_limit_def active_tasks_def)

section \<open>Indices\<close>

lemma index_map_spawn:
  assumes "map m ids = map Some is" "i \<notin> set ids"
  shows "map (m(i \<mapsto> n)) (ids @ [i]) = map Some (is @ [n])"
  unfolding map_append assms(1) [symmetric] using map_fun_upd [OF assms(2), of m "Some n"] by (simp del: fun_upd_apply) simp

lemma index_map_lookup: "map m ids = map Some is \<Longrightarrow> p < length ids \<Longrightarrow> m (ids ! p) = Some (is ! p)"
  by (metis (no_types, lifting) length_map nth_map)

lemma index_map_join:
  assumes "map m ids = map Some is" "distinct is" "p < length ids"
  shows "map (m(ids ! p := None)) (remove_at p ids) = map Some (remove_at p is)"
proof -
  have "distinct (map m ids)" using assms(1,2) by (simp add: distinct_map)
  then have "distinct ids" by (simp only: distinct_map)
  then have "ids ! p \<notin> set (remove_at p ids)" by (simp add: set_remove_at assms(3))
  then have "map (m(ids ! p := None)) (remove_at p ids) = map m (remove_at p ids)" by (rule map_fun_upd)
  also have "\<dots> = map Some (remove_at p is)" by (simp only: map_remove_at assms(1))
  finally show ?thesis .
qed

definition indexed :: "task_set \<Rightarrow> (nat \<rightharpoonup> nat) \<Rightarrow> nat set \<Rightarrow> bool" where
  "indexed ts m X \<longleftrightarrow> (\<exists>is. map m (ts_ids ts) = map Some is \<and> distinct is \<and> set is = X)"

lemma indexed_empty: "indexed ts_empty m {}"
  by (simp add: indexed_def)

lemma indexed_no_tasks: "indexed ts m X \<Longrightarrow> ts_tasks ts = [] \<Longrightarrow> X = {}"
  by (auto simp: indexed_def)

lemma indexed_cong: "ts_ids ts' = ts_ids ts \<Longrightarrow> indexed ts' m X \<longleftrightarrow> indexed ts m X"
  by (simp add: indexed_def)

lemma indexed_spawn:
  assumes "indexed ts m X" "i \<notin> set (ts_ids ts)" "n \<notin> X"
  shows "indexed (ts_spawn i ts) (m(i \<mapsto> n)) (insert n X)"
proof -
  obtain "is" where "is": "map m (ts_ids ts) = map Some is" "distinct is" "set is = X"
    using assms(1) by (auto simp: indexed_def)
  show ?thesis
    using index_map_spawn [OF "is"(1) assms(2), of n] "is"(2,3) assms(3)
    unfolding indexed_def ts_spawn_simps by (intro exI [of _ "is @ [n]"]) simp
qed

lemma indexed_lookup:
  assumes "indexed ts m X" "p < ts_len ts"
  obtains j where "m (fst (ts_tasks ts ! p)) = Some j" "j \<in> X"
proof -
  obtain "is" where "is": "map m (ts_ids ts) = map Some is" "set is = X"
    using assms(1) by (auto simp: indexed_def)
  have "length is = ts_len ts" using "is"(1) by (metis length_map)
  then show thesis
    using that [of "is ! p"] index_map_lookup [OF "is"(1), of p] "is"(2) nth_mem [of p "is"] assms(2) by simp
qed

lemma indexed_join:
  assumes "indexed ts m X" "p < ts_len ts" "m (fst (ts_tasks ts ! p)) = Some j"
    "ts_ids ts' = remove_at p (ts_ids ts)"
  shows "indexed ts' (m(fst (ts_tasks ts ! p) := None)) (X - {j})"
proof -
  obtain "is" where "is": "map m (ts_ids ts) = map Some is" "distinct is" "set is = X"
    using assms(1) by (auto simp: indexed_def)
  have len: "length is = ts_len ts" using "is"(1) by (metis length_map)
  have j: "is ! p = j" using index_map_lookup [OF "is"(1), of p] assms(2,3) by simp
  have "map (m(ts_ids ts ! p := None)) (ts_ids ts') = map Some (remove_at p is)"
    unfolding assms(4) using assms(2) by (intro index_map_join "is"(1,2)) simp
  then show ?thesis
    using distinct_remove_at [OF "is"(2), of p] set_remove_at [OF "is"(2), of p] assms(2) len "is"(3) j
    unfolding indexed_def by (intro exI [of _ "remove_at p is"]) simp
qed

end
