(* ===== verification/Subagent_Repair.thy ===== *)
theory Subagent_Repair
  imports Subagent_Runtime Task_Set
begin

text \<open>
  Bounded repair of subagent results (\<open>subagent_repair.rs\<close>): the shared repair budget and its
  reservations, one repair run (an initial session and at most one repair session on the configured
  route), and batches of repair runs.

  A repair run reads its cancellation token and races the total timeout at fixed points; what it finds
  there is part of the script \<open>repair_world\<close>, beside the inputs of its two sessions. The counters of
  the budget are machine integers: the sums and differences of the source wrap at their width.
\<close>

section \<open>Policies, attempts and outcomes\<close>

definition SUBAGENT_REPAIR_MAX_CONCURRENCY :: nat where "SUBAGENT_REPAIR_MAX_CONCURRENCY = 2"

datatype SubagentRepairFailureCategory =
  RFC_VerifierRejected | RFC_StructurallyInvalid | RFC_MissingRequiredContent | RFC_ResultContractViolation
  | RFC_ToolResultFailure | RFC_Cancelled | RFC_Timeout | RFC_InvalidRoute | RFC_AuthenticationFailure
  | RFC_ProviderUnavailable | RFC_ProviderBudgetExhausted | RFC_ToolBudgetExhausted | RFC_PolicyInvalid
  | RFC_RecursionViolation

datatype SubagentRepairEligibility =
  Eligible SubagentRepairFailureCategory | Ineligible SubagentRepairFailureCategory

datatype SubagentAttemptKind = Attempt_Initial | Attempt_Repair

datatype SubagentAttemptState =
  AS_Started | AS_Succeeded | AS_Failed | AS_Rejected | AS_TimedOut | AS_Cancelled | AS_BudgetExhausted

record SubagentAttemptOutcome =
  sao_attempt_number :: nat
  sao_kind :: SubagentAttemptKind
  sao_state :: SubagentAttemptState
  sao_route :: SubagentRepairRoute
  sao_outcome :: "SubagentOutcome option"
  sao_error :: "SubagentError option"
  sao_provider_invocations :: nat
  sao_tool_calls :: nat
  sao_timed_out :: bool
  sao_cancelled :: bool
  sao_terminal_failure :: "SubagentRepairFailureCategory option"
  sao_repair_permitted :: bool
  sao_repair_budget_exhausted :: bool

datatype SubagentRepairTerminal =
  RT_InitialSucceeded | RT_RepairSucceeded | RT_RepairDisabled | RT_NotEligible | RT_InitialFailed
  | RT_RepairFailed | RT_RepairTimedOut | RT_Cancelled | RT_BudgetExhausted

record SubagentRepairOutcome =
  sro_task_id :: string
  sro_terminal :: SubagentRepairTerminal
  sro_attempts :: "SubagentAttemptOutcome list"

datatype SubagentRepairError =
  SRE_PolicyInvalid | SRE_InitialValidationFailed SubagentError | SRE_RouteMismatch | SRE_BudgetExhausted
  | SRE_CancelledBeforeRepair | SRE_JoinFailure | SRE_JoinFailureAt nat | SRE_BatchInvalid

fun repair_error_message :: "SubagentRepairError \<Rightarrow> string" where
  "repair_error_message SRE_PolicyInvalid = ''subagent repair policy is invalid''"
| "repair_error_message (SRE_InitialValidationFailed e) = subagent_error_message e"
| "repair_error_message SRE_RouteMismatch = ''repair route did not match the selected route''"
| "repair_error_message SRE_BudgetExhausted = ''subagent repair budget is exhausted''"
| "repair_error_message SRE_CancelledBeforeRepair = ''repair was cancelled before starting''"
| "repair_error_message SRE_JoinFailure = ''repair child task join failed''"
| "repair_error_message (SRE_JoinFailureAt i) = ''repair child task '' @ show_nat i @ '' join failed''"
| "repair_error_message SRE_BatchInvalid = ''subagent repair batch is invalid''"

section \<open>The repair budget\<close>

record RepairBudget =
  rb_provider_invocations :: nat
  rb_tool_calls :: nat
  rb_context_bytes :: nat
  rb_output_tokens :: nat
  rb_limits :: "nat \<times> nat \<times> nat \<times> nat"

definition repair_budget_new :: "nat \<Rightarrow> nat \<Rightarrow> nat \<Rightarrow> nat \<Rightarrow> (SubagentRepairError, RepairBudget) result" where
  "repair_budget_new provider tools context_bytes output =
     (if provider = 0 \<or> tools = 0 \<or> context_bytes = 0 \<or> output = 0 then Inl SRE_BudgetExhausted
      else Inr \<lparr>rb_provider_invocations = 0, rb_tool_calls = 0, rb_context_bytes = 0, rb_output_tokens = 0,
                rb_limits = (provider, tools, context_bytes, output)\<rparr>)"

record BudgetReservation =
  brs_provider :: nat
  brs_tools :: nat
  brs_context :: nat
  brs_output :: nat

definition saturating_add_u32 :: "nat \<Rightarrow> nat \<Rightarrow> nat" where
  "saturating_add_u32 a b = min (a + b) (2 ^ 32 - 1)"

definition wrapping_add_u32 :: "nat \<Rightarrow> nat \<Rightarrow> nat" where
  "wrapping_add_u32 a b = (a + b) mod 2 ^ 32"

definition wrapping_sub :: "nat \<Rightarrow> nat \<Rightarrow> nat" where
  "wrapping_sub a b = (a + (2 ^ 64 - b mod 2 ^ 64)) mod 2 ^ 64"

definition wrapping_sub_u32 :: "nat \<Rightarrow> nat \<Rightarrow> nat" where
  "wrapping_sub_u32 a b = (a + (2 ^ 32 - b mod 2 ^ 32)) mod 2 ^ 32"

definition repair_reserve :: "SubagentRepairPolicy \<Rightarrow> RepairBudget \<Rightarrow> (BudgetReservation \<times> RepairBudget) option" where
  "repair_reserve policy b =
     (case rb_limits b of (l0, l1, l2, l3) \<Rightarrow>
      if saturating_add (rb_provider_invocations b) (srp_max_provider_invocations policy) > l0
         \<or> saturating_add (rb_tool_calls b) (srp_max_tool_calls policy) > l1
         \<or> saturating_add (rb_context_bytes b) (srp_max_context_bytes policy) > l2
         \<or> saturating_add_u32 (rb_output_tokens b) (srp_max_output_tokens policy) > l3
      then None
      else Some
        (\<lparr>brs_provider = srp_max_provider_invocations policy, brs_tools = srp_max_tool_calls policy,
          brs_context = srp_max_context_bytes policy, brs_output = srp_max_output_tokens policy\<rparr>,
         b\<lparr>rb_provider_invocations := wrapping_add (rb_provider_invocations b) (srp_max_provider_invocations policy),
           rb_tool_calls := wrapping_add (rb_tool_calls b) (srp_max_tool_calls policy),
           rb_context_bytes := wrapping_add (rb_context_bytes b) (srp_max_context_bytes policy),
           rb_output_tokens := wrapping_add_u32 (rb_output_tokens b) (srp_max_output_tokens policy)\<rparr>))"

definition reservation_drop :: "BudgetReservation \<Rightarrow> RepairBudget \<Rightarrow> RepairBudget" where
  "reservation_drop r b =
     b\<lparr>rb_provider_invocations := wrapping_sub (rb_provider_invocations b) (brs_provider r),
       rb_tool_calls := wrapping_sub (rb_tool_calls b) (brs_tools r),
       rb_context_bytes := wrapping_sub (rb_context_bytes b) (brs_context r),
       rb_output_tokens := wrapping_sub_u32 (rb_output_tokens b) (brs_output r)\<rparr>"

section \<open>One repair run\<close>

definition attempt ::
  "nat \<Rightarrow> SubagentAttemptKind \<Rightarrow> SubagentRepairRoute \<Rightarrow> (SubagentError, SubagentOutcome) result \<Rightarrow>
   SubagentAttemptOutcome" where
  "attempt number kind route r =
     (let out = (case r of Inr x \<Rightarrow> Some x | Inl _ \<Rightarrow> None);
          err = (case r of Inr _ \<Rightarrow> None | Inl e \<Rightarrow> Some e);
          status = map_option so_status out;
          cancelled = (status = Some SS_Cancelled \<or> err = Some SE_CancelledBeforeStart
                       \<or> err = Some SE_InvocationCancelled);
          timed_out = (status = Some SS_TimedOut \<or> err = Some SE_InvocationTimedOut);
          state = (if cancelled then AS_Cancelled else if timed_out then AS_TimedOut
                   else if status = Some SS_Completed \<or> status = Some SS_CompletedWithTruncation then AS_Succeeded
                   else if status = Some SS_ProviderRejected then AS_Rejected
                   else if status = Some SS_BudgetExhausted then AS_BudgetExhausted
                   else AS_Failed)
      in \<lparr>sao_attempt_number = number, sao_kind = kind, sao_state = state, sao_route = route,
          sao_outcome = out, sao_error = err,
          sao_provider_invocations = (case out of None \<Rightarrow> 0 | Some x \<Rightarrow> so_provider_turns x),
          sao_tool_calls = (case out of None \<Rightarrow> 0 | Some x \<Rightarrow> so_tool_calls x),
          sao_timed_out = timed_out, sao_cancelled = cancelled, sao_terminal_failure = None,
          sao_repair_permitted = False,
          sao_repair_budget_exhausted = (case out of None \<Rightarrow> False | Some x \<Rightarrow> so_budget_exhausted x)\<rparr>)"

definition repair_terminal ::
  "string \<Rightarrow> SubagentRepairTerminal \<Rightarrow> SubagentAttemptOutcome list \<Rightarrow> SubagentRepairOutcome" where
  "repair_terminal task how tries = \<lparr>sro_task_id = task, sro_terminal = how, sro_attempts = tries\<rparr>"

fun route_from_parts :: "string \<times> string \<times> string \<times> string \<times> RoutingRole \<Rightarrow> SubagentRepairRoute" where
  "route_from_parts (profile_id, provider_id, connection_id, model_id, role) =
     \<lparr>srr_profile_id = profile_id, srr_role = role, srr_provider_id = provider_id,
      srr_connection_id = connection_id, srr_model_id = model_id\<rparr>"

definition repair_context :: "string \<Rightarrow> string option \<Rightarrow> string \<Rightarrow> string \<Rightarrow> nat \<Rightarrow> string" where
  "repair_context instruction output reason repair_instruction limit =
     (let ctx = ''Original task:'' @ newline @ instruction @ newline @ newline @ ''Initial result:'' @ newline
            @ (case output of None \<Rightarrow> ''<no result>'' | Some x \<Rightarrow> x) @ newline @ newline
            @ ''Rejection reason:'' @ newline @ reason @ newline @ newline @ ''Repair instruction:'' @ newline
            @ repair_instruction
      in if length ctx > limit then take (boundary_below ctx limit) ctx else ctx)"

record repair_world =
  rw_initial :: session_env
  rw_initial_cancelled :: "bool \<times> bool"
  rw_cancelled_after_initial :: bool
  rw_cancelled_before_reserve :: bool
  rw_repair :: session_env
  rw_repair_cancelled :: "bool \<times> bool"
  rw_total_timeout :: bool

definition repair_request ::
  "SubagentRequest \<Rightarrow> SubagentRepairPolicy \<Rightarrow> string \<Rightarrow> string \<Rightarrow> SubagentRequest" where
  "repair_request initial policy repair_instruction ctx =
     initial\<lparr>sr_role := srr_role (srp_route policy), sr_instruction := repair_instruction, sr_context := Some ctx,
       sr_timeout := srp_per_repair_timeout policy, sr_max_output_tokens := srp_max_output_tokens policy,
       sr_tool_policy := with_repair_limits (srp_max_provider_invocations policy) (srp_max_tool_calls policy)
                           (sr_tool_policy initial)\<rparr>"

fun terminal_state :: "SubagentAttemptState \<Rightarrow> SubagentRepairTerminal" where
  "terminal_state AS_Succeeded = RT_RepairSucceeded"
| "terminal_state AS_TimedOut = RT_RepairTimedOut"
| "terminal_state AS_Cancelled = RT_Cancelled"
| "terminal_state AS_BudgetExhausted = RT_BudgetExhausted"
| "terminal_state _ = RT_RepairFailed"

text \<open>The repair session under its reservation, which is dropped when the run returns. When the total
  timeout fires first, the session is cancelled and awaited, and its result is discarded.\<close>

definition repair_attempt ::
  "SubagentRuntime \<Rightarrow> repair_world \<Rightarrow> SubagentRepairPolicy \<Rightarrow> SubagentRequest \<Rightarrow> shared \<Rightarrow>
   SubagentAttemptOutcome \<times> shared" where
  "repair_attempt rt w policy repair sh =
     (let (r, sh') = run_subagent (rw_repair w) rt (fst (rw_repair_cancelled w)) (snd (rw_repair_cancelled w)) repair sh
      in (attempt 2 Attempt_Repair (srp_route policy)
            (if rw_total_timeout w then Inl SE_InvocationTimedOut else r), sh'))"

definition repair_phase ::
  "SubagentRuntime \<Rightarrow> repair_world \<Rightarrow> SubagentRequest \<Rightarrow> SubagentRepairPolicy \<Rightarrow> string \<Rightarrow> string \<Rightarrow>
   SubagentAttemptOutcome \<Rightarrow> RepairBudget \<Rightarrow> shared \<Rightarrow> SubagentRepairOutcome \<times> RepairBudget \<times> shared" where
  "repair_phase rt w initial policy reason repair_instruction first b sh =
     (let task_id = sr_task_id initial;
          ctx = repair_context (sr_instruction initial) (Option.bind (sao_outcome first) so_output) reason
                  repair_instruction (srp_max_context_bytes policy);
          repair = repair_request initial policy repair_instruction ctx
      in case resolved_route rt repair of
           Inl _ \<Rightarrow>
             (repair_terminal task_id RT_RepairFailed
                [first, (attempt 2 Attempt_Repair (srp_route policy) (Inl SE_InvalidModel))
                          \<lparr>sao_terminal_failure := Some RFC_InvalidRoute\<rparr>], b, sh)
         | Inr parts \<Rightarrow>
             if route_from_parts parts \<noteq> srp_route policy
             then (repair_terminal task_id RT_RepairFailed
                     [first, (attempt 2 Attempt_Repair (route_from_parts parts) (Inl SE_InternalFailure))
                               \<lparr>sao_terminal_failure := Some RFC_InvalidRoute\<rparr>], b, sh)
             else if rw_cancelled_before_reserve w
             then (repair_terminal task_id RT_Cancelled
                     [first\<lparr>sao_cancelled := True, sao_repair_permitted := False\<rparr>], b, sh)
             else case repair_reserve policy b of
                    None \<Rightarrow>
                      (repair_terminal task_id RT_BudgetExhausted [first\<lparr>sao_repair_budget_exhausted := True\<rparr>], b, sh)
                  | Some (reservation, b') \<Rightarrow>
                      (let (second, sh') = repair_attempt rt w policy repair sh
                       in (repair_terminal task_id (terminal_state (sao_state second))
                             [first\<lparr>sao_repair_permitted := True\<rparr>, second],
                           reservation_drop reservation b', sh')))"

definition run_repair ::
  "SubagentRuntime \<Rightarrow> repair_world \<Rightarrow> SubagentRequest \<Rightarrow> SubagentRepairPolicy \<Rightarrow> SubagentRepairEligibility \<Rightarrow>
   string \<Rightarrow> string \<Rightarrow> RepairBudget \<Rightarrow> shared \<Rightarrow>
   (SubagentRepairError, SubagentRepairOutcome) result \<times> RepairBudget \<times> shared" where
  "run_repair rt w initial policy eligibility reason repair_instruction b sh =
     (case repair_policy_validate policy of
        Inl _ \<Rightarrow> (Inl SRE_PolicyInvalid, b, sh)
      | Inr _ \<Rightarrow>
          let initial_route = (srp_route policy)\<lparr>srr_role := sr_role initial\<rparr>;
              (r, sh1) = run_subagent (rw_initial w) rt (fst (rw_initial_cancelled w)) (snd (rw_initial_cancelled w))
                           initial sh;
              first = attempt 1 Attempt_Initial initial_route r;
              ended = (\<lambda>how. (Inr (repair_terminal (sr_task_id initial) how [first]), b, sh1))
          in if sao_state first = AS_Succeeded then ended RT_InitialSucceeded
             else if \<not> srp_enabled policy then ended RT_RepairDisabled
             else if (case eligibility of Eligible _ \<Rightarrow> False | Ineligible _ \<Rightarrow> True) then ended RT_NotEligible
             else if rw_cancelled_after_initial w then ended RT_Cancelled
             else let (out, b', sh') = repair_phase rt w initial policy reason repair_instruction first b sh1
                  in (Inr out, b', sh'))"

section \<open>The budget is conserved\<close>

text \<open>The calls on a shared budget: a run reserves, and drops one of the reservations it holds.\<close>

datatype repair_budget_op = RB_Reserve SubagentRepairPolicy | RB_Drop nat

fun repair_budget_apply ::
  "RepairBudget \<times> BudgetReservation list \<Rightarrow> repair_budget_op \<Rightarrow> RepairBudget \<times> BudgetReservation list" where
  "repair_budget_apply (b, held) (RB_Reserve policy) =
     (case repair_reserve policy b of None \<Rightarrow> (b, held) | Some (r, b') \<Rightarrow> (b', held @ [r]))"
| "repair_budget_apply (b, held) (RB_Drop k) =
     (if k < length held then (reservation_drop (held ! k) b, remove_at k held) else (b, held))"

text \<open>One counter of width \<open>M\<close>: it is the sum of what is held, and within its limit unless the limit is
  the largest value of the type, at which the saturating comparison cannot refuse.\<close>

definition counter_ok :: "nat \<Rightarrow> nat \<Rightarrow> nat \<Rightarrow> nat \<Rightarrow> bool" where
  "counter_ok M limit used held \<longleftrightarrow> used = held mod M \<and> (limit < M - 1 \<longrightarrow> held \<le> limit)"

lemma counter_reserve:
  assumes "counter_ok M limit used held" "min (used + n) (M - 1) \<le> limit"
  shows "counter_ok M limit ((used + n) mod M) (held + n)"
proof -
  have "used + n \<le> limit" "held \<le> limit" if "limit < M - 1"
    using assms that by (auto simp: counter_ok_def min_def split: if_splits)
  moreover have "used = held" if "limit < M - 1"
    using assms(1) that by (auto simp: counter_ok_def intro!: mod_less)
  ultimately show ?thesis using assms(1) by (auto simp: counter_ok_def mod_add_left_eq)
qed

lemma counter_drop:
  assumes "counter_ok M limit used held" "n \<le> held" "0 < M"
  shows "counter_ok M limit ((used + (M - n mod M)) mod M) (held - n)"
proof -
  obtain d where d: "held = n + d" using assms(2) le_Suc_ex by blast
  have "(held mod M + (M - n mod M)) mod M = (n + (d + (M - n mod M))) mod M"
    unfolding d by (simp add: mod_add_left_eq add.assoc)
  also have "\<dots> = (n mod M + (d + (M - n mod M))) mod M" by (simp only: mod_add_left_eq)
  also have "\<dots> = (d + (n mod M + (M - n mod M))) mod M" by (simp only: add.left_commute)
  also have "\<dots> = d mod M" using mod_less_divisor [OF assms(3), of n] by simp
  finally show ?thesis using assms(1) d by (auto simp: counter_ok_def)
qed

definition usize_mod :: nat where "usize_mod = 2 ^ 64"
definition u32_mod :: nat where "u32_mod = 2 ^ 32"

definition held_sum :: "(BudgetReservation \<Rightarrow> nat) \<Rightarrow> BudgetReservation list \<Rightarrow> nat" where
  "held_sum f held = sum_list (map f held)"

fun repair_account :: "RepairBudget \<times> BudgetReservation list \<Rightarrow> bool" where
  "repair_account (b, held) \<longleftrightarrow>
     (case rb_limits b of (l0, l1, l2, l3) \<Rightarrow>
        counter_ok usize_mod l0 (rb_provider_invocations b) (held_sum brs_provider held)
        \<and> counter_ok usize_mod l1 (rb_tool_calls b) (held_sum brs_tools held)
        \<and> counter_ok usize_mod l2 (rb_context_bytes b) (held_sum brs_context held)
        \<and> counter_ok u32_mod l3 (rb_output_tokens b) (held_sum brs_output held))"

lemma held_sum_append: "held_sum f (held @ [r]) = held_sum f held + f r"
  by (simp add: held_sum_def)

lemma held_sum_remove: "k < length held \<Longrightarrow> held_sum f (remove_at k held) = held_sum f held - f (held ! k)"
  using sum_list_remove_at [of k held f] by (simp add: held_sum_def)

lemma held_sum_member: "k < length held \<Longrightarrow> f (held ! k) \<le> held_sum f held"
  using sum_list_remove_at [of k held f] by (simp add: held_sum_def)

lemma usize_counter:
  "counter_ok usize_mod limit used held \<Longrightarrow> saturating_add used n \<le> limit \<Longrightarrow>
   counter_ok usize_mod limit (wrapping_add used n) (held + n)"
  "counter_ok usize_mod limit used held \<Longrightarrow> n \<le> held \<Longrightarrow>
   counter_ok usize_mod limit (wrapping_sub used n) (held - n)"
  unfolding wrapping_add_def wrapping_sub_def saturating_add_def u64_max_def usize_mod_def
  by (blast intro: counter_reserve, rule counter_drop) simp_all

lemma u32_counter:
  "counter_ok u32_mod limit used held \<Longrightarrow> saturating_add_u32 used n \<le> limit \<Longrightarrow>
   counter_ok u32_mod limit (wrapping_add_u32 used n) (held + n)"
  "counter_ok u32_mod limit used held \<Longrightarrow> n \<le> held \<Longrightarrow>
   counter_ok u32_mod limit (wrapping_sub_u32 used n) (held - n)"
  unfolding wrapping_add_u32_def wrapping_sub_u32_def saturating_add_u32_def u32_mod_def
  by (blast intro: counter_reserve, rule counter_drop) simp_all

lemma repair_reserve_account:
  assumes "repair_account (b, held)" "repair_reserve policy b = Some (r, b')"
  shows "repair_account (b', held @ [r])"
proof -
  obtain l0 l1 l2 l3 where l: "rb_limits b = (l0, l1, l2, l3)" by (cases "rb_limits b")
  show ?thesis
    using assms
    by (auto simp: l repair_reserve_def held_sum_append intro!: usize_counter(1) u32_counter(1) split: if_splits)
qed

lemma reservation_drop_account:
  assumes "repair_account (b, held)" "k < length held"
  shows "repair_account (reservation_drop (held ! k) b, remove_at k held)"
proof -
  obtain l0 l1 l2 l3 where l: "rb_limits b = (l0, l1, l2, l3)" by (cases "rb_limits b")
  show ?thesis
    using assms held_sum_member [OF assms(2)]
    by (auto simp: l reservation_drop_def held_sum_remove intro!: usize_counter(2) u32_counter(2))
qed

definition repair_budget_fresh :: "RepairBudget \<times> BudgetReservation list \<Rightarrow> bool" where
  "repair_budget_fresh s \<longleftrightarrow> snd s = [] \<and> rb_provider_invocations (fst s) = 0 \<and> rb_tool_calls (fst s) = 0
     \<and> rb_context_bytes (fst s) = 0 \<and> rb_output_tokens (fst s) = 0"

interpretation repair_budget: transition_system repair_budget_apply repair_budget_fresh repair_account
proof
  fix s
  show "repair_budget_fresh s \<Longrightarrow> repair_account s"
    by (cases s) (simp add: repair_budget_fresh_def counter_ok_def held_sum_def split: prod.split)
next
  fix s o'
  assume "repair_account s"
  then show "repair_account (repair_budget_apply s o')"
    by (cases s; cases o')
      (auto simp del: repair_account.simps split: option.split
        intro: repair_reserve_account reservation_drop_account)
qed

lemma counter_exact: "counter_ok M limit used held \<Longrightarrow> limit < M - 1 \<Longrightarrow> used = held \<and> used \<le> limit"
  by (auto simp: counter_ok_def)

text \<open>C21: The repair budget is conserved. However the runs of a batch interleave their reservations and
  drops, each counter is the sum of the reservations that are held and within the limit the budget was
  created with, so no run is ever granted more than what is left, and once nothing is held the whole
  budget is available again.\<close>

theorem repair_budget_conserved:
  assumes "repair_budget_new p t c out = Inr b0" "p < u64_max" "t < u64_max" "c < u64_max" "out < 2 ^ 32 - 1"
  shows "let (b, held) = foldl repair_budget_apply (b0, []) ops in
    rb_provider_invocations b = sum_list (map brs_provider held) \<and> rb_provider_invocations b \<le> p
    \<and> rb_tool_calls b = sum_list (map brs_tools held) \<and> rb_tool_calls b \<le> t
    \<and> rb_context_bytes b = sum_list (map brs_context held) \<and> rb_context_bytes b \<le> c
    \<and> rb_output_tokens b = sum_list (map brs_output held) \<and> rb_output_tokens b \<le> out
    \<and> (held = [] \<longrightarrow> b = b0)"
proof -
  obtain b held where s: "foldl repair_budget_apply (b0, []) ops = (b, held)" by fastforce
  have b0: "b0 = \<lparr>rb_provider_invocations = 0, rb_tool_calls = 0, rb_context_bytes = 0, rb_output_tokens = 0,
      rb_limits = (p, t, c, out)\<rparr>"
    using assms(1) by (simp add: repair_budget_new_def split: if_splits)
  have account: "repair_account (b, held)"
    using repair_budget.inv_run [of "(b0, [])" ops] unfolding s by (simp add: repair_budget_fresh_def b0)
  have limits: "rb_limits b = (p, t, c, out)"
  proof -
    have "rb_limits (fst (foldl repair_budget_apply x ops)) = rb_limits (fst x)" for x
    proof (induction ops arbitrary: x)
      case (Cons a ops)
      have "rb_limits (fst (repair_budget_apply x a)) = rb_limits (fst x)"
        by (cases x; cases a) (auto simp: repair_reserve_def reservation_drop_def split: option.split prod.splits if_splits)
      then show ?case using Cons by simp
    qed simp
    from this [of "(b0, [])"] show ?thesis unfolding s by (simp add: b0)
  qed
  have exact: "p < usize_mod - 1" "t < usize_mod - 1" "c < usize_mod - 1" "out < u32_mod - 1"
    using assms(2-5) by (simp_all add: u64_max_def usize_mod_def u32_mod_def)
  have c: "rb_provider_invocations b = held_sum brs_provider held \<and> rb_provider_invocations b \<le> p"
    "rb_tool_calls b = held_sum brs_tools held \<and> rb_tool_calls b \<le> t"
    "rb_context_bytes b = held_sum brs_context held \<and> rb_context_bytes b \<le> c"
    "rb_output_tokens b = held_sum brs_output held \<and> rb_output_tokens b \<le> out"
    using counter_exact [OF _ exact(1)] counter_exact [OF _ exact(2)] counter_exact [OF _ exact(3)]
      counter_exact [OF _ exact(4)] account limits by auto
  then have "held = [] \<Longrightarrow> b = b0" using limits by (cases b) (simp add: b0 held_sum_def)
  then show ?thesis using c unfolding s by (simp add: held_sum_def)
qed

section \<open>What one run guarantees\<close>

definition repair_budget_wf :: "RepairBudget \<Rightarrow> bool" where
  "repair_budget_wf b \<longleftrightarrow> rb_provider_invocations b < 2 ^ 64 \<and> rb_tool_calls b < 2 ^ 64
     \<and> rb_context_bytes b < 2 ^ 64 \<and> rb_output_tokens b < 2 ^ 32"

lemma wrapping_round_trip:
  assumes "(u :: nat) < M"
  shows "((u + n) mod M + (M - n mod M)) mod M = u"
proof -
  have "counter_ok M M ((u + n) mod M) (u + n)" by (auto simp: counter_ok_def)
  from counter_drop [OF this, of n] show ?thesis using assms by (simp add: counter_ok_def)
qed

lemma reserve_drop_identity:
  assumes "repair_reserve policy b = Some (r, b')" "repair_budget_wf b"
  shows "reservation_drop r b' = b"
proof -
  have "wrapping_sub (wrapping_add u n) n = u" if "u < 2 ^ 64" for u n
    using wrapping_round_trip [OF that] by (simp add: wrapping_sub_def wrapping_add_def)
  moreover have "wrapping_sub_u32 (wrapping_add_u32 u n) n = u" if "u < 2 ^ 32" for u n
    using wrapping_round_trip [OF that] by (simp add: wrapping_sub_u32_def wrapping_add_u32_def)
  ultimately show ?thesis
    using assms
    by (cases b) (auto simp: repair_reserve_def reservation_drop_def repair_budget_wf_def split: if_splits prod.splits)
qed

lemma attempt_fields [simp]:
  "sao_attempt_number (attempt n k route r) = n" "sao_kind (attempt n k route r) = k"
  "sao_route (attempt n k route r) = route" "sao_outcome (attempt n k route r) = (case r of Inr x \<Rightarrow> Some x | Inl _ \<Rightarrow> None)"
  by (simp_all add: attempt_def Let_def)

lemma attempt_succeeded:
  "sao_state (attempt n k route r) = AS_Succeeded \<longleftrightarrow>
     (\<exists>x. r = Inr x \<and> so_status x \<in> {SS_Completed, SS_CompletedWithTruncation})"
  by (cases r) (auto simp: attempt_def Let_def)

lemma attempt_usage:
  "sao_provider_invocations (attempt n k route r) = (case r of Inr x \<Rightarrow> so_provider_turns x | Inl _ \<Rightarrow> 0)"
  "sao_tool_calls (attempt n k route r) = (case r of Inr x \<Rightarrow> so_tool_calls x | Inl _ \<Rightarrow> 0)"
  by (cases r; simp add: attempt_def Let_def)+

lemma terminal_state_succeeded:
  "terminal_state s = RT_RepairSucceeded \<longleftrightarrow> s = AS_Succeeded" "terminal_state s \<noteq> RT_InitialSucceeded"
  by (cases s; simp)+

lemma repair_context_bounded: "length (repair_context i out reason ri limit) \<le> limit"
  using boundary_below_le by (auto simp: repair_context_def Let_def min.coboundedI2)

lemma session_usage:
  assumes "run_subagent se rt c1 c2 r sh = (Inr x, sh')"
    "sb_max_aggregate_tool_output_bytes (tp_budget (sr_tool_policy r)) \<le> u64_max"
  shows "so_provider_turns x \<le> sb_max_provider_turns (tp_budget (sr_tool_policy r))"
    "so_tool_calls x \<le> sb_max_tool_calls (tp_budget (sr_tool_policy r))"
proof -
  obtain p where "sp_request p = r" "outcome_ok p x" using run_subagent_outcome [OF assms] by blast
  then show "so_provider_turns x \<le> sb_max_provider_turns (tp_budget (sr_tool_policy r))"
    "so_tool_calls x \<le> sb_max_tool_calls (tp_budget (sr_tool_policy r))"
    by (auto simp: outcome_ok_def Let_def)
qed

lemma repair_attempt_usage:
  assumes "repair_attempt rt w policy (repair_request initial policy ri ctx) sh = (second, sh')"
    "sb_max_aggregate_tool_output_bytes (tp_budget (sr_tool_policy initial)) \<le> u64_max"
  shows "sao_provider_invocations second \<le> srp_max_provider_invocations policy"
    "sao_tool_calls second \<le> srp_max_tool_calls policy" "sao_kind second = Attempt_Repair"
    "sao_attempt_number second = 2" "sao_route second = srp_route policy"
proof -
  let ?repair = "repair_request initial policy ri ctx"
  obtain r sh'' where run: "run_subagent (rw_repair w) rt (fst (rw_repair_cancelled w)) (snd (rw_repair_cancelled w)) ?repair sh = (r, sh'')"
    by fastforce
  have "sb_max_aggregate_tool_output_bytes (tp_budget (sr_tool_policy ?repair)) \<le> u64_max"
    using assms(2) by (simp add: repair_request_def with_repair_limits_def)
  from session_usage [OF _ this]
  have "r = Inr x \<Longrightarrow> so_provider_turns x \<le> srp_max_provider_invocations policy \<and> so_tool_calls x \<le> srp_max_tool_calls policy" for x
    using run by (fastforce simp: repair_request_def with_repair_limits_def)
  then show "sao_provider_invocations second \<le> srp_max_provider_invocations policy"
    "sao_tool_calls second \<le> srp_max_tool_calls policy" "sao_kind second = Attempt_Repair"
    "sao_attempt_number second = 2" "sao_route second = srp_route policy"
    using assms(1) run by (auto simp: repair_attempt_def attempt_usage split: sum.split)
qed

text \<open>What the attempts of an outcome may look like: the initial one alone, or followed by one repair.\<close>

fun attempts_ok ::
  "SubagentRepairPolicy \<Rightarrow> SubagentRepairEligibility \<Rightarrow> SubagentRepairTerminal \<Rightarrow> SubagentAttemptOutcome list \<Rightarrow> bool" where
  "attempts_ok policy eligibility how [first] \<longleftrightarrow>
     sao_kind first = Attempt_Initial \<and> sao_attempt_number first = 1
     \<and> (how = RT_InitialSucceeded \<longleftrightarrow> sao_state first = AS_Succeeded) \<and> how \<noteq> RT_RepairSucceeded"
| "attempts_ok policy eligibility how [first, second] \<longleftrightarrow>
     sao_kind first = Attempt_Initial \<and> sao_attempt_number first = 1 \<and> sao_state first \<noteq> AS_Succeeded
     \<and> srp_enabled policy \<and> (\<exists>c. eligibility = Eligible c)
     \<and> sao_kind second = Attempt_Repair \<and> sao_attempt_number second = 2
     \<and> how \<noteq> RT_InitialSucceeded \<and> (how = RT_RepairSucceeded \<longleftrightarrow> sao_state second = AS_Succeeded)
     \<and> (how = RT_RepairSucceeded \<longrightarrow> sao_route second = srp_route policy)
     \<and> sao_provider_invocations second \<le> srp_max_provider_invocations policy
     \<and> sao_tool_calls second \<le> srp_max_tool_calls policy"
| "attempts_ok policy eligibility how _ \<longleftrightarrow> False"

lemma repair_phase_ok:
  assumes "repair_phase rt w initial policy reason ri first b sh = (out, b', sh')" "repair_budget_wf b"
    "sb_max_aggregate_tool_output_bytes (tp_budget (sr_tool_policy initial)) \<le> u64_max"
    "sao_kind first = Attempt_Initial" "sao_attempt_number first = 1" "sao_state first \<noteq> AS_Succeeded"
    "srp_enabled policy" "eligibility = Eligible c"
  shows "sro_task_id out = sr_task_id initial" "b' = b"
    "attempts_ok policy eligibility (sro_terminal out) (sro_attempts out)"
proof -
  define repair where "repair = repair_request initial policy ri
    (repair_context (sr_instruction initial) (Option.bind (sao_outcome first) so_output) reason ri
      (srp_max_context_bytes policy))"
  obtain second sh2 where second: "repair_attempt rt w policy repair sh = (second, sh2)" by fastforce
  note usage = repair_attempt_usage [OF second [unfolded repair_def] assms(3)]
  have "sro_task_id out = sr_task_id initial \<and> b' = b \<and> attempts_ok policy eligibility (sro_terminal out) (sro_attempts out)"
    using assms second usage reserve_drop_identity [OF _ assms(2)]
    by (auto simp: repair_phase_def repair_def Let_def repair_terminal_def attempt_def terminal_state_succeeded
        split: sum.splits if_splits option.splits prod.splits)
  then show "sro_task_id out = sr_task_id initial" "b' = b"
    "attempts_ok policy eligibility (sro_terminal out) (sro_attempts out)" by blast+
qed


text \<open>The initial attempt is reported under the repair route, whatever route its session took.\<close>

lemma initial_attempt_reports_repair_route:
  assumes "run_repair rt w initial policy eligibility reason ri b sh = (Inr out, b', sh')"
  shows "sao_route (hd (sro_attempts out)) = (srp_route policy)\<lparr>srr_role := sr_role initial\<rparr>"
  using assms
  by (auto simp: run_repair_def repair_phase_def Let_def repair_terminal_def split: sum.splits if_splits
      option.splits prod.splits)

section \<open>An example\<close>

definition demo_repair_policy :: SubagentRepairPolicy where
  "demo_repair_policy =
     \<lparr>srp_enabled = True, srp_max_repair_attempts = 1, srp_route = demo_repair_route,
      srp_per_repair_timeout = secs 30, srp_total_repair_timeout = secs 30, srp_max_provider_invocations = 1,
      srp_max_tool_calls = 1, srp_max_context_bytes = 1024, srp_max_output_tokens = 100\<rparr>"

lemma demo_repair_valid: "repair_policy_validate demo_repair_policy = Inr ()"
  by (simp add: repair_policy_validate_def demo_repair_policy_def demo_repair_route_def secs_def
      SUBAGENT_REPAIR_MAX_ATTEMPTS_def SUBAGENT_REPAIR_MAX_CONTEXT_BYTES_def SUBAGENT_REPAIR_MAX_OUTPUT_TOKENS_def)

definition demo_budget :: RepairBudget where
  "demo_budget = \<lparr>rb_provider_invocations = 0, rb_tool_calls = 0, rb_context_bytes = 0, rb_output_tokens = 0,
     rb_limits = (4, 4, 4096, 1000)\<rparr>"

lemma demo_reserved:
  "\<exists>r b. repair_reserve demo_repair_policy demo_budget = Some (r, b)"
  by (simp add: repair_reserve_def demo_budget_def demo_repair_policy_def saturating_add_def saturating_add_u32_def
      u64_max_def)

theorem repair_budget_conserved_witness:
  "repair_budget_new 4 4 4096 1000 = Inr demo_budget
   \<and> foldl repair_budget_apply (demo_budget, []) [RB_Reserve demo_repair_policy, RB_Drop 0] = (demo_budget, [])"
proof -
  let ?ops = "[RB_Reserve demo_repair_policy, RB_Drop 0]"
  have new: "repair_budget_new 4 4 4096 1000 = Inr demo_budget" by (simp add: repair_budget_new_def demo_budget_def)
  obtain b where "foldl repair_budget_apply (demo_budget, []) ?ops = (b, [])"
    using demo_reserved by (auto simp: remove_at_def)
  then show ?thesis
    using repair_budget_conserved [OF new, of ?ops] new by (simp add: u64_max_def Let_def)
qed

definition demo_repair_world :: repair_world where
  "demo_repair_world = \<lparr>rw_initial = demo_session, rw_initial_cancelled = (False, False),
     rw_cancelled_after_initial = False, rw_cancelled_before_reserve = False, rw_repair = demo_session,
     rw_repair_cancelled = (False, False), rw_total_timeout = False\<rparr>"

lemma demo_repair_run:
  "\<exists>out. run_repair demo_runtime demo_repair_world demo_request demo_repair_policy (Eligible RFC_VerifierRejected)
       ''bad'' ''fix'' demo_budget alone = (Inr out, demo_budget, alone) \<and> sro_terminal out = RT_InitialSucceeded"
proof -
  obtain x where x: "run_subagent demo_session demo_runtime False False demo_request alone = (Inr x, alone)"
      "so_status x = SS_Completed"
    using demo_run by (elim exE conjE)
  then have "sao_state (attempt 1 k route (Inr x)) = AS_Succeeded" for k route by (simp only: attempt_succeeded) simp
  then show ?thesis
    using x by (simp add: run_repair_def demo_repair_valid demo_repair_world_def repair_terminal_def)
qed


end
