(* ===== verification/Repair_Batch.thy ===== *)
theory Repair_Batch
  imports Subagent_Repair
begin

text \<open>
  Batches of repair runs (\<open>SubagentRepairBatchRuntime\<close> in \<open>subagent_repair.rs\<close>): the admission loop,
  the join loop that ends when every task has been admitted or the batch is cancelled, and the drain
  that cancels and collects the rest. As for subagent batches, the progress of the tasks, the order of
  the joins and the outside cancellation are an arbitrary script.
\<close>

record SubagentRepairBatchRequest =
  rbr_tasks :: "(SubagentRequest \<times> SubagentRepairPolicy \<times> SubagentRepairEligibility \<times> string \<times> string) list"
  rbr_max_concurrency :: nat
  rbr_failure_policy :: SubagentFailurePolicy

type_synonym repair_result = "(SubagentRepairError, SubagentRepairOutcome) result"

record SubagentRepairBatchOutcome =
  rbo_outcomes :: "repair_result list"
  rbo_peak_observed_concurrency :: nat

text \<open>How a repair task ends: with the result of its run, or with a join error (aborted or panicked).\<close>

datatype repair_end = RE_Result repair_result | RE_JoinError bool

record repair_tick =
  rtk_cancel_at_loop :: bool
  rtk_cancel_at_admission :: "nat \<Rightarrow> bool"
  rtk_activity :: "activity list"
  rtk_pick :: nat

record repair_batch_env =
  rbe_end :: "nat \<Rightarrow> repair_end"
  rbe_tick :: "nat \<Rightarrow> repair_tick"
  rbe_spawn_id :: "nat list \<Rightarrow> nat"
  rbe_cancelled_before :: bool

text \<open>\<open>rbs_captured\<close> holds the indices that the live tasks captured and return with their result.\<close>

record repair_batch_state =
  rbs_outcomes :: "repair_result option list"
  rbs_live :: task_set
  rbs_captured :: "nat list"
  rbs_task_indices :: "nat \<rightharpoonup> nat"
  rbs_request_cancelled :: bool
  rbs_batch_cancelled :: bool
  rbs_next :: nat
  rbs_cancelled :: bool
  rbs_join_failure :: "SubagentRepairError option"

definition repair_fresh_ids :: "repair_batch_env \<Rightarrow> bool" where
  "repair_fresh_ids env \<longleftrightarrow> (\<forall>ids. rbe_spawn_id env ids \<notin> set ids)"

definition repair_batch_init :: "repair_batch_env \<Rightarrow> SubagentRepairBatchRequest \<Rightarrow> repair_batch_state" where
  "repair_batch_init env req =
     \<lparr>rbs_outcomes = replicate (length (rbr_tasks req)) None, rbs_live = ts_empty, rbs_captured = [],
      rbs_task_indices = Map.empty, rbs_request_cancelled = rbe_cancelled_before env,
      rbs_batch_cancelled = False, rbs_next = 0, rbs_cancelled = False, rbs_join_failure = None\<rparr>"

definition repair_observe :: "bool \<Rightarrow> repair_batch_state \<Rightarrow> repair_batch_state" where
  "repair_observe c st = st\<lparr>rbs_request_cancelled := rbs_request_cancelled st \<or> c\<rparr>"

definition repair_spawn :: "repair_batch_env \<Rightarrow> repair_batch_state \<Rightarrow> repair_batch_state" where
  "repair_spawn env st =
     (let index = rbs_next st; id = rbe_spawn_id env (ts_ids (rbs_live st)) in
      st\<lparr>rbs_live := ts_spawn id (rbs_live st), rbs_captured := rbs_captured st @ [index],
         rbs_task_indices := (rbs_task_indices st)(id \<mapsto> index), rbs_next := index + 1\<rparr>)"

function repair_admit ::
  "repair_batch_env \<Rightarrow> SubagentRepairBatchRequest \<Rightarrow> repair_tick \<Rightarrow> nat \<Rightarrow> repair_batch_state \<Rightarrow> repair_batch_state" where
  "repair_admit env req tick k st0 =
     (let st = repair_observe (rtk_cancel_at_admission tick k) st0 in
      if rbs_next st < length (rbr_tasks req) \<and> ts_len (rbs_live st) < rbr_max_concurrency req
         \<and> \<not> rbs_request_cancelled st
      then repair_admit env req tick (k + 1) (repair_spawn env st)
      else st)"
  by pat_completeness auto
termination
  by (relation "measure (\<lambda>(env, req, tick, k, st). length (rbr_tasks req) - rbs_next st)")
    (auto simp: repair_spawn_def repair_observe_def Let_def)

declare repair_admit.simps [simp del]

fun repair_failed :: "repair_result \<Rightarrow> bool" where
  "repair_failed (Inr out) \<longleftrightarrow> sro_terminal out \<notin> {RT_InitialSucceeded, RT_RepairSucceeded}"
| "repair_failed (Inl _) \<longleftrightarrow> True"

definition get_or_insert :: "'a \<Rightarrow> 'a option \<Rightarrow> 'a option" where
  "get_or_insert x v = (case v of None \<Rightarrow> Some x | Some y \<Rightarrow> Some y)"

definition cancel_repairs :: "repair_batch_state \<Rightarrow> repair_batch_state" where
  "cancel_repairs st = st\<lparr>rbs_cancelled := True, rbs_batch_cancelled := True\<rparr>"

text \<open>What both join loops record of an ended task.\<close>

definition record_end :: "nat \<Rightarrow> nat \<Rightarrow> repair_end \<Rightarrow> repair_batch_state \<Rightarrow> repair_batch_state" where
  "record_end tid captured e st =
     (let forgotten = st\<lparr>rbs_task_indices := (rbs_task_indices st)(tid := None)\<rparr> in
      case e of
        RE_Result r \<Rightarrow> forgotten\<lparr>rbs_outcomes := (rbs_outcomes st)[captured := Some r]\<rparr>
      | RE_JoinError _ \<Rightarrow>
          (case rbs_task_indices st tid of
             None \<Rightarrow> st\<lparr>rbs_join_failure := get_or_insert SRE_JoinFailure (rbs_join_failure st)\<rparr>
           | Some index \<Rightarrow>
               forgotten\<lparr>rbs_outcomes := (rbs_outcomes st)[index := Some (Inl (SRE_JoinFailureAt index))],
                 rbs_join_failure := get_or_insert (SRE_JoinFailureAt index) (rbs_join_failure st)\<rparr>))"

definition react_to_end :: "SubagentRepairBatchRequest \<Rightarrow> repair_end \<Rightarrow> repair_batch_state \<Rightarrow> repair_batch_state" where
  "react_to_end req e st =
     (case e of
        RE_Result r \<Rightarrow>
          if repair_failed r \<and> rbr_failure_policy req = CancelRemaining then cancel_repairs st else st
      | RE_JoinError _ \<Rightarrow> cancel_repairs st)"

definition repair_picked :: "repair_tick \<Rightarrow> repair_batch_state \<Rightarrow> nat" where
  "repair_picked tick st = rtk_pick tick mod ts_len (rbs_live st)"

definition repair_joined :: "repair_batch_env \<Rightarrow> repair_tick \<Rightarrow> repair_batch_state \<Rightarrow> repair_end" where
  "repair_joined env tick st = rbe_end env (rbs_captured st ! repair_picked tick st)"

definition repair_join :: "repair_batch_env \<Rightarrow> repair_tick \<Rightarrow> repair_batch_state \<Rightarrow> repair_batch_state" where
  "repair_join env tick st =
     (let live = fold do_activity (rtk_activity tick) (rbs_live st);
          p = repair_picked tick st;
          id = fst (ts_tasks live ! p);
          e = repair_joined env tick st
      in record_end id (rbs_captured st ! p) e
           (st\<lparr>rbs_live := take_joined (e = RE_JoinError True) p live,
               rbs_captured := remove_at p (rbs_captured st)\<rparr>))"

definition repair_work :: "SubagentRepairBatchRequest \<Rightarrow> repair_batch_state \<Rightarrow> nat" where
  "repair_work req st = 2 * (length (rbr_tasks req) - rbs_next st) + ts_len (rbs_live st)"

lemma repair_observe_frame [simp]:
  "rbs_outcomes (repair_observe c st) = rbs_outcomes st" "rbs_live (repair_observe c st) = rbs_live st"
  "rbs_captured (repair_observe c st) = rbs_captured st" "rbs_task_indices (repair_observe c st) = rbs_task_indices st"
  "rbs_next (repair_observe c st) = rbs_next st" "rbs_cancelled (repair_observe c st) = rbs_cancelled st"
  "rbs_join_failure (repair_observe c st) = rbs_join_failure st"
  by (simp_all add: repair_observe_def)

lemma react_frame [simp]:
  "rbs_outcomes (react_to_end req e st) = rbs_outcomes st" "rbs_live (react_to_end req e st) = rbs_live st"
  "rbs_captured (react_to_end req e st) = rbs_captured st"
  "rbs_task_indices (react_to_end req e st) = rbs_task_indices st" "rbs_next (react_to_end req e st) = rbs_next st"
  "rbs_join_failure (react_to_end req e st) = rbs_join_failure st"
  by (simp_all add: react_to_end_def cancel_repairs_def split: repair_end.split)

lemma record_end_frame [simp]:
  "rbs_live (record_end tid c e st) = rbs_live st" "rbs_next (record_end tid c e st) = rbs_next st"
  "rbs_captured (record_end tid c e st) = rbs_captured st"
  by (simp_all add: record_end_def Let_def split: repair_end.split option.split)

lemma repair_admit_preserves:
  assumes "P st" "\<And>c st. P st \<Longrightarrow> P (repair_observe c st)"
    "\<And>st. P st \<Longrightarrow> rbs_next st < length (rbr_tasks req) \<Longrightarrow> ts_len (rbs_live st) < rbr_max_concurrency req \<Longrightarrow>
       P (repair_spawn env st)"
  shows "P (repair_admit env req tick k st)"
  using assms
proof (induction env req tick k st rule: repair_admit.induct)
  case (1 env req tick k st0)
  let ?st = "repair_observe (rtk_cancel_at_admission tick k) st0"
  have st: "P ?st" using "1.prems"(1,2) by blast
  show ?case
  proof (cases "rbs_next ?st < length (rbr_tasks req) \<and> ts_len (rbs_live ?st) < rbr_max_concurrency req
      \<and> \<not> rbs_request_cancelled ?st")
    case True
    then have "P (repair_spawn env ?st)" using "1.prems"(3) st by blast
    then have "P (repair_admit env req tick (k + 1) (repair_spawn env ?st))"
      using "1.IH" [OF refl True] "1.prems"(2,3) by blast
    then show ?thesis using True by (subst repair_admit.simps) (simp add: Let_def)
  next
    case False
    then show ?thesis using st by (subst repair_admit.simps) (auto simp: Let_def)
  qed
qed

lemma repair_admit_work: "repair_work req (repair_admit env req tick k st) \<le> repair_work req st"
  by (rule repair_admit_preserves) (simp_all add: repair_work_def repair_spawn_def Let_def)

lemma repair_picked_less: "ts_tasks (rbs_live st) \<noteq> [] \<Longrightarrow> repair_picked tick st < ts_len (rbs_live st)"
  by (simp add: repair_picked_def)

lemma repair_join_live:
  "rbs_live (repair_join env tick st) = take_joined (repair_joined env tick st = RE_JoinError True)
     (repair_picked tick st) (fold do_activity (rtk_activity tick) (rbs_live st))"
  "rbs_next (repair_join env tick st) = rbs_next st"
  "rbs_captured (repair_join env tick st) = remove_at (repair_picked tick st) (rbs_captured st)"
  by (simp_all add: repair_join_def Let_def)

lemma repair_join_work:
  assumes "ts_tasks (rbs_live st) \<noteq> []"
  shows "repair_work req (repair_join env tick st) < repair_work req st"
  using repair_picked_less [OF assms, of tick] by (simp add: repair_work_def repair_join_live)

text \<open>The main loop stops as soon as every task is admitted, with the tasks that are then still live left
  to the drain.\<close>

function repair_loop ::
  "repair_batch_env \<Rightarrow> SubagentRepairBatchRequest \<Rightarrow> nat \<Rightarrow> repair_batch_state \<Rightarrow> nat \<times> repair_batch_state" where
  "repair_loop env req n st0 =
     (let tick = rbe_tick env n; st = repair_observe (rtk_cancel_at_loop tick) st0 in
      if rbs_next st < length (rbr_tasks req) \<and> \<not> rbs_cancelled st \<and> \<not> rbs_request_cancelled st
      then let st1 = repair_admit env req tick 0 st in
           if ts_tasks (rbs_live st1) = [] then (n + 1, st1)
           else repair_loop env req (n + 1) (react_to_end req (repair_joined env tick st1) (repair_join env tick st1))
      else (n, st))"
  by pat_completeness auto
termination
proof (relation "measure (\<lambda>(env, req, n, st). repair_work req st)")
  fix env req n st0 tick st and st1 :: repair_batch_state
  assume "tick = rbe_tick env n" "st = repair_observe (rtk_cancel_at_loop tick) st0"
    "st1 = repair_admit env req tick 0 st" "ts_tasks (rbs_live st1) \<noteq> []"
  then have "repair_work req (react_to_end req (repair_joined env tick st1) (repair_join env tick st1)) < repair_work req st0"
    using repair_join_work [of st1 req env tick] repair_admit_work [of req env tick 0 st]
    by (simp add: repair_work_def)
  then show "((env, req, n + 1, react_to_end req (repair_joined env tick st1) (repair_join env tick st1)), env, req, n, st0)
      \<in> measure (\<lambda>(env, req, n, st). repair_work req st)" by simp
qed simp

declare repair_loop.simps [simp del]

function repair_drain :: "repair_batch_env \<Rightarrow> nat \<Rightarrow> repair_batch_state \<Rightarrow> repair_batch_state" where
  "repair_drain env n st =
     (if ts_tasks (rbs_live st) = [] then st else repair_drain env (n + 1) (repair_join env (rbe_tick env n) st))"
  by pat_completeness auto
termination
  by (relation "measure (\<lambda>(env, n, st). ts_len (rbs_live st))")
    (auto simp: repair_join_live repair_picked_less)

declare repair_drain.simps [simp del]

definition cancel_rest :: "repair_batch_state \<Rightarrow> repair_batch_state" where
  "cancel_rest st = st\<lparr>rbs_batch_cancelled := True\<rparr>"

definition mark_skipped :: "nat \<Rightarrow> repair_result option list \<Rightarrow> repair_result option list" where
  "mark_skipped next outcomes =
     take next outcomes @ map (\<lambda>_. Some (Inl SRE_CancelledBeforeRepair)) (drop next outcomes)"

text \<open>Unwrapping an outcome that was never recorded would panic.\<close>

definition run_repair_batch ::
  "repair_batch_env \<Rightarrow> SubagentRepairBatchRequest \<Rightarrow>
   (SubagentRepairError failure, SubagentRepairBatchOutcome) result" where
  "run_repair_batch env req =
     (if rbr_tasks req = [] \<or> rbr_max_concurrency req = 0
         \<or> rbr_max_concurrency req > SUBAGENT_REPAIR_MAX_CONCURRENCY
      then Inl (Failed SRE_BatchInvalid)
      else
        let (n, st1) = repair_loop env req 0 (repair_batch_init env req);
            st = repair_drain env n (cancel_rest st1)
        in case rbs_join_failure st of
             Some e \<Rightarrow> Inl (Failed e)
           | None \<Rightarrow>
               let outcomes = mark_skipped (rbs_next st) (rbs_outcomes st) in
               if None \<in> set outcomes then Inl Panicked
               else Inr \<lparr>rbo_outcomes = map the outcomes, rbo_peak_observed_concurrency = ts_peak (rbs_live st)\<rparr>)"

section \<open>Invariants\<close>

fun end_result :: "repair_end \<Rightarrow> nat \<Rightarrow> repair_result" where
  "end_result (RE_Result r) i = r"
| "end_result (RE_JoinError _) i = Inl (SRE_JoinFailureAt i)"

fun is_join_error :: "repair_end \<Rightarrow> bool" where
  "is_join_error (RE_Result _) \<longleftrightarrow> False"
| "is_join_error (RE_JoinError _) \<longleftrightarrow> True"

definition unrecorded :: "repair_batch_state \<Rightarrow> nat set" where
  "unrecorded st = {i. i < rbs_next st \<and> rbs_outcomes st ! i = None}"

definition repair_inv :: "repair_batch_env \<Rightarrow> SubagentRepairBatchRequest \<Rightarrow> repair_batch_state \<Rightarrow> bool" where
  "repair_inv env req st \<longleftrightarrow>
     length (rbs_outcomes st) = length (rbr_tasks req) \<and> rbs_next st \<le> length (rbr_tasks req)
     \<and> map (rbs_task_indices st) (ts_ids (rbs_live st)) = map Some (rbs_captured st)
     \<and> distinct (rbs_captured st) \<and> set (rbs_captured st) = unrecorded st
     \<and> (\<forall>i < rbs_next st. \<forall>r. rbs_outcomes st ! i = Some r \<longrightarrow> r = end_result (rbe_end env i) i
          \<and> (rbs_join_failure st = None \<longrightarrow> \<not> is_join_error (rbe_end env i)))
     \<and> (\<forall>e. rbs_join_failure st = Some e \<longrightarrow>
          (\<exists>i < length (rbr_tasks req). e = SRE_JoinFailureAt i \<and> is_join_error (rbe_end env i)))
     \<and> (\<forall>i. rbs_next st \<le> i \<longrightarrow> i < length (rbr_tasks req) \<longrightarrow> rbs_outcomes st ! i = None)"

lemma repair_inv_cong:
  "rbs_outcomes st' = rbs_outcomes st \<Longrightarrow> ts_ids (rbs_live st') = ts_ids (rbs_live st) \<Longrightarrow>
   rbs_captured st' = rbs_captured st \<Longrightarrow> rbs_task_indices st' = rbs_task_indices st \<Longrightarrow>
   rbs_next st' = rbs_next st \<Longrightarrow> rbs_join_failure st' = rbs_join_failure st \<Longrightarrow>
   repair_inv env req st' \<longleftrightarrow> repair_inv env req st"
  by (simp add: repair_inv_def unrecorded_def)

lemma repair_init_inv: "repair_inv env req (repair_batch_init env req)"
  by (simp add: repair_inv_def repair_batch_init_def unrecorded_def)

lemma repair_spawn_inv:
  assumes "repair_inv env req st" "repair_fresh_ids env" "rbs_next st < length (rbr_tasks req)"
  shows "repair_inv env req (repair_spawn env st)"
proof -
  let ?id = "rbe_spawn_id env (ts_ids (rbs_live st))" and ?n = "rbs_next st"
  have "?id \<notin> set (ts_ids (rbs_live st))" using assms(2) unfolding repair_fresh_ids_def by blast
  moreover have "map (rbs_task_indices st) (ts_ids (rbs_live st)) = map Some (rbs_captured st)"
    using assms(1) by (simp only: repair_inv_def)
  ultimately have m: "map ((rbs_task_indices st)(?id \<mapsto> ?n)) (ts_ids (ts_spawn ?id (rbs_live st)))
      = map Some (rbs_captured st @ [?n])"
    unfolding ts_spawn_simps(1) by (intro index_map_spawn)
  have none: "rbs_outcomes st ! ?n = None" using assms(1,3) by (simp add: repair_inv_def)
  then have u: "unrecorded (repair_spawn env st) = insert ?n (unrecorded st)"
    by (auto simp: unrecorded_def repair_spawn_def Let_def less_Suc_eq)
  have "?n \<notin> unrecorded st" by (simp add: unrecorded_def)
  then show ?thesis
    using assms(1,3) m u none
    by (auto simp: repair_inv_def repair_spawn_def Let_def less_Suc_eq simp del: ts_spawn_simps fun_upd_apply)
qed

text \<open>What one join records, in a state where the index map is in step with the live tasks.\<close>

lemma repair_join_records:
  fixes tick :: repair_tick and st :: repair_batch_state
  assumes "repair_inv env req st" "ts_tasks (rbs_live st) \<noteq> []"
  defines "p \<equiv> repair_picked tick st"
  defines "c \<equiv> rbs_captured st ! p"
  defines "tid \<equiv> ts_ids (rbs_live st) ! p"
  shows "p < length (rbs_captured st)" "repair_joined env tick st = rbe_end env c"
    "rbs_outcomes (repair_join env tick st) = (rbs_outcomes st)[c := Some (end_result (rbe_end env c) c)]"
    "rbs_task_indices (repair_join env tick st) = (rbs_task_indices st)(tid := None)"
    "rbs_join_failure (repair_join env tick st) =
       (if is_join_error (rbe_end env c) then get_or_insert (SRE_JoinFailureAt c) (rbs_join_failure st)
        else rbs_join_failure st)"
proof -
  have p: "p < ts_len (rbs_live st)" using repair_picked_less [OF assms(2)] by (simp add: p_def)
  have m: "map (rbs_task_indices st) (ts_ids (rbs_live st)) = map Some (rbs_captured st)"
    using assms(1) by (simp only: repair_inv_def)
  have "length (rbs_captured st) = ts_len (rbs_live st)" using m by (metis length_map)
  then show "p < length (rbs_captured st)" using p by simp
  show j: "repair_joined env tick st = rbe_end env c" by (simp add: repair_joined_def c_def p_def)
  have idx: "rbs_task_indices st tid = Some c"
    using index_map_lookup [OF m, of p] p by (simp add: tid_def c_def)
  have "fst (ts_tasks (fold do_activity (rtk_activity tick) (rbs_live st)) ! p)
      = ts_ids (fold do_activity (rtk_activity tick) (rbs_live st)) ! p"
    using p by (subst nth_map) simp_all
  then have tid: "fst (ts_tasks (fold do_activity (rtk_activity tick) (rbs_live st)) ! p) = tid"
    by (simp only: ts_ids_activities tid_def)
  show "rbs_outcomes (repair_join env tick st) = (rbs_outcomes st)[c := Some (end_result (rbe_end env c) c)]"
    "rbs_task_indices (repair_join env tick st) = (rbs_task_indices st)(tid := None)"
    "rbs_join_failure (repair_join env tick st) =
       (if is_join_error (rbe_end env c) then get_or_insert (SRE_JoinFailureAt c) (rbs_join_failure st)
        else rbs_join_failure st)"
    using idx unfolding repair_join_def Let_def p_def [symmetric] tid j c_def [symmetric]
    by (cases "rbe_end env c"; simp add: record_end_def Let_def)+
qed

lemma repair_join_inv:
  assumes inv: "repair_inv env req st" and ne: "ts_tasks (rbs_live st) \<noteq> []"
  shows "repair_inv env req (repair_join env tick st)"
proof -
  define p where "p = repair_picked tick st"
  define c where "c = rbs_captured st ! p"
  note rec = repair_join_records [OF inv ne, of tick, folded p_def, folded c_def]
  let ?st = "repair_join env tick st"
  have live: "ts_ids (rbs_live ?st) = remove_at p (ts_ids (rbs_live st))" "rbs_next ?st = rbs_next st"
      "rbs_captured ?st = remove_at p (rbs_captured st)"
    by (simp_all add: repair_join_live p_def)
  have m: "map (rbs_task_indices st) (ts_ids (rbs_live st)) = map Some (rbs_captured st)"
    and d: "distinct (rbs_captured st)" and cap: "set (rbs_captured st) = unrecorded st"
    using inv by (simp_all only: repair_inv_def)
  have "c \<in> unrecorded st" using nth_mem [OF rec(1)] cap by (simp add: c_def)
  then have c: "c < rbs_next st" "rbs_outcomes st ! c = None" "c < length (rbr_tasks req)"
    using inv by (auto simp: unrecorded_def repair_inv_def)
  have len: "length (ts_ids (rbs_live st)) = length (rbs_captured st)" using m by (metis length_map)
  have m': "map (rbs_task_indices ?st) (ts_ids (rbs_live ?st)) = map Some (rbs_captured ?st)"
    unfolding rec(4) live using len rec(1) by (intro index_map_join m d) simp
  have u: "unrecorded ?st = unrecorded st - {c}"
    using c inv by (auto simp: unrecorded_def rec(3) live(2) nth_list_update repair_inv_def)
  have s: "set (rbs_captured ?st) = unrecorded ?st"
    using set_remove_at [OF d rec(1)] cap u by (simp add: live(3) c_def)
  have f: "\<forall>e. rbs_join_failure ?st = Some e \<longrightarrow>
      (\<exists>i < length (rbr_tasks req). e = SRE_JoinFailureAt i \<and> is_join_error (rbe_end env i))"
    using inv c(3) by (auto simp: rec(5) repair_inv_def get_or_insert_def split: option.splits if_splits)
  have jf: "rbs_join_failure ?st = None \<Longrightarrow> rbs_join_failure st = None \<and> \<not> is_join_error (rbe_end env c)"
    by (auto simp: rec(5) get_or_insert_def split: option.splits if_splits)
  have "r = end_result (rbe_end env i) i \<and> (rbs_join_failure ?st = None \<longrightarrow> \<not> is_join_error (rbe_end env i))"
    if "rbs_outcomes ?st ! i = Some r" "i < rbs_next st" for i r
    using inv c(1,3) jf that by (cases "i = c") (auto simp: rec(3) repair_inv_def)
  then have o: "\<forall>i < rbs_next ?st. \<forall>r. rbs_outcomes ?st ! i = Some r \<longrightarrow> r = end_result (rbe_end env i) i
      \<and> (rbs_join_failure ?st = None \<longrightarrow> \<not> is_join_error (rbe_end env i))"
    unfolding live(2) by blast
  have later: "\<forall>i. rbs_next ?st \<le> i \<longrightarrow> i < length (rbr_tasks req) \<longrightarrow> rbs_outcomes ?st ! i = None"
    using inv c(1) by (auto simp: rec(3) live(2) repair_inv_def)
  have l: "length (rbs_outcomes ?st) = length (rbr_tasks req)" "rbs_next ?st \<le> length (rbr_tasks req)"
    using inv by (simp_all add: rec(3) live(2) repair_inv_def)
  have "distinct (rbs_captured ?st)" unfolding live(3) by (rule distinct_remove_at [OF d])
  then show ?thesis
    unfolding repair_inv_def using l m' s f later o by (intro conjI) assumption+
qed

lemma repair_admit_inv:
  assumes "repair_inv env req st" "repair_fresh_ids env"
  shows "repair_inv env req (repair_admit env req tick k st)"
  using assms(1)
proof (rule repair_admit_preserves)
  show "repair_inv env req st \<Longrightarrow> repair_inv env req (repair_observe c st)" for c st
    by (subst repair_inv_cong [of _ st]) simp_all
qed (rule repair_spawn_inv [OF _ assms(2)])

lemma repair_loop_preserves:
  assumes "P st" "\<And>c st. P st \<Longrightarrow> P (repair_observe c st)" "\<And>tick st. P st \<Longrightarrow> P (repair_admit env req tick 0 st)"
    "\<And>tick st. P st \<Longrightarrow> ts_tasks (rbs_live st) \<noteq> [] \<Longrightarrow>
       P (react_to_end req (repair_joined env tick st) (repair_join env tick st))"
  shows "P (snd (repair_loop env req n st))"
  using assms
proof (induction env req n st rule: repair_loop.induct)
  case (1 env req n st0)
  let ?tick = "rbe_tick env n"
  let ?st = "repair_observe (rtk_cancel_at_loop ?tick) st0"
  let ?go = "rbs_next ?st < length (rbr_tasks req) \<and> \<not> rbs_cancelled ?st \<and> \<not> rbs_request_cancelled ?st"
  let ?st1 = "repair_admit env req ?tick 0 ?st"
  have inv: "P ?st" "P ?st1" using "1.prems"(1-3) by blast+
  show ?case
  proof (cases "?go \<and> ts_tasks (rbs_live ?st1) \<noteq> []")
    case True
    then have "P (react_to_end req (repair_joined env ?tick ?st1) (repair_join env ?tick ?st1))"
      using "1.prems"(4) inv(2) by blast
    then show ?thesis
      using "1.IH" [OF refl refl _ refl _ _ "1.prems"(2-4)] True by (subst repair_loop.simps) (simp add: Let_def)
  next
    case False
    then show ?thesis using inv by (subst repair_loop.simps) (auto simp: Let_def)
  qed
qed

lemma repair_drain_preserves:
  assumes "P st" "\<And>tick st. P st \<Longrightarrow> ts_tasks (rbs_live st) \<noteq> [] \<Longrightarrow> P (repair_join env tick st)"
  shows "P (repair_drain env n st) \<and> ts_tasks (rbs_live (repair_drain env n st)) = []"
  using assms
proof (induction env n st rule: repair_drain.induct)
  case (1 env n st)
  show ?case
  proof (cases "ts_tasks (rbs_live st) = []")
    case True
    then show ?thesis using "1.prems" by (subst (1 2) repair_drain.simps) simp
  next
    case False
    then show ?thesis
      using "1.IH" [OF False "1.prems"(2) [OF "1.prems"(1) False] "1.prems"(2)]
      by (subst (1 2) repair_drain.simps) simp
  qed
qed

lemma react_inv: "repair_inv env req (react_to_end req' e st) \<longleftrightarrow> repair_inv env req st"
  by (rule repair_inv_cong) simp_all

lemma repair_join_within:
  assumes "within_limit n (rbs_live st)" "n < 2 ^ 64" "ts_tasks (rbs_live st) \<noteq> []"
  shows "within_limit n (rbs_live (repair_join env tick st))"
  unfolding repair_join_live
  by (rule take_joined_within) (use assms activities_within repair_picked_less in simp_all)

lemma repair_admit_within:
  "within_limit (rbr_max_concurrency req) (rbs_live st) \<Longrightarrow>
   within_limit (rbr_max_concurrency req) (rbs_live (repair_admit env req tick k st))"
  by (rule repair_admit_preserves [where P = "\<lambda>st. within_limit (rbr_max_concurrency req) (rbs_live st)"])
    (simp_all add: repair_spawn_def Let_def ts_spawn_within)

abbreviation repair_final :: "repair_batch_env \<Rightarrow> SubagentRepairBatchRequest \<Rightarrow> repair_batch_state" where
  "repair_final env req \<equiv> (case repair_loop env req 0 (repair_batch_init env req) of (n, st) \<Rightarrow>
     repair_drain env n (cancel_rest st))"

lemma repair_final_inv:
  assumes "repair_fresh_ids env"
  shows "repair_inv env req (repair_final env req)" "ts_tasks (rbs_live (repair_final env req)) = []"
proof -
  let ?loop = "repair_loop env req 0 (repair_batch_init env req)"
  have "repair_inv env req (snd ?loop)"
    using repair_init_inv
  proof (rule repair_loop_preserves [where P = "repair_inv env req"])
    show "repair_inv env req st \<Longrightarrow> repair_inv env req (repair_observe c st)" for c st
      by (subst repair_inv_cong [of _ st]) simp_all
  qed (simp_all add: repair_admit_inv [OF _ assms] react_inv repair_join_inv)
  then have "repair_inv env req (cancel_rest (snd ?loop))"
    by (subst repair_inv_cong [of _ "snd ?loop"]) (simp_all add: cancel_rest_def)
  from repair_drain_preserves [where P = "repair_inv env req", OF this repair_join_inv]
  show "repair_inv env req (repair_final env req)" "ts_tasks (rbs_live (repair_final env req)) = []"
    by (simp_all add: case_prod_beta)
qed

lemma repair_final_within:
  assumes "rbr_max_concurrency req < 2 ^ 64"
  shows "within_limit (rbr_max_concurrency req) (rbs_live (repair_final env req))"
proof -
  let ?P = "\<lambda>st. within_limit (rbr_max_concurrency req) (rbs_live st)"
  let ?loop = "repair_loop env req 0 (repair_batch_init env req)"
  have "?P (repair_batch_init env req)" by (simp add: repair_batch_init_def ts_empty_within)
  then have "?P (snd ?loop)"
    by (rule repair_loop_preserves [where P = ?P]) (auto intro: repair_admit_within repair_join_within [OF _ assms])
  then have "?P (cancel_rest (snd ?loop))" by (simp add: cancel_rest_def)
  from repair_drain_preserves [where P = ?P, OF this repair_join_within [OF _ assms]]
  show ?thesis by (simp add: case_prod_beta)
qed

section \<open>What a repair batch guarantees\<close>


section \<open>An example\<close>

definition demo_repair_batch :: SubagentRepairBatchRequest where
  "demo_repair_batch =
     (let task = (demo_request, demo_repair_policy, Eligible RFC_VerifierRejected, ''bad'', ''fix'')
      in \<lparr>rbr_tasks = [task, task], rbr_max_concurrency = 2, rbr_failure_policy = ContinueIndependent\<rparr>)"

definition demo_success :: repair_result where
  "demo_success = Inr \<lparr>sro_task_id = ''t1'', sro_terminal = RT_InitialSucceeded, sro_attempts = []\<rparr>"

definition demo_repair_tick :: repair_tick where
  "demo_repair_tick = \<lparr>rtk_cancel_at_loop = False, rtk_cancel_at_admission = (\<lambda>_. False),
     rtk_activity = [Starts 0, Starts 1, Finishes 0], rtk_pick = 0\<rparr>"

definition demo_repair_env :: repair_batch_env where
  "demo_repair_env = \<lparr>rbe_end = (\<lambda>_. RE_Result demo_success), rbe_tick = (\<lambda>_. demo_repair_tick),
     rbe_spawn_id = (\<lambda>ids. Suc (sum_list ids)), rbe_cancelled_before = False\<rparr>"

lemma demo_repair_fresh: "repair_fresh_ids demo_repair_env"
proof -
  have "Suc (sum_list ids) \<notin> set ids" for ids :: "nat list"
    using member_le_sum_list [of "Suc (sum_list ids)" ids] by auto
  then show ?thesis by (simp add: repair_fresh_ids_def demo_repair_env_def)
qed

text \<open>Two runs that would both succeed, admitted together. When the first is joined the main loop ends,
  because no task is left to admit, and the batch cancels the second run while it is still active.\<close>

lemma repair_batch_cancels_running_run:
  "let (n, st) = repair_loop demo_repair_env demo_repair_batch 0 (repair_batch_init demo_repair_env demo_repair_batch) in
     \<not> rbs_cancelled st \<and> \<not> rbs_request_cancelled st \<and> rbs_join_failure st = None
     \<and> rbs_outcomes st = [Some demo_success, None] \<and> \<not> repair_failed demo_success
     \<and> map snd (ts_tasks (rbs_live st)) = [Phase_Active] \<and> rbs_captured st = [1]
     \<and> rbs_batch_cancelled (cancel_rest st)"
proof -
  have ids: "wrapping_add 0 (Suc 0) = Suc 0" "wrapping_add (Suc 0) (Suc 0) = 2" "wrapping_pred 2 = Suc 0"
    by (simp_all add: wrapping_add_def wrapping_pred_def)
  let ?req = demo_repair_batch and ?env = demo_repair_env
  define st1 where "st1 = repair_spawn ?env (repair_spawn ?env (repair_batch_init ?env ?req))"
  have total: "length (rbr_tasks ?req) = 2" "rbr_max_concurrency ?req = 2" "rbr_failure_policy ?req = ContinueIndependent"
    by (simp_all add: demo_repair_batch_def Let_def)
  have obs: "repair_observe False st = st" for st by (simp add: repair_observe_def)
  have st1: "st1 = \<lparr>rbs_outcomes = [None, None], rbs_live = ts_spawn 2 (ts_spawn 1 ts_empty), rbs_captured = [0, 1],
      rbs_task_indices = [1 \<mapsto> 0, 2 \<mapsto> 1], rbs_request_cancelled = False, rbs_batch_cancelled = False,
      rbs_next = 2, rbs_cancelled = False, rbs_join_failure = None\<rparr>"
    by (simp add: st1_def repair_spawn_def repair_batch_init_def demo_repair_env_def total Let_def numeral_2_eq_2)
  have admitted: "repair_admit ?env ?req demo_repair_tick 0 (repair_batch_init ?env ?req) = st1"
    unfolding st1_def
    by (subst repair_admit.simps, subst repair_admit.simps, subst repair_admit.simps)
      (simp add: Let_def demo_repair_tick_def obs total repair_spawn_def repair_batch_init_def demo_repair_env_def)
  define st2 where "st2 = react_to_end ?req (repair_joined ?env demo_repair_tick st1) (repair_join ?env demo_repair_tick st1)"
  have st2: "\<not> rbs_cancelled st2" "\<not> rbs_request_cancelled st2" "rbs_join_failure st2 = None" "rbs_next st2 = 2"
      "rbs_outcomes st2 = [Some demo_success, None]" "map snd (ts_tasks (rbs_live st2)) = [Phase_Active]"
      "rbs_captured st2 = [1]"
    unfolding st2_def st1
    by (simp_all add: repair_joined_def repair_join_def repair_picked_def demo_repair_tick_def demo_repair_env_def
        Let_def record_end_def react_to_end_def total take_joined_def start_task_def finish_task_def ts_spawn_def
        ts_empty_def ids remove_at_def)
  have tick: "rbe_tick ?env n = demo_repair_tick" "rtk_cancel_at_loop demo_repair_tick = False" for n
    by (simp_all add: demo_repair_env_def demo_repair_tick_def)
  have init: "rbs_next (repair_batch_init ?env ?req) = 0" "\<not> rbs_cancelled (repair_batch_init ?env ?req)"
      "\<not> rbs_request_cancelled (repair_batch_init ?env ?req)"
    by (simp_all add: repair_batch_init_def demo_repair_env_def)
  have "ts_tasks (rbs_live st1) \<noteq> []" by (simp add: st1)
  then have "repair_loop ?env ?req 0 (repair_batch_init ?env ?req) = repair_loop ?env ?req 1 st2"
    by (subst repair_loop.simps) (simp add: Let_def tick obs total init admitted st2_def)
  also have "\<dots> = (1, st2)"
    using st2(4) by (subst repair_loop.simps) (simp add: Let_def tick obs total)
  finally have loop: "repair_loop ?env ?req 0 (repair_batch_init ?env ?req) = (1, st2)" .
  have "\<not> repair_failed demo_success" by (simp add: demo_success_def)
  then show ?thesis using st2 by (simp add: loop cancel_rest_def)
qed


end
