(* ===== verification/Strategy_Routing.thy ===== *)
theory Strategy_Routing
  imports Provider_Failure Routing_Profiles
begin

text \<open>
  Strategy-level routing (\<open>strategy_candidates.rs\<close>, \<open>routing_recommendation.rs\<close>,
  \<open>automatic_routing.rs\<close>): bounded candidate snapshots in configured order, their evaluation for one
  runtime generation, the advisory recommendation and the automatic decision derived from it. The
  \<open>expect\<close>s of the recommendation are the value \<open>None\<close>.
\<close>

section \<open>Candidates\<close>

definition MAX_CANDIDATES :: nat where "MAX_CANDIDATES = 32"
definition MAX_EVIDENCE_ITEMS :: nat where "MAX_EVIDENCE_ITEMS = 16"
definition MAX_SAFE_TEXT_BYTES :: nat where "MAX_SAFE_TEXT_BYTES = 256"

datatype RoutingStrategyCandidateError =
  InvalidSafeText | TooManyCandidates | TooMuchEvidence | DuplicateCandidate

definition safe_text :: "string \<Rightarrow> (RoutingStrategyCandidateError, string) result" where
  "safe_text v =
     (if is_blank v \<or> length v > MAX_SAFE_TEXT_BYTES \<or> has_control v then Inl InvalidSafeText else Inr v)"

datatype RoutingStrategyCandidateTarget =
  Target_Direct AccountPoolTarget string string
| Target_Pool PoolId string string

definition target_direct ::
  "AccountPoolTarget \<Rightarrow> string \<Rightarrow> string \<Rightarrow> (RoutingStrategyCandidateError, RoutingStrategyCandidateTarget) result" where
  "target_direct t provider_id model_id =
     res_bind (safe_text provider_id) (\<lambda>p. res_bind (safe_text model_id) (\<lambda>m. Inr (Target_Direct t p m)))"

definition target_pool ::
  "PoolId \<Rightarrow> string \<Rightarrow> string \<Rightarrow> (RoutingStrategyCandidateError, RoutingStrategyCandidateTarget) result" where
  "target_pool pool provider_id model_id =
     res_bind (safe_text provider_id) (\<lambda>p. res_bind (safe_text model_id) (\<lambda>m. Inr (Target_Pool pool p m)))"

record RoutingStrategyCandidateId =
  sci_profile_id :: RoutingProfileId
  sci_role :: RoutingRole
  sci_target :: RoutingStrategyCandidateTarget

record RoutingStrategyCandidate =
  sc_id :: RoutingStrategyCandidateId

datatype RoutingStrategyInformationalEvidence =
  Info_Configured | Info_ProviderFamily AccountPoolProviderFamily | Info_ExactTarget AccountPoolTarget
  | Info_Pool PoolId

datatype RoutingStrategyEligibilityEvidence =
  Elig_RoleCompatible | Elig_AccountReady | Elig_ConnectionReady | Elig_CooldownAvailable
  | Elig_CoolingDown nat ProviderFailureClass | Elig_CapabilityValidated | Elig_PoolHasEligibleTargets
  | Elig_AllPoolTargetsCooling "nat option"

datatype RoutingStrategyEvidence =
  Informational RoutingStrategyInformationalEvidence
| Eligibility RoutingStrategyEligibilityEvidence
| Ordering nat

datatype RoutingStrategyIneligibility =
  Inel_NotConfigured | Inel_StructurallyInvalid | Inel_RoleIncompatible | Inel_AccountUnavailable
  | Inel_ConnectionUnavailable | Inel_CapabilityUnavailable | Inel_CoolingDown nat ProviderFailureClass
  | Inel_AllPoolTargetsCooling "nat option" | Inel_NoEligiblePoolMembers

datatype RoutingStrategyEligibility = Strategy_Eligible | Strategy_Ineligible RoutingStrategyIneligibility

fun from_cooldown_status :: "ProviderCooldownStatus \<Rightarrow> RoutingStrategyEligibility" where
  "from_cooldown_status Available = Strategy_Eligible"
| "from_cooldown_status (CoolingDown remaining failure_class) =
     Strategy_Ineligible (Inel_CoolingDown remaining failure_class)"

definition is_eligible :: "RoutingStrategyEligibility \<Rightarrow> bool" where
  "is_eligible e \<longleftrightarrow> e = Strategy_Eligible"

fun is_cooling_down :: "RoutingStrategyEligibility \<Rightarrow> bool" where
  "is_cooling_down (Strategy_Ineligible (Inel_CoolingDown _ _)) = True"
| "is_cooling_down (Strategy_Ineligible (Inel_AllPoolTargetsCooling _)) = True"
| "is_cooling_down _ = False"

record RoutingStrategyCandidateSnapshot =
  scs_candidate :: RoutingStrategyCandidate
  scs_evidence :: "RoutingStrategyEvidence list"
  scs_eligibility :: RoutingStrategyEligibility

definition candidate_snapshot_new ::
  "RoutingStrategyCandidate \<Rightarrow> RoutingStrategyEvidence list \<Rightarrow> RoutingStrategyEligibility \<Rightarrow>
   (RoutingStrategyCandidateError, RoutingStrategyCandidateSnapshot) result" where
  "candidate_snapshot_new candidate evidence eligibility =
     (if length evidence > MAX_EVIDENCE_ITEMS then Inl TooMuchEvidence
      else Inr \<lparr>scs_candidate = candidate, scs_evidence = evidence, scs_eligibility = eligibility\<rparr>)"

definition with_configured_order ::
  "nat \<Rightarrow> RoutingStrategyCandidateSnapshot \<Rightarrow> (RoutingStrategyCandidateError, RoutingStrategyCandidateSnapshot) result" where
  "with_configured_order position c =
     (if length (scs_evidence c) \<ge> MAX_EVIDENCE_ITEMS then Inl TooMuchEvidence
      else Inr (c\<lparr>scs_evidence := scs_evidence c @ [Ordering position]\<rparr>))"

abbreviation snapshot_id :: "RoutingStrategyCandidateSnapshot \<Rightarrow> RoutingStrategyCandidateId" where
  "snapshot_id c \<equiv> sc_id (scs_candidate c)"

section \<open>Evaluation\<close>

datatype RoutingStrategyCandidateOrdering =
  Configured_Order "RoutingStrategyCandidateSnapshot list" | Ambiguous_Order

record RoutingStrategyEvaluationInput =
  sin_runtime_generation :: nat
  sin_ordering :: RoutingStrategyCandidateOrdering

text \<open>The loop of \<open>configured\<close>, with the candidates pushed so far; the position is their number.\<close>

fun order_candidates ::
  "RoutingStrategyCandidateSnapshot list \<Rightarrow> RoutingStrategyCandidateSnapshot list \<Rightarrow>
   (RoutingStrategyCandidateError, RoutingStrategyCandidateSnapshot list) result" where
  "order_candidates ordered [] = Inr ordered"
| "order_candidates ordered (c # cs) =
     (if list_ex (\<lambda>x. snapshot_id x = snapshot_id c) ordered then Inl DuplicateCandidate
      else res_bind (with_configured_order (length ordered) c) (\<lambda>c'. order_candidates (ordered @ [c']) cs))"

definition input_configured ::
  "nat \<Rightarrow> RoutingStrategyCandidateSnapshot list \<Rightarrow>
   (RoutingStrategyCandidateError, RoutingStrategyEvaluationInput) result" where
  "input_configured g cs =
     (if length cs > MAX_CANDIDATES then Inl TooManyCandidates
      else res_bind (order_candidates [] cs) (\<lambda>ordered.
        Inr \<lparr>sin_runtime_generation = g, sin_ordering = Configured_Order ordered\<rparr>))"

definition input_ambiguous :: "nat \<Rightarrow> RoutingStrategyEvaluationInput" where
  "input_ambiguous g = \<lparr>sin_runtime_generation = g, sin_ordering = Ambiguous_Order\<rparr>"

datatype RoutingStrategyNoSelectionReason =
  NoConfiguredCandidates | NoEligibleCandidates | AllCandidatesCoolingDown | CandidateSetAmbiguous

datatype RoutingStrategyEvaluationOutcome =
  CandidatesAvailable nat | NoSelection RoutingStrategyNoSelectionReason

record RoutingStrategyEvaluation =
  sev_runtime_generation :: nat
  sev_candidates :: "RoutingStrategyCandidateSnapshot list"
  sev_outcome :: RoutingStrategyEvaluationOutcome

record RoutingStrategyGenerationMismatch =
  sgm_expected :: nat
  sgm_actual :: nat

definition candidate_eligible :: "RoutingStrategyCandidateSnapshot \<Rightarrow> bool" where
  "candidate_eligible c = is_eligible (scs_eligibility c)"

definition eligible_candidates :: "RoutingStrategyEvaluation \<Rightarrow> RoutingStrategyCandidateSnapshot list" where
  "eligible_candidates e = filter candidate_eligible (sev_candidates e)"

definition configured_outcome :: "RoutingStrategyCandidateSnapshot list \<Rightarrow> RoutingStrategyEvaluationOutcome" where
  "configured_outcome cs =
     (let eligible_count = length (filter candidate_eligible cs) in
      if cs = [] then NoSelection NoConfiguredCandidates
      else if eligible_count > 0 then CandidatesAvailable eligible_count
      else if list_all (\<lambda>c. is_cooling_down (scs_eligibility c)) cs then NoSelection AllCandidatesCoolingDown
      else NoSelection NoEligibleCandidates)"

definition evaluate_routing_strategy_candidates ::
  "RoutingStrategyEvaluationInput \<Rightarrow> nat \<Rightarrow> (RoutingStrategyGenerationMismatch, RoutingStrategyEvaluation) result" where
  "evaluate_routing_strategy_candidates input expected =
     (if sin_runtime_generation input \<noteq> expected
      then Inl \<lparr>sgm_expected = expected, sgm_actual = sin_runtime_generation input\<rparr>
      else
        let (candidates, outcome) =
              (case sin_ordering input of
                 Ambiguous_Order \<Rightarrow> ([], NoSelection CandidateSetAmbiguous)
               | Configured_Order cs \<Rightarrow> (cs, configured_outcome cs))
        in Inr \<lparr>sev_runtime_generation = expected, sev_candidates = candidates, sev_outcome = outcome\<rparr>)"

section \<open>Recommendation\<close>

definition MAX_RECOMMENDATION_REASONS :: nat where "MAX_RECOMMENDATION_REASONS = 16"

datatype RoutingRecommendationReason =
  Reason_Configured | Reason_Eligible | Reason_RoleCompatible | Reason_AccountReady | Reason_ConnectionReady
  | Reason_CapabilityValidated | Reason_PoolHasEligibleTargets | Reason_HigherConfiguredOrder
  | Reason_AlternativeCoolingDown

datatype RoutingRecommendationUnavailableReason =
  Rec_NoConfiguredCandidates | Rec_NoEligibleCandidates | Rec_AllCandidatesCoolingDown
  | Rec_CandidateSetAmbiguous

record RoutingRecommendation =
  rr_runtime_generation :: nat
  rr_candidate :: RoutingStrategyCandidate
  rr_reasons :: "RoutingRecommendationReason list"

datatype RoutingRecommendationOutcome =
  Recommended RoutingRecommendation | Recommendation_Unavailable RoutingRecommendationUnavailableReason

record RoutingRecommendationSnapshot =
  rrs_runtime_generation :: nat
  rrs_outcome :: RoutingRecommendationOutcome

fun evidence_reason :: "RoutingStrategyEvidence \<Rightarrow> RoutingRecommendationReason option" where
  "evidence_reason (Eligibility Elig_RoleCompatible) = Some Reason_RoleCompatible"
| "evidence_reason (Eligibility Elig_AccountReady) = Some Reason_AccountReady"
| "evidence_reason (Eligibility Elig_ConnectionReady) = Some Reason_ConnectionReady"
| "evidence_reason (Eligibility Elig_CapabilityValidated) = Some Reason_CapabilityValidated"
| "evidence_reason (Eligibility Elig_PoolHasEligibleTargets) = Some Reason_PoolHasEligibleTargets"
| "evidence_reason _ = None"

fun collect_reasons ::
  "RoutingRecommendationReason list \<Rightarrow> RoutingStrategyEvidence list \<Rightarrow> RoutingRecommendationReason list" where
  "collect_reasons reasons [] = reasons"
| "collect_reasons reasons (e # es) =
     collect_reasons
       (case evidence_reason e of
          None \<Rightarrow> reasons
        | Some r \<Rightarrow>
            if r \<notin> set reasons \<and> length reasons < MAX_RECOMMENDATION_REASONS then reasons @ [r] else reasons) es"

fun position :: "('a \<Rightarrow> bool) \<Rightarrow> 'a list \<Rightarrow> nat option" where
  "position P [] = None"
| "position P (x # xs) = (if P x then Some 0 else map_option Suc (position P xs))"

definition recommend_candidate ::
  "RoutingStrategyEvaluation \<Rightarrow> RoutingStrategyCandidateSnapshot \<Rightarrow> nat \<Rightarrow> RoutingRecommendation" where
  "recommend_candidate e c index =
     (let reasons = collect_reasons [Reason_Configured, Reason_Eligible] (scs_evidence c);
          reasons' =
            (if index > 0
             then reasons @ [Reason_HigherConfiguredOrder]
                  @ (if list_ex (\<lambda>p. is_cooling_down (scs_eligibility p)) (take index (sev_candidates e))
                     then [Reason_AlternativeCoolingDown] else [])
             else reasons)
      in \<lparr>rr_runtime_generation = sev_runtime_generation e, rr_candidate = scs_candidate c, rr_reasons = reasons'\<rparr>)"

fun no_recommendation :: "RoutingStrategyNoSelectionReason \<Rightarrow> RoutingRecommendationUnavailableReason" where
  "no_recommendation NoConfiguredCandidates = Rec_NoConfiguredCandidates"
| "no_recommendation NoEligibleCandidates = Rec_NoEligibleCandidates"
| "no_recommendation AllCandidatesCoolingDown = Rec_AllCandidatesCoolingDown"
| "no_recommendation CandidateSetAmbiguous = Rec_CandidateSetAmbiguous"

definition derive_routing_recommendation :: "RoutingStrategyEvaluation \<Rightarrow> RoutingRecommendationSnapshot option" where
  "derive_routing_recommendation e =
     map_option (\<lambda>outcome. \<lparr>rrs_runtime_generation = sev_runtime_generation e, rrs_outcome = outcome\<rparr>)
       (case sev_outcome e of
          CandidatesAvailable _ \<Rightarrow>
            (case eligible_candidates e of
               [] \<Rightarrow> None
             | c # _ \<Rightarrow>
                 map_option (\<lambda>index. Recommended (recommend_candidate e c index))
                   (position (\<lambda>x. snapshot_id x = snapshot_id c) (sev_candidates e)))
        | NoSelection reason \<Rightarrow> Some (Recommendation_Unavailable (no_recommendation reason)))"

definition recommendation_validate_generation ::
  "nat \<Rightarrow> RoutingRecommendationSnapshot \<Rightarrow> (RoutingStrategyGenerationMismatch, unit) result" where
  "recommendation_validate_generation expected s =
     (if rrs_runtime_generation s \<noteq> expected
      then Inl \<lparr>sgm_expected = expected, sgm_actual = rrs_runtime_generation s\<rparr> else Inr ())"

section \<open>The automatic decision\<close>

definition MAX_AUTOMATIC_REASONS :: nat where "MAX_AUTOMATIC_REASONS = 16"

datatype AutomaticRoutingReason =
  Auto_Configured | Auto_Eligible | Auto_RoleCompatible | Auto_AccountReady | Auto_ConnectionReady
  | Auto_CapabilityValidated | Auto_PoolHasEligibleTargets | Auto_HigherConfiguredOrder
  | Auto_AlternativeCoolingDown

datatype AutomaticRoutingUnavailableReason =
  Auto_NoConfiguredCandidates | Auto_NoEligibleCandidates | Auto_AllCandidatesCoolingDown
  | Auto_CandidateSetAmbiguous | Auto_RuntimeGenerationMismatch

record AutomaticRoutingDecision =
  ard_runtime_generation :: nat
  ard_candidate :: RoutingStrategyCandidate
  ard_reasons :: "AutomaticRoutingReason list"

datatype AutomaticRoutingDecisionOutcome =
  Auto_Selected AutomaticRoutingDecision | Auto_Unavailable AutomaticRoutingUnavailableReason

record AutomaticRoutingSnapshot =
  ars_runtime_generation :: nat
  ars_outcome :: AutomaticRoutingDecisionOutcome

fun map_reason :: "RoutingRecommendationReason \<Rightarrow> AutomaticRoutingReason" where
  "map_reason Reason_Configured = Auto_Configured"
| "map_reason Reason_Eligible = Auto_Eligible"
| "map_reason Reason_RoleCompatible = Auto_RoleCompatible"
| "map_reason Reason_AccountReady = Auto_AccountReady"
| "map_reason Reason_ConnectionReady = Auto_ConnectionReady"
| "map_reason Reason_CapabilityValidated = Auto_CapabilityValidated"
| "map_reason Reason_PoolHasEligibleTargets = Auto_PoolHasEligibleTargets"
| "map_reason Reason_HigherConfiguredOrder = Auto_HigherConfiguredOrder"
| "map_reason Reason_AlternativeCoolingDown = Auto_AlternativeCoolingDown"

fun map_unavailable_reason :: "RoutingRecommendationUnavailableReason \<Rightarrow> AutomaticRoutingUnavailableReason" where
  "map_unavailable_reason Rec_NoConfiguredCandidates = Auto_NoConfiguredCandidates"
| "map_unavailable_reason Rec_NoEligibleCandidates = Auto_NoEligibleCandidates"
| "map_unavailable_reason Rec_AllCandidatesCoolingDown = Auto_AllCandidatesCoolingDown"
| "map_unavailable_reason Rec_CandidateSetAmbiguous = Auto_CandidateSetAmbiguous"

definition derive_automatic_routing_decision :: "RoutingStrategyEvaluation \<Rightarrow> AutomaticRoutingSnapshot option" where
  "derive_automatic_routing_decision e =
     map_option (\<lambda>rec.
         \<lparr>ars_runtime_generation = sev_runtime_generation e,
          ars_outcome =
            (case rrs_outcome rec of
               Recommended r \<Rightarrow>
                 Auto_Selected \<lparr>ard_runtime_generation = rr_runtime_generation r, ard_candidate = rr_candidate r,
                   ard_reasons = take MAX_AUTOMATIC_REASONS (map map_reason (rr_reasons r))\<rparr>
             | Recommendation_Unavailable reason \<Rightarrow> Auto_Unavailable (map_unavailable_reason reason))\<rparr>)
       (derive_routing_recommendation e)"

definition automatic_validate_generation ::
  "nat \<Rightarrow> AutomaticRoutingSnapshot \<Rightarrow> (RoutingStrategyGenerationMismatch, unit) result" where
  "automatic_validate_generation expected s =
     (if ars_runtime_generation s \<noteq> expected
      then Inl \<lparr>sgm_expected = expected, sgm_actual = ars_runtime_generation s\<rparr> else Inr ())"

section \<open>Positions\<close>

lemma position_SomeD: "position P xs = Some i \<Longrightarrow> i < length xs \<and> P (xs ! i) \<and> (\<forall>j < i. \<not> P (xs ! j))"
  by (induction P xs arbitrary: i rule: position.induct) (auto simp: nth_Cons' less_Suc_eq_0_disj split: if_splits)

lemma position_None: "position P xs = None \<longleftrightarrow> (\<forall>x \<in> set xs. \<not> P x)"
  by (induction P xs rule: position.induct) auto

lemma position_eqI:
  assumes "i < length xs" "P (xs ! i)" "\<forall>j < i. \<not> P (xs ! j)"
  shows "position P xs = Some i"
proof (cases "position P xs")
  case None
  then show ?thesis using assms(1,2) by (simp add: position_None)
next
  case (Some k)
  then show ?thesis using position_SomeD [OF Some] assms by (metis linorder_neqE_nat)
qed

lemma position_cong: "map P xs = map Q ys \<Longrightarrow> position P xs = position Q ys"
proof (induction P xs arbitrary: ys rule: position.induct)
  case (2 P x xs)
  then show ?case by (cases ys) auto
qed simp

lemma filter_position:
  "filter P xs = (case position P xs of None \<Rightarrow> [] | Some i \<Rightarrow> xs ! i # filter P (drop (Suc i) xs))"
  by (induction P xs rule: position.induct) (auto split: option.split)

lemma position_distinct:
  assumes "distinct (map f xs)" "i < length xs"
  shows "position (\<lambda>x. f x = f (xs ! i)) xs = Some i"
proof (rule position_eqI)
  show "\<forall>j < i. f (xs ! j) \<noteq> f (xs ! i)"
  proof (intro allI impI)
    fix j assume "j < i"
    then show "f (xs ! j) \<noteq> f (xs ! i)"
      using assms nth_eq_iff_index_eq [of "map f xs" j i] by simp
  qed
qed (use assms in simp_all)

section \<open>Ordering the candidates\<close>

lemma order_candidates_ok:
  assumes "order_candidates ds cs = Inr ordered" "distinct (map snapshot_id ds)"
  shows "map scs_candidate ordered = map scs_candidate (ds @ cs) \<and> map scs_eligibility ordered = map scs_eligibility (ds @ cs)
    \<and> distinct (map snapshot_id ordered)"
  using assms
proof (induction ds cs rule: order_candidates.induct)
  case (2 ds c cs)
  then obtain c' where c': "with_configured_order (length ds) c = Inr c'" "order_candidates (ds @ [c']) cs = Inr ordered"
    "\<not> list_ex (\<lambda>x. snapshot_id x = snapshot_id c) ds"
    by (auto simp: res_bind_eq_Inr split: if_splits)
  have same: "scs_candidate c' = scs_candidate c" "scs_eligibility c' = scs_eligibility c"
    using c'(1) by (auto simp: with_configured_order_def split: if_splits)
  then have "distinct (map snapshot_id (ds @ [c']))" using "2.prems"(2) c'(3) by (auto simp: list_ex_iff)
  then show ?case using "2.IH" [OF c'(3,2)] same by simp
qed simp

lemma input_configured_ok:
  assumes "input_configured g cs = Inr input"
  obtains os where "sin_runtime_generation input = g" "sin_ordering input = Configured_Order os"
    "map scs_candidate os = map scs_candidate cs" "map scs_eligibility os = map scs_eligibility cs" "distinct (map snapshot_id os)"
proof -
  obtain os where os: "order_candidates [] cs = Inr os" "input = \<lparr>sin_runtime_generation = g, sin_ordering = Configured_Order os\<rparr>"
    using assms by (auto simp: input_configured_def res_bind_eq_Inr split: if_splits)
  then show thesis using order_candidates_ok [OF os(1)] that [of os] by simp
qed

section \<open>Reasons\<close>

lemma collect_reasons_ok:
  "distinct rs \<Longrightarrow> distinct (collect_reasons rs es)
     \<and> set (collect_reasons rs es) \<subseteq> set rs \<union> {r. \<exists>e \<in> set es. evidence_reason e = Some r}"
proof (induction rs es rule: collect_reasons.induct)
  case (2 rs e es)
  let ?rs = "case evidence_reason e of None \<Rightarrow> rs
    | Some r \<Rightarrow> if r \<notin> set rs \<and> length rs < MAX_RECOMMENDATION_REASONS then rs @ [r] else rs"
  have "distinct ?rs" "set ?rs \<subseteq> set rs \<union> {r. evidence_reason e = Some r}"
    using "2.prems" by (auto split: option.splits if_splits)
  with "2.IH" show ?case by auto
qed simp

lemma evidence_reason_kinds:
  "evidence_reason e \<noteq> Some Reason_HigherConfiguredOrder" "evidence_reason e \<noteq> Some Reason_AlternativeCoolingDown"
  by (cases e rule: evidence_reason.cases; simp)+

lemma map_reason_inject: "map_reason a = map_reason b \<longleftrightarrow> a = b"
  by (cases a; cases b) simp_all

lemma map_reason_mem: "map_reason r \<in> map_reason ` S \<longleftrightarrow> r \<in> S"
  by (auto simp: map_reason_inject)

lemma reasons_few: "distinct (rs :: RoutingRecommendationReason list) \<Longrightarrow> length rs \<le> 9"
proof -
  assume "distinct rs"
  moreover have "set rs \<subseteq> {Reason_Configured, Reason_Eligible, Reason_RoleCompatible, Reason_AccountReady, Reason_ConnectionReady,
      Reason_CapabilityValidated, Reason_PoolHasEligibleTargets, Reason_HigherConfiguredOrder, Reason_AlternativeCoolingDown}"
    using RoutingRecommendationReason.exhaust by blast
  ultimately show "length rs \<le> 9"
    using card_mono [of "{Reason_Configured, Reason_Eligible, Reason_RoleCompatible, Reason_AccountReady, Reason_ConnectionReady,
      Reason_CapabilityValidated, Reason_PoolHasEligibleTargets, Reason_HigherConfiguredOrder, Reason_AlternativeCoolingDown}" "set rs"]
    by (simp add: distinct_card)
qed

lemma recommend_reasons:
  "distinct (rr_reasons (recommend_candidate e c i))
   \<and> (Reason_HigherConfiguredOrder \<in> set (rr_reasons (recommend_candidate e c i)) \<longleftrightarrow> i > 0)
   \<and> (Reason_AlternativeCoolingDown \<in> set (rr_reasons (recommend_candidate e c i))
      \<longleftrightarrow> list_ex (\<lambda>p. is_cooling_down (scs_eligibility p)) (take i (sev_candidates e)))"
proof -
  let ?rs = "collect_reasons [Reason_Configured, Reason_Eligible] (scs_evidence c)"
  have "distinct ?rs" "Reason_HigherConfiguredOrder \<notin> set ?rs" "Reason_AlternativeCoolingDown \<notin> set ?rs"
    using collect_reasons_ok [of "[Reason_Configured, Reason_Eligible]" "scs_evidence c"] evidence_reason_kinds by auto
  then show ?thesis by (auto simp: recommend_candidate_def Let_def)
qed

section \<open>Property\<close>

lemma evaluated_outcome:
  assumes "map scs_eligibility os = map scs_eligibility cs"
  shows "configured_outcome os = configured_outcome cs" "position candidate_eligible os = position candidate_eligible cs"
    "list_ex (\<lambda>p. is_cooling_down (scs_eligibility p)) (take i os) = list_ex (\<lambda>p. is_cooling_down (scs_eligibility p)) (take i cs)"
proof -
  have map: "map (\<lambda>x. f (scs_eligibility x)) os = map (\<lambda>x. f (scs_eligibility x)) cs" for f :: "RoutingStrategyEligibility \<Rightarrow> bool"
    using arg_cong [OF assms, of "map f"] by (simp add: comp_def)
  have len: "length os = length cs" using map_eq_imp_length_eq [OF assms] .
  have count: "length (filter P xs) = length (filter id (map P xs))" for P and xs :: "RoutingStrategyCandidateSnapshot list"
    by (simp add: filter_map comp_def)
  have all: "list_all P xs = list_all id (map P xs)" "list_ex P xs = list_ex id (map P xs)"
    for P and xs :: "RoutingStrategyCandidateSnapshot list" by (simp_all add: list_all_iff list_ex_iff)
  show "position candidate_eligible os = position candidate_eligible cs"
    by (rule position_cong) (use map [of is_eligible] in \<open>simp add: candidate_eligible_def [abs_def]\<close>)
  have "length (filter candidate_eligible os) = length (filter candidate_eligible cs)"
    unfolding candidate_eligible_def [abs_def] count [of _ os] count [of _ cs] map [of is_eligible] ..
  moreover have "list_all (\<lambda>c. is_cooling_down (scs_eligibility c)) os = list_all (\<lambda>c. is_cooling_down (scs_eligibility c)) cs"
    unfolding all(1) [of _ os] all(1) [of _ cs] map [of is_cooling_down] ..
  moreover have "os = [] \<longleftrightarrow> cs = []" using len by auto
  ultimately show "configured_outcome os = configured_outcome cs" unfolding configured_outcome_def by presburger
  show "list_ex (\<lambda>p. is_cooling_down (scs_eligibility p)) (take i os) = list_ex (\<lambda>p. is_cooling_down (scs_eligibility p)) (take i cs)"
    unfolding all(2) [of _ "take i os"] all(2) [of _ "take i cs"] take_map [symmetric] map [of is_cooling_down] ..
qed

definition no_candidate_reason :: "RoutingStrategyCandidateSnapshot list \<Rightarrow> AutomaticRoutingUnavailableReason" where
  "no_candidate_reason cs =
     (if cs = [] then Auto_NoConfiguredCandidates
      else if list_all (\<lambda>c. is_cooling_down (scs_eligibility c)) cs then Auto_AllCandidatesCoolingDown
      else Auto_NoEligibleCandidates)"

lemma configured_outcome_cases:
  "configured_outcome cs =
     (case position candidate_eligible cs of
        None \<Rightarrow> NoSelection (if cs = [] then NoConfiguredCandidates
                  else if list_all (\<lambda>c. is_cooling_down (scs_eligibility c)) cs then AllCandidatesCoolingDown
                  else NoEligibleCandidates)
      | Some i \<Rightarrow> CandidatesAvailable (length (filter candidate_eligible cs)))"
  using filter_position [of candidate_eligible cs] by (auto simp: configured_outcome_def Let_def split: option.splits)


section \<open>Example\<close>

definition demo_candidate :: "string \<Rightarrow> RoutingStrategyEligibility \<Rightarrow> RoutingStrategyCandidateSnapshot" where
  "demo_candidate model eligibility =
     \<lparr>scs_candidate = \<lparr>sc_id = \<lparr>sci_profile_id = ''prod'', sci_role = Executor, sci_target = Target_Pool ''team'' ''codex'' model\<rparr>\<rparr>,
      scs_evidence = [Informational Info_Configured, Eligibility Elig_AccountReady], scs_eligibility = eligibility\<rparr>"

definition demo_candidates :: "RoutingStrategyCandidateSnapshot list" where
  "demo_candidates = [demo_candidate ''a'' (from_cooldown_status (CoolingDown 5 FC_RateLimited)),
     demo_candidate ''b'' Strategy_Eligible, demo_candidate ''c'' Strategy_Eligible]"


end
