(* ===== verification/Session_Execution.thy ===== *)
theory Session_Execution
  imports Execution_Modes
begin

text \<open>
  The session's execution state (\<open>session_execution.rs\<close>) and the resolution of a strategy with an
  execution mode (\<open>orchestration_policy.rs\<close>): the lifecycle of a live run with its generations, the
  selections that are allowed only between runs, and the guard of a routing update. The mutex around
  the state is a flag for its poisoning. The rotation and cooldown states that a session also owns
  are handed out and never touched by these operations; \<open>Pool_Rotation\<close> and \<open>Provider_Failure\<close>
  model them.
\<close>

section \<open>Strategy and execution mode\<close>

datatype OrchestrationStrategyUnavailableReason =
  AutomaticSelectorUnavailable | RecommendationAuthorityUnavailable | AdaptiveUsageAuthorityUnavailable

datatype OrchestrationStrategyAvailability =
  Strategy_Available | Strategy_Unavailable OrchestrationStrategyUnavailableReason

record ResolvedOrchestrationPolicy =
  rop_strategy :: OrchestrationMode
  rop_execution :: ResolvedExecutionPolicy
  rop_availability :: OrchestrationStrategyAvailability

fun strategy_availability_of :: "OrchestrationMode \<Rightarrow> OrchestrationStrategyAvailability" where
  "strategy_availability_of Mode_Single = Strategy_Available"
| "strategy_availability_of Mode_Manual = Strategy_Available"
| "strategy_availability_of Mode_Recommended = Strategy_Available"
| "strategy_availability_of Mode_Automatic = Strategy_Available"
| "strategy_availability_of Mode_Adaptive = Strategy_Available"

definition orchestration_resolve ::
  "OrchestrationMode \<Rightarrow> ExecutionModeSelection \<Rightarrow>
   (ExecutionPolicyError failure, ResolvedOrchestrationPolicy) result" where
  "orchestration_resolve strategy preset =
     res_bind (resolve_mode preset) (\<lambda>execution.
       Inr \<lparr>rop_strategy = strategy, rop_execution = execution,
            rop_availability = strategy_availability_of strategy\<rparr>)"

definition requires_syndrid_runtime :: "ResolvedOrchestrationPolicy \<Rightarrow> bool" where
  "requires_syndrid_runtime p \<longleftrightarrow> rop_availability p = Strategy_Available \<and> rop_strategy p \<noteq> Mode_Single"

section \<open>The session state\<close>

datatype SessionPolicyValidation =
  Validation_Unresolved | Validation_Valid | Validation_Invalid ExecutionPolicyError

datatype SessionExecutionStatus =
  Sess_Idle | Sess_Preparing | Sess_Validating | Sess_Running | Sess_Cancelling
  | Sess_Completed | Sess_Failed | Sess_Cancelled | Sess_TimedOut

datatype SessionPolicySource =
  PS_Default | PS_ExplicitUserSelection | PS_SessionOverride | PS_ExplicitCustomPolicy

datatype SessionExecutionStateError =
  LockUnavailable | InvalidTransition SessionExecutionStatus SessionExecutionStatus | RunAlreadyActive
  | PolicyMutationWhileActive | RoutingMutationWhileActive | PolicyUnresolved | ResetWhileActive
  | ResetWhileCleanupPending | StaleRunGeneration

record SessionExecutionInner =
  sei_strategy :: OrchestrationMode
  sei_selected_mode :: ExecutionModeSelection
  sei_resolved_policy :: ResolvedExecutionPolicy
  sei_resolved_orchestration_policy :: ResolvedOrchestrationPolicy
  sei_routing_profile_id :: "string option"
  sei_source :: SessionPolicySource
  sei_validation :: SessionPolicyValidation
  sei_status :: SessionExecutionStatus
  sei_next_generation :: nat
  sei_active_generation :: "nat option"
  sei_routing_update_in_progress :: bool

record SessionExecutionPolicyState =
  ses_inner :: SessionExecutionInner
  ses_poisoned :: bool

type_synonym 'a session_answer = "(SessionExecutionStateError, 'a) result \<times> SessionExecutionPolicyState"

definition with_session ::
  "(SessionExecutionInner \<Rightarrow> (SessionExecutionStateError, 'a) result \<times> SessionExecutionInner) \<Rightarrow>
   SessionExecutionPolicyState \<Rightarrow> 'a session_answer" where
  "with_session f s =
     (if ses_poisoned s then (Inl LockUnavailable, s)
      else case f (ses_inner s) of (r, i) \<Rightarrow> (r, s\<lparr>ses_inner := i\<rparr>))"

definition with_strategy_selection ::
  "OrchestrationMode \<Rightarrow> ExecutionModeSelection \<Rightarrow> SessionPolicySource \<Rightarrow>
   (ExecutionPolicyError failure, SessionExecutionPolicyState) result" where
  "with_strategy_selection strategy selection source =
     res_bind (orchestration_resolve strategy selection) (\<lambda>rop.
       Inr \<lparr>ses_inner =
              \<lparr>sei_strategy = strategy, sei_selected_mode = selection,
               sei_resolved_policy = rop_execution rop, sei_resolved_orchestration_policy = rop,
               sei_routing_profile_id = None, sei_source = source,
               sei_validation = Validation_Unresolved, sei_status = Sess_Idle,
               sei_next_generation = 0, sei_active_generation = None,
               sei_routing_update_in_progress = False\<rparr>,
            ses_poisoned = False\<rparr>)"

definition with_selection ::
  "ExecutionModeSelection \<Rightarrow> SessionPolicySource \<Rightarrow>
   (ExecutionPolicyError failure, SessionExecutionPolicyState) result" where
  "with_selection = with_strategy_selection Mode_Single"

definition session_new :: "(ExecutionPolicyError failure, SessionExecutionPolicyState) result" where
  "session_new = with_selection Select_Balanced PS_Default"

section \<open>Selections between runs\<close>

definition ensure_idle :: "SessionExecutionInner \<Rightarrow> bool \<Rightarrow> (SessionExecutionStateError, unit) result" where
  "ensure_idle i policy =
     (if sei_status i \<noteq> Sess_Idle \<or> sei_routing_update_in_progress i
      then Inl (if policy then PolicyMutationWhileActive else RoutingMutationWhileActive)
      else Inr ())"

definition select_mode ::
  "ExecutionModeSelection \<Rightarrow> SessionPolicySource \<Rightarrow> SessionExecutionPolicyState \<Rightarrow> unit session_answer" where
  "select_mode selection source = with_session (\<lambda>i.
     case ensure_idle i True of Inl e \<Rightarrow> (Inl e, i) | Inr _ \<Rightarrow>
     case orchestration_resolve (sei_strategy i) selection of
       Inl _ \<Rightarrow> (Inl PolicyUnresolved, i)
     | Inr rop \<Rightarrow>
         (Inr (), i\<lparr>sei_selected_mode := selection, sei_resolved_policy := rop_execution rop,
                   sei_resolved_orchestration_policy := rop, sei_source := source,
                   sei_validation := Validation_Unresolved\<rparr>))"

definition select_strategy ::
  "OrchestrationMode \<Rightarrow> SessionExecutionPolicyState \<Rightarrow> unit session_answer" where
  "select_strategy strategy = with_session (\<lambda>i.
     case ensure_idle i True of Inl e \<Rightarrow> (Inl e, i) | Inr _ \<Rightarrow>
     case orchestration_resolve strategy (sei_selected_mode i) of
       Inl _ \<Rightarrow> (Inl PolicyUnresolved, i)
     | Inr rop \<Rightarrow>
         (Inr (), i\<lparr>sei_strategy := strategy, sei_resolved_policy := rop_execution rop,
                   sei_resolved_orchestration_policy := rop,
                   sei_validation := Validation_Unresolved\<rparr>))"

definition select_routing_profile ::
  "string \<Rightarrow> SessionExecutionPolicyState \<Rightarrow> unit session_answer" where
  "select_routing_profile profile_id = with_session (\<lambda>i.
     case ensure_idle i False of Inl e \<Rightarrow> (Inl e, i) | Inr _ \<Rightarrow>
       (Inr (), i\<lparr>sei_routing_profile_id := Some profile_id, sei_validation := Validation_Unresolved\<rparr>))"

definition session_resolved_policy ::
  "SessionExecutionPolicyState \<Rightarrow> (SessionExecutionStateError, ResolvedExecutionPolicy) result" where
  "session_resolved_policy s = fst (with_session (\<lambda>i. (Inr (sei_resolved_policy i), i)) s)"

definition session_routing_profile_id ::
  "SessionExecutionPolicyState \<Rightarrow> (SessionExecutionStateError, string option) result" where
  "session_routing_profile_id s = fst (with_session (\<lambda>i. (Inr (sei_routing_profile_id i), i)) s)"

definition begin_routing_update :: "SessionExecutionPolicyState \<Rightarrow> unit session_answer" where
  "begin_routing_update = with_session (\<lambda>i.
     if sei_status i \<noteq> Sess_Idle \<or> sei_routing_update_in_progress i
     then (Inl RoutingMutationWhileActive, i)
     else (Inr (), i\<lparr>sei_routing_update_in_progress := True\<rparr>))"

definition routing_update_guard_drop :: "SessionExecutionPolicyState \<Rightarrow> SessionExecutionPolicyState" where
  "routing_update_guard_drop s =
     (if ses_poisoned s then s
      else s\<lparr>ses_inner := (ses_inner s)\<lparr>sei_routing_update_in_progress := False\<rparr>\<rparr>)"

section \<open>The lifecycle of a run\<close>

fun valid_transition :: "SessionExecutionStatus \<Rightarrow> SessionExecutionStatus \<Rightarrow> bool" where
  "valid_transition Sess_Idle Sess_Preparing = True"
| "valid_transition Sess_Preparing Sess_Validating = True"
| "valid_transition Sess_Validating Sess_Running = True"
| "valid_transition Sess_Validating Sess_Failed = True"
| "valid_transition Sess_Validating Sess_Cancelling = True"
| "valid_transition Sess_Running Sess_Completed = True"
| "valid_transition Sess_Running Sess_Failed = True"
| "valid_transition Sess_Running Sess_Cancelling = True"
| "valid_transition Sess_Running Sess_TimedOut = True"
| "valid_transition Sess_Cancelling Sess_Cancelled = True"
| "valid_transition _ _ = False"

fun active_status :: "SessionExecutionStatus \<Rightarrow> bool" where
  "active_status Sess_Preparing = True"
| "active_status Sess_Validating = True"
| "active_status Sess_Running = True"
| "active_status Sess_Cancelling = True"
| "active_status _ = False"

fun ended_status :: "SessionExecutionStatus \<Rightarrow> bool" where
  "ended_status Sess_Completed = True"
| "ended_status Sess_Failed = True"
| "ended_status Sess_Cancelled = True"
| "ended_status Sess_TimedOut = True"
| "ended_status _ = False"

definition reset_to_idle :: "SessionExecutionPolicyState \<Rightarrow> unit session_answer" where
  "reset_to_idle = with_session (\<lambda>i.
     if active_status (sei_status i) then (Inl ResetWhileActive, i)
     else if sei_status i = Sess_Idle
     then (if sei_active_generation i \<noteq> None then (Inl ResetWhileCleanupPending, i) else (Inr (), i))
     else if \<not> ended_status (sei_status i) then (Inl ResetWhileCleanupPending, i)
     else (Inr (), i\<lparr>sei_status := Sess_Idle, sei_validation := Validation_Unresolved,
                    sei_active_generation := None\<rparr>))"

definition session_transition ::
  "SessionExecutionStatus \<Rightarrow> SessionExecutionPolicyState \<Rightarrow> unit session_answer" where
  "session_transition next = with_session (\<lambda>i.
     if \<not> valid_transition (sei_status i) next then (Inl (InvalidTransition (sei_status i) next), i)
     else (Inr (), i\<lparr>sei_status := next\<rparr>))"

definition begin_run :: "SessionExecutionPolicyState \<Rightarrow> nat session_answer" where
  "begin_run = with_session (\<lambda>i.
     if sei_status i \<noteq> Sess_Idle \<or> sei_routing_update_in_progress i then (Inl RunAlreadyActive, i)
     else if \<not> valid_transition (sei_status i) Sess_Preparing
     then (Inl (InvalidTransition (sei_status i) Sess_Preparing), i)
     else if sei_next_generation i + 1 > u64_max then (Inl StaleRunGeneration, i)
     else let g = sei_next_generation i + 1 in
       (Inr g, i\<lparr>sei_next_generation := g, sei_active_generation := Some g, sei_status := Sess_Preparing\<rparr>))"

definition terminalize_generation ::
  "nat \<Rightarrow> SessionExecutionStatus \<Rightarrow> SessionExecutionPolicyState \<Rightarrow> unit session_answer" where
  "terminalize_generation g next = with_session (\<lambda>i.
     if sei_active_generation i \<noteq> Some g then (Inl StaleRunGeneration, i)
     else if \<not> valid_transition (sei_status i) next then (Inl (InvalidTransition (sei_status i) next), i)
     else (Inr (), i\<lparr>sei_status := next,
                    sei_active_generation := (if ended_status next then None else sei_active_generation i)\<rparr>))"

definition mark_policy_valid :: "SessionExecutionPolicyState \<Rightarrow> unit session_answer" where
  "mark_policy_valid = with_session (\<lambda>i. (Inr (), i\<lparr>sei_validation := Validation_Valid\<rparr>))"

definition mark_policy_invalid ::
  "ExecutionPolicyError \<Rightarrow> SessionExecutionPolicyState \<Rightarrow> unit session_answer" where
  "mark_policy_invalid e = with_session (\<lambda>i. (Inr (), i\<lparr>sei_validation := Validation_Invalid e\<rparr>))"

definition mark_timed_out_after_cleanup ::
  "nat \<Rightarrow> SessionExecutionPolicyState \<Rightarrow> unit session_answer" where
  "mark_timed_out_after_cleanup g = with_session (\<lambda>i.
     if sei_active_generation i \<noteq> Some g
        \<and> \<not> (sei_active_generation i = None \<and> sei_next_generation i = g \<and> sei_status i = Sess_Cancelled)
     then (Inl StaleRunGeneration, i)
     else if sei_status i \<noteq> Sess_Running \<and> sei_status i \<noteq> Sess_Cancelled
     then (Inl (InvalidTransition (sei_status i) Sess_TimedOut), i)
     else (Inr (), i\<lparr>sei_status := Sess_TimedOut, sei_active_generation := None\<rparr>))"

section \<open>Summary\<close>

fun resolved_mode_id :: "ExecutionModeSelection \<Rightarrow> string" where
  "resolved_mode_id Select_Fast = ''fast''"
| "resolved_mode_id Select_Balanced = ''balanced''"
| "resolved_mode_id Select_UsageSaver = ''usage_saver''"
| "resolved_mode_id Select_Deep = ''deep''"
| "resolved_mode_id (Select_Custom _) = ''custom''"

definition roles_where ::
  "(RoleActivation \<Rightarrow> bool) \<Rightarrow> ExecutionPolicy \<Rightarrow> RoutingRole list" where
  "roles_where f p = map fst (filter (\<lambda>(_, role). f (rep_activation role)) (ep_roles p))"

record SessionPolicySummary =
  sum_strategy :: OrchestrationMode
  sum_strategy_availability :: OrchestrationStrategyAvailability
  sum_selected_mode :: ExecutionModeSelection
  sum_resolved_mode_id :: string
  sum_built_in :: bool
  sum_source :: SessionPolicySource
  sum_routing_profile_id :: "string option"
  sum_enabled_roles :: "RoutingRole list"
  sum_disabled_roles :: "RoutingRole list"
  sum_optional_roles :: "RoutingRole list"
  sum_efforts :: "(RoutingRole, ReasoningEffort) btree_map"
  sum_max_subagents :: nat
  sum_max_concurrency :: nat
  sum_repair_enabled :: bool
  sum_verifier_enabled :: bool
  sum_planner_enabled :: bool
  sum_task_timeout :: nat
  sum_batch_timeout :: nat
  sum_repair_timeout :: nat
  sum_provider_invocation_budget :: nat
  sum_tool_call_budget :: nat
  sum_context_budget_bytes :: nat
  sum_output_budget_tokens :: nat
  sum_validation :: SessionPolicyValidation
  sum_status :: SessionExecutionStatus

definition policy_summary ::
  "SessionExecutionInner \<Rightarrow> (ExecutionPolicyError failure, SessionPolicySummary) result" where
  "policy_summary i =
     (let rp = sei_resolved_policy i; p = resolved_policy rp in
      res_bind (resolved_role rp Repair) (\<lambda>repair.
      res_bind (resolved_role rp Verifier) (\<lambda>verifier.
      res_bind (resolved_role rp Planner) (\<lambda>planner.
        Inr \<lparr>sum_strategy = sei_strategy i,
             sum_strategy_availability = rop_availability (sei_resolved_orchestration_policy i),
             sum_selected_mode = sei_selected_mode i,
             sum_resolved_mode_id = resolved_mode_id (resolved_selected_mode rp),
             sum_built_in = (case resolved_source rp of Source_BuiltIn _ \<Rightarrow> True | Source_Custom \<Rightarrow> False),
             sum_source = sei_source i, sum_routing_profile_id = sei_routing_profile_id i,
             sum_enabled_roles = roles_where (\<lambda>a. a \<noteq> Role_Disabled) p,
             sum_disabled_roles = roles_where (\<lambda>a. a = Role_Disabled) p,
             sum_optional_roles = roles_where (\<lambda>a. a = Role_Optional) p,
             sum_efforts = map (\<lambda>(role, v). (role, rep_effort v)) (ep_roles p),
             sum_max_subagents = ep_max_subagents p, sum_max_concurrency = ep_max_concurrency p,
             sum_repair_enabled = (rep_activation repair \<noteq> Role_Disabled),
             sum_verifier_enabled = (rep_activation verifier \<noteq> Role_Disabled),
             sum_planner_enabled = (rep_activation planner \<noteq> Role_Disabled),
             sum_task_timeout = ep_task_timeout p, sum_batch_timeout = ep_batch_timeout p,
             sum_repair_timeout = ep_repair_timeout p,
             sum_provider_invocation_budget = ep_max_provider_invocations p,
             sum_tool_call_budget = ep_max_tool_calls p,
             sum_context_budget_bytes = ep_context_budget_bytes p,
             sum_output_budget_tokens = ep_output_budget_tokens p,
             sum_validation = sei_validation i, sum_status = sei_status i\<rparr>))))"

section \<open>Runs of a session\<close>

text \<open>
  The operations the crate issues. A run leaves \<open>Preparing\<close> and \<open>Validating\<close> by
  \<^const>\<open>session_transition\<close>, which is called with these two targets only; every end of a run goes
  through \<^const>\<open>terminalize_generation\<close>. A live routing-update guard is dropped once.
\<close>

datatype session_op =
  S_SelectMode ExecutionModeSelection SessionPolicySource | S_SelectStrategy OrchestrationMode
  | S_SelectProfile string | S_BeginUpdate | S_DropUpdateGuard | S_Reset | S_BeginRun
  | S_Validate | S_Start | S_Terminalize nat SessionExecutionStatus
  | S_MarkValid | S_MarkInvalid ExecutionPolicyError | S_MarkTimedOut nat

record session_sys =
  sst_state :: SessionExecutionPolicyState
  sst_guards :: nat
  sst_issued :: "nat list"

definition session_sys_new :: "SessionExecutionPolicyState \<Rightarrow> session_sys" where
  "session_sys_new s = \<lparr>sst_state = s, sst_guards = 0, sst_issued = []\<rparr>"

definition on_session ::
  "(SessionExecutionPolicyState \<Rightarrow> 'a session_answer) \<Rightarrow> session_sys \<Rightarrow> session_sys" where
  "on_session f s = s\<lparr>sst_state := snd (f (sst_state s))\<rparr>"

fun session_apply :: "session_sys \<Rightarrow> session_op \<Rightarrow> session_sys" where
  "session_apply s (S_SelectMode sel src) = on_session (select_mode sel src) s"
| "session_apply s (S_SelectStrategy m) = on_session (select_strategy m) s"
| "session_apply s (S_SelectProfile p) = on_session (select_routing_profile p) s"
| "session_apply s S_BeginUpdate =
     (case begin_routing_update (sst_state s) of
        (Inl _, st) \<Rightarrow> s\<lparr>sst_state := st\<rparr>
      | (Inr _, st) \<Rightarrow> s\<lparr>sst_state := st, sst_guards := sst_guards s + 1\<rparr>)"
| "session_apply s S_DropUpdateGuard =
     (if sst_guards s = 0 then s
      else s\<lparr>sst_state := routing_update_guard_drop (sst_state s), sst_guards := sst_guards s - 1\<rparr>)"
| "session_apply s S_Reset = on_session reset_to_idle s"
| "session_apply s S_BeginRun =
     (case begin_run (sst_state s) of
        (Inl _, st) \<Rightarrow> s\<lparr>sst_state := st\<rparr>
      | (Inr g, st) \<Rightarrow> s\<lparr>sst_state := st, sst_issued := sst_issued s @ [g]\<rparr>)"
| "session_apply s S_Validate = on_session (session_transition Sess_Validating) s"
| "session_apply s S_Start = on_session (session_transition Sess_Running) s"
| "session_apply s (S_Terminalize g st) = on_session (terminalize_generation g st) s"
| "session_apply s S_MarkValid = on_session mark_policy_valid s"
| "session_apply s (S_MarkInvalid e) = on_session (mark_policy_invalid e) s"
| "session_apply s (S_MarkTimedOut g) = on_session (mark_timed_out_after_cleanup g) s"

lemmas session_defs = with_session_def ensure_idle_def select_mode_def select_strategy_def
  select_routing_profile_def begin_routing_update_def routing_update_guard_drop_def reset_to_idle_def
  session_transition_def begin_run_def terminalize_generation_def mark_policy_valid_def
  mark_policy_invalid_def mark_timed_out_after_cleanup_def on_session_def

text \<open>What a run fixes: the selections and the policy resolved from them.\<close>

definition selections ::
  "SessionExecutionInner \<Rightarrow> OrchestrationMode \<times> ExecutionModeSelection \<times> ResolvedExecutionPolicy \<times>
     ResolvedOrchestrationPolicy \<times> string option \<times> SessionPolicySource" where
  "selections i = (sei_strategy i, sei_selected_mode i, sei_resolved_policy i,
     sei_resolved_orchestration_policy i, sei_routing_profile_id i, sei_source i)"

definition policy_coherent :: "SessionExecutionInner \<Rightarrow> bool" where
  "policy_coherent i \<longleftrightarrow>
     orchestration_resolve (sei_strategy i) (sei_selected_mode i) = Inr (sei_resolved_orchestration_policy i)
     \<and> sei_resolved_policy i = rop_execution (sei_resolved_orchestration_policy i)"

definition lifecycle_ok :: "SessionExecutionInner \<Rightarrow> bool" where
  "lifecycle_ok i \<longleftrightarrow>
     sei_active_generation i = (if active_status (sei_status i) then Some (sei_next_generation i) else None)
     \<and> (sei_routing_update_in_progress i \<longrightarrow> sei_status i = Sess_Idle)
     \<and> sei_next_generation i \<le> u64_max
     \<and> (active_status (sei_status i) \<longrightarrow> 0 < sei_next_generation i)"

definition session_state_inv :: "session_sys \<Rightarrow> bool" where
  "session_state_inv s \<longleftrightarrow>
     (let i = ses_inner (sst_state s) in
      \<not> ses_poisoned (sst_state s) \<and> policy_coherent i \<and> lifecycle_ok i
      \<and> sst_guards s = of_bool (sei_routing_update_in_progress i)
      \<and> sst_issued s = [1..<Suc (sei_next_generation i)])"

lemma ended_status_inactive: "ended_status st \<Longrightarrow> \<not> active_status st"
  by (cases st) simp_all

lemma valid_transition_target:
  "valid_transition from to \<Longrightarrow> (active_status from \<and> (active_status to \<or> ended_status to)) \<or> (from = Sess_Idle \<and> to = Sess_Preparing)"
  by (cases "(from, to)" rule: valid_transition.cases) simp_all

text \<open>Operations other than the start of a run and of a routing update keep the ghost state.\<close>

definition inner_inv :: "SessionExecutionInner \<Rightarrow> bool" where
  "inner_inv i \<longleftrightarrow> policy_coherent i \<and> lifecycle_ok i"

definition quiet :: "(SessionExecutionPolicyState \<Rightarrow> 'a session_answer) \<Rightarrow> bool" where
  "quiet f \<longleftrightarrow> (\<forall>s. \<not> ses_poisoned s \<and> inner_inv (ses_inner s) \<longrightarrow>
     (let s' = snd (f s) in
      \<not> ses_poisoned s' \<and> inner_inv (ses_inner s')
      \<and> sei_next_generation (ses_inner s') = sei_next_generation (ses_inner s)
      \<and> sei_routing_update_in_progress (ses_inner s') = sei_routing_update_in_progress (ses_inner s)))"

lemma quiet_session_state_inv: "quiet f \<Longrightarrow> session_state_inv s \<Longrightarrow> session_state_inv (on_session f s)"
  unfolding quiet_def by (drule spec [of _ "sst_state s"]) (simp add: session_state_inv_def inner_inv_def on_session_def Let_def)

lemma quiet_selections:
  "quiet (select_mode sel src)" "quiet (select_strategy m)" "quiet (select_routing_profile p)"
  by (auto simp: quiet_def session_defs inner_inv_def policy_coherent_def lifecycle_ok_def split: sum.splits)

lemma quiet_marks: "quiet mark_policy_valid" "quiet (mark_policy_invalid e)"
  by (auto simp: quiet_def session_defs inner_inv_def policy_coherent_def lifecycle_ok_def)

lemma quiet_reset: "quiet reset_to_idle"
  by (auto simp: quiet_def session_defs inner_inv_def policy_coherent_def lifecycle_ok_def)

lemma quiet_transition: "active_status st \<Longrightarrow> st \<noteq> Sess_Preparing \<Longrightarrow> quiet (session_transition st)"
  by (auto simp: quiet_def session_defs inner_inv_def policy_coherent_def lifecycle_ok_def dest: valid_transition_target)

lemma quiet_terminalize: "quiet (terminalize_generation g st)"
  by (auto simp: quiet_def session_defs inner_inv_def policy_coherent_def lifecycle_ok_def Let_def
      dest!: valid_transition_target dest: ended_status_inactive split: if_splits)

lemma quiet_timed_out: "quiet (mark_timed_out_after_cleanup g)"
  by (auto simp: quiet_def session_defs inner_inv_def policy_coherent_def lifecycle_ok_def split: if_splits)

lemma session_state_inv_begin_run: "session_state_inv s \<Longrightarrow> session_state_inv (session_apply s S_BeginRun)"
  by (auto simp: session_state_inv_def session_defs policy_coherent_def lifecycle_ok_def Let_def)

lemma session_state_inv_updates:
  "session_state_inv s \<Longrightarrow> session_state_inv (session_apply s S_BeginUpdate)"
  "session_state_inv s \<Longrightarrow> session_state_inv (session_apply s S_DropUpdateGuard)"
  by (auto simp: session_state_inv_def session_defs policy_coherent_def lifecycle_ok_def Let_def)

lemmas quiet_ops = quiet_selections quiet_marks quiet_reset quiet_terminalize quiet_timed_out

lemma session_state_inv_step: "session_state_inv s \<Longrightarrow> session_state_inv (session_apply s op)"
proof (cases op)
  case S_Validate
  then show "session_state_inv s \<Longrightarrow> ?thesis" by (simp add: quiet_session_state_inv quiet_transition)
next
  case S_Start
  then show "session_state_inv s \<Longrightarrow> ?thesis" by (simp add: quiet_session_state_inv quiet_transition)
qed (simp_all only: session_state_inv_begin_run session_state_inv_updates, simp_all add: quiet_session_state_inv quiet_ops)

definition session_initial :: "session_sys \<Rightarrow> bool" where
  "session_initial s \<longleftrightarrow>
     (\<exists>strategy sel src st. with_strategy_selection strategy sel src = Inr st \<and> s = session_sys_new st)"

lemma session_initial_inv: "session_initial s \<Longrightarrow> session_state_inv s"
  by (auto simp: session_initial_def with_strategy_selection_def res_bind_eq_Inr session_sys_new_def
      session_state_inv_def policy_coherent_def lifecycle_ok_def)

interpretation session: transition_system session_apply session_initial session_state_inv
  by unfold_locales (rule session_initial_inv session_state_inv_step, assumption)+

text \<open>C15: In every state a session can reach, its policy is the resolution of the selected strategy and
  mode, a generation is active exactly while a run is in progress and is then the latest one handed
  out, the generations handed out are \<open>1, 2, 3, ...\<close> without repetition, and a routing update is in
  progress exactly while its one guard lives, which is possible only in an idle session.\<close>

theorem session_lifecycle_invariant:
  assumes "with_strategy_selection strategy sel src = Inr st"
  shows "let s = foldl session_apply (session_sys_new st) ops; i = ses_inner (sst_state s) in
    orchestration_resolve (sei_strategy i) (sei_selected_mode i) = Inr (sei_resolved_orchestration_policy i)
    \<and> resolve_mode (sei_selected_mode i) = Inr (sei_resolved_policy i)
    \<and> (case sei_active_generation i of
         None \<Rightarrow> \<not> active_status (sei_status i)
       | Some g \<Rightarrow> active_status (sei_status i) \<and> sst_issued s \<noteq> [] \<and> g = last (sst_issued s))
    \<and> sst_issued s = [1..<Suc (sei_next_generation i)] \<and> sei_next_generation i \<le> u64_max
    \<and> sst_guards s = of_bool (sei_routing_update_in_progress i)
    \<and> (sst_guards s = 0 \<or> sei_status i = Sess_Idle)"
proof -
  let ?s = "foldl session_apply (session_sys_new st) ops" and ?i = "ses_inner (sst_state (foldl session_apply (session_sys_new st) ops))"
  have "session_initial (session_sys_new st)" using assms by (auto simp: session_initial_def)
  then have inv: "session_state_inv ?s" by (rule session.inv_run)
  then have co: "policy_coherent ?i" and li: "lifecycle_ok ?i"
    and gh: "sst_guards ?s = of_bool (sei_routing_update_in_progress ?i)"
      "sst_issued ?s = [1..<Suc (sei_next_generation ?i)]"
    by (simp_all add: session_state_inv_def Let_def)
  have res: "resolve_mode (sei_selected_mode ?i) = Inr (sei_resolved_policy ?i)"
    using co by (cases "resolve_mode (sei_selected_mode ?i)")
      (auto simp: policy_coherent_def orchestration_resolve_def dest!: arg_cong [where f = rop_execution])
  show ?thesis
    using co li gh res
    by (auto simp: Let_def policy_coherent_def lifecycle_ok_def split: option.splits if_splits)
qed

section \<open>A run keeps what was selected\<close>

abbreviation sys_inner :: "session_sys \<Rightarrow> SessionExecutionInner" where
  "sys_inner s \<equiv> ses_inner (sst_state s)"

lemma step_keeps_run:
  assumes "session_state_inv s"
  shows "sei_next_generation (sys_inner s) \<le> sei_next_generation (sys_inner (session_apply s op))
    \<and> (sei_active_generation (sys_inner (session_apply s op)) = Some g \<and> g \<le> sei_next_generation (sys_inner s) \<longrightarrow>
        sei_active_generation (sys_inner s) = Some g
        \<and> selections (sys_inner (session_apply s op)) = selections (sys_inner s))"
  using assms
  by (cases op) (auto simp: session_state_inv_def session_defs policy_coherent_def lifecycle_ok_def Let_def selections_def
      split: sum.splits if_splits dest: valid_transition_target)

lemma run_keeps_selections:
  assumes "session_state_inv s" "sei_active_generation (sys_inner s) = Some g"
  shows "session_state_inv (foldl session_apply s ops)
    \<and> g \<le> sei_next_generation (sys_inner (foldl session_apply s ops))
    \<and> (sei_active_generation (sys_inner (foldl session_apply s ops)) = Some g \<longrightarrow>
         selections (sys_inner (foldl session_apply s ops)) = selections (sys_inner s))"
proof (induction ops rule: rev_induct)
  case Nil
  have "g = sei_next_generation (sys_inner s)"
    using assms by (auto simp: session_state_inv_def lifecycle_ok_def Let_def split: if_splits)
  then show ?case using assms(1) by simp
next
  case (snoc op ops)
  then have inv: "session_state_inv (foldl session_apply s ops)" by blast
  from snoc step_keeps_run [OF inv, of op g] session_state_inv_step [OF inv, of op] show ?case by auto
qed

text \<open>C16: While a run is in progress nothing changes the strategy, the mode, the resolved policy or the
  routing profile: two states of a session with the same active generation agree on them, whatever
  operations lie between.\<close>

theorem run_freezes_selections:
  assumes "with_strategy_selection strategy sel src = Inr st"
    and "s = foldl session_apply (session_sys_new st) ops" "t = foldl session_apply s ops'"
    and "sei_active_generation (sys_inner s) = Some g" "sei_active_generation (sys_inner t) = Some g"
  shows "selections (sys_inner t) = selections (sys_inner s)"
proof -
  have "session_initial (session_sys_new st)" using assms(1) by (auto simp: session_initial_def)
  then have "session_state_inv s" unfolding assms(2) by (rule session.inv_run)
  from run_keeps_selections [OF this assms(4), of ops'] assms(3,5) show ?thesis by simp
qed

section \<open>No dead end\<close>

fun recovery :: "SessionExecutionStatus \<Rightarrow> nat \<Rightarrow> session_op list" where
  "recovery Sess_Idle g = []"
| "recovery Sess_Preparing g = [S_Validate, S_Terminalize g Sess_Failed, S_Reset]"
| "recovery Sess_Validating g = [S_Terminalize g Sess_Failed, S_Reset]"
| "recovery Sess_Running g = [S_Terminalize g Sess_Failed, S_Reset]"
| "recovery Sess_Cancelling g = [S_Terminalize g Sess_Cancelled, S_Reset]"
| "recovery _ g = [S_Reset]"

text \<open>C17: The lifecycle has no dead end: from every state a session can reach without a routing update in
  progress, at most three operations lead to a state in which the next run starts, under a generation
  never used before.\<close>

theorem session_reusable:
  assumes "with_strategy_selection strategy sel src = Inr st"
    and "s = foldl session_apply (session_sys_new st) ops"
    and "sst_guards s = 0" "sei_next_generation (sys_inner s) < u64_max"
  shows "\<exists>ops' st' g. length ops' \<le> 3
    \<and> begin_run (sst_state (foldl session_apply s ops')) = (Inr g, st') \<and> g \<notin> set (sst_issued s)"
proof -
  have "session_initial (session_sys_new st)" using assms(1) by (auto simp: session_initial_def)
  then have inv: "session_state_inv s" unfolding assms(2) by (rule session.inv_run)
  let ?i = "sys_inner s" and ?ops = "recovery (sei_status (sys_inner s)) (sei_next_generation (sys_inner s))"
  have "length ?ops \<le> 3" by (cases "sei_status ?i") simp_all
  moreover have "fst (begin_run (sst_state (foldl session_apply s ?ops))) = Inr (sei_next_generation ?i + 1)"
    using inv assms(3,4)
    by (cases "sei_status ?i") (simp_all add: session_state_inv_def session_defs lifecycle_ok_def Let_def)
  moreover have "sei_next_generation ?i + 1 \<notin> set (sst_issued s)"
    using inv by (simp add: session_state_inv_def Let_def)
  ultimately show ?thesis by (metis prod.collapse)
qed

section \<open>An example session\<close>

lemma demo_idle_session:
  obtains st where "with_strategy_selection Mode_Manual Select_Fast PS_Default = Inr st"
    "sei_status (ses_inner st) = Sess_Idle" "sei_next_generation (ses_inner st) = 0"
    "\<not> sei_routing_update_in_progress (ses_inner st)" "\<not> ses_poisoned st"
proof -
  obtain rp where "resolve_mode Select_Fast = Inr rp" using resolve_builtin [OF selection_parts.simps(1)] by blast
  then show thesis using that by (simp add: with_strategy_selection_def orchestration_resolve_def)
qed

theorem session_lifecycle_invariant_witness:
  "\<exists>st. with_strategy_selection Mode_Manual Select_Fast PS_Default = Inr st
     \<and> sst_issued (foldl session_apply (session_sys_new st) [S_BeginRun]) = [1]"
proof -
  obtain st where st: "with_strategy_selection Mode_Manual Select_Fast PS_Default = Inr st"
    "sei_status (ses_inner st) = Sess_Idle" "sei_next_generation (ses_inner st) = 0"
    "\<not> sei_routing_update_in_progress (ses_inner st)" "\<not> ses_poisoned st" by (rule demo_idle_session)
  have "sei_next_generation (sys_inner (foldl session_apply (session_sys_new st) [S_BeginRun])) = 1"
    using st(2-) by (simp add: session_defs session_sys_new_def Let_def u64_max_def)
  with session_lifecycle_invariant [OF st(1), of "[S_BeginRun]"] st(1) show ?thesis
    by (auto simp: Let_def simp del: foldl.simps)
qed

theorem run_freezes_selections_witness:
  "\<exists>st. with_strategy_selection Mode_Manual Select_Fast PS_Default = Inr st
     \<and> (let s = foldl session_apply (session_sys_new st) [S_BeginRun];
            t = foldl session_apply s [S_SelectStrategy Mode_Single, S_Validate]
        in selections (sys_inner t) = selections (sys_inner s))"
proof -
  obtain st where st: "with_strategy_selection Mode_Manual Select_Fast PS_Default = Inr st"
    "sei_status (ses_inner st) = Sess_Idle" "sei_next_generation (ses_inner st) = 0"
    "\<not> sei_routing_update_in_progress (ses_inner st)" "\<not> ses_poisoned st" by (rule demo_idle_session)
  have "sei_active_generation (sys_inner (foldl session_apply (session_sys_new st) [S_BeginRun])) = Some 1"
    "sei_active_generation (sys_inner (foldl session_apply (foldl session_apply (session_sys_new st) [S_BeginRun])
       [S_SelectStrategy Mode_Single, S_Validate])) = Some 1"
    using st(2-) by (simp_all add: session_defs session_sys_new_def Let_def u64_max_def)
  from run_freezes_selections [OF st(1) refl refl this] st(1) show ?thesis unfolding Let_def by blast
qed

theorem session_reusable_witness:
  "\<exists>st ops' st' g. with_strategy_selection Mode_Manual Select_Fast PS_Default = Inr st \<and> length ops' \<le> 3
     \<and> begin_run (sst_state (foldl session_apply (foldl session_apply (session_sys_new st) [S_BeginRun]) ops')) = (Inr g, st')"
proof -
  obtain st where st: "with_strategy_selection Mode_Manual Select_Fast PS_Default = Inr st"
    "sei_status (ses_inner st) = Sess_Idle" "sei_next_generation (ses_inner st) = 0"
    "\<not> sei_routing_update_in_progress (ses_inner st)" "\<not> ses_poisoned st" by (rule demo_idle_session)
  have "sst_guards (foldl session_apply (session_sys_new st) [S_BeginRun]) = 0"
    "sei_next_generation (sys_inner (foldl session_apply (session_sys_new st) [S_BeginRun])) < u64_max"
    using st(2-) by (simp_all add: session_defs session_sys_new_def Let_def u64_max_def)
  from session_reusable [OF st(1) refl this] st(1) show ?thesis by blast
qed

end
