(* ===== verification/Subagent_Batch.thy ===== *)
theory Subagent_Batch
  imports Subagent_Runtime Task_Set "HOL-Library.Multiset"
begin

text \<open>
  Bounded batches of subagents (\<open>subagent_batch.rs\<close>): validation of a batch, the reservation of its
  aggregate budget, the scheduler loop that admits, awaits and settles tasks, and the outcome it
  reports.

  The tasks of a batch run concurrently with the scheduler. What the scheduler sees of them is a
  script: how each task ends (\<open>be_end\<close>), and for every round of the loop which cancellations it
  observes, whether the batch timer fires first, how far the spawned tasks have got in the meantime
  and which of the running ones is joined. Task identifiers come from the executor (\<open>tokio\<close>), which
  promises that they differ from those of the other tasks in the set (\<open>fresh_ids\<close>). The script is
  arbitrary, so a theorem about the scheduler holds for every interleaving.
\<close>

section \<open>Requests and outcomes\<close>

definition SUBAGENT_BATCH_MAX_COMPLETION_AUDIT :: nat where "SUBAGENT_BATCH_MAX_COMPLETION_AUDIT = 128"

text \<open>A task carries whether its own cancellation token is already cancelled when the batch reads it.\<close>

record SubagentTask =
  stk_request :: SubagentRequest
  stk_timeout_override :: "nat option"
  stk_cancelled :: bool

record SubagentBatchRequest =
  sbr_tasks :: "SubagentTask list"
  sbr_policy :: SubagentConcurrencyPolicy

datatype SubagentTaskState =
  TS_Queued | TS_Running | TS_Completed | TS_Failed | TS_Cancelled | TS_TimedOut | TS_BudgetExhausted
  | TS_NotStarted

datatype SubagentBatchStatus =
  BS_Created | BS_Validating | BS_Running | BS_Cancelling | BS_Completed | BS_PartiallyFailed | BS_Failed
  | BS_Cancelled | BS_TimedOut | BS_BudgetExhausted

record SubagentTaskOutcome =
  sto_task_id :: string
  sto_state :: SubagentTaskState
  sto_outcome :: "SubagentOutcome option"
  sto_error :: "SubagentError option"

record SubagentBatchOutcome =
  sbo_status :: SubagentBatchStatus
  sbo_total_task_count :: nat
  sbo_started_task_count :: nat
  sbo_completed_task_count :: nat
  sbo_failed_task_count :: nat
  sbo_cancelled_task_count :: nat
  sbo_timed_out_task_count :: nat
  sbo_not_started_task_count :: nat
  sbo_peak_observed_concurrency :: nat
  sbo_configured_concurrency :: nat
  sbo_aggregate_provider_turns :: nat
  sbo_aggregate_tool_calls :: nat
  sbo_aggregate_tool_output_bytes :: nat
  sbo_elapsed :: nat
  sbo_tasks :: "SubagentTaskOutcome list"
  sbo_completion_audit :: "string list"
  sbo_failure_policy :: SubagentFailurePolicy
  sbo_budget_exhausted :: bool

datatype SubagentBatchError =
  SBE_EmptyBatch | SBE_InvalidConcurrency | SBE_TaskCountExceeded | SBE_DuplicateTaskId
  | SBE_InvalidTask SubagentError | SBE_TimeoutOverrideExceeded | SBE_InvalidPolicy

fun batch_error_message :: "SubagentBatchError \<Rightarrow> string" where
  "batch_error_message SBE_EmptyBatch = ''subagent batch is empty''"
| "batch_error_message SBE_InvalidConcurrency = ''subagent batch concurrency is invalid''"
| "batch_error_message SBE_TaskCountExceeded = ''subagent batch task count exceeds its limit''"
| "batch_error_message SBE_DuplicateTaskId = ''subagent batch contains a duplicate task ID''"
| "batch_error_message (SBE_InvalidTask e) = subagent_error_message e"
| "batch_error_message SBE_TimeoutOverrideExceeded = ''task timeout exceeds batch timeout''"
| "batch_error_message SBE_InvalidPolicy = ''subagent batch policy is invalid''"

section \<open>Aggregate reservations\<close>

record AggregateReservation =
  ar_provider_turns :: nat
  ar_tool_calls :: nat
  ar_tool_output_bytes :: nat

definition reservation_default :: AggregateReservation where
  "reservation_default = \<lparr>ar_provider_turns = 0, ar_tool_calls = 0, ar_tool_output_bytes = 0\<rparr>"

definition task_budget :: "SubagentTask \<Rightarrow> SubagentSessionBudget" where
  "task_budget t = tp_budget (sr_tool_policy (stk_request t))"

definition aggregate_reserve ::
  "AggregateReservation \<Rightarrow> SubagentTask \<Rightarrow> SubagentConcurrencyPolicy \<Rightarrow> AggregateReservation option" where
  "aggregate_reserve r t policy =
     (let turns = saturating_add (ar_provider_turns r) (sb_max_provider_turns (task_budget t));
          tools = saturating_add (ar_tool_calls r) (sb_max_tool_calls (task_budget t));
          bytes = saturating_add (ar_tool_output_bytes r) (sb_max_aggregate_tool_output_bytes (task_budget t))
      in if turns > scp_max_provider_turns policy \<or> tools > scp_max_tool_calls policy
            \<or> bytes > scp_max_tool_output_bytes policy
         then None
         else Some \<lparr>ar_provider_turns = turns, ar_tool_calls = tools, ar_tool_output_bytes = bytes\<rparr>)"

section \<open>Validation\<close>

fun validate_tasks ::
  "SubagentRuntime \<Rightarrow> SubagentConcurrencyPolicy \<Rightarrow> string list \<Rightarrow> SubagentTask list \<Rightarrow>
   (SubagentBatchError, unit) result" where
  "validate_tasks rt policy ids [] = Inr ()"
| "validate_tasks rt policy ids (t # ts) =
     res_bind (ensure (sr_task_id (stk_request t) \<notin> set ids) SBE_DuplicateTaskId) (\<lambda>_.
     res_bind (ensure (\<not> (sr_timeout (stk_request t) > scp_batch_timeout policy
                          \<or> (case stk_timeout_override t of None \<Rightarrow> False
                             | Some timeout \<Rightarrow> timeout > scp_batch_timeout policy)))
                 SBE_TimeoutOverrideExceeded) (\<lambda>_.
     res_bind (ensure (\<not> stk_cancelled t) (SBE_InvalidTask SE_CancelledBeforeStart)) (\<lambda>_.
     res_bind (map_err SBE_InvalidTask (validate_for_batch rt (stk_request t))) (\<lambda>_.
     res_bind (ensure (\<not> (sb_max_provider_turns (task_budget t) > scp_max_provider_turns policy
                          \<or> sb_max_tool_calls (task_budget t) > scp_max_tool_calls policy
                          \<or> sb_max_aggregate_tool_output_bytes (task_budget t) > scp_max_tool_output_bytes policy))
                 SBE_InvalidPolicy) (\<lambda>_.
       validate_tasks rt policy (sr_task_id (stk_request t) # ids) ts)))))"

definition batch_validate :: "SubagentRuntime \<Rightarrow> SubagentBatchRequest \<Rightarrow> (SubagentBatchError, unit) result" where
  "batch_validate rt req =
     (let policy = sbr_policy req in
      res_bind (ensure (sbr_tasks req \<noteq> []) SBE_EmptyBatch) (\<lambda>_.
      res_bind (ensure (\<not> (scp_max_tasks policy = 0 \<or> scp_max_concurrency policy = 0
                          \<or> scp_max_concurrency policy > SUBAGENT_BATCH_MAX_CONCURRENCY
                          \<or> scp_batch_timeout policy = 0 \<or> scp_max_provider_turns policy = 0
                          \<or> scp_max_tool_calls policy = 0 \<or> scp_max_tool_output_bytes policy = 0))
                  SBE_InvalidPolicy) (\<lambda>_.
      res_bind (ensure (length (sbr_tasks req) \<le> scp_max_tasks policy) SBE_TaskCountExceeded) (\<lambda>_.
        validate_tasks rt policy [] (sbr_tasks req)))))"

fun task_state :: "SubagentStatus \<Rightarrow> SubagentTaskState" where
  "task_state SS_Completed = TS_Completed"
| "task_state SS_CompletedWithTruncation = TS_Completed"
| "task_state SS_Cancelled = TS_Cancelled"
| "task_state SS_TimedOut = TS_TimedOut"
| "task_state SS_BudgetExhausted = TS_BudgetExhausted"
| "task_state _ = TS_Failed"

section \<open>The scheduler\<close>

text \<open>How a task ends: with the result of its session, aborted by the executor, or by a panic.\<close>

datatype task_end = End_Outcome SubagentOutcome | End_Error SubagentError | End_Aborted | End_Panicked

record batch_tick =
  tk_cancel_at_admission :: "nat \<Rightarrow> bool"
  tk_cancel_at_wait :: bool
  tk_timer_fires :: bool
  tk_activity :: "activity list"
  tk_pick :: nat
  tk_cancel_at_join :: bool
  tk_cancel_at_end :: bool

record batch_env =
  be_end :: "nat \<Rightarrow> task_end"
  be_tick :: "nat \<Rightarrow> batch_tick"
  be_spawn_id :: "nat list \<Rightarrow> nat"
  be_cancelled_before :: bool
  be_cancel_at_finish :: bool
  be_elapsed :: nat

record batch_state =
  bst_slots :: "SubagentTaskOutcome list"
  bst_cancellation :: bool
  bst_reservations :: AggregateReservation
  bst_live :: task_set
  bst_task_indices :: "nat \<rightharpoonup> nat"
  bst_next :: nat
  bst_completion_audit :: "string list"
  bst_cancelled :: bool
  bst_timed_out :: bool
  bst_budget_exhausted :: bool

abbreviation bst_join_set :: "batch_state \<Rightarrow> (nat \<times> task_phase) list" where
  "bst_join_set st \<equiv> ts_tasks (bst_live st)"

definition fresh_ids :: "batch_env \<Rightarrow> bool" where
  "fresh_ids env \<longleftrightarrow> (\<forall>ids. be_spawn_id env ids \<notin> set ids)"

definition batch_init :: "batch_env \<Rightarrow> SubagentBatchRequest \<Rightarrow> batch_state" where
  "batch_init env req =
     \<lparr>bst_slots = map (\<lambda>t. \<lparr>sto_task_id = sr_task_id (stk_request t), sto_state = TS_Queued,
                            sto_outcome = None, sto_error = None\<rparr>) (sbr_tasks req),
      bst_cancellation = be_cancelled_before env, bst_reservations = reservation_default,
      bst_live = ts_empty, bst_task_indices = Map.empty, bst_next = 0,
      bst_completion_audit = [], bst_cancelled = False, bst_timed_out = False, bst_budget_exhausted = False\<rparr>"

text \<open>Reading the token: another holder may have cancelled it since the last read.\<close>

definition observe :: "bool \<Rightarrow> batch_state \<Rightarrow> batch_state" where
  "observe c st = st\<lparr>bst_cancellation := bst_cancellation st \<or> c\<rparr>"

definition spawn_task :: "batch_env \<Rightarrow> AggregateReservation \<Rightarrow> batch_state \<Rightarrow> batch_state" where
  "spawn_task env r st =
     (let index = bst_next st; id = be_spawn_id env (map fst (bst_join_set st)) in
      st\<lparr>bst_reservations := r,
         bst_slots := (bst_slots st)[index := (bst_slots st ! index)\<lparr>sto_state := TS_Running\<rparr>],
         bst_next := index + 1,
         bst_live := ts_spawn id (bst_live st),
         bst_task_indices := (bst_task_indices st)(id \<mapsto> index)\<rparr>)"

function admit :: "batch_env \<Rightarrow> SubagentBatchRequest \<Rightarrow> batch_tick \<Rightarrow> nat \<Rightarrow> batch_state \<Rightarrow> batch_state" where
  "admit env req tick k st0 =
     (let st = observe (tk_cancel_at_admission tick k) st0 in
      if \<not> bst_cancelled st \<and> \<not> bst_cancellation st \<and> bst_next st < length (sbr_tasks req)
         \<and> length (bst_join_set st) < scp_max_concurrency (sbr_policy req)
      then case aggregate_reserve (bst_reservations st) (sbr_tasks req ! bst_next st) (sbr_policy req) of
             None \<Rightarrow> st\<lparr>bst_budget_exhausted := True, bst_cancelled := True\<rparr>
           | Some r \<Rightarrow> admit env req tick (k + 1) (spawn_task env r st)
      else st)"
  by pat_completeness auto
termination
  by (relation "measure (\<lambda>(env, req, tick, k, st). length (sbr_tasks req) - bst_next st)")
    (auto simp: spawn_task_def observe_def Let_def)

declare admit.simps [simp del]

definition await_join :: "batch_tick \<Rightarrow> batch_state \<Rightarrow> batch_state" where
  "await_join tick st0 =
     (let st = observe (tk_cancel_at_wait tick) st0 in
      if bst_timed_out st \<or> bst_cancelled st \<or> bst_cancellation st then st\<lparr>bst_cancellation := True\<rparr>
      else if tk_timer_fires tick then st\<lparr>bst_timed_out := True, bst_cancellation := True\<rparr>
      else st)"

text \<open>Which of the live tasks the join returns.\<close>

definition picked :: "batch_tick \<Rightarrow> batch_state \<Rightarrow> nat" where
  "picked tick st = tk_pick tick mod length (bst_join_set st)"

definition cancel_batch :: "batch_state \<Rightarrow> batch_state" where
  "cancel_batch st = st\<lparr>bst_cancelled := True, bst_cancellation := True\<rparr>"

definition cancel_remaining :: "SubagentBatchRequest \<Rightarrow> bool \<Rightarrow> batch_state \<Rightarrow> batch_state" where
  "cancel_remaining req failed st =
     (if failed \<and> scp_failure_policy (sbr_policy req) = CancelRemaining then cancel_batch st else st)"

definition settle :: "nat \<Rightarrow> (SubagentTaskOutcome \<Rightarrow> SubagentTaskOutcome) \<Rightarrow> batch_state \<Rightarrow> batch_state" where
  "settle index f st =
     st\<lparr>bst_completion_audit := bst_completion_audit st @ [sto_task_id (bst_slots st ! index)],
        bst_slots := (bst_slots st)[index := f (bst_slots st ! index)]\<rparr>"

definition handle_outcome :: "SubagentBatchRequest \<Rightarrow> nat \<Rightarrow> SubagentOutcome \<Rightarrow> batch_state \<Rightarrow> batch_state" where
  "handle_outcome req index out st =
     (let state0 = task_state (so_status out);
          state = if bst_timed_out st \<and> state0 = TS_Cancelled then TS_TimedOut else state0;
          st1 = cancel_remaining req (state = TS_Failed \<or> state = TS_BudgetExhausted) st;
          st2 = if state = TS_BudgetExhausted then st1\<lparr>bst_budget_exhausted := True\<rparr> else st1
      in settle index (\<lambda>slot. slot\<lparr>sto_state := state, sto_outcome := Some out\<rparr>) st2)"

definition handle_error :: "SubagentBatchRequest \<Rightarrow> nat \<Rightarrow> SubagentError \<Rightarrow> batch_state \<Rightarrow> batch_state" where
  "handle_error req index err st =
     cancel_remaining req True (settle index (\<lambda>slot. slot\<lparr>sto_state := TS_Failed, sto_error := Some err\<rparr>) st)"

definition handle_join_error :: "SubagentBatchRequest \<Rightarrow> nat \<Rightarrow> bool \<Rightarrow> batch_state \<Rightarrow> batch_state" where
  "handle_join_error req index aborted st =
     (if aborted \<and> (bst_timed_out st \<or> bst_cancellation st)
      then settle index (\<lambda>slot. slot\<lparr>sto_state := if bst_timed_out st then TS_TimedOut else TS_Cancelled\<rparr>) st
      else cancel_remaining req True
             (settle index (\<lambda>slot. slot\<lparr>sto_state := TS_Failed, sto_error := Some SE_JoinFailure\<rparr>) st))"

fun handle_end :: "SubagentBatchRequest \<Rightarrow> nat \<Rightarrow> task_end \<Rightarrow> batch_state \<Rightarrow> batch_state" where
  "handle_end req index (End_Outcome out) st = handle_outcome req index out st"
| "handle_end req index (End_Error err) st = handle_error req index err st"
| "handle_end req index End_Aborted st = handle_join_error req index True st"
| "handle_end req index End_Panicked st = handle_join_error req index False st"

definition mark_cancelled :: "bool \<Rightarrow> batch_state \<Rightarrow> batch_state" where
  "mark_cancelled c st0 =
     (let st = observe c st0 in
      if bst_timed_out st \<or> bst_cancellation st then st\<lparr>bst_cancelled := True\<rparr> else st)"

text \<open>One join: an identifier without an index (which \<open>fresh_ids\<close> excludes) is skipped.\<close>

definition tasks_run :: "batch_tick \<Rightarrow> batch_state \<Rightarrow> batch_state" where
  "tasks_run tick st = st\<lparr>bst_live := fold do_activity (tk_activity tick) (bst_live st)\<rparr>"

definition join_task :: "task_end \<Rightarrow> nat \<Rightarrow> batch_state \<Rightarrow> batch_state" where
  "join_task e p st = st\<lparr>bst_live := take_joined (e = End_Aborted) p (bst_live st)\<rparr>"

definition join_round :: "batch_env \<Rightarrow> SubagentBatchRequest \<Rightarrow> batch_tick \<Rightarrow> batch_state \<Rightarrow> batch_state" where
  "join_round env req tick st0 =
     (let st1 = tasks_run tick (await_join tick st0);
          p = picked tick st1;
          id = fst (bst_join_set st1 ! p)
      in case bst_task_indices st1 id of
           None \<Rightarrow> join_task End_Panicked p st1
         | Some index \<Rightarrow>
             let st2 = (join_task (be_end env index) p st1)\<lparr>bst_task_indices := (bst_task_indices st1)(id := None)\<rparr>
             in mark_cancelled (tk_cancel_at_end tick)
                  (handle_end req index (be_end env index) (observe (tk_cancel_at_join tick) st2)))"

text \<open>Every round takes one task out of the set, and the tasks still to come are finite: the loop ends.\<close>

definition work_left :: "SubagentBatchRequest \<Rightarrow> batch_state \<Rightarrow> nat" where
  "work_left req st = 2 * (length (sbr_tasks req) - bst_next st) + length (bst_join_set st)"

lemma observe_frame [simp]:
  "bst_slots (observe c st) = bst_slots st" "bst_next (observe c st) = bst_next st"
  "bst_live (observe c st) = bst_live st" "bst_task_indices (observe c st) = bst_task_indices st"
  "bst_reservations (observe c st) = bst_reservations st"
 "bst_completion_audit (observe c st) = bst_completion_audit st"
  "bst_cancelled (observe c st) = bst_cancelled st" "bst_timed_out (observe c st) = bst_timed_out st"
  "bst_budget_exhausted (observe c st) = bst_budget_exhausted st"
  "bst_cancellation (observe c st) \<longleftrightarrow> bst_cancellation st \<or> c"
  by (simp_all add: observe_def)

lemma cancel_remaining_frame [simp]:
  "bst_slots (cancel_remaining req b st) = bst_slots st" "bst_next (cancel_remaining req b st) = bst_next st"
  "bst_live (cancel_remaining req b st) = bst_live st"
  "bst_task_indices (cancel_remaining req b st) = bst_task_indices st"
  "bst_reservations (cancel_remaining req b st) = bst_reservations st"

  "bst_completion_audit (cancel_remaining req b st) = bst_completion_audit st"
  "bst_timed_out (cancel_remaining req b st) = bst_timed_out st"
  "bst_budget_exhausted (cancel_remaining req b st) = bst_budget_exhausted st"
  by (simp_all add: cancel_remaining_def cancel_batch_def)

lemma await_join_frame [simp]:
  "bst_slots (await_join tick st) = bst_slots st" "bst_next (await_join tick st) = bst_next st"
  "bst_live (await_join tick st) = bst_live st"
  "bst_task_indices (await_join tick st) = bst_task_indices st"
  "bst_reservations (await_join tick st) = bst_reservations st"

  "bst_completion_audit (await_join tick st) = bst_completion_audit st"
  "bst_cancelled (await_join tick st) = bst_cancelled st"
  "bst_budget_exhausted (await_join tick st) = bst_budget_exhausted st"
  by (simp_all add: await_join_def Let_def)

lemma mark_cancelled_frame [simp]:
  "bst_slots (mark_cancelled c st) = bst_slots st" "bst_next (mark_cancelled c st) = bst_next st"
  "bst_live (mark_cancelled c st) = bst_live st"
  "bst_task_indices (mark_cancelled c st) = bst_task_indices st"
  "bst_reservations (mark_cancelled c st) = bst_reservations st"

  "bst_completion_audit (mark_cancelled c st) = bst_completion_audit st"
  "bst_timed_out (mark_cancelled c st) = bst_timed_out st"
  "bst_budget_exhausted (mark_cancelled c st) = bst_budget_exhausted st"
  by (simp_all add: mark_cancelled_def Let_def)

lemma tasks_run_frame [simp]:
  "bst_slots (tasks_run tick st) = bst_slots st" "bst_next (tasks_run tick st) = bst_next st"
  "map fst (bst_join_set (tasks_run tick st)) = map fst (bst_join_set st)"
  "length (bst_join_set (tasks_run tick st)) = length (bst_join_set st)"
  "bst_task_indices (tasks_run tick st) = bst_task_indices st"
  "bst_reservations (tasks_run tick st) = bst_reservations st"
  "bst_completion_audit (tasks_run tick st) = bst_completion_audit st"
  "bst_cancelled (tasks_run tick st) = bst_cancelled st" "bst_timed_out (tasks_run tick st) = bst_timed_out st"
  "bst_cancellation (tasks_run tick st) = bst_cancellation st"
  "bst_budget_exhausted (tasks_run tick st) = bst_budget_exhausted st"
  by (simp_all add: tasks_run_def)

lemma join_task_frame [simp]:
  "bst_slots (join_task e p st) = bst_slots st" "bst_next (join_task e p st) = bst_next st"
  "map fst (bst_join_set (join_task e p st)) = remove_at p (map fst (bst_join_set st))"
  "p < length (bst_join_set st) \<Longrightarrow> length (bst_join_set (join_task e p st)) = length (bst_join_set st) - 1"
  "bst_task_indices (join_task e p st) = bst_task_indices st"
  "bst_reservations (join_task e p st) = bst_reservations st"
  "bst_completion_audit (join_task e p st) = bst_completion_audit st"
  "bst_cancelled (join_task e p st) = bst_cancelled st" "bst_timed_out (join_task e p st) = bst_timed_out st"
  "bst_cancellation (join_task e p st) = bst_cancellation st"
  "bst_budget_exhausted (join_task e p st) = bst_budget_exhausted st"
  by (simp_all add: join_task_def)

lemma settle_frame [simp]:
  "bst_next (settle i f st) = bst_next st" "bst_live (settle i f st) = bst_live st"
  "bst_task_indices (settle i f st) = bst_task_indices st" "bst_reservations (settle i f st) = bst_reservations st"

  "bst_cancelled (settle i f st) = bst_cancelled st" "bst_timed_out (settle i f st) = bst_timed_out st"
  "bst_cancellation (settle i f st) = bst_cancellation st"
  "bst_budget_exhausted (settle i f st) = bst_budget_exhausted st"
  by (simp_all add: settle_def)

lemma handle_end_frame [simp]:
  "bst_next (handle_end req i e st) = bst_next st" "bst_live (handle_end req i e st) = bst_live st"
  "bst_task_indices (handle_end req i e st) = bst_task_indices st"
  "bst_reservations (handle_end req i e st) = bst_reservations st"

  "bst_timed_out (handle_end req i e st) = bst_timed_out st"
  by (cases e; simp add: handle_outcome_def handle_error_def handle_join_error_def Let_def)+

text \<open>What the admission loop keeps: enough to check a read of the token, a refusal and one spawn.\<close>

lemma admit_preserves:
  assumes "P st" "\<And>c st. P st \<Longrightarrow> P (observe c st)"
    "\<And>st. P st \<Longrightarrow> P (st\<lparr>bst_budget_exhausted := True, bst_cancelled := True\<rparr>)"
    "\<And>st r. P st \<Longrightarrow> \<not> bst_cancelled st \<Longrightarrow> \<not> bst_cancellation st \<Longrightarrow> bst_next st < length (sbr_tasks req) \<Longrightarrow>
       length (bst_join_set st) < scp_max_concurrency (sbr_policy req) \<Longrightarrow>
       aggregate_reserve (bst_reservations st) (sbr_tasks req ! bst_next st) (sbr_policy req) = Some r \<Longrightarrow>
       P (spawn_task env r st)"
  shows "P (admit env req tick k st)"
  using assms
proof (induction env req tick k st rule: admit.induct)
  case (1 env req tick k st0)
  let ?st = "observe (tk_cancel_at_admission tick k) st0"
  let ?go = "\<not> bst_cancelled ?st \<and> \<not> bst_cancellation ?st \<and> bst_next ?st < length (sbr_tasks req)
         \<and> length (bst_join_set ?st) < scp_max_concurrency (sbr_policy req)"
  let ?reserve = "aggregate_reserve (bst_reservations ?st) (sbr_tasks req ! bst_next ?st) (sbr_policy req)"
  have st: "P ?st" using "1.prems"(1,2) by blast
  show ?case
  proof (cases ?go)
    case True
    show ?thesis
    proof (cases ?reserve)
      case None
      then show ?thesis using True st "1.prems"(3) by (subst admit.simps) (simp add: Let_def)
    next
      case (Some r)
      have "P (spawn_task env r ?st)" using "1.prems"(4) st True Some by blast
      then have "P (admit env req tick (k + 1) (spawn_task env r ?st))"
        using "1.IH" [OF refl True Some] "1.prems"(2-4) by blast
      then show ?thesis using True Some by (subst admit.simps) (simp add: Let_def)
    qed
  next
    case False
    then show ?thesis using st by (subst admit.simps) (auto simp: Let_def)
  qed
qed

lemma admit_work: "work_left req (admit env req tick k st) \<le> work_left req st"
  by (rule admit_preserves) (simp_all add: work_left_def spawn_task_def Let_def)

lemma picked_less: "bst_join_set st \<noteq> [] \<Longrightarrow> picked tick st < length (bst_join_set st)"
  by (simp add: picked_def)

lemma join_round_work:
  assumes "bst_join_set st \<noteq> []"
  shows "work_left req (join_round env req tick st) < work_left req st"
proof -
  let ?st1 = "tasks_run tick (await_join tick st)"
  have len: "length (bst_join_set ?st1) = length (bst_join_set st)" by simp
  then have "bst_join_set ?st1 \<noteq> []" using assms by (metis length_0_conv)
  from picked_less [OF this] have "picked tick ?st1 < length (bst_join_set ?st1)" .
  then have "length (bst_join_set (join_round env req tick st)) = length (bst_join_set st) - 1"
    and "bst_next (join_round env req tick st) = bst_next st"
    by (simp_all add: join_round_def Let_def split: option.split)
  then show ?thesis using assms by (cases "bst_join_set st") (simp_all add: work_left_def)
qed

function batch_loop :: "batch_env \<Rightarrow> SubagentBatchRequest \<Rightarrow> nat \<Rightarrow> batch_state \<Rightarrow> batch_state" where
  "batch_loop env req n st =
     (let st1 = admit env req (be_tick env n) 0 st in
      if bst_join_set st1 = [] then st1
      else batch_loop env req (n + 1) (join_round env req (be_tick env n) st1))"
  by pat_completeness auto
termination
proof (relation "measure (\<lambda>(env, req, n, st). work_left req st)")
  fix env req n st and st1 :: batch_state
  assume "st1 = admit env req (be_tick env n) 0 st" "bst_join_set st1 \<noteq> []"
  then have "work_left req (join_round env req (be_tick env n) st1) < work_left req st"
    using join_round_work [of st1 req env "be_tick env n"] admit_work [of req env "be_tick env n" 0 st] by simp
  then show "((env, req, n + 1, join_round env req (be_tick env n) st1), env, req, n, st)
      \<in> measure (\<lambda>(env, req, n, st). work_left req st)" by simp
qed simp

declare batch_loop.simps [simp del]

section \<open>The outcome\<close>

definition count_state :: "SubagentTaskState \<Rightarrow> SubagentTaskOutcome list \<Rightarrow> nat" where
  "count_state s slots = length (filter (\<lambda>slot. sto_state slot = s) slots)"

definition usize_sum :: "nat list \<Rightarrow> nat" where
  "usize_sum xs = foldl wrapping_add 0 xs"

definition slot_outcomes :: "SubagentTaskOutcome list \<Rightarrow> SubagentOutcome list" where
  "slot_outcomes slots = List.map_filter sto_outcome slots"

definition final_status :: "bool \<Rightarrow> batch_state \<Rightarrow> SubagentBatchStatus" where
  "final_status c st0 =
     (let st = observe c st0 in
      if bst_timed_out st then BS_TimedOut
      else if bst_budget_exhausted st then BS_BudgetExhausted
      else if bst_cancellation st \<or> bst_cancelled st then BS_Cancelled
      else if list_ex (\<lambda>slot. sto_state slot = TS_Failed) (bst_slots st) then BS_PartiallyFailed
      else BS_Completed)"

definition close_slot :: "SubagentTaskOutcome \<Rightarrow> SubagentTaskOutcome" where
  "close_slot s = (if sto_state s = TS_Queued then s\<lparr>sto_state := TS_NotStarted\<rparr> else s)"

definition batch_outcome :: "batch_env \<Rightarrow> SubagentBatchRequest \<Rightarrow> batch_state \<Rightarrow> SubagentBatchOutcome" where
  "batch_outcome env req st =
     (let slots = map close_slot (bst_slots st); outs = slot_outcomes slots in
      \<lparr>sbo_status = final_status (be_cancel_at_finish env) st,
       sbo_total_task_count = length (sbr_tasks req),
       sbo_started_task_count = length (filter (\<lambda>slot. sto_state slot \<noteq> TS_NotStarted) slots),
       sbo_completed_task_count = count_state TS_Completed slots,
       sbo_failed_task_count = count_state TS_Failed slots,
       sbo_cancelled_task_count = count_state TS_Cancelled slots,
       sbo_timed_out_task_count = count_state TS_TimedOut slots,
       sbo_not_started_task_count = count_state TS_NotStarted slots,
       sbo_peak_observed_concurrency = ts_peak (bst_live st),
       sbo_configured_concurrency = scp_max_concurrency (sbr_policy req),
       sbo_aggregate_provider_turns = usize_sum (map so_provider_turns outs),
       sbo_aggregate_tool_calls = usize_sum (map so_tool_calls outs),
       sbo_aggregate_tool_output_bytes = usize_sum (map cr_output_bytes (concat (map so_tool_audit outs))),
       sbo_elapsed = be_elapsed env,
       sbo_tasks = slots,
       sbo_completion_audit = take SUBAGENT_BATCH_MAX_COMPLETION_AUDIT (bst_completion_audit st),
       sbo_failure_policy = scp_failure_policy (sbr_policy req),
       sbo_budget_exhausted = bst_budget_exhausted st\<rparr>)"

definition run_batch ::
  "SubagentRuntime \<Rightarrow> batch_env \<Rightarrow> SubagentBatchRequest \<Rightarrow> (SubagentBatchError, SubagentBatchOutcome) result" where
  "run_batch rt env req =
     res_bind (batch_validate rt req) (\<lambda>_.
       Inr (batch_outcome env req (batch_loop env req 0 (batch_init env req))))"

section \<open>Invariants of the scheduler\<close>

lemma batch_loop_preserves:
  assumes "P st" "\<And>tick st. P st \<Longrightarrow> P (admit env req tick 0 st)"
    "\<And>tick st. P st \<Longrightarrow> bst_join_set st \<noteq> [] \<Longrightarrow> P (join_round env req tick st)"
  shows "P (batch_loop env req n st)"
  using assms
proof (induction env req n st rule: batch_loop.induct)
  case (1 env req n st)
  let ?st = "admit env req (be_tick env n) 0 st"
  have st: "P ?st" using "1.prems"(1,2) by blast
  show ?case
  proof (cases "bst_join_set ?st = []")
    case True
    then show ?thesis using st by (subst batch_loop.simps) (simp add: Let_def)
  next
    case False
    have "P (join_round env req (be_tick env n) ?st)" using "1.prems"(3) st False by blast
    then have "P (batch_loop env req (n + 1) (join_round env req (be_tick env n) ?st))"
      using "1.IH" [OF refl False] "1.prems"(2,3) by blast
    then show ?thesis using False by (subst batch_loop.simps) (simp add: Let_def)
  qed
qed

text \<open>The loop ends where an admission ends with an empty set.\<close>

lemma batch_loop_last:
  "\<exists>tick st'. batch_loop env req n st = admit env req tick 0 st' \<and> bst_join_set (admit env req tick 0 st') = []"
proof (induction env req n st rule: batch_loop.induct)
  case (1 env req n st)
  show ?case
  proof (cases "bst_join_set (admit env req (be_tick env n) 0 st) = []")
    case True
    then show ?thesis by (subst batch_loop.simps) (auto simp: Let_def)
  next
    case False
    then show ?thesis using "1.IH" [OF refl False] by (subst batch_loop.simps) (simp add: Let_def)
  qed
qed

lemma admit_exit:
  "let st' = admit env req tick k st in bst_cancelled st' \<or> bst_cancellation st'
     \<or> length (sbr_tasks req) \<le> bst_next st' \<or> scp_max_concurrency (sbr_policy req) \<le> length (bst_join_set st')"
proof (induction env req tick k st rule: admit.induct)
  case (1 env req tick k st0)
  let ?st = "observe (tk_cancel_at_admission tick k) st0"
  let ?go = "\<not> bst_cancelled ?st \<and> \<not> bst_cancellation ?st \<and> bst_next ?st < length (sbr_tasks req)
         \<and> length (bst_join_set ?st) < scp_max_concurrency (sbr_policy req)"
  let ?reserve = "aggregate_reserve (bst_reservations ?st) (sbr_tasks req ! bst_next ?st) (sbr_policy req)"
  show ?case
  proof (cases ?go)
    case True
    show ?thesis
    proof (cases ?reserve)
      case None
      then show ?thesis using True by (subst admit.simps) (simp add: Let_def)
    next
      case (Some r)
      have "admit env req tick k st0 = admit env req tick (k + 1) (spawn_task env r ?st)"
        using True Some by (subst admit.simps) (simp add: Let_def)
      then show ?thesis using "1.IH" [OF refl True Some] by simp
    qed
  next
    case False
    then show ?thesis by (subst admit.simps) (auto simp: Let_def)
  qed
qed

subsection \<open>Concurrency\<close>

abbreviation batch_limit :: "SubagentBatchRequest \<Rightarrow> nat" where
  "batch_limit req \<equiv> scp_max_concurrency (sbr_policy req)"

lemma join_round_within:
  assumes "within_limit (batch_limit req) (bst_live st)" "batch_limit req < 2 ^ 64" "bst_join_set st \<noteq> []"
  shows "within_limit (batch_limit req) (bst_live (join_round env req tick st))"
proof -
  let ?st1 = "tasks_run tick (await_join tick st)"
  have inv: "within_limit (batch_limit req) (bst_live ?st1)"
    using activities_within [OF assms(1,2)] by (simp add: tasks_run_def)
  have "length (bst_join_set ?st1) = length (bst_join_set st)" by simp
  then have "bst_join_set ?st1 \<noteq> []" using assms(3) by (metis length_0_conv)
  from take_joined_within [OF inv assms(2) picked_less [OF this]]
  have "within_limit (batch_limit req) (bst_live (join_task e (picked tick ?st1) ?st1))" for e
    by (simp add: join_task_def)
  then show ?thesis by (simp add: join_round_def Let_def split: option.split)
qed

lemma batch_loop_within:
  assumes "within_limit (batch_limit req) (bst_live st)" "batch_limit req < 2 ^ 64"
  shows "within_limit (batch_limit req) (bst_live (batch_loop env req n st))"
  using assms(1)
proof (rule batch_loop_preserves [where P = "\<lambda>st. within_limit (batch_limit req) (bst_live st)"])
  show "within_limit (batch_limit req) (bst_live st) \<Longrightarrow>
      within_limit (batch_limit req) (bst_live (admit env req tick 0 st))" for tick st
    by (rule admit_preserves [where P = "\<lambda>st. within_limit (batch_limit req) (bst_live st)"])
      (simp_all add: spawn_task_def Let_def ts_spawn_within)
qed (rule join_round_within [OF _ assms(2)])

subsection \<open>Slots\<close>

fun ended_as :: "task_end \<Rightarrow> SubagentTaskOutcome \<Rightarrow> bool" where
  "ended_as (End_Outcome out) s \<longleftrightarrow>
     sto_outcome s = Some out \<and> sto_error s = None
     \<and> (sto_state s = task_state (so_status out) \<or> so_status out = SS_Cancelled \<and> sto_state s = TS_TimedOut)"
| "ended_as (End_Error err) s \<longleftrightarrow> sto_outcome s = None \<and> sto_error s = Some err \<and> sto_state s = TS_Failed"
| "ended_as End_Aborted s \<longleftrightarrow>
     sto_outcome s = None
     \<and> (sto_state s \<in> {TS_TimedOut, TS_Cancelled} \<and> sto_error s = None
        \<or> sto_state s = TS_Failed \<and> sto_error s = Some SE_JoinFailure)"
| "ended_as End_Panicked s \<longleftrightarrow>
     sto_outcome s = None \<and> sto_error s = Some SE_JoinFailure \<and> sto_state s = TS_Failed"

definition ended :: "SubagentTaskOutcome \<Rightarrow> bool" where
  "ended s \<longleftrightarrow> sto_state s \<notin> {TS_Queued, TS_Running, TS_NotStarted}"

definition unsettled :: "SubagentTaskOutcome \<Rightarrow> bool" where
  "unsettled s \<longleftrightarrow> sto_outcome s = None \<and> sto_error s = None"

definition slot_ok :: "batch_env \<Rightarrow> nat \<Rightarrow> nat \<Rightarrow> SubagentTaskOutcome \<Rightarrow> bool" where
  "slot_ok env next i s \<longleftrightarrow>
     (sto_state s = TS_Queued \<and> unsettled s \<and> next \<le> i)
     \<or> (sto_state s = TS_Running \<and> unsettled s \<and> i < next)
     \<or> (ended s \<and> ended_as (be_end env i) s \<and> i < next)"

definition running :: "batch_state \<Rightarrow> nat set" where
  "running st = {i. i < length (bst_slots st) \<and> sto_state (bst_slots st ! i) = TS_Running}"

definition settled_ids :: "SubagentTaskOutcome list \<Rightarrow> string multiset" where
  "settled_ids slots = sum_list (map (\<lambda>s. if ended s then {#sto_task_id s#} else {#}) slots)"

definition slots_inv :: "batch_env \<Rightarrow> SubagentBatchRequest \<Rightarrow> batch_state \<Rightarrow> bool" where
  "slots_inv env req st \<longleftrightarrow>
     map sto_task_id (bst_slots st) = map (\<lambda>t. sr_task_id (stk_request t)) (sbr_tasks req)
     \<and> bst_next st \<le> length (sbr_tasks req)
     \<and> (\<forall>i < length (bst_slots st). slot_ok env (bst_next st) i (bst_slots st ! i))
     \<and> indexed (bst_live st) (bst_task_indices st) (running st)
     \<and> mset (bst_completion_audit st) = settled_ids (bst_slots st)"

lemma slots_inv_length: "slots_inv env req st \<Longrightarrow> length (bst_slots st) = length (sbr_tasks req)"
  unfolding slots_inv_def by (metis length_map)

lemma task_state_ended: "task_state s \<notin> {TS_Queued, TS_Running, TS_NotStarted}"
  by (cases s) simp_all

text \<open>What the scheduler part of the state says, the invariant says of every state with that part.\<close>

lemma slots_inv_cong:
  "bst_slots st' = bst_slots st \<Longrightarrow> bst_next st' = bst_next st \<Longrightarrow>
   map fst (bst_join_set st') = map fst (bst_join_set st) \<Longrightarrow> bst_task_indices st' = bst_task_indices st \<Longrightarrow>
   bst_completion_audit st' = bst_completion_audit st \<Longrightarrow> slots_inv env req st' \<longleftrightarrow> slots_inv env req st"
  by (simp add: slots_inv_def running_def indexed_cong [of "bst_live st'" "bst_live st"])

lemma batch_init_slots: "slots_inv env req (batch_init env req)"
proof -
  have "running (batch_init env req) = {}" by (auto simp: running_def batch_init_def)
  then show ?thesis
    using indexed_empty
    by (simp add: slots_inv_def batch_init_def slot_ok_def unsettled_def settled_ids_def ended_def comp_def)
qed

lemma settled_ids_update:
  assumes "i < length slots" "\<not> ended (slots ! i)"
  shows "settled_ids (slots[i := s]) = settled_ids slots + (if ended s then {#sto_task_id s#} else {#})"
  using assms arg_cong [OF id_take_nth_drop [OF assms(1)], of settled_ids]
  by (simp add: settled_ids_def upd_conv_take_nth_drop)

lemma map_task_id_update:
  "sto_task_id s = sto_task_id (slots ! i) \<Longrightarrow> map sto_task_id (slots[i := s]) = map sto_task_id slots"
  by (cases "i < length slots") (simp_all add: map_update list_update_same_conv list_update_beyond)

lemma running_update:
  assumes "i < length (bst_slots st)"
  shows "running (st\<lparr>bst_slots := (bst_slots st)[i := s]\<rparr>) =
    (if sto_state s = TS_Running then insert i (running st) else running st - {i})"
  using assms by (auto simp: running_def nth_list_update)

lemma slot_ok_Suc: "slot_ok env n i s \<Longrightarrow> i \<noteq> n \<Longrightarrow> slot_ok env (Suc n) i s"
  by (auto simp: slot_ok_def)

lemma spawn_task_slots:
  assumes "slots_inv env req st" "fresh_ids env" "bst_next st < length (sbr_tasks req)"
  shows "slots_inv env req (spawn_task env r st)"
proof -
  let ?n = "bst_next st" and ?id = "be_spawn_id env (map fst (bst_join_set st))"
  let ?s = "(bst_slots st ! ?n)\<lparr>sto_state := TS_Running\<rparr>"
  have len: "?n < length (bst_slots st)" using assms(1,3) by (simp add: slots_inv_length)
  have "slot_ok env ?n ?n (bst_slots st ! ?n)" using assms(1) len by (simp add: slots_inv_def)
  then have q: "sto_state (bst_slots st ! ?n) = TS_Queued" "unsettled (bst_slots st ! ?n)"
    by (auto simp: slot_ok_def)
  have "?id \<notin> set (map fst (bst_join_set st))" using assms(2) unfolding fresh_ids_def by blast
  moreover have "?n \<notin> running st" using q by (simp add: running_def)
  ultimately have "indexed (ts_spawn ?id (bst_live st)) ((bst_task_indices st)(?id \<mapsto> ?n)) (insert ?n (running st))"
    using assms(1) indexed_spawn unfolding slots_inv_def by blast
  moreover have "slot_ok env (Suc ?n) i ((bst_slots st)[?n := ?s] ! i)" if "i < length (bst_slots st)" for i
  proof (cases "i = ?n")
    case True
    then show ?thesis using that q by (simp add: slot_ok_def unsettled_def)
  next
    case False
    have "slot_ok env ?n i (bst_slots st ! i)" using assms(1) that by (simp add: slots_inv_def)
    then show ?thesis using False slot_ok_Suc by simp
  qed
  moreover have "settled_ids ((bst_slots st)[?n := ?s]) = settled_ids (bst_slots st)"
    using settled_ids_update [OF len, of ?s] q by (simp add: ended_def)
  moreover have "running (st\<lparr>bst_slots := (bst_slots st)[?n := ?s]\<rparr>) = insert ?n (running st)"
    using running_update [OF len, of ?s] by simp
  ultimately show ?thesis
    using assms(1,3) by (simp add: slots_inv_def spawn_task_def Let_def map_task_id_update running_def)
qed

lemma handle_end_settles:
  assumes "unsettled (bst_slots st ! i)"
  obtains s where "bst_slots (handle_end req i e st) = (bst_slots st)[i := s]"
    "sto_task_id s = sto_task_id (bst_slots st ! i)" "ended s" "ended_as e s"
    "bst_completion_audit (handle_end req i e st) = bst_completion_audit st @ [sto_task_id (bst_slots st ! i)]"
proof (cases e)
  case (End_Outcome out)
  let ?state = "if bst_timed_out st \<and> task_state (so_status out) = TS_Cancelled then TS_TimedOut
                else task_state (so_status out)"
  let ?s = "(bst_slots st ! i)\<lparr>sto_state := ?state, sto_outcome := Some out\<rparr>"
  have "task_state (so_status out) = TS_Cancelled \<Longrightarrow> so_status out = SS_Cancelled"
    by (cases "so_status out") simp_all
  then show thesis
    using assms End_Outcome task_state_ended [of "so_status out"]
    by (intro that [of ?s]) (auto simp: handle_outcome_def Let_def settle_def unsettled_def ended_def)
next
  case (End_Error err)
  then show thesis
    using assms by (intro that [of "(bst_slots st ! i)\<lparr>sto_state := TS_Failed, sto_error := Some err\<rparr>"])
      (simp_all add: handle_error_def settle_def unsettled_def ended_def)
next
  case End_Aborted
  let ?s = "if bst_timed_out st \<or> bst_cancellation st
    then (bst_slots st ! i)\<lparr>sto_state := if bst_timed_out st then TS_TimedOut else TS_Cancelled\<rparr>
    else (bst_slots st ! i)\<lparr>sto_state := TS_Failed, sto_error := Some SE_JoinFailure\<rparr>"
  show thesis
    using assms End_Aborted by (intro that [of ?s])
      (simp_all add: handle_join_error_def settle_def unsettled_def ended_def)
next
  case End_Panicked
  then show thesis
    using assms by (intro that [of "(bst_slots st ! i)\<lparr>sto_state := TS_Failed, sto_error := Some SE_JoinFailure\<rparr>"])
      (simp_all add: handle_join_error_def settle_def unsettled_def ended_def)
qed

text \<open>A join in a state that satisfies the invariant finds the index of the joined task, settles its slot
  and leaves the others as they are.\<close>

lemma settle_round_slots:
  assumes inv: "slots_inv env req st" and p: "p < length (bst_join_set st)"
    and i: "bst_task_indices st (fst (bst_join_set st ! p)) = Some i"
    and st': "map fst (bst_join_set st') = remove_at p (map fst (bst_join_set st))"
      "bst_task_indices st' = (bst_task_indices st)(fst (bst_join_set st ! p) := None)"
      "bst_next st' = bst_next st" "bst_slots st' = bst_slots st" "bst_completion_audit st' = bst_completion_audit st"
  shows "slots_inv env req (handle_end req i (be_end env i) st')"
proof -
  have idx: "indexed (bst_live st) (bst_task_indices st) (running st)" using inv by (simp add: slots_inv_def)
  obtain j where "bst_task_indices st (fst (bst_join_set st ! p)) = Some j" "j \<in> running st"
    using indexed_lookup [OF idx p] .
  then have run: "i < length (bst_slots st)" "sto_state (bst_slots st ! i) = TS_Running"
    using i by (simp_all add: running_def)
  then have ok: "unsettled (bst_slots st ! i)" "i < bst_next st" "\<not> ended (bst_slots st ! i)"
    using inv by (auto simp: slots_inv_def slot_ok_def ended_def)
  obtain s where s: "bst_slots (handle_end req i (be_end env i) st') = (bst_slots st)[i := s]"
      "sto_task_id s = sto_task_id (bst_slots st ! i)" "ended s" "ended_as (be_end env i) s"
      "bst_completion_audit (handle_end req i (be_end env i) st') = bst_completion_audit st @ [sto_task_id (bst_slots st ! i)]"
    using handle_end_settles [of st' i req "be_end env i"] ok(1) st'(4,5) by auto
  have "running (st\<lparr>bst_slots := (bst_slots st)[i := s]\<rparr>) = running st - {i}"
    using running_update [OF run(1), of s] s(3) by (auto simp: ended_def)
  then have "running (handle_end req i (be_end env i) st') = running st - {i}" using s(1) by (simp add: running_def)
  moreover have "indexed (bst_live st') (bst_task_indices st') (running st - {i})"
    using indexed_join [OF idx p i st'(1)] st'(2) by simp
  moreover have "slot_ok env (bst_next st) j ((bst_slots st)[i := s] ! j)" if "j < length (bst_slots st)" for j
    using inv that s(3,4) ok(2) by (cases "j = i") (simp_all add: slots_inv_def slot_ok_def)
  moreover have "settled_ids ((bst_slots st)[i := s]) = settled_ids (bst_slots st) + {#sto_task_id s#}"
    using settled_ids_update [OF run(1) ok(3), of s] s(3) by simp
  ultimately show ?thesis
    using inv s st'(3) by (simp add: slots_inv_def map_task_id_update)
qed

lemma join_round_slots:
  assumes "slots_inv env req st" "bst_join_set st \<noteq> []"
  shows "slots_inv env req (join_round env req tick st)"
proof -
  let ?st1 = "tasks_run tick (await_join tick st)"
  let ?p = "picked tick ?st1"
  have inv: "slots_inv env req ?st1" using assms(1) by (subst slots_inv_cong [of _ st]) simp_all
  have "length (bst_join_set ?st1) = length (bst_join_set st)" by simp
  then have "bst_join_set ?st1 \<noteq> []" using assms(2) by (metis length_0_conv)
  then have p: "?p < length (bst_join_set ?st1)" by (rule picked_less)
  have "indexed (bst_live ?st1) (bst_task_indices ?st1) (running ?st1)" using inv by (simp only: slots_inv_def)
  from indexed_lookup [OF this p]
  obtain i where i: "bst_task_indices ?st1 (fst (bst_join_set ?st1 ! ?p)) = Some i" .
  let ?id = "fst (bst_join_set ?st1 ! ?p)"
  let ?st2 = "observe (tk_cancel_at_join tick)
    ((join_task (be_end env i) ?p ?st1)\<lparr>bst_task_indices := (bst_task_indices ?st1)(?id := None)\<rparr>)"
  have "slots_inv env req (handle_end req i (be_end env i) ?st2)"
    by (rule settle_round_slots [OF inv p i]) simp_all
  then have "slots_inv env req (mark_cancelled (tk_cancel_at_end tick) (handle_end req i (be_end env i) ?st2))"
    by (subst slots_inv_cong) simp_all
  then show ?thesis using i by (simp add: join_round_def Let_def)
qed

lemma admit_slots:
  assumes "slots_inv env req st" "fresh_ids env"
  shows "slots_inv env req (admit env req tick k st)"
  using assms(1)
proof (rule admit_preserves)
  fix st r
  assume "slots_inv env req st" "bst_next st < length (sbr_tasks req)"
  then show "slots_inv env req (spawn_task env r st)" using assms(2) spawn_task_slots by blast
qed (simp_all add: slots_inv_def running_def)

lemma batch_loop_slots:
  assumes "slots_inv env req st" "fresh_ids env"
  shows "slots_inv env req (batch_loop env req n st)"
  using assms(1) by (rule batch_loop_preserves) (auto intro: admit_slots join_round_slots assms(2))

subsection \<open>Flags\<close>

text \<open>What the flags that decide the final status record of the slots.\<close>

definition flags_inv :: "SubagentBatchRequest \<Rightarrow> batch_state \<Rightarrow> bool" where
  "flags_inv req st \<longleftrightarrow>
     (bst_timed_out st \<longrightarrow> bst_cancellation st)
     \<and> (\<forall>s \<in> set (bst_slots st). sto_state s = TS_BudgetExhausted \<longrightarrow> bst_budget_exhausted st)
     \<and> (\<forall>s \<in> set (bst_slots st). sto_state s = TS_Failed \<longrightarrow>
          scp_failure_policy (sbr_policy req) = CancelRemaining \<longrightarrow> bst_cancelled st \<and> bst_cancellation st)"

lemma flags_inv_mono:
  assumes "flags_inv req st" "bst_timed_out st' \<Longrightarrow> bst_cancellation st'"
    "\<And>s. s \<in> set (bst_slots st') \<Longrightarrow> s \<in> set (bst_slots st) \<or> sto_state s \<notin> {TS_BudgetExhausted, TS_Failed}"
    "bst_budget_exhausted st \<Longrightarrow> bst_budget_exhausted st'" "bst_cancelled st \<Longrightarrow> bst_cancelled st'"
    "bst_cancellation st \<Longrightarrow> bst_cancellation st'"
  shows "flags_inv req st'"
  using assms unfolding flags_inv_def by blast

lemma flags_inv_cong:
  "bst_slots st' = bst_slots st \<Longrightarrow> bst_timed_out st' = bst_timed_out st \<Longrightarrow>
   bst_cancellation st' = bst_cancellation st \<Longrightarrow> bst_cancelled st' = bst_cancelled st \<Longrightarrow>
   bst_budget_exhausted st' = bst_budget_exhausted st \<Longrightarrow> flags_inv req st' \<longleftrightarrow> flags_inv req st"
  by (simp add: flags_inv_def)

lemma in_update_cases: "s \<in> set (xs[i := y]) \<Longrightarrow> s \<in> set xs \<or> s = y"
  using set_update_subset_insert by fastforce

lemma settle_slot_cases: "s \<in> set (bst_slots (settle i f st)) \<Longrightarrow> s \<in> set (bst_slots st) \<or> s = f (bst_slots st ! i)"
  by (auto simp: settle_def dest: in_update_cases)

lemma handle_end_flags:
  assumes "flags_inv req st"
  shows "flags_inv req (handle_end req i e st)"
proof (cases e)
  case (End_Outcome out)
  then show ?thesis
    using assms
    by (auto simp: flags_inv_def handle_outcome_def Let_def cancel_remaining_def cancel_batch_def
        dest!: settle_slot_cases split: if_splits)
next
  case (End_Error err)
  then show ?thesis
    using assms
    by (auto simp: flags_inv_def handle_error_def cancel_remaining_def cancel_batch_def
        dest!: settle_slot_cases split: if_splits)
next
  case End_Aborted
  then show ?thesis
    using assms
    by (auto simp: flags_inv_def handle_join_error_def cancel_remaining_def cancel_batch_def
        dest!: settle_slot_cases split: if_splits)
next
  case End_Panicked
  then show ?thesis
    using assms
    by (auto simp: flags_inv_def handle_join_error_def cancel_remaining_def cancel_batch_def
        dest!: settle_slot_cases split: if_splits)
qed

lemma observe_flags: "flags_inv req st \<Longrightarrow> flags_inv req (observe c st)"
  by (rule flags_inv_mono) (auto simp: flags_inv_def)

lemma mark_cancelled_flags: "flags_inv req st \<Longrightarrow> flags_inv req (mark_cancelled c st)"
  by (rule flags_inv_mono) (auto simp: flags_inv_def mark_cancelled_def Let_def split: if_splits)

lemma await_join_flags: "flags_inv req st \<Longrightarrow> flags_inv req (await_join tick st)"
  by (rule flags_inv_mono) (auto simp: flags_inv_def await_join_def Let_def split: if_splits)

lemma join_round_flags:
  assumes "flags_inv req st"
  shows "flags_inv req (join_round env req tick st)"
proof -
  let ?st1 = "tasks_run tick (await_join tick st)"
  have inv: "flags_inv req ?st1"
    using await_join_flags [OF assms] by (subst flags_inv_cong [of _ "await_join tick st"]) simp_all
  have joined: "flags_inv req ((join_task e p ?st1)\<lparr>bst_task_indices := m\<rparr>)"
    "flags_inv req (join_task e p ?st1)" for e p m
    using inv by (subst flags_inv_cong [of _ ?st1]; simp)+
  show ?thesis
    by (auto simp: join_round_def Let_def intro!: mark_cancelled_flags handle_end_flags observe_flags joined
        split: option.split)
qed

lemma admit_flags: "flags_inv req st \<Longrightarrow> flags_inv req (admit env req tick k st)"
  by (rule admit_preserves [where P = "flags_inv req"])
    (auto intro: observe_flags elim!: flags_inv_mono simp: flags_inv_def spawn_task_def Let_def
      dest!: in_update_cases)

lemma batch_loop_flags: "flags_inv req st \<Longrightarrow> flags_inv req (batch_loop env req n st)"
  by (erule batch_loop_preserves) (auto intro: admit_flags join_round_flags)

lemma batch_init_flags: "flags_inv req (batch_init env req)"
  by (auto simp: flags_inv_def batch_init_def)

subsection \<open>The final state\<close>

abbreviation final_state :: "batch_env \<Rightarrow> SubagentBatchRequest \<Rightarrow> batch_state" where
  "final_state env req \<equiv> batch_loop env req 0 (batch_init env req)"

lemma final_join_empty: "bst_join_set (final_state env req) = []"
  by (metis batch_loop_last)

lemma final_exit:
  assumes "0 < scp_max_concurrency (sbr_policy req)"
  shows "bst_cancelled (final_state env req) \<or> bst_cancellation (final_state env req)
    \<or> length (sbr_tasks req) \<le> bst_next (final_state env req)"
proof -
  obtain tick st where "final_state env req = admit env req tick 0 st" using batch_loop_last by metis
  then show ?thesis
    using admit_exit [of env req tick 0 st] final_join_empty [of env req] assms by (auto simp: Let_def)
qed

lemma final_slot:
  assumes "fresh_ids env" "i < length (sbr_tasks req)"
  shows "let s = bst_slots (final_state env req) ! i; n = bst_next (final_state env req) in
    (sto_state s = TS_Queued \<and> unsettled s \<and> n \<le> i) \<or> (ended s \<and> ended_as (be_end env i) s \<and> i < n)"
proof -
  have inv: "slots_inv env req (final_state env req)"
    using batch_loop_slots [OF batch_init_slots assms(1)] .
  have "running (final_state env req) = {}"
    using inv final_join_empty [of env req] indexed_no_tasks unfolding slots_inv_def by blast
  then show ?thesis
    using inv assms(2) slots_inv_length [OF inv] by (auto simp: slots_inv_def running_def slot_ok_def Let_def)
qed

lemma closed_slot:
  assumes "fresh_ids env" "i < length (sbr_tasks req)"
  shows "let s = close_slot (bst_slots (final_state env req) ! i); n = bst_next (final_state env req) in
    (sto_state s = TS_NotStarted \<and> unsettled s \<and> n \<le> i) \<or> (ended s \<and> ended_as (be_end env i) s \<and> i < n)"
  using final_slot [OF assms] by (auto simp: Let_def close_slot_def ended_def unsettled_def)

lemma run_batch_cases:
  assumes "run_batch rt env req = Inr out"
  shows "batch_validate rt req = Inr ()" "out = batch_outcome env req (final_state env req)"
    "sbo_tasks out = map close_slot (bst_slots (final_state env req))"
    "0 < scp_max_concurrency (sbr_policy req)" "scp_max_concurrency (sbr_policy req) \<le> 2"
proof -
  show v: "batch_validate rt req = Inr ()" and o: "out = batch_outcome env req (final_state env req)"
    using assms by (auto simp: run_batch_def result_simps)
  show "sbo_tasks out = map close_slot (bst_slots (final_state env req))"
    by (simp add: o batch_outcome_def Let_def)
  show "0 < scp_max_concurrency (sbr_policy req)" "scp_max_concurrency (sbr_policy req) \<le> 2"
    using v by (simp_all add: batch_validate_def Let_def result_simps SUBAGENT_BATCH_MAX_CONCURRENCY_def)
qed

section \<open>What a batch guarantees\<close>

lemma count_states:
  "list_all (\<lambda>s. sto_state s \<notin> {TS_Queued, TS_Running}) slots \<Longrightarrow>
   count_state TS_Completed slots + count_state TS_Failed slots + count_state TS_Cancelled slots
     + count_state TS_TimedOut slots + count_state TS_BudgetExhausted slots + count_state TS_NotStarted slots
   = length slots"
proof (induction slots)
  case (Cons s slots)
  then show ?case by (cases "sto_state s") (simp_all add: count_state_def)
qed (simp add: count_state_def)

lemma count_started: "length (filter (\<lambda>s. sto_state s \<noteq> TS_NotStarted) slots) + count_state TS_NotStarted slots = length slots"
  by (induction slots) (simp_all add: count_state_def)

lemma close_slot_Failed: "sto_state (close_slot s) = TS_Failed \<longleftrightarrow> sto_state s = TS_Failed"
  by (simp add: close_slot_def)

lemma settled_ids_closed:
  "list_all (\<lambda>s. sto_state s \<noteq> TS_Running \<and> sto_state s \<noteq> TS_NotStarted) slots \<Longrightarrow>
   settled_ids slots = mset (map sto_task_id (filter (\<lambda>s. sto_state s \<noteq> TS_NotStarted) (map close_slot slots)))"
proof (induction slots)
  case (Cons s slots)
  then show ?case
    by (cases "sto_state s") (simp_all add: settled_ids_def close_slot_def ended_def)
qed (simp add: settled_ids_def)


text \<open>C20: A batch never runs more tasks at once than its policy allows, and never more than two: the peak
  that the tasks observe on the shared counter is within the configured concurrency, which validation
  limits to two.\<close>

theorem batch_concurrency_bounded:
  assumes "run_batch rt env req = Inr out"
  shows "sbo_peak_observed_concurrency out \<le> sbo_configured_concurrency out
    \<and> sbo_configured_concurrency out = scp_max_concurrency (sbr_policy req)
    \<and> sbo_configured_concurrency out \<le> 2"
proof -
  have "scp_max_concurrency (sbr_policy req) < 2 ^ 64"
    using run_batch_cases(5) [OF assms] by (rule le_less_trans) simp
  from batch_loop_within [OF _ this, of "batch_init env req" env 0]
  have "within_limit (batch_limit req) (bst_live (final_state env req))"
    by (simp add: batch_init_def ts_empty_within)
  then show ?thesis
    using run_batch_cases [OF assms] by (simp add: batch_outcome_def Let_def within_limit_def)
qed

text \<open>What the status of a batch says of its tasks. A batch that reports completion started all of its
  tasks and none of them failed or ran out of budget; one that reports partial failure started all of
  them, has a failed task and was not asked to cancel the rest; a failed task in a batch that cancels
  the rest makes it report cancellation, exhaustion or timeout.\<close>

theorem batch_status_meaning:
  assumes "run_batch rt env req = Inr out" "fresh_ids env"
  shows "(sbo_status out = BS_Completed \<longrightarrow>
        list_all (\<lambda>s. sto_state s \<in> {TS_Completed, TS_Cancelled, TS_TimedOut}) (sbo_tasks out))
    \<and> (sbo_status out = BS_PartiallyFailed \<longrightarrow>
        sbo_not_started_task_count out = 0 \<and> 0 < sbo_failed_task_count out
        \<and> scp_failure_policy (sbr_policy req) = ContinueIndependent)
    \<and> (0 < sbo_failed_task_count out \<and> scp_failure_policy (sbr_policy req) = CancelRemaining \<longrightarrow>
        sbo_status out \<in> {BS_Cancelled, BS_TimedOut, BS_BudgetExhausted})"
proof -
  let ?st = "final_state env req" and ?slots = "bst_slots (final_state env req)"
  have len: "length ?slots = length (sbr_tasks req)"
    using slots_inv_length [OF batch_loop_slots [OF batch_init_slots assms(2)]] .
  have flags: "flags_inv req ?st" using batch_loop_flags [OF batch_init_flags] .
  note tasks = run_batch_cases(3) [OF assms(1)] and exit = final_exit [OF run_batch_cases(4) [OF assms(1)], of env]
  have status: "sbo_status out = final_status (be_cancel_at_finish env) ?st"
    and counts: "sbo_failed_task_count out = count_state TS_Failed (sbo_tasks out)"
      "sbo_not_started_task_count out = count_state TS_NotStarted (sbo_tasks out)"
    using run_batch_cases(2,3) [OF assms(1)] by (simp_all add: batch_outcome_def Let_def)
  have calm: "sbo_status out \<in> {BS_Completed, BS_PartiallyFailed} \<Longrightarrow>
      \<not> bst_cancelled ?st \<and> \<not> bst_cancellation ?st \<and> \<not> bst_budget_exhausted ?st"
    by (auto simp: status final_status_def Let_def split: if_splits)
  have started: "list_all (\<lambda>s. ended s) (sbo_tasks out)" if "sbo_status out \<in> {BS_Completed, BS_PartiallyFailed}"
    unfolding list_all_length tasks using closed_slot [OF assms(2), of _ req] len calm [OF that] exit
    by (force simp: Let_def)
  have failed: "0 < count_state TS_Failed (sbo_tasks out) \<longleftrightarrow> (\<exists>s \<in> set ?slots. sto_state s = TS_Failed)"
    by (auto simp: tasks count_state_def filter_empty_conv close_slot_Failed)
  have none: "count_state TS_NotStarted (sbo_tasks out) = 0" if "list_all (\<lambda>s. ended s) (sbo_tasks out)"
    using that by (auto simp: count_state_def list_all_iff ended_def filter_empty_conv)
  have "sto_state s \<in> {TS_Completed, TS_Cancelled, TS_TimedOut}"
    if c: "sbo_status out = BS_Completed" and s: "s \<in> set (sbo_tasks out)" for s
  proof -
    have e: "ended s" using started c s by (simp add: list_all_iff)
    then have "s \<in> set ?slots" using s by (auto simp: tasks close_slot_def ended_def split: if_splits)
    moreover have "\<not> list_ex (\<lambda>s. sto_state s = TS_Failed) ?slots"
      using c by (auto simp: status final_status_def Let_def split: if_splits)
    ultimately have "sto_state s \<noteq> TS_Failed" "sto_state s \<noteq> TS_BudgetExhausted"
      using flags calm c by (auto simp: flags_inv_def list_ex_iff)
    then show ?thesis using e by (cases "sto_state s") (simp_all add: ended_def)
  qed
  moreover have "sbo_status out = BS_PartiallyFailed \<Longrightarrow> \<exists>s \<in> set ?slots. sto_state s = TS_Failed"
    by (auto simp: status final_status_def Let_def list_ex_iff split: if_splits)
  moreover have "scp_failure_policy (sbr_policy req) = ContinueIndependent"
    if "\<exists>s \<in> set ?slots. sto_state s = TS_Failed" "\<not> bst_cancelled ?st"
    using flags that by (cases "scp_failure_policy (sbr_policy req)") (auto simp: flags_inv_def)
  moreover have "sbo_status out \<in> {BS_Cancelled, BS_TimedOut, BS_BudgetExhausted}"
    if "\<exists>s \<in> set ?slots. sto_state s = TS_Failed" "scp_failure_policy (sbr_policy req) = CancelRemaining"
    using flags that by (auto simp: flags_inv_def status final_status_def Let_def)
  ultimately show ?thesis
    using started none calm failed counts by (auto simp: list_all_iff)
qed

subsection \<open>Aggregate budgets\<close>

text \<open>One dimension of the aggregate reservation: what is reserved is the sum of the budgets of the
  started tasks and within the policy's limit, as long as that limit is below the saturation point.\<close>

definition reserved_ok ::
  "(SubagentConcurrencyPolicy \<Rightarrow> nat) \<Rightarrow> (AggregateReservation \<Rightarrow> nat) \<Rightarrow> (SubagentSessionBudget \<Rightarrow> nat) \<Rightarrow>
   SubagentBatchRequest \<Rightarrow> batch_state \<Rightarrow> bool" where
  "reserved_ok lim amount budget req st \<longleftrightarrow>
     (lim (sbr_policy req) < u64_max \<longrightarrow>
        amount (bst_reservations st)
          = sum_list (map (\<lambda>t. budget (task_budget t)) (take (bst_next st) (sbr_tasks req)))
        \<and> amount (bst_reservations st) \<le> lim (sbr_policy req))"

definition reservation_inv :: "SubagentBatchRequest \<Rightarrow> batch_state \<Rightarrow> bool" where
  "reservation_inv req st \<longleftrightarrow>
     reserved_ok scp_max_provider_turns ar_provider_turns sb_max_provider_turns req st
     \<and> reserved_ok scp_max_tool_calls ar_tool_calls sb_max_tool_calls req st
     \<and> reserved_ok scp_max_tool_output_bytes ar_tool_output_bytes sb_max_aggregate_tool_output_bytes req st"

lemma reserved_ok_cong:
  "bst_reservations st' = bst_reservations st \<Longrightarrow> bst_next st' = bst_next st \<Longrightarrow>
   reserved_ok lim amount budget req st' \<longleftrightarrow> reserved_ok lim amount budget req st"
  by (simp add: reserved_ok_def)

lemma reservation_inv_cong:
  "bst_reservations st' = bst_reservations st \<Longrightarrow> bst_next st' = bst_next st \<Longrightarrow>
   reservation_inv req st' \<longleftrightarrow> reservation_inv req st"
  by (simp add: reservation_inv_def cong: reserved_ok_cong)

lemma reserved_ok_spawn:
  assumes "reserved_ok lim amount budget req st" "bst_next st < length (sbr_tasks req)"
    "amount r = saturating_add (amount (bst_reservations st)) (budget (task_budget (sbr_tasks req ! bst_next st)))"
    "amount r \<le> lim (sbr_policy req)"
  shows "reserved_ok lim amount budget req (spawn_task env r st)"
  using assms
  by (auto simp: reserved_ok_def spawn_task_def Let_def take_Suc_conv_app_nth saturating_add_def min_def
      split: if_splits)

lemma spawn_task_reservation:
  assumes "reservation_inv req st" "bst_next st < length (sbr_tasks req)"
    "aggregate_reserve (bst_reservations st) (sbr_tasks req ! bst_next st) (sbr_policy req) = Some r"
  shows "reservation_inv req (spawn_task env r st)"
  using assms unfolding reservation_inv_def
  by (intro conjI reserved_ok_spawn) (auto simp: aggregate_reserve_def Let_def split: if_splits)

lemma admit_reservation: "reservation_inv req st \<Longrightarrow> reservation_inv req (admit env req tick k st)"
proof (erule admit_preserves)
  fix st and c :: bool
  assume "reservation_inv req st"
  then show "reservation_inv req (observe c st)"
    "reservation_inv req (st\<lparr>bst_budget_exhausted := True, bst_cancelled := True\<rparr>)"
    by (subst reservation_inv_cong [of _ st]; simp)+
qed (rule spawn_task_reservation)

lemma join_round_next [simp]:
  "bst_next (join_round env req tick st) = bst_next st"
  "bst_reservations (join_round env req tick st) = bst_reservations st"
  by (simp_all add: join_round_def Let_def split: option.split)

lemma batch_loop_reservation: "reservation_inv req st \<Longrightarrow> reservation_inv req (batch_loop env req n st)"
proof (erule batch_loop_preserves)
  fix tick st
  assume "reservation_inv req st"
  then show "reservation_inv req (admit env req tick 0 st)" by (rule admit_reservation)
  show "reservation_inv req (join_round env req tick st)"
    using \<open>reservation_inv req st\<close> by (subst reservation_inv_cong [of _ st]) simp_all
qed

lemma batch_init_reservation: "reservation_inv req (batch_init env req)"
  by (simp add: reservation_inv_def reserved_ok_def batch_init_def reservation_default_def)

lemma usize_sum_exact: "sum_list xs < 2 ^ 64 \<Longrightarrow> usize_sum xs = sum_list xs"
proof -
  have "foldl wrapping_add a xs = a + sum_list xs" if "a + sum_list xs < 2 ^ 64" for a
    using that by (induction xs arbitrary: a) (simp_all add: wrapping_add_def)
  then show "sum_list xs < 2 ^ 64 \<Longrightarrow> usize_sum xs = sum_list xs" by (simp add: usize_sum_def)
qed

text \<open>A sum over the outcomes that have been reported, against the sum of the started tasks' budgets.\<close>

lemma outcomes_within:
  assumes "length slots = length ts"
    "\<And>i x. i < length ts \<Longrightarrow> sto_outcome (slots ! i) = Some x \<Longrightarrow> i < n \<and> f x \<le> (g (ts ! i) :: nat)"
  shows "sum_list (map f (slot_outcomes slots)) \<le> sum_list (map g (take n ts))"
  using assms
proof (induction slots ts arbitrary: n rule: list_induct2)
  case (Cons s slots t ts)
  have rest: "sum_list (map f (slot_outcomes slots)) \<le> sum_list (map g (take (n - 1) ts))"
  proof (rule Cons.IH)
    fix i x
    assume "i < length ts" "sto_outcome (slots ! i) = Some x"
    then show "i < n - 1 \<and> f x \<le> g (ts ! i)" using Cons.prems [of "Suc i" x] by auto
  qed
  show ?case
  proof (cases n)
    case 0
    then have "sto_outcome s = None" using Cons.prems [of 0] by (cases "sto_outcome s") auto
    then show ?thesis using rest 0 by (simp add: slot_outcomes_def map_filter_simps)
  next
    case (Suc m)
    have "f x \<le> g t" if "sto_outcome s = Some x" for x using Cons.prems [of 0 x] that by simp
    then show ?thesis
      using rest Suc by (cases "sto_outcome s") (auto simp: slot_outcomes_def map_filter_simps)
  qed
qed (simp add: slot_outcomes_def map_filter_simps)

text \<open>The request a spawned task runs: the task's own, under the overriding timeout if it has one.\<close>

definition spawned_request :: "SubagentTask \<Rightarrow> SubagentRequest" where
  "spawned_request t =
     (case stk_timeout_override t of None \<Rightarrow> stk_request t
      | Some timeout \<Rightarrow> (stk_request t)\<lparr>sr_timeout := timeout\<rparr>)"

text \<open>Every outcome a task of the batch delivers is one of a session of its request.\<close>

definition session_ends :: "SubagentRuntime \<Rightarrow> batch_env \<Rightarrow> SubagentBatchRequest \<Rightarrow> bool" where
  "session_ends rt env req \<longleftrightarrow>
     (\<forall>i < length (sbr_tasks req). \<forall>x. be_end env i = End_Outcome x \<longrightarrow>
        (\<exists>se c1 c2 sh sh'. run_subagent se rt c1 c2 (spawned_request (sbr_tasks req ! i)) sh = (Inr x, sh')))"

lemma spawned_policy [simp]: "sr_tool_policy (spawned_request t) = sr_tool_policy (stk_request t)"
  by (simp add: spawned_request_def split: option.split)

lemma validate_tasks_budget:
  "validate_tasks rt policy ids ts = Inr u \<Longrightarrow> t \<in> set ts \<Longrightarrow>
   sb_max_aggregate_tool_output_bytes (task_budget t) \<le> scp_max_tool_output_bytes policy"
  by (induction rt policy ids ts rule: validate_tasks.induct) (auto simp: result_simps)

lemma sum_list_concat_map: "sum_list (map f (concat (map g xs))) = sum_list (map (\<lambda>x. sum_list (map f (g x))) xs)"
  for f :: "'a \<Rightarrow> nat"
  by (induction xs) simp_all

lemma session_budget:
  assumes "run_subagent se rt c1 c2 r sh = (Inr x, sh')"
    "sb_max_aggregate_tool_output_bytes (tp_budget (sr_tool_policy r)) \<le> u64_max"
  shows "so_provider_turns x \<le> sb_max_provider_turns (tp_budget (sr_tool_policy r))"
    "so_tool_calls x \<le> sb_max_tool_calls (tp_budget (sr_tool_policy r))"
    "sum_list (map cr_output_bytes (so_tool_audit x)) \<le> sb_max_aggregate_tool_output_bytes (tp_budget (sr_tool_policy r))"
proof -
  obtain p where "sp_request p = r" "outcome_ok p x" using run_subagent_outcome [OF assms] by blast
  then show "so_provider_turns x \<le> sb_max_provider_turns (tp_budget (sr_tool_policy r))"
    "so_tool_calls x \<le> sb_max_tool_calls (tp_budget (sr_tool_policy r))"
    "sum_list (map cr_output_bytes (so_tool_audit x)) \<le> sb_max_aggregate_tool_output_bytes (tp_budget (sr_tool_policy r))"
    by (auto simp: outcome_ok_def audit_ok_def output_total_def Let_def)
qed

text \<open>A measure of the outcomes whose per-session bound is reserved is within the policy's limit, and its
  64-bit sum does not wrap.\<close>

lemma aggregate_within:
  assumes "fresh_ids env" "lim (sbr_policy req) < u64_max"
    "reserved_ok lim amount budget req (final_state env req)"
    "\<And>i x. i < length (sbr_tasks req) \<Longrightarrow> be_end env i = End_Outcome x \<Longrightarrow>
       f x \<le> budget (task_budget (sbr_tasks req ! i))"
  shows "sum_list (map f (slot_outcomes (map close_slot (bst_slots (final_state env req))))) \<le> lim (sbr_policy req)"
proof -
  let ?st = "final_state env req"
  let ?slots = "map close_slot (bst_slots ?st)"
  have len: "length ?slots = length (sbr_tasks req)"
    using slots_inv_length [OF batch_loop_slots [OF batch_init_slots assms(1)]] by simp
  have "i < bst_next ?st \<and> f x \<le> budget (task_budget (sbr_tasks req ! i))"
    if i: "i < length (sbr_tasks req)" and x: "sto_outcome (?slots ! i) = Some x" for i x
  proof -
    have "ended_as (be_end env i) (?slots ! i)" "i < bst_next ?st"
      using closed_slot [OF assms(1) i] x i len by (auto simp: Let_def unsettled_def)
    then show ?thesis using x assms(4) [OF i] by (cases "be_end env i") auto
  qed
  from outcomes_within [OF len, of "bst_next ?st" f "\<lambda>t. budget (task_budget t)", OF this]
  show ?thesis using assms(2,3) by (simp add: reserved_ok_def)
qed

lemma small_sum: "sum_list xs \<le> n \<Longrightarrow> n < u64_max \<Longrightarrow> usize_sum xs \<le> n"
  using usize_sum_exact [of xs] by (simp add: u64_max_def)

text \<open>C19: A batch stays within its aggregate budget. If every task that delivers an outcome ran a session of
  its request, then the provider turns, tool calls and tool-output bytes that the batch reports are at
  most the limits of its policy, although the tasks ran independently: each was admitted only with its
  whole session budget reserved.\<close>

theorem batch_aggregates_within_policy:
  assumes "run_batch rt env req = Inr out" "fresh_ids env" "session_ends rt env req"
    "scp_max_provider_turns (sbr_policy req) < u64_max" "scp_max_tool_calls (sbr_policy req) < u64_max"
    "scp_max_tool_output_bytes (sbr_policy req) < u64_max"
  shows "sbo_aggregate_provider_turns out \<le> scp_max_provider_turns (sbr_policy req)
    \<and> sbo_aggregate_tool_calls out \<le> scp_max_tool_calls (sbr_policy req)
    \<and> sbo_aggregate_tool_output_bytes out \<le> scp_max_tool_output_bytes (sbr_policy req)"
proof -
  have inv: "reservation_inv req (final_state env req)"
    using batch_loop_reservation [OF batch_init_reservation] .
  have "validate_tasks rt (sbr_policy req) [] (sbr_tasks req) = Inr ()"
    using run_batch_cases(1) [OF assms(1)] by (simp add: batch_validate_def Let_def result_simps)
  from validate_tasks_budget [OF this]
  have small: "i < length (sbr_tasks req) \<Longrightarrow>
      sb_max_aggregate_tool_output_bytes (task_budget (sbr_tasks req ! i)) \<le> u64_max" for i
    using assms(6) nth_mem [of i "sbr_tasks req"] by fastforce
  have bound: "so_provider_turns x \<le> sb_max_provider_turns (task_budget (sbr_tasks req ! i))"
    "so_tool_calls x \<le> sb_max_tool_calls (task_budget (sbr_tasks req ! i))"
    "sum_list (map cr_output_bytes (so_tool_audit x))
       \<le> sb_max_aggregate_tool_output_bytes (task_budget (sbr_tasks req ! i))"
    if i: "i < length (sbr_tasks req)" and e: "be_end env i = End_Outcome x" for i x
  proof -
    obtain se c1 c2 sh sh' where run: "run_subagent se rt c1 c2 (spawned_request (sbr_tasks req ! i)) sh = (Inr x, sh')"
      using assms(3) i e unfolding session_ends_def by blast
    show "so_provider_turns x \<le> sb_max_provider_turns (task_budget (sbr_tasks req ! i))"
      "so_tool_calls x \<le> sb_max_tool_calls (task_budget (sbr_tasks req ! i))"
      "sum_list (map cr_output_bytes (so_tool_audit x))
         \<le> sb_max_aggregate_tool_output_bytes (task_budget (sbr_tasks req ! i))"
      using session_budget [OF run] small [OF i] by (simp_all add: task_budget_def)
  qed
  let ?outs = "slot_outcomes (map close_slot (bst_slots (final_state env req)))"
  have "sum_list (map so_provider_turns ?outs) \<le> scp_max_provider_turns (sbr_policy req)"
    by (rule aggregate_within [where lim = scp_max_provider_turns and amount = ar_provider_turns
        and budget = sb_max_provider_turns, OF assms(2,4)])
      (use inv bound(1) in \<open>simp_all add: reservation_inv_def\<close>)
  moreover have "sum_list (map so_tool_calls ?outs) \<le> scp_max_tool_calls (sbr_policy req)"
    by (rule aggregate_within [where lim = scp_max_tool_calls and amount = ar_tool_calls
        and budget = sb_max_tool_calls, OF assms(2,5)])
      (use inv bound(2) in \<open>simp_all add: reservation_inv_def\<close>)
  moreover have "sum_list (map (\<lambda>x. sum_list (map cr_output_bytes (so_tool_audit x))) ?outs)
      \<le> scp_max_tool_output_bytes (sbr_policy req)"
    by (rule aggregate_within [where lim = scp_max_tool_output_bytes and amount = ar_tool_output_bytes
        and budget = sb_max_aggregate_tool_output_bytes, OF assms(2,6)])
      (use inv bound(3) in \<open>simp_all add: reservation_inv_def\<close>)
  ultimately show ?thesis
    using run_batch_cases(2) [OF assms(1)] assms(4-6)
    by (simp add: batch_outcome_def Let_def small_sum sum_list_concat_map)
qed

section \<open>An example\<close>

definition demo_task :: SubagentTask where
  "demo_task = \<lparr>stk_request = demo_request, stk_timeout_override = None, stk_cancelled = False\<rparr>"

definition demo_batch :: SubagentBatchRequest where
  "demo_batch = \<lparr>sbr_tasks = [demo_task], sbr_policy = concurrency_default\<rparr>"

definition demo_tick :: batch_tick where
  "demo_tick = \<lparr>tk_cancel_at_admission = (\<lambda>_. False), tk_cancel_at_wait = False, tk_timer_fires = False,
     tk_activity = [Starts 0, Finishes 0], tk_pick = 0, tk_cancel_at_join = False, tk_cancel_at_end = False\<rparr>"

definition demo_batch_env :: "task_end \<Rightarrow> batch_env" where
  "demo_batch_env e = \<lparr>be_end = (\<lambda>_. e), be_tick = (\<lambda>_. demo_tick), be_spawn_id = (\<lambda>ids. Suc (sum_list ids)),
     be_cancelled_before = False, be_cancel_at_finish = False, be_elapsed = 5\<rparr>"

lemma demo_fresh: "fresh_ids (demo_batch_env e)"
proof -
  have "Suc (sum_list ids) \<notin> set ids" for ids :: "nat list"
    using member_le_sum_list [of "Suc (sum_list ids)" ids] by auto
  then show ?thesis by (simp add: fresh_ids_def demo_batch_env_def)
qed

lemma demo_batch_valid: "batch_validate demo_runtime demo_batch = Inr ()"
proof -
  have "validate_for_batch demo_runtime demo_request = Inr (rp_id demo_profile)"
    by (simp add: validate_for_batch_def resolved_route_def demo_valid demo_routed)
  moreover have "sr_timeout demo_request = secs 60" "sr_tool_policy demo_request = small_tool_policy"
    by (simp_all add: demo_request_def)
  ultimately show ?thesis
    by (simp add: batch_validate_def demo_batch_def demo_task_def concurrency_default_def task_budget_def Let_def
        SUBAGENT_BATCH_MAX_CONCURRENCY_def SUBAGENT_BATCH_DEFAULT_MAX_TASKS_def secs_def)
qed

lemma demo_batch_run:
  "run_batch demo_runtime (demo_batch_env e) demo_batch
     = Inr (batch_outcome (demo_batch_env e) demo_batch (final_state (demo_batch_env e) demo_batch))"
  by (simp add: run_batch_def demo_batch_valid)

lemma demo_reserve:
  "aggregate_reserve reservation_default demo_task concurrency_default
     = Some \<lparr>ar_provider_turns = 2, ar_tool_calls = 2, ar_tool_output_bytes = 16\<rparr>"
  by (simp add: aggregate_reserve_def reservation_default_def demo_task_def task_budget_def demo_request_def
      concurrency_default_def saturating_add_def u64_max_def)

text \<open>The single round of a batch of one task: the task is admitted, runs, is joined and settled.\<close>

lemma single_task_final:
  assumes req: "sbr_tasks req = [t]" "0 < scp_max_concurrency (sbr_policy req)"
      "aggregate_reserve reservation_default t (sbr_policy req) = Some r"
    and policy: "scp_failure_policy (sbr_policy req) = ContinueIndependent"
  shows "let st = final_state (demo_batch_env (End_Outcome x)) req in
     sto_state (bst_slots st ! 0) = task_state (so_status x) \<and> length (bst_slots st) = 1
     \<and> \<not> bst_timed_out st \<and> \<not> bst_cancellation st \<and> \<not> bst_cancelled st \<and> ts_peak (bst_live st) = 1
     \<and> (bst_budget_exhausted st \<longleftrightarrow> task_state (so_status x) = TS_BudgetExhausted)"
proof -
  let ?env = "demo_batch_env (End_Outcome x)" and ?id = "sr_task_id (stk_request t)"
  define st1 where "st1 = admit ?env req demo_tick 0 (batch_init ?env req)"
  have st1: "st1 = (batch_init ?env req)\<lparr>
      bst_reservations := r,
      bst_slots := [\<lparr>sto_task_id = ?id, sto_state = TS_Running, sto_outcome = None, sto_error = None\<rparr>],
      bst_next := 1, bst_live := ts_spawn 1 ts_empty, bst_task_indices := [1 \<mapsto> 0]\<rparr>"
    unfolding st1_def
    by (subst admit.simps, simp add: Let_def req batch_init_def demo_batch_env_def demo_tick_def observe_def,
        subst admit.simps) (simp add: Let_def req spawn_task_def observe_def)
  define st2 where "st2 = join_round ?env req demo_tick st1"
  have wrap: "wrapping_add 0 (Suc 0) = Suc 0" "wrapping_pred (Suc 0) = 0"
    by (simp_all add: wrapping_add_def wrapping_pred_def)
  have st2: "bst_join_set st2 = []" "bst_next st2 = 1" "bst_slots st2 =
      [\<lparr>sto_task_id = ?id, sto_state = task_state (so_status x), sto_outcome = Some x, sto_error = None\<rparr>]"
      "\<not> bst_timed_out st2" "\<not> bst_cancellation st2" "\<not> bst_cancelled st2" "ts_peak (bst_live st2) = 1"
      "bst_budget_exhausted st2 \<longleftrightarrow> task_state (so_status x) = TS_BudgetExhausted"
    unfolding st2_def st1
    by (simp_all add: join_round_def await_join_def observe_def demo_tick_def batch_init_def demo_batch_env_def
        Let_def picked_def tasks_run_def join_task_def take_joined_def ts_spawn_def ts_empty_def start_task_def finish_task_def wrap handle_outcome_def settle_def
        cancel_remaining_def mark_cancelled_def policy remove_at_def)
  have tick: "be_tick ?env n = demo_tick" for n by (simp add: demo_batch_env_def)
  have admit2: "admit ?env req demo_tick 0 st2 = st2"
    using st2(2) by (subst admit.simps) (simp add: Let_def observe_def demo_tick_def req)
  have "bst_join_set st1 \<noteq> []" by (simp add: st1)
  then have "final_state ?env req = batch_loop ?env req 1 st2"
    by (subst batch_loop.simps) (simp add: Let_def tick st1_def [symmetric] st2_def)
  also have "\<dots> = st2"
    using st2(1) by (subst batch_loop.simps) (simp add: Let_def tick admit2)
  finally have "final_state ?env req = st2" .
  then show ?thesis using st2 by (simp add: Let_def)
qed

lemma single_task_outcome:
  assumes "sbr_tasks req = [t]" "0 < scp_max_concurrency (sbr_policy req)"
      "aggregate_reserve reservation_default t (sbr_policy req) = Some r"
    and "scp_failure_policy (sbr_policy req) = ContinueIndependent"
  shows "let out = batch_outcome (demo_batch_env (End_Outcome x)) req (final_state (demo_batch_env (End_Outcome x)) req) in
     map sto_state (sbo_tasks out) = [task_state (so_status x)] \<and> sbo_peak_observed_concurrency out = 1
     \<and> (task_state (so_status x) \<in> {TS_Completed, TS_TimedOut} \<longrightarrow> sbo_status out = BS_Completed)"
proof -
  obtain s where s: "bst_slots (final_state (demo_batch_env (End_Outcome x)) req) = [s]"
    using single_task_final [OF assms, of x] by (auto simp: Let_def length_Suc_conv)
  show ?thesis
    using single_task_final [OF assms, of x] task_state_ended [of "so_status x"]
    by (auto simp: Let_def batch_outcome_def final_status_def demo_batch_env_def close_slot_def s [unfolded demo_batch_env_def])
qed

lemma demo_outcome:
  "let out = batch_outcome (demo_batch_env (End_Outcome x)) demo_batch
               (final_state (demo_batch_env (End_Outcome x)) demo_batch) in
     map sto_state (sbo_tasks out) = [task_state (so_status x)] \<and> sbo_peak_observed_concurrency out = 1
     \<and> (task_state (so_status x) \<in> {TS_Completed, TS_TimedOut} \<longrightarrow> sbo_status out = BS_Completed)"
proof (rule single_task_outcome)
  have policy: "sbr_policy demo_batch = concurrency_default" by (simp add: demo_batch_def)
  show "aggregate_reserve reservation_default demo_task (sbr_policy demo_batch)
      = Some \<lparr>ar_provider_turns = 2, ar_tool_calls = 2, ar_tool_output_bytes = 16\<rparr>"
    unfolding policy by (rule demo_reserve)
qed (simp_all add: demo_batch_def concurrency_default_def)

text \<open>The only task of the example runs into its own timeout, and the batch reports completion.\<close>

lemma timed_out_task_reported_completed:
  assumes "so_status x = SS_TimedOut"
  shows "\<exists>out. run_batch demo_runtime (demo_batch_env (End_Outcome x)) demo_batch = Inr out
     \<and> map sto_state (sbo_tasks out) = [TS_TimedOut] \<and> sbo_status out = BS_Completed"
  using demo_outcome [of x] assms by (simp add: demo_batch_run Let_def)

lemma demo_batch_timeout:
  obtains x out where "so_status x = SS_TimedOut"
    "run_batch demo_runtime (demo_batch_env (End_Outcome x)) demo_batch = Inr out"
    "map sto_state (sbo_tasks out) = [TS_TimedOut]" "sbo_status out = BS_Completed"
    "sbo_peak_observed_concurrency out = 1"
proof -
  obtain x :: SubagentOutcome where "so_status x = SS_TimedOut" by (metis SubagentOutcome.select_convs(8))
  then show thesis
    using that [of x] demo_outcome [of x] by (simp add: demo_batch_run Let_def)
qed

theorem batch_concurrency_bounded_witness:
  "\<exists>env out. run_batch demo_runtime env demo_batch = Inr out \<and> sbo_peak_observed_concurrency out = 1
     \<and> 1 \<le> scp_max_concurrency (sbr_policy demo_batch)"
proof -
  obtain x out where out: "run_batch demo_runtime (demo_batch_env (End_Outcome x)) demo_batch = Inr out"
      "sbo_peak_observed_concurrency out = 1"
    using demo_batch_timeout by metis
  show ?thesis using batch_concurrency_bounded [OF out(1)] out by auto
qed

theorem batch_status_meaning_witness:
  "\<exists>env out. run_batch demo_runtime env demo_batch = Inr out \<and> fresh_ids env
     \<and> sbo_status out = BS_Completed \<and> map sto_state (sbo_tasks out) = [TS_TimedOut]
     \<and> list_all (\<lambda>s. sto_state s \<in> {TS_Completed, TS_Cancelled, TS_TimedOut}) (sbo_tasks out)"
proof -
  obtain x out where out: "run_batch demo_runtime (demo_batch_env (End_Outcome x)) demo_batch = Inr out"
      "sbo_status out = BS_Completed" "map sto_state (sbo_tasks out) = [TS_TimedOut]"
    using demo_batch_timeout by metis
  have "list_all (\<lambda>s. sto_state s \<in> {TS_Completed, TS_Cancelled, TS_TimedOut}) (sbo_tasks out)"
    using batch_status_meaning [OF out(1) demo_fresh] out(2) by (elim conjE) (rule mp)
  then show ?thesis using out demo_fresh by (intro exI conjI)
qed


lemma demo_policy_small:
  "scp_max_provider_turns (sbr_policy demo_batch) < u64_max" "scp_max_tool_calls (sbr_policy demo_batch) < u64_max"
  "scp_max_tool_output_bytes (sbr_policy demo_batch) < u64_max"
  by (simp_all add: demo_batch_def concurrency_default_def u64_max_def)

theorem batch_aggregates_within_policy_witness:
  "\<exists>env x out. run_batch demo_runtime env demo_batch = Inr out \<and> fresh_ids env
     \<and> be_end env 0 = End_Outcome x \<and> session_ends demo_runtime env demo_batch
     \<and> sbo_aggregate_provider_turns out \<le> scp_max_provider_turns (sbr_policy demo_batch)"
proof -
  obtain x where x: "run_subagent demo_session demo_runtime False False demo_request alone = (Inr x, alone)"
    using demo_run by blast
  have "spawned_request (sbr_tasks demo_batch ! 0) = demo_request" "length (sbr_tasks demo_batch) = 1"
    by (simp_all add: demo_batch_def demo_task_def spawned_request_def)
  then have ends: "session_ends demo_runtime (demo_batch_env (End_Outcome x)) demo_batch"
    using x unfolding session_ends_def by (simp add: demo_batch_env_def) blast
  show ?thesis
    using batch_aggregates_within_policy [OF demo_batch_run demo_fresh ends demo_policy_small] demo_fresh ends
      demo_batch_run [of "End_Outcome x"]
    by (intro exI [of _ "demo_batch_env (End_Outcome x)"] exI [of _ x] exI conjI) (auto simp: demo_batch_env_def)
qed

end
