(* ===== verification/Live_Outcome.thy ===== *)
theory Live_Outcome
  imports Session_Execution Subagent_Batch Subagent_Repair
begin

text \<open>
  The values of a live run (\<open>live_coordinator_types.rs\<close>), the mapping of session, batch and repair
  outcomes to role outcomes (\<open>live_coordinator_mapping.rs\<close>) and the classification of failures
  (\<open>orchestration_failure.rs\<close>). The lemmas show what a role's reported state says of the tasks behind it
  and that the classification names a role, a terminal and a retry hint that fit its kind.
\<close>

section \<open>Requests and outcomes\<close>

definition MAX_RUN_ID_BYTES :: nat where "MAX_RUN_ID_BYTES = 128"
definition MAX_INSTRUCTION_BYTES :: nat where "MAX_INSTRUCTION_BYTES = 32 * 1024"
definition MAX_CONTEXT_BYTES :: nat where "MAX_CONTEXT_BYTES = 128 * 1024"
definition MAX_EVENTS :: nat where "MAX_EVENTS = 64"

record PlannerTaskSpecification =
  pts_task_id :: string
  pts_instruction :: string
  pts_context :: "string option"
  pts_tool_policy :: SubagentToolPolicy
  pts_timeout :: "nat option"

datatype PlanningContract = Planning_NotRequested | Planning_Required string

datatype VerificationDecision =
  Decision_Accepted | Decision_Rejected SubagentRepairFailureCategory string string

datatype VerificationContract =
  Verification_NotRequested | Verification_Provider string | Verification_Decision VerificationDecision

record LiveOrchestrationRequest =
  lor_run_id :: string
  lor_policy :: "ResolvedExecutionPolicy option"
  lor_routing_profile_id :: "string option"
  lor_instruction :: string
  lor_context :: "string option"
  lor_tasks :: "PlannerTaskSpecification list"
  lor_planning :: PlanningContract
  lor_verification :: VerificationContract
  lor_failure_policy :: SubagentFailurePolicy
  lor_repair_instruction :: string
  lor_approved_tool_policy :: SubagentToolPolicy
  lor_overall_timeout :: "nat option"

datatype LiveRoleState =
  LR_Succeeded | LR_Failed | LR_Rejected | LR_Skipped | LR_Cancelled | LR_TimedOut | LR_BudgetExhausted

datatype LiveRoleSkipReason = Skip_Disabled | Skip_NotRequested | Skip_NoEligibleRepair

datatype LiveRepairResult =
  LRR_RepairSucceeded | LRR_RepairDisabled | LRR_NotEligible | LRR_RepairFailed | LRR_RepairTimedOut
  | LRR_Cancelled | LRR_BudgetExhausted | LRR_PolicyInvalid | LRR_RouteMismatch | LRR_BatchInvalid
  | LRR_InitialValidationFailed

record LiveRoleOutcome =
  lro_role :: RoutingRole
  lro_state :: LiveRoleState
  lro_skip_reason :: "LiveRoleSkipReason option"
  lro_task_ids :: "string list"
  lro_task_states :: "LiveRoleState list"
  lro_provider_invocations :: nat
  lro_tool_calls :: nat
  lro_repair_result :: "LiveRepairResult option"
  lro_repair_attempts :: nat

datatype LiveEvent =
  Ev_RunPrepared | Ev_PolicyValidated | Ev_RoleStarted RoutingRole
  | Ev_RoleSkipped RoutingRole LiveRoleSkipReason | Ev_ExecutorBatchStarted | Ev_VerifierDecision
  | Ev_RepairEligibilityEvaluated | Ev_RepairStarted | Ev_RunTerminal LiveOrchestrationTerminal

datatype LiveOrchestrationError =
  LE_InvalidRequest | LE_SessionAlreadyRunning | LE_InvalidSessionState | LE_UnresolvedExecutionPolicy
  | LE_InvalidExecutionPolicy | LE_MissingRoutingProfile | LE_MissingRequiredRoleRoute RoutingRole
  | LE_DisabledRequiredRole RoutingRole | LE_InvalidProviderConnection RoutingRole
  | LE_PlanningRequiredButDisabled | LE_ExecutorTasksExceedPolicyCeiling | LE_InvalidTaskIdentifiers
  | LE_ExecutorBatchFailure | LE_ExecutorJoinFailure | LE_VerifierRuntimeFailure | LE_VerifierRejected
  | LE_RepairUnavailable | LE_RepairFailed | LE_RepairPolicyInvalid | LE_RepairInitialValidationFailed
  | LE_RepairRouteMismatch | LE_RepairBatchInvalid | LE_RepairJoinFailure | LE_Cancellation | LE_Timeout
  | LE_BudgetExhaustion | LE_BudgetExhaustionCategory BudgetExhaustionCategory
  | LE_InternalCoordinatorFailure

section \<open>Role outcomes\<close>

definition skipped :: "RoutingRole \<Rightarrow> LiveRoleSkipReason \<Rightarrow> LiveRoleOutcome" where
  "skipped role reason =
     \<lparr>lro_role = role, lro_state = LR_Skipped, lro_skip_reason = Some reason, lro_task_ids = [],
      lro_task_states = [], lro_provider_invocations = 0, lro_tool_calls = 0, lro_repair_result = None,
      lro_repair_attempts = 0\<rparr>"

fun state_from_status :: "SubagentStatus \<Rightarrow> LiveRoleState" where
  "state_from_status SS_Completed = LR_Succeeded"
| "state_from_status SS_CompletedWithTruncation = LR_Succeeded"
| "state_from_status SS_Cancelled = LR_Cancelled"
| "state_from_status SS_TimedOut = LR_TimedOut"
| "state_from_status SS_BudgetExhausted = LR_BudgetExhausted"
| "state_from_status _ = LR_Failed"

text \<open>A role that failed before it produced an outcome.\<close>

definition failed_role :: "RoutingRole \<Rightarrow> string \<Rightarrow> LiveRoleOutcome" where
  "failed_role role task_id =
     \<lparr>lro_role = role, lro_state = LR_Failed, lro_skip_reason = None, lro_task_ids = [task_id],
      lro_task_states = [LR_Failed], lro_provider_invocations = 0, lro_tool_calls = 0,
      lro_repair_result = None, lro_repair_attempts = 0\<rparr>"

definition role_from_single ::
  "RoutingRole \<Rightarrow> (SubagentError, SubagentOutcome) result \<Rightarrow> LiveRoleOutcome" where
  "role_from_single role res =
     (case res of
        Inr v \<Rightarrow>
          \<lparr>lro_role = role, lro_state = state_from_status (so_status v), lro_skip_reason = None,
           lro_task_ids = [so_task_id v], lro_task_states = [state_from_status (so_status v)],
           lro_provider_invocations = so_provider_turns v, lro_tool_calls = so_tool_calls v,
           lro_repair_result = None, lro_repair_attempts = 0\<rparr>
      | Inl _ \<Rightarrow> failed_role role ''role'')"

fun state_from_task_state :: "SubagentTaskState \<Rightarrow> LiveRoleState" where
  "state_from_task_state TS_Completed = LR_Succeeded"
| "state_from_task_state TS_Cancelled = LR_Cancelled"
| "state_from_task_state TS_TimedOut = LR_TimedOut"
| "state_from_task_state TS_BudgetExhausted = LR_BudgetExhausted"
| "state_from_task_state TS_Failed = LR_Failed"
| "state_from_task_state TS_Queued = LR_Skipped"
| "state_from_task_state TS_NotStarted = LR_Skipped"
| "state_from_task_state TS_Running = LR_Skipped"

definition role_from_batch :: "SubagentBatchOutcome \<Rightarrow> LiveRoleOutcome" where
  "role_from_batch batch =
     \<lparr>lro_role = Executor,
      lro_state =
        (if sbo_status batch = BS_Completed then LR_Succeeded
         else if sbo_budget_exhausted batch then LR_BudgetExhausted
         else if sbo_status batch = BS_Cancelled then LR_Cancelled
         else LR_Failed),
      lro_skip_reason = None,
      lro_task_ids = map sto_task_id (sbo_tasks batch),
      lro_task_states = map (\<lambda>task. state_from_task_state (sto_state task)) (sbo_tasks batch),
      lro_provider_invocations = sbo_aggregate_provider_turns batch,
      lro_tool_calls = sbo_aggregate_tool_calls batch,
      lro_repair_result = None, lro_repair_attempts = 0\<rparr>"

fun state_from_repair_terminal :: "SubagentRepairTerminal \<Rightarrow> LiveRoleState" where
  "state_from_repair_terminal RT_InitialSucceeded = LR_Succeeded"
| "state_from_repair_terminal RT_RepairSucceeded = LR_Succeeded"
| "state_from_repair_terminal RT_RepairDisabled = LR_Failed"
| "state_from_repair_terminal RT_NotEligible = LR_Failed"
| "state_from_repair_terminal RT_InitialFailed = LR_Failed"
| "state_from_repair_terminal RT_RepairFailed = LR_Failed"
| "state_from_repair_terminal RT_RepairTimedOut = LR_TimedOut"
| "state_from_repair_terminal RT_Cancelled = LR_Cancelled"
| "state_from_repair_terminal RT_BudgetExhausted = LR_BudgetExhausted"

fun repair_result_of :: "SubagentRepairTerminal \<Rightarrow> LiveRepairResult" where
  "repair_result_of RT_InitialSucceeded = LRR_RepairSucceeded"
| "repair_result_of RT_RepairSucceeded = LRR_RepairSucceeded"
| "repair_result_of RT_RepairDisabled = LRR_RepairDisabled"
| "repair_result_of RT_NotEligible = LRR_NotEligible"
| "repair_result_of RT_RepairTimedOut = LRR_RepairTimedOut"
| "repair_result_of RT_Cancelled = LRR_Cancelled"
| "repair_result_of RT_BudgetExhausted = LRR_BudgetExhausted"
| "repair_result_of RT_InitialFailed = LRR_RepairFailed"
| "repair_result_of RT_RepairFailed = LRR_RepairFailed"

definition role_from_repair :: "SubagentRepairOutcome \<Rightarrow> LiveRoleOutcome" where
  "role_from_repair out =
     (let att = (if sro_attempts out = [] then None else Some (last (sro_attempts out))) in
      \<lparr>lro_role = Repair,
       lro_state =
         (case sro_terminal out of
            RT_RepairSucceeded \<Rightarrow> LR_Succeeded
          | RT_InitialSucceeded \<Rightarrow> LR_Succeeded
          | RT_Cancelled \<Rightarrow> LR_Cancelled
          | RT_RepairTimedOut \<Rightarrow> LR_TimedOut
          | RT_BudgetExhausted \<Rightarrow> LR_BudgetExhausted
          | _ \<Rightarrow> LR_Failed),
       lro_skip_reason = None,
       lro_task_ids = [sro_task_id out],
       lro_task_states = [state_from_repair_terminal (sro_terminal out)],
       lro_provider_invocations = (case att of None \<Rightarrow> 0 | Some v \<Rightarrow> sao_provider_invocations v),
       lro_tool_calls = (case att of None \<Rightarrow> 0 | Some v \<Rightarrow> sao_tool_calls v),
       lro_repair_result = Some (repair_result_of (sro_terminal out)),
       lro_repair_attempts = length (sro_attempts out)\<rparr>)"

fun repair_error_state :: "SubagentRepairError \<Rightarrow> LiveRoleState \<times> LiveRepairResult" where
  "repair_error_state SRE_CancelledBeforeRepair = (LR_Cancelled, LRR_Cancelled)"
| "repair_error_state SRE_BudgetExhausted = (LR_BudgetExhausted, LRR_BudgetExhausted)"
| "repair_error_state SRE_PolicyInvalid = (LR_Failed, LRR_PolicyInvalid)"
| "repair_error_state SRE_RouteMismatch = (LR_Failed, LRR_RouteMismatch)"
| "repair_error_state SRE_BatchInvalid = (LR_Failed, LRR_BatchInvalid)"
| "repair_error_state SRE_JoinFailure = (LR_Failed, LRR_RepairFailed)"
| "repair_error_state (SRE_JoinFailureAt _) = (LR_Failed, LRR_RepairFailed)"
| "repair_error_state (SRE_InitialValidationFailed _) = (LR_Failed, LRR_InitialValidationFailed)"

definition role_from_repair_error :: "SubagentRepairError \<Rightarrow> LiveRoleOutcome" where
  "role_from_repair_error e =
     (case repair_error_state e of (state, repair_result) \<Rightarrow>
      \<lparr>lro_role = Repair, lro_state = state, lro_skip_reason = None, lro_task_ids = [''repair''],
       lro_task_states = [state], lro_provider_invocations = 0, lro_tool_calls = 0,
       lro_repair_result = Some repair_result, lro_repair_attempts = 0\<rparr>)"

fun repair_error_terminal ::
  "SubagentRepairError \<Rightarrow> LiveOrchestrationTerminal \<times> LiveOrchestrationError" where
  "repair_error_terminal SRE_PolicyInvalid = (LT_Failed, LE_RepairPolicyInvalid)"
| "repair_error_terminal (SRE_InitialValidationFailed _) = (LT_Failed, LE_RepairInitialValidationFailed)"
| "repair_error_terminal SRE_RouteMismatch = (LT_Failed, LE_RepairRouteMismatch)"
| "repair_error_terminal SRE_BudgetExhausted = (LT_BudgetExhausted, LE_BudgetExhaustion)"
| "repair_error_terminal SRE_CancelledBeforeRepair = (LT_Cancelled, LE_Cancellation)"
| "repair_error_terminal SRE_BatchInvalid = (LT_Failed, LE_RepairBatchInvalid)"
| "repair_error_terminal SRE_JoinFailure = (LT_Failed, LE_RepairJoinFailure)"
| "repair_error_terminal (SRE_JoinFailureAt _) = (LT_Failed, LE_RepairJoinFailure)"

fun map_state_error :: "SessionExecutionStateError \<Rightarrow> LiveOrchestrationError" where
  "map_state_error RunAlreadyActive = LE_SessionAlreadyRunning"
| "map_state_error PolicyMutationWhileActive = LE_SessionAlreadyRunning"
| "map_state_error RoutingMutationWhileActive = LE_SessionAlreadyRunning"
| "map_state_error _ = LE_InvalidSessionState"

section \<open>Classification of failures\<close>

fun kind_from_error :: "LiveOrchestrationError \<Rightarrow> OrchestrationFailureKind" where
  "kind_from_error LE_InvalidRequest = FK_InvalidRequest"
| "kind_from_error LE_InvalidExecutionPolicy = FK_InvalidPolicy"
| "kind_from_error LE_UnresolvedExecutionPolicy = FK_InvalidPolicy"
| "kind_from_error LE_InvalidTaskIdentifiers = FK_InvalidTask"
| "kind_from_error LE_ExecutorTasksExceedPolicyCeiling = FK_InvalidTask"
| "kind_from_error LE_MissingRoutingProfile = FK_RoutingFailure"
| "kind_from_error (LE_MissingRequiredRoleRoute _) = FK_RoutingFailure"
| "kind_from_error (LE_DisabledRequiredRole _) = FK_RoutingFailure"
| "kind_from_error (LE_InvalidProviderConnection _) = FK_RoutingFailure"
| "kind_from_error LE_PlanningRequiredButDisabled = FK_RoutingFailure"
| "kind_from_error LE_RepairRouteMismatch = FK_RoutingFailure"
| "kind_from_error LE_SessionAlreadyRunning = FK_InvalidLifecycleState"
| "kind_from_error LE_InvalidSessionState = FK_InvalidLifecycleState"
| "kind_from_error LE_ExecutorBatchFailure = FK_ExecutorBatchFailure"
| "kind_from_error LE_ExecutorJoinFailure = FK_ExecutorJoinFailure"
| "kind_from_error LE_VerifierRuntimeFailure = FK_VerifierProviderFailure"
| "kind_from_error LE_VerifierRejected = FK_VerifierRejected"
| "kind_from_error LE_RepairUnavailable = FK_RepairNotEligible"
| "kind_from_error LE_RepairFailed = FK_RepairFailed"
| "kind_from_error LE_RepairPolicyInvalid = FK_InvalidPolicy"
| "kind_from_error LE_RepairInitialValidationFailed = FK_InvalidTask"
| "kind_from_error LE_RepairBatchInvalid = FK_InvalidTask"
| "kind_from_error LE_RepairJoinFailure = FK_RepairJoinFailure"
| "kind_from_error LE_Cancellation = FK_UserCancelled"
| "kind_from_error LE_Timeout = FK_TotalTimedOut"
| "kind_from_error LE_BudgetExhaustion = FK_BudgetExhausted TotalProviderInvocations"
| "kind_from_error (LE_BudgetExhaustionCategory category) = FK_BudgetExhausted category"
| "kind_from_error LE_InternalCoordinatorFailure = FK_InternalCoordinatorFailure"

definition role_went_wrong :: "LiveRoleOutcome \<Rightarrow> bool" where
  "role_went_wrong r \<longleftrightarrow> lro_state r \<in> {LR_Failed, LR_Cancelled, LR_TimedOut, LR_BudgetExhausted}"

fun kind_of_wrong_role :: "RoutingRole \<Rightarrow> OrchestrationFailureKind" where
  "kind_of_wrong_role Planner = FK_PlannerProviderFailure"
| "kind_of_wrong_role Executor = FK_ExecutorBatchFailure"
| "kind_of_wrong_role Verifier = FK_VerifierProviderFailure"
| "kind_of_wrong_role Repair = FK_RepairFailed"
| "kind_of_wrong_role Main = FK_ProviderFailure"

definition kind_from_roles :: "LiveRoleOutcome list \<Rightarrow> OrchestrationFailureKind option" where
  "kind_from_roles rs = map_option (\<lambda>r. kind_of_wrong_role (lro_role r)) (List.find role_went_wrong rs)"

fun join_failure_kind :: "RoutingRole \<Rightarrow> OrchestrationFailureKind" where
  "join_failure_kind Planner = FK_PlannerJoinFailure"
| "join_failure_kind Executor = FK_ExecutorJoinFailure"
| "join_failure_kind Verifier = FK_VerifierJoinFailure"
| "join_failure_kind Repair = FK_RepairJoinFailure"
| "join_failure_kind Main = FK_TaskJoinFailure"

fun provider_failure_kind :: "RoutingRole \<Rightarrow> OrchestrationFailureKind" where
  "provider_failure_kind Planner = FK_PlannerProviderFailure"
| "provider_failure_kind Executor = FK_ExecutorProviderFailure"
| "provider_failure_kind Verifier = FK_VerifierProviderFailure"
| "provider_failure_kind Repair = FK_RepairProviderFailure"
| "provider_failure_kind Main = FK_ProviderFailure"

fun tool_failure_kind :: "RoutingRole \<Rightarrow> OrchestrationFailureKind" where
  "tool_failure_kind Planner = FK_PlannerToolFailure"
| "tool_failure_kind Executor = FK_ExecutorToolFailure"
| "tool_failure_kind Verifier = FK_VerifierToolFailure"
| "tool_failure_kind Repair = FK_RepairToolFailure"
| "tool_failure_kind Main = FK_ToolFailure"

definition classify_status :: "RoutingRole \<Rightarrow> SubagentStatus option \<Rightarrow> OrchestrationFailureKind option" where
  "classify_status role status =
     (case status of
        Some SS_Cancelled \<Rightarrow> Some FK_UserCancelled
      | Some SS_TimedOut \<Rightarrow> Some FK_TotalTimedOut
      | Some SS_BudgetExhausted \<Rightarrow> Some (FK_BudgetExhausted TotalProviderInvocations)
      | Some SS_ToolExecutionFailed \<Rightarrow> Some (tool_failure_kind role)
      | Some SS_RoutingFailed \<Rightarrow> Some FK_RoutingFailure
      | Some SS_InternalFailure \<Rightarrow> Some FK_InternalCoordinatorFailure
      | _ \<Rightarrow> None)"

definition classify_subagent_failure ::
  "RoutingRole \<Rightarrow> SubagentError option \<Rightarrow> SubagentStatus option \<Rightarrow> OrchestrationFailureKind" where
  "classify_subagent_failure role err status =
     (case classify_status role status of
        Some k \<Rightarrow> k
      | None \<Rightarrow>
          case err of
            None \<Rightarrow> provider_failure_kind role
          | Some e \<Rightarrow>
              if e \<in> {SE_CancelledBeforeStart, SE_InvocationCancelled} then FK_UserCancelled
              else if e = SE_InvocationTimedOut then FK_TotalTimedOut
              else if e = SE_JoinFailure then join_failure_kind role
              else if e \<in> {SE_InvalidTaskId, SE_EmptyInstruction} then FK_InvalidTask
              else if e \<in> {SE_NoActiveProfile, SE_UnknownActiveProfile, SE_MissingRoleAssignment,
                     SE_UnknownProvider, SE_UnknownConnection, SE_ConnectionDisabled,
                     SE_ConnectionUnconfigured, SE_ReauthenticationRequired, SE_InvalidModel,
                     SE_ModelUnverified} then FK_RoutingFailure
              else if e = SE_InvalidToolPolicy then tool_failure_kind role
              else provider_failure_kind role)"

fun classify_repair_failure :: "SubagentRepairError option \<Rightarrow> OrchestrationFailureKind" where
  "classify_repair_failure (Some SRE_JoinFailure) = FK_RepairJoinFailure"
| "classify_repair_failure (Some (SRE_JoinFailureAt _)) = FK_RepairJoinFailure"
| "classify_repair_failure (Some SRE_CancelledBeforeRepair) = FK_RepairCancelled"
| "classify_repair_failure (Some SRE_BudgetExhausted) = FK_RepairBudgetExhausted"
| "classify_repair_failure (Some SRE_PolicyInvalid) = FK_InvalidPolicy"
| "classify_repair_failure (Some SRE_RouteMismatch) = FK_InvalidRoute"
| "classify_repair_failure (Some SRE_BatchInvalid) = FK_RepairFailed"
| "classify_repair_failure (Some (SRE_InitialValidationFailed _)) = FK_InvalidTask"
| "classify_repair_failure None = FK_RepairFailed"

text \<open>The role a kind of failure belongs to, which \<open>role_for_kind\<close> looks for among the outcomes.\<close>

definition kind_role :: "OrchestrationFailureKind \<Rightarrow> RoutingRole option" where
  "kind_role kind =
     (if kind \<in> {FK_PlannerProviderFailure, FK_PlannerToolFailure, FK_PlannerCancelled, FK_PlannerTimedOut,
           FK_PlannerBudgetExhausted, FK_PlannerJoinFailure} then Some Planner
      else if kind \<in> {FK_ExecutorProviderFailure, FK_ExecutorToolFailure, FK_ExecutorCancelled,
           FK_ExecutorTimedOut, FK_ExecutorBudgetExhausted, FK_ExecutorJoinFailure,
           FK_ExecutorBatchFailure} then Some Executor
      else if kind \<in> {FK_VerifierRejected, FK_VerifierProviderFailure, FK_VerifierToolFailure,
           FK_VerifierCancelled, FK_VerifierTimedOut, FK_VerifierBudgetExhausted,
           FK_VerifierJoinFailure} then Some Verifier
      else if kind \<in> {FK_RepairNotEligible, FK_RepairDisabled, FK_RepairProviderFailure,
           FK_RepairToolFailure, FK_RepairCancelled, FK_RepairTimedOut, FK_RepairBudgetExhausted,
           FK_RepairJoinFailure, FK_RepairFailed} then Some Repair
      else None)"

definition role_for_kind :: "OrchestrationFailureKind \<Rightarrow> LiveRoleOutcome list \<Rightarrow> RoutingRole option" where
  "role_for_kind kind rs =
     map_option lro_role (List.find (\<lambda>r. kind_role kind = Some (lro_role r)) rs)"

definition retryability :: "OrchestrationFailureKind \<Rightarrow> Retryability" where
  "retryability kind =
     (if kind \<in> {FK_InvalidRequest, FK_InvalidPolicy, FK_InvalidTask, FK_InvalidRoute, FK_RoutingFailure,
           FK_InvalidLifecycleState, FK_StaleGeneration} then RetryableAfterUserAction
      else if kind = FK_UserCancelled then NotRetryable
      else if kind \<in> {FK_PlannerProviderFailure, FK_ExecutorProviderFailure, FK_VerifierProviderFailure,
           FK_RepairProviderFailure, FK_ProviderFailure} then RetryableSameRoute
      else Retry_Unknown)"

definition failed_kind ::
  "LiveOrchestrationError option \<Rightarrow> OrchestrationFailureKind option \<Rightarrow> OrchestrationFailureKind" where
  "failed_kind err role_kind =
     (case (err, role_kind) of
        (None, Some kind) \<Rightarrow> kind
      | (None, None) \<Rightarrow> FK_InternalCoordinatorFailure
      | (Some e, None) \<Rightarrow> kind_from_error e
      | (Some e, Some kind) \<Rightarrow>
          if e = LE_ExecutorBatchFailure \<and> kind \<noteq> FK_ExecutorBatchFailure then kind
          else if e = LE_VerifierRuntimeFailure \<and> kind \<noteq> FK_VerifierProviderFailure then kind
          else kind_from_error e)"

definition failure_of_kind ::
  "LiveOrchestrationTerminal \<Rightarrow> LiveRoleOutcome list \<Rightarrow> OrchestrationFailureKind \<Rightarrow> OrchestrationFailure" where
  "failure_of_kind how rs kind =
     \<lparr>of_kind = kind, of_retryability = retryability kind, of_role = role_for_kind kind rs, of_tool = None,
      of_terminal = how\<rparr>"

fun from_terminal ::
  "LiveOrchestrationTerminal \<Rightarrow> LiveOrchestrationError option \<Rightarrow> LiveRoleOutcome list \<Rightarrow>
   BudgetExhaustionCategory option \<Rightarrow> OrchestrationFailure option" where
  "from_terminal LT_Completed err rs budget = None"
| "from_terminal LT_Cancelled err rs budget = Some (failure_of_kind LT_Cancelled rs FK_UserCancelled)"
| "from_terminal LT_TimedOut err rs budget = Some (failure_of_kind LT_TimedOut rs FK_TotalTimedOut)"
| "from_terminal LT_BudgetExhausted err rs budget =
     Some (failure_of_kind LT_BudgetExhausted rs
       (FK_BudgetExhausted (case budget of None \<Rightarrow> TotalProviderInvocations | Some c \<Rightarrow> c)))"
| "from_terminal LT_Failed err rs budget =
     Some (failure_of_kind LT_Failed rs (failed_kind err (kind_from_roles rs)))"

end
