(* ===== verification/Run_Ledger.thy ===== *)
theory Run_Ledger
  imports Session_Accounting
begin

text \<open>
  A subagent session (\<open>subagent.rs\<close>) as a client of the run's ledger and cleanup registry: it keeps
  the ledger's invariant, and it leaves alone what belongs to the run, the limits and the generation
  of the ledger, the terminal cause and the flags of the registry.
\<close>

section \<open>The ledger\<close>

definition ledger_frame :: "ExecutionBudgetLedger \<Rightarrow> ExecutionBudgetLimits \<times> nat" where
  "ledger_frame b = (led_limits b, led_generation b)"

lemma ledger_frame_upd [simp]:
  "ledger_frame (upd_state f led) = ledger_frame led"
  "ledger_frame (if_locked f led) = ledger_frame led"
  "ledger_frame (led\<lparr>led_last_exhaustion := x\<rparr>) = ledger_frame led"
  "ledger_frame (led\<lparr>led_state := st\<rparr>) = ledger_frame led"
  by (simp_all add: ledger_frame_def if_locked_def exhaustion_def Let_def)

lemma ledger_frame_gate:
  assumes "\<And>led. ledger_frame (snd (f led)) = ledger_frame led"
  shows "ledger_frame (snd (with_ledger t f led)) = ledger_frame led"
proof -
  have "ledger_frame (snd (open_ledger t led)) = ledger_frame led" for led
    by (simp add: open_ledger_def check_elapsed_def exhaustion_def Let_def)
  then show ?thesis
    using assms by (auto simp: with_ledger_def split: prod.split sum.split) (metis snd_conv)+
qed

lemma ledger_frame_ops [simp]:
  "ledger_frame (snd (reserve_provider t role led)) = ledger_frame led"
  "ledger_frame (snd (reserve_tool t role led)) = ledger_frame led"
  "ledger_frame (snd (reserve_context t n led)) = ledger_frame led"
  "ledger_frame (snd (record_output_tokens t n led)) = ledger_frame led"
  "ledger_frame (snd (admit_executor_tasks t n led)) = ledger_frame led"
  "ledger_frame (snd (admit_repair_attempt t led)) = ledger_frame led"
  "ledger_frame (snd (record_tool_output t n led)) = ledger_frame led"
  unfolding reserve_provider_def reserve_tool_def reserve_context_def record_output_tokens_def
    admit_executor_tasks_def admit_repair_attempt_def record_tool_output_def
  by (rule ledger_frame_gate; simp add: Let_def)+

lemma ledger_frame_ends [simp]:
  "ledger_frame (snd (commit_provider role led)) = ledger_frame led"
  "ledger_frame (snd (commit_with_guard role led)) = ledger_frame led"
  "ledger_frame (drop_provider role led) = ledger_frame led"
  "ledger_frame (snd (commit_tool led)) = ledger_frame led"
  "ledger_frame (drop_tool led) = ledger_frame led"
  "ledger_frame (record_tool_completed led) = ledger_frame led"
  "ledger_frame (record_provider_rejected led) = ledger_frame led"
  "ledger_frame (record_terminal x led) = ledger_frame led"
  "ledger_frame (snd (mark_terminal led)) = ledger_frame led"
  by (simp_all add: commit_provider_def commit_with_guard_def drop_provider_def commit_tool_def drop_tool_def
      record_tool_completed_def record_provider_rejected_def mark_terminal_def)
    (cases x; simp add: record_provider_completed_def record_provider_failed_def record_provider_cancelled_def
      record_provider_timed_out_def)

lemma ledger_frame_guards [simp]:
  "ledger_frame (snd (guard_finish x g led)) = ledger_frame led"
  "ledger_frame (guard_drop g led) = ledger_frame led"
  by (simp_all add: guard_finish_def guard_drop_def del: record_terminal.simps split: option.split)

lemma budget_apply_frame: "ledger_frame (sys_ledger (budget_apply s op)) = ledger_frame (sys_ledger s)"
proof -
  have "ledger_frame led' = ledger_frame led" if "f led = (r, led')" "\<And>led. ledger_frame (snd (f led)) = ledger_frame led"
    for f :: "ExecutionBudgetLedger \<Rightarrow> 'x \<times> ExecutionBudgetLedger" and led led' r
    using that by (metis snd_conv)
  note frame = this
  show ?thesis
    by (cases op) (auto split: prod.split sum.split dest!: frame [where f = "reserve_provider t role" for t role]
        frame [where f = "reserve_tool t role" for t role] frame [where f = "commit_with_guard role" for role]
        frame [where f = "guard_finish t g" for t g])
qed

text \<open>The ledger of a shared state satisfies its invariant while the client holds the given provider
  reservations and the given number of tool reservations.\<close>

definition ledger_ok :: "ExecutionBudgetLimits \<times> nat \<Rightarrow> RoutingRole list \<Rightarrow> nat \<Rightarrow> ExecutionBudgetLedger \<Rightarrow> bool" where
  "ledger_ok L res n b \<longleftrightarrow>
     budget_inv \<lparr>sys_ledger = b, sys_reservations = res, sys_guards = [], sys_tools = n\<rparr> \<and> ledger_frame b = L"

lemma budget_inv_guards:
  "budget_inv \<lparr>sys_ledger = b, sys_reservations = res, sys_guards = gs, sys_tools = n\<rparr>
   \<longleftrightarrow> budget_inv \<lparr>sys_ledger = b, sys_reservations = res, sys_guards = [], sys_tools = n\<rparr>"
  by (simp add: budget_inv_def Let_def)

lemma ledger_ok_step:
  assumes "ledger_ok L res n b"
    and "budget_apply \<lparr>sys_ledger = b, sys_reservations = res, sys_guards = gs, sys_tools = n\<rparr> op
      = \<lparr>sys_ledger = b', sys_reservations = res', sys_guards = gs', sys_tools = n'\<rparr>"
  shows "ledger_ok L res' n' b'"
  using assms budget_inv_step [of "\<lparr>sys_ledger = b, sys_reservations = res, sys_guards = gs, sys_tools = n\<rparr>" op]
    budget_apply_frame [of "\<lparr>sys_ledger = b, sys_reservations = res, sys_guards = gs, sys_tools = n\<rparr>" op]
    budget_inv_guards [of b res gs n] budget_inv_guards [of b' res' gs' n']
  by (simp add: ledger_ok_def)

lemma reserve_provider_role: "fst (reserve_provider t role led) = Inr r \<Longrightarrow> r = role"
  by (auto simp: reserve_provider_def with_ledger_def exhaustion_def Let_def split: prod.splits sum.splits if_splits)

lemma reserve_provider_keeps:
  assumes "ledger_ok L res n b" "reserve_provider t role b = (r, b')"
  shows "ledger_ok L (case r of Inl _ \<Rightarrow> res | Inr x \<Rightarrow> x # res) n b'"
  using assms(2)
  by (intro ledger_ok_step [OF assms(1), where op = "Op_ReserveProvider t role" and gs = "[]" and gs' = "[]"])
    (simp split: sum.split)

lemma commit_with_guard_keeps:
  assumes "ledger_ok L [role] n b" "commit_with_guard role b = (r, b')"
  shows "ledger_ok L [] n b'"
  using assms(2)
  by (intro ledger_ok_step [OF assms(1), where op = "Op_CommitGuarded 0" and gs = "[]"
        and gs' = "case r of Inl _ \<Rightarrow> [] | Inr g \<Rightarrow> [g]"])
    (simp add: remove_nth_def split: sum.split)

lemma drop_provider_keeps: "ledger_ok L [role] n b \<Longrightarrow> ledger_ok L [] n (drop_provider role b)"
  by (rule ledger_ok_step [where op = "Op_DropProvider 0" and gs = "[]" and gs' = "[]"]) (assumption, simp add: remove_nth_def)

lemma guard_finish_keeps: "ledger_ok L res n b \<Longrightarrow> ledger_ok L res n (snd (guard_finish t g b))"
  by (rule ledger_ok_step [where op = "Op_GuardFinish 0 t" and gs = "[g]" and gs' = "[fst (guard_finish t g b)]"])
    (assumption, simp split: prod.split)

lemma guard_drop_keeps: "ledger_ok L res n b \<Longrightarrow> ledger_ok L res n (guard_drop g b)"
  by (rule ledger_ok_step [where op = "Op_GuardDrop 0" and gs = "[g]" and gs' = "[]"]) (assumption, simp add: remove_nth_def)

lemma reserve_tool_keeps:
  assumes "ledger_ok L res n b" "reserve_tool t role b = (r, b')"
  shows "ledger_ok L res (case r of Inl _ \<Rightarrow> n | Inr _ \<Rightarrow> Suc n) b'"
  using assms(2)
  by (intro ledger_ok_step [OF assms(1), where op = "Op_ReserveTool t role" and gs = "[]" and gs' = "[]"])
    (simp split: sum.split)

lemma tool_ends_keep:
  "ledger_ok L res (Suc n) b \<Longrightarrow> ledger_ok L res n (snd (commit_tool b))"
  "ledger_ok L res (Suc n) b \<Longrightarrow> ledger_ok L res n (drop_tool b)"
  by (rule ledger_ok_step [where op = Op_CommitTool and gs = "[]" and gs' = "[]"] ledger_ok_step [where op = Op_DropTool and gs = "[]" and gs' = "[]"],
      assumption, simp)+

lemma metering_keeps:
  "ledger_ok L res n b \<Longrightarrow> ledger_ok L res n (snd (record_output_tokens t x b))"
  "ledger_ok L res n b \<Longrightarrow> ledger_ok L res n (snd (record_tool_output t x b))"
  "ledger_ok L res n b \<Longrightarrow> ledger_ok L res n (snd (admit_executor_tasks t x b))"
  "ledger_ok L res n b \<Longrightarrow> ledger_ok L res n (snd (admit_repair_attempt t b))"
  "ledger_ok L res n b \<Longrightarrow> ledger_ok L res n (snd (reserve_context t x b))"
  "ledger_ok L res n b \<Longrightarrow> ledger_ok L res n (record_tool_completed b)"
  "ledger_ok L res n b \<Longrightarrow> ledger_ok L res n (snd (mark_terminal b))"
  by (rule ledger_ok_step [where gs = "[]" and gs' = "[]" and op = "Op_OutputTokens t x"]
        ledger_ok_step [where gs = "[]" and gs' = "[]" and op = "Op_ToolOutput t x"]
        ledger_ok_step [where gs = "[]" and gs' = "[]" and op = "Op_ExecutorTasks t x"]
        ledger_ok_step [where gs = "[]" and gs' = "[]" and op = "Op_RepairAttempt t"]
        ledger_ok_step [where gs = "[]" and gs' = "[]" and op = "Op_Context t x"]
        ledger_ok_step [where gs = "[]" and gs' = "[]" and op = "Op_RecordToolCompleted"]
        ledger_ok_step [where gs = "[]" and gs' = "[]" and op = "Op_MarkTerminal"], assumption, simp)+

section \<open>The registry\<close>

definition cleanup_frame :: "OrchestrationCleanup \<Rightarrow> TerminalCauseArbiter \<times> bool \<times> bool \<times> nat \<times> bool" where
  "cleanup_frame c =
     (oc_cause_arbiter c, cleanup_requested (oc_state c), cleanup_complete (oc_state c), oc_generation c, oc_poisoned c)"

lemma cleanup_frame_with:
  assumes "\<And>st. cleanup_requested (snd (f st)) = cleanup_requested st \<and> cleanup_complete (snd (f st)) = cleanup_complete st"
  shows "cleanup_frame (snd (with_cleanup g f c)) = cleanup_frame c"
  using assms [of "oc_state c"] by (auto simp: with_cleanup_def cleanup_frame_def split: prod.split)

lemma set_reservations_flags [simp]:
  "cleanup_requested (set_reservations k f g st) = cleanup_requested st"
  "cleanup_complete (set_reservations k f g st) = cleanup_complete st"
  by (cases k; simp)+

lemma cleanup_frame_ops [simp]:
  "cleanup_frame (snd (register_child g k c)) = cleanup_frame c"
  "cleanup_frame (snd (complete_child g h c)) = cleanup_frame c"
  "cleanup_frame (snd (register_reservation g r c)) = cleanup_frame c"
  "cleanup_frame (snd (resolve_reservation g r h c)) = cleanup_frame c"
  unfolding register_child_def complete_child_def register_reservation_def resolve_reservation_def
  by (rule cleanup_frame_with; auto simp: next_handle_def split: prod.split option.split)+

lemma cleanup_frame_guards [simp]:
  "cleanup_frame (snd (register_child_guard g k c)) = cleanup_frame c"
  "cleanup_frame (snd (register_reservation_guard g r c)) = cleanup_frame c"
  "cleanup_frame (snd (snd (child_guard_complete cg c))) = cleanup_frame c"
  "cleanup_frame (snd (snd (reservation_guard_resolve rg c))) = cleanup_frame c"
  "cleanup_frame (child_guard_drop cg c) = cleanup_frame c"
  "cleanup_frame (reservation_guard_drop rg c) = cleanup_frame c"
  using cleanup_frame_ops(1) [of g k c] cleanup_frame_ops(3) [of g r c]
    cleanup_frame_ops(2) [of "cg_generation cg" _ c] cleanup_frame_ops(4) [of "rg_generation rg" "rg_kind rg" _ c]
  by (auto simp: register_child_guard_def register_reservation_guard_def child_guard_complete_def
      reservation_guard_resolve_def child_guard_drop_def reservation_guard_drop_def simp del: cleanup_frame_ops
      split: prod.split sum.split option.split) (metis snd_conv)+

section \<open>A session over both\<close>

definition run_held ::
  "ExecutionBudgetLimits \<times> nat \<Rightarrow> (TerminalCauseArbiter \<times> bool \<times> bool \<times> nat \<times> bool) option \<Rightarrow>
   RoutingRole list \<Rightarrow> nat \<Rightarrow> shared \<Rightarrow> bool" where
  "run_held L F res n sh \<longleftrightarrow>
     (\<exists>b. sh_budget sh = Some b \<and> ledger_ok L res n b) \<and> map_option cleanup_frame (sh_cleanup sh) = F"

lemma run_held_cleanup:
  "own_reservation k sh = (r1, sh1) \<Longrightarrow> run_held L F res n sh \<Longrightarrow> run_held L F res n sh1"
  "own_child k' sh = (r2, sh2) \<Longrightarrow> run_held L F res n sh \<Longrightarrow> run_held L F res n sh2"
  "resolve_owned og sh = (r3, og', sh3) \<Longrightarrow> run_held L F res n sh \<Longrightarrow> run_held L F res n sh3"
  "complete_owned oc sh = (r4, oc', sh4) \<Longrightarrow> run_held L F res n sh \<Longrightarrow> run_held L F res n sh4"
  using cleanup_frame_guards
  by (auto simp: run_held_def own_reservation_def own_child_def resolve_owned_def complete_owned_def
      simp del: cleanup_frame_guards split: option.splits prod.splits sum.splits) (metis snd_conv)+

lemma run_held_drops [simp]:
  "run_held L F res n (drop_owned_reservation og sh) \<longleftrightarrow> run_held L F res n sh"
  "run_held L F res n (drop_owned_child oc sh) \<longleftrightarrow> run_held L F res n sh"
  by (auto simp: run_held_def drop_owned_reservation_def drop_owned_child_def option.map_comp comp_def split: option.split)

lemma run_held_budget:
  assumes "run_held L F res n sh" "with_budget f sh = (r, sh')"
  obtains b x b' where "sh_budget sh = Some b" "ledger_ok L res n b" "f b = (x, b')"
    "r = (case x of Inl e \<Rightarrow> Inl e | Inr v \<Rightarrow> Inr (Some v))"
    "\<And>res' n'. ledger_ok L res' n' b' \<Longrightarrow> run_held L F res' n' sh'"
proof -
  obtain b where b: "sh_budget sh = Some b" "ledger_ok L res n b" using assms(1) by (auto simp: run_held_def)
  obtain x b' where x: "f b = (x, b')" by (cases "f b")
  have "r = (case x of Inl e \<Rightarrow> Inl e | Inr v \<Rightarrow> Inr (Some v))" "sh' = sh\<lparr>sh_budget := Some b'\<rparr>"
    using assms(2) b x by (auto simp: with_budget_def split: sum.splits)
  then show thesis using b x assms(1) by (intro that) (simp_all add: run_held_def)
qed

lemma run_held_on_budget:
  "run_held L F res n sh \<Longrightarrow> (\<And>b. ledger_ok L res n b \<Longrightarrow> ledger_ok L res' n' (f b)) \<Longrightarrow> run_held L F res' n' (on_budget f sh)"
  by (auto simp: run_held_def on_budget_def)

definition role_taken :: "('e, RoutingRole option) result \<Rightarrow> RoutingRole list" where
  "role_taken r = (case r of Inr (Some x) \<Rightarrow> [x] | _ \<Rightarrow> [])"

definition tool_taken :: "('e, 'u option) result \<Rightarrow> nat" where
  "tool_taken r = (case r of Inr (Some _) \<Rightarrow> 1 | _ \<Rightarrow> 0)"

lemma run_held_reserve:
  assumes "run_held L F [] 0 sh" "with_budget (reserve_provider t role) sh = (r, sh')"
  shows "run_held L F (role_taken r) 0 sh'" "r \<noteq> Inr None"
proof -
  obtain b x b' where k: "ledger_ok L [] 0 b" "reserve_provider t role b = (x, b')"
      "r = (case x of Inl e \<Rightarrow> Inl e | Inr v \<Rightarrow> Inr (Some v))" "\<And>res' n'. ledger_ok L res' n' b' \<Longrightarrow> run_held L F res' n' sh'"
    using run_held_budget [OF assms] by blast
  show "run_held L F (role_taken r) 0 sh'" using k(4) [OF reserve_provider_keeps [OF k(1,2)]] k(3) by (cases x) (simp_all add: role_taken_def)
  show "r \<noteq> Inr None" using k(3) by (cases x) simp_all
qed

lemma run_held_reserve_tool:
  assumes "run_held L F [] 0 sh" "with_budget (reserve_tool t role) sh = (r, sh')"
  shows "run_held L F [] (tool_taken r) sh'" "r \<noteq> Inr None"
proof -
  obtain b x b' where k: "ledger_ok L [] 0 b" "reserve_tool t role b = (x, b')"
      "r = (case x of Inl e \<Rightarrow> Inl e | Inr v \<Rightarrow> Inr (Some v))" "\<And>res' n'. ledger_ok L res' n' b' \<Longrightarrow> run_held L F res' n' sh'"
    using run_held_budget [OF assms] by blast
  show "run_held L F [] (tool_taken r) sh'" using k(4) [OF reserve_tool_keeps [OF k(1,2)]] k(3) by (cases x) (simp_all add: tool_taken_def)
  show "r \<noteq> Inr None" using k(3) by (cases x) simp_all
qed

lemma run_held_commit:
  assumes "run_held L F [role] 0 sh" "with_budget (commit_with_guard role) sh = (r, sh')"
  shows "run_held L F [] 0 sh'"
  using assms by (auto elim!: run_held_budget dest!: commit_with_guard_keeps)

lemma run_held_commit_tool:
  assumes "run_held L F [] (Suc 0) sh" "with_budget commit_tool sh = (r, sh')"
  shows "run_held L F [] 0 sh'"
  using assms
proof (rule run_held_budget)
  fix b x b'
  assume "ledger_ok L [] (Suc 0) b" "commit_tool b = (x, b')" "\<And>res' n'. ledger_ok L res' n' b' \<Longrightarrow> run_held L F res' n' sh'"
  then show ?thesis using tool_ends_keep(1) [of L "[]" 0 b] by simp
qed

lemma run_held_metering:
  assumes "run_held L F [] 0 sh"
  shows "with_budget (record_output_tokens t x) sh = (r, sh') \<Longrightarrow> run_held L F [] 0 sh'"
    "with_budget (record_tool_output t x) sh = (r, sh') \<Longrightarrow> run_held L F [] 0 sh'"
  using metering_keeps(1,2) [of L "[]" 0 _ t x] by (auto elim!: run_held_budget [OF assms]) (metis snd_conv)+

lemma run_held_record:
  assumes "run_held L F [] 0 sh"
  shows "run_held L F [] 0 (on_budget record_tool_completed sh)"
    "run_held L F [] 0 (drop_lifecycle life sh)" "run_held L F [] 0 (finish_lifecycle e life sh)"
  using run_held_on_budget [OF assms] metering_keeps(6) guard_drop_keeps guard_finish_keeps assms
  by (simp_all add: drop_lifecycle_def finish_lifecycle_def split: option.split)

lemma provider_turn_held:
  assumes "run_held L F [] 0 sh" "provider_turn clk role answer sh = (r, sh')"
  shows "run_held L F [] 0 sh'"
proof -
  obtain x1 sh1 where 1: "own_reservation Reservation_Provider sh = (x1, sh1)" by (cases "own_reservation Reservation_Provider sh")
  have h1: "run_held L F [] 0 sh1" using run_held_cleanup(1) [OF 1 assms(1)] .
  show ?thesis
  proof (cases x1)
    case own: (Inr own)
    obtain x2 sh2 where 2: "with_budget (reserve_provider clk role) sh1 = (x2, sh2)" by (cases "with_budget (reserve_provider clk role) sh1")
    note h2 = run_held_reserve [OF h1 2]
    show ?thesis
    proof (cases x2)
      case res: (Inr res)
      then obtain role' where role: "res = Some role'" using h2(2) by (cases res) auto
      then have h2': "run_held L F [role'] 0 sh2" using h2(1) res by (simp add: role_taken_def)
      obtain x3 sh3 where 3: "own_child Child_Provider sh2 = (x3, sh3)" by (cases "own_child Child_Provider sh2")
      have h3: "run_held L F [role'] 0 sh3" using run_held_cleanup(2) [OF 3 h2'] .
      show ?thesis
      proof (cases x3)
        case (Inl e)
        have "run_held L F [] 0 (on_budget (drop_provider role') sh3)"
          using h3 drop_provider_keeps by (rule run_held_on_budget)
        then show ?thesis using assms(2) 1 2 3 own res role Inl by (auto simp: provider_turn_def drop_owned_provider_def)
      next
        case child: (Inr child)
        obtain x4 sh4 where 4: "with_budget (commit_with_guard role') sh3 = (x4, sh4)" by (cases "with_budget (commit_with_guard role') sh3")
        have h4: "run_held L F [] 0 sh4" using run_held_commit [OF h3 4] .
        obtain x5 own' sh5 where 5: "resolve_owned own sh4 = (x5, own', sh5)" by (cases "resolve_owned own sh4")
        have h5: "run_held L F [] 0 sh5" using run_held_cleanup(3) [OF 5 h4] .
        obtain x6 child' sh6 where 6: "complete_owned child sh5 = (x6, child', sh6)" by (cases "complete_owned child sh5")
        have h6: "run_held L F [] 0 sh6" using run_held_cleanup(4) [OF 6 h5] .
        show ?thesis
          using assms(2) 1 2 3 4 5 6 own res role child h4 h5 h6
          by (auto simp: provider_turn_def commit_owned_def run_held_record split: sum.splits)
      qed
    qed (use assms(2) 1 2 own h2 in \<open>auto simp: provider_turn_def role_taken_def\<close>)
  qed (use assms(2) 1 h1 in \<open>auto simp: provider_turn_def\<close>)
qed

lemma tool_turn_held:
  assumes "run_held L F [] 0 sh" "tool_turn clk role execution late sh = (r, sh')"
  shows "run_held L F [] 0 sh'"
proof -
  obtain x1 sh1 where 1: "own_reservation Reservation_Tool sh = (x1, sh1)" by (cases "own_reservation Reservation_Tool sh")
  have h1: "run_held L F [] 0 sh1" using run_held_cleanup(1) [OF 1 assms(1)] .
  show ?thesis
  proof (cases x1)
    case own: (Inr own)
    obtain x2 sh2 where 2: "with_budget (reserve_tool clk role) sh1 = (x2, sh2)" by (cases "with_budget (reserve_tool clk role) sh1")
    note h2 = run_held_reserve_tool [OF h1 2]
    show ?thesis
    proof (cases x2)
      case res: (Inr res)
      then obtain u where u: "res = Some u" using h2(2) by (cases res) auto
      then have h2': "run_held L F [] (Suc 0) sh2" using h2(1) res by (simp add: tool_taken_def)
      obtain x3 sh3 where 3: "own_child Child_Tool sh2 = (x3, sh3)" by (cases "own_child Child_Tool sh2")
      have h3: "run_held L F [] (Suc 0) sh3" using run_held_cleanup(2) [OF 3 h2'] .
      show ?thesis
      proof (cases x3)
        case (Inl e)
        have "run_held L F [] 0 (on_budget drop_tool sh3)"
          using h3 tool_ends_keep(2) by (rule run_held_on_budget)
        then show ?thesis using assms(2) 1 2 3 own res u Inl by (auto simp: tool_turn_def)
      next
        case child: (Inr child)
        obtain x4 sh4 where 4: "with_budget commit_tool sh3 = (x4, sh4)" by (cases "with_budget commit_tool sh3")
        have h4: "run_held L F [] 0 sh4" using run_held_commit_tool [OF h3 4] .
        obtain x5 own' sh5 where 5: "resolve_owned own sh4 = (x5, own', sh5)" by (cases "resolve_owned own sh4")
        have h5: "run_held L F [] 0 sh5" using run_held_cleanup(3) [OF 5 h4] .
        obtain x6 child' sh6 where 6: "complete_owned child sh5 = (x6, child', sh6)" by (cases "complete_owned child sh5")
        have h6: "run_held L F [] 0 sh6" using run_held_cleanup(4) [OF 6 h5] .
        show ?thesis
          using assms(2) 1 2 3 4 5 6 own res u child h4 h5 h6
          by (auto simp: tool_turn_def split: sum.splits)
      qed
    qed (use assms(2) 1 2 own h2 in \<open>auto simp: tool_turn_def tool_taken_def\<close>)
  qed (use assms(2) 1 h1 in \<open>auto simp: tool_turn_def\<close>)
qed

fun step_held where
  "step_held L F (Again st) = run_held L F [] 0 (ls_shared st)"
| "step_held L F (Return (x, sh)) = run_held L F [] 0 sh"

lemma ends_held [simp]: "step_held L F (ends p i st s l out w t x) = run_held L F [] 0 (ls_shared st)"
  by (simp add: ends_def)

lemma return_tool_result_held:
  "run_held L F [] 0 (ls_shared st) \<Longrightarrow> step_held L F (return_tool_result p i call tool execution st)"
  by (auto simp: return_tool_result_def Let_def run_held_record dest: run_held_metering(2)
      split: prod.split sum.split)

lemma handle_tool_call_held:
  "run_held L F [] 0 (ls_shared st) \<Longrightarrow> step_held L F (handle_tool_call env p n call st)"
  by (auto simp: handle_tool_call_def Let_def dest: tool_turn_held intro!: return_tool_result_held
      split: option.split prod.split tool_turn_end.split)

lemma handle_answer_held:
  assumes "run_held L F [] 0 (ls_shared st)"
  shows "step_held L F (handle_answer env p n x st)"
proof -
  let ?metered = "case Option.bind (pres_usage x) pu_output_tokens of
      None \<Rightarrow> (Inr None, ls_shared st)
    | Some tokens \<Rightarrow> with_budget (record_output_tokens (ti_tokens_clock (se_inputs env n)) tokens) (ls_shared st)"
  obtain r sh where m: "?metered = (r, sh)" by (cases ?metered)
  then have "run_held L F [] 0 sh" using assms run_held_metering(1) [OF assms] by (auto split: option.splits)
  then show ?thesis
    unfolding handle_answer_def Let_def m
    by (auto simp: handle_tool_call_held split: sum.split option.split prod.split)
qed

lemma session_turn_held:
  assumes "run_held L F [] 0 (ls_shared st)"
  shows "step_held L F (session_turn env p st)"
  using assms
  by (auto simp: session_turn_def Let_def handle_answer_held dest: provider_turn_held
      split: prod.split provider_turn_end.split sum.split)

lemma session_loop_held: "run_held L F [] 0 (ls_shared st) \<Longrightarrow> run_held L F [] 0 (snd (session_loop env p st))"
proof (induction env p st rule: session_loop.induct)
  case (1 env p st)
  then have "step_held L F (session_turn env p st)" using session_turn_held by blast
  then show ?case
    using 1 by (subst session_loop.simps) (auto split: session_step.split)
qed

lemma run_subagent_held:
  assumes "run_held L F [] 0 sh" "run_subagent env rt c1 c2 r sh = (x, sh')"
  shows "run_held L F [] 0 sh'"
  using assms session_loop_held [of L F]
  by (auto simp: run_subagent_def run_tool_session_def split: sum.splits prod.splits) (metis session_state.select_convs(6) snd_conv)

end
