(* ===== verification/Live_Coordinator.thy ===== *)
theory Live_Coordinator
  imports Live_Outcome Run_Ledger
begin

text \<open>
  The live coordinator (\<open>live_coordinator.rs\<close>, \<open>live_coordinator_stages.rs\<close>,
  \<open>live_coordinator_validation.rs\<close>, the end of a run in \<open>live_coordinator_mapping.rs\<close>): one run plans,
  executes a batch of tasks, verifies and repairs over the session state, the ledger and the cleanup
  registry, and ends with an outcome. What happens outside is an argument: the sessions' environments,
  the interleaving of the batch, cancellations between two reads of the token, the await during which
  the overall timeout fires, and the clock. Progress observations are not modelled.
\<close>

section \<open>Validation\<close>

text \<open>A resolved policy has an entry for every role, so the lookup behind \<open>policy.role\<close> does not panic.\<close>

definition activation :: "ResolvedExecutionPolicy \<Rightarrow> RoutingRole \<Rightarrow> RoleActivation" where
  "activation rp r = (case resolved_role rp r of Inr x \<Rightarrow> rep_activation x | Inl _ \<Rightarrow> Role_Disabled)"

lemma activation_exact:
  "resolve_mode sel = Inr rp \<Longrightarrow> \<exists>x. resolved_role rp r = Inr x \<and> activation rp r = rep_activation x"
  using resolved_roles [of sel rp r] by (auto simp: activation_def)

fun tasks_invalid :: "string list \<Rightarrow> PlannerTaskSpecification list \<Rightarrow> bool" where
  "tasks_invalid seen [] = False"
| "tasks_invalid seen (t # ts) =
     (if pts_task_id t = [] \<or> pts_instruction t = []
         \<or> (case pts_context t of None \<Rightarrow> False | Some v \<Rightarrow> length v > MAX_CONTEXT_BYTES)
         \<or> pts_task_id t \<in> set seen
      then True else tasks_invalid (pts_task_id t # seen) ts)"

fun planning_required :: "PlanningContract \<Rightarrow> bool" where
  "planning_required Planning_NotRequested = False"
| "planning_required (Planning_Required _) = True"

definition live_validate_request ::
  "LiveOrchestrationRequest \<Rightarrow> ResolvedExecutionPolicy \<Rightarrow> (LiveOrchestrationError, unit) result" where
  "live_validate_request rq rp =
     (if lor_run_id rq = [] \<or> length (lor_run_id rq) > MAX_RUN_ID_BYTES
         \<or> lor_instruction rq = [] \<or> length (lor_instruction rq) > MAX_INSTRUCTION_BYTES
         \<or> (case lor_context rq of None \<Rightarrow> False | Some v \<Rightarrow> length v > MAX_CONTEXT_BYTES)
      then Inl LE_InvalidRequest
      else if tasks_invalid [] (lor_tasks rq) then Inl LE_InvalidTaskIdentifiers
      else if length (lor_tasks rq) > ep_max_subagents (resolved_policy rp)
      then Inl LE_ExecutorTasksExceedPolicyCeiling
      else if planning_required (lor_planning rq) \<and> activation rp Planner = Role_Disabled
      then Inl LE_PlanningRequiredButDisabled
      else Inr ())"

fun verification_rejected :: "VerificationContract \<Rightarrow> bool" where
  "verification_rejected (Verification_Decision (Decision_Rejected _ _ _)) = True"
| "verification_rejected _ = False"

fun verification_provider :: "VerificationContract \<Rightarrow> bool" where
  "verification_provider (Verification_Provider _) = True"
| "verification_provider _ = False"

definition needed_roles ::
  "ResolvedExecutionPolicy \<Rightarrow> VerificationContract \<Rightarrow> PlanningContract \<Rightarrow> RoutingRole list" where
  "needed_roles rp verification planning =
     [Main, Executor]
     @ (if planning_required planning then [Planner] else [])
     @ (if verification_provider verification \<or> verification_rejected verification then [Verifier] else [])
     @ (if verification_rejected verification \<and> activation rp Repair \<noteq> Role_Disabled then [Repair]
        else if activation rp Repair = Role_Required \<and> verification \<noteq> Verification_NotRequested then [Repair]
        else [])"

definition validate_live_route ::
  "ResolvedExecutionPolicy \<Rightarrow> RoutingProfile \<Rightarrow> RoutingConnectionDirectory \<Rightarrow> RoutingRole \<Rightarrow>
   (LiveOrchestrationError, unit) result" where
  "validate_live_route rp profile connections role =
     res_bind (ensure (activation rp role \<noteq> Role_Disabled) (LE_DisabledRequiredRole role)) (\<lambda>_.
     res_bind (ok_or (bt_get (rp_assignments profile) role) (LE_MissingRequiredRoleRoute role)) (\<lambda>a.
     res_bind (ensure (ra_enabled a) (LE_DisabledRequiredRole role)) (\<lambda>_.
       if ra_pool_id a = None
       then res_bind (map_err (\<lambda>_. LE_InvalidProviderConnection role)
              (directory_validate_assignment connections a)) (\<lambda>_. Inr ())
       else Inr ())))"

definition validate_routing ::
  "ResolvedExecutionPolicy \<Rightarrow> RoutingProfile \<Rightarrow> RoutingConnectionDirectory \<Rightarrow> VerificationContract \<Rightarrow>
   PlanningContract \<Rightarrow> (LiveOrchestrationError, unit) result" where
  "validate_routing rp profile connections verification planning =
     res_bind (ensure (rp_enabled profile) LE_MissingRoutingProfile) (\<lambda>_.
       try_each (validate_live_route rp profile connections)
         (remdups_adj (sort (needed_roles rp verification planning))))"

definition selected_registry :: "RoutingProfileRegistry \<Rightarrow> RoutingProfile \<Rightarrow> RoutingProfileRegistry" where
  "selected_registry registry profile = registry\<lparr>reg_active_profile_id := Some (rp_id profile)\<rparr>"

section \<open>The state of a run\<close>

record live_ctx =
  lx_session :: SessionExecutionPolicyState
  lx_ledger :: ExecutionBudgetLedger
  lx_cleanup :: OrchestrationCleanup
  lx_cancelled :: bool
  lx_events :: "LiveEvent list"
  lx_roles :: "LiveRoleOutcome list"
  lx_peak_concurrency :: nat
  lx_provider_invocations :: nat
  lx_tool_calls :: nat

text \<open>What the run meets outside. The awaits are numbered: the planner 0, the executor batch 1, the
  verifier 2, the repair 3; the reads of the cancellation token are numbered in their order.\<close>

record live_env =
  le_cancel :: "nat \<Rightarrow> bool"
  le_timeout :: "nat option"
  le_clock :: "nat \<Rightarrow> nat \<times> nat"
  le_elapsed :: nat
  le_planner :: session_env
  le_planner_cancelled :: "bool \<times> bool"
  le_batch :: batch_env
  le_batch_ledger :: "budget_op list"
  le_batch_registry :: "guard_op list"
  le_verifier :: session_env
  le_verifier_cancelled :: "bool \<times> bool"
  le_repair :: repair_world

record LiveOrchestrationCoordinator =
  loc_profiles :: RoutingProfileRegistry
  loc_connections :: RoutingConnectionDirectory

record LiveOrchestrationOutcome =
  loo_run_id :: string
  loo_resolved_policy :: ResolvedExecutionPolicy
  loo_routing_profile_id :: string
  loo_terminal :: LiveOrchestrationTerminal
  loo_roles :: "LiveRoleOutcome list"
  loo_peak_concurrency :: nat
  loo_provider_invocations :: nat
  loo_tool_calls :: nat
  loo_cancelled :: bool
  loo_timed_out :: bool
  loo_budget_exhausted :: bool
  loo_terminal_error :: "LiveOrchestrationError option"
  loo_synthesis_permitted :: bool
  loo_events :: "LiveEvent list"
  loo_budget :: ExecutionBudgetSnapshot
  loo_budget_exhaustion_category :: "BudgetExhaustionCategory option"
  loo_failure :: "OrchestrationFailure option"

type_synonym live_result = "(LiveOrchestrationError, LiveOrchestrationOutcome) result \<times> live_ctx"

text \<open>One run's fixed arguments.\<close>

record live_run_args =
  la_request :: LiveOrchestrationRequest
  la_policy :: ResolvedExecutionPolicy
  la_profile_id :: string
  la_env :: live_env

definition lx_generation :: "live_ctx \<Rightarrow> nat" where
  "lx_generation x = led_generation (lx_ledger x)"

definition push_event :: "LiveEvent \<Rightarrow> live_ctx \<Rightarrow> live_ctx" where
  "push_event e x = x\<lparr>lx_events := lx_events x @ [e]\<rparr>"

definition push_role :: "LiveRoleOutcome \<Rightarrow> live_ctx \<Rightarrow> live_ctx" where
  "push_role r x = x\<lparr>lx_roles := lx_roles x @ [r]\<rparr>"

text \<open>Adding a role's counts and its outcome.\<close>

definition count_role :: "LiveRoleOutcome \<Rightarrow> live_ctx \<Rightarrow> live_ctx" where
  "count_role r x = push_role r (x\<lparr>
     lx_provider_invocations := wrapping_add (lx_provider_invocations x) (lro_provider_invocations r),
     lx_tool_calls := wrapping_add (lx_tool_calls x) (lro_tool_calls r)\<rparr>)"

definition read_cancel :: "live_env \<Rightarrow> nat \<Rightarrow> live_ctx \<Rightarrow> live_ctx" where
  "read_cancel env n x = x\<lparr>lx_cancelled := lx_cancelled x \<or> le_cancel env n\<rparr>"

text \<open>The handler of the overall timeout in \<open>run\<close>: the failure is submitted, then the token cancelled.\<close>

definition timeout_failure :: OrchestrationFailure where
  "timeout_failure = the (from_terminal LT_TimedOut (Some LE_Timeout) [] None)"

definition await_end :: "live_env \<Rightarrow> nat \<Rightarrow> live_ctx \<Rightarrow> live_ctx" where
  "await_end env n x =
     (if le_timeout env = Some n
      then x\<lparr>lx_cleanup := snd (submit_failure (lx_generation x) timeout_failure (lx_cleanup x)),
             lx_cancelled := True\<rparr>
      else x)"

definition to_shared :: "live_ctx \<Rightarrow> shared" where
  "to_shared x = \<lparr>sh_budget = Some (lx_ledger x), sh_cleanup = Some (lx_cleanup x)\<rparr>"

definition set_shared :: "shared \<Rightarrow> live_ctx \<Rightarrow> live_ctx" where
  "set_shared sh x =
     x\<lparr>lx_ledger := (case sh_budget sh of Some b \<Rightarrow> b | None \<Rightarrow> lx_ledger x),
       lx_cleanup := (case sh_cleanup sh of Some c \<Rightarrow> c | None \<Rightarrow> lx_cleanup x)\<rparr>"

section \<open>The end of a run\<close>

fun session_status_of :: "LiveOrchestrationTerminal \<Rightarrow> SessionExecutionStatus" where
  "session_status_of LT_Completed = Sess_Completed"
| "session_status_of LT_Cancelled = Sess_Cancelling"
| "session_status_of LT_TimedOut = Sess_TimedOut"
| "session_status_of LT_Failed = Sess_Failed"
| "session_status_of LT_BudgetExhausted = Sess_Failed"

definition accepted_failure ::
  "nat \<Rightarrow> OrchestrationFailure option \<Rightarrow> OrchestrationCleanup \<Rightarrow>
   (unit, OrchestrationFailure option) result \<times> OrchestrationCleanup" where
  "accepted_failure g candidate c =
     (case candidate of
        None \<Rightarrow> (current_failure g c, c)
      | Some f \<Rightarrow>
          (case submit_failure g f c of
             (Cause_StaleGeneration, c') \<Rightarrow> (Inl (), c')
           | (Cause_Accepted f', c') \<Rightarrow> (Inr (Some f'), c')
           | (Cause_Replaced f', c') \<Rightarrow> (Inr (Some f'), c')
           | (Cause_Retained f', c') \<Rightarrow> (Inr (Some f'), c')
           | (Cause_Frozen f', c') \<Rightarrow> (Inr (Some f'), c')))"

definition error_for_failure ::
  "OrchestrationFailure \<Rightarrow> LiveOrchestrationError option \<Rightarrow> LiveOrchestrationError option" where
  "error_for_failure f err =
     (case of_kind f of
        FK_TotalTimedOut \<Rightarrow> Some LE_Timeout
      | FK_BudgetExhausted category \<Rightarrow> Some (LE_BudgetExhaustionCategory category)
      | FK_UserCancelled \<Rightarrow> Some LE_Cancellation
      | _ \<Rightarrow> err)"

definition last_category :: "nat \<Rightarrow> ExecutionBudgetLedger \<Rightarrow> BudgetExhaustionCategory option" where
  "last_category elapsed led = map_option be_category (snap_last_exhaustion (budget_snapshot elapsed led))"

definition terminalize_session ::
  "nat \<Rightarrow> LiveOrchestrationTerminal \<Rightarrow> SessionExecutionPolicyState \<Rightarrow> unit session_answer" where
  "terminalize_session g how s =
     (case terminalize_generation g (session_status_of how) s of
        (Inl e, s') \<Rightarrow> (Inl e, s')
      | (Inr _, s') \<Rightarrow>
          if session_status_of how = Sess_Cancelling then terminalize_generation g Sess_Cancelled s'
          else (Inr (), s'))"

definition internal :: "live_ctx \<Rightarrow> live_result" where
  "internal x = (Inl LE_InternalCoordinatorFailure, x)"

definition live_outcome ::
  "live_run_args \<Rightarrow> LiveOrchestrationTerminal \<Rightarrow> LiveOrchestrationError option \<Rightarrow> OrchestrationFailure option \<Rightarrow>
   ExecutionBudgetSnapshot \<Rightarrow> live_ctx \<Rightarrow> LiveOrchestrationOutcome" where
  "live_outcome a how err failure snap x =
     (let category = map_option be_category (snap_last_exhaustion snap) in
      \<lparr>loo_run_id = lor_run_id (la_request a), loo_resolved_policy = la_policy a,
       loo_routing_profile_id = la_profile_id a, loo_terminal = how, loo_roles = lx_roles x,
       loo_peak_concurrency = lx_peak_concurrency x, loo_provider_invocations = lx_provider_invocations x,
       loo_tool_calls = lx_tool_calls x, loo_cancelled = (how = LT_Cancelled),
       loo_timed_out = (how = LT_TimedOut), loo_budget_exhausted = (how = LT_BudgetExhausted),
       loo_terminal_error =
         (if how = LT_BudgetExhausted
          then (case category of Some c \<Rightarrow> Some (LE_BudgetExhaustionCategory c) | None \<Rightarrow> err)
          else err),
       loo_synthesis_permitted = (how = LT_Completed), loo_events = lx_events x, loo_budget = snap,
       loo_budget_exhaustion_category = category, loo_failure = failure\<rparr>)"

definition finish_outcome ::
  "live_run_args \<Rightarrow> LiveOrchestrationTerminal \<Rightarrow> LiveOrchestrationError option \<Rightarrow> live_ctx \<Rightarrow> live_result" where
  "finish_outcome a how0 err0 x =
     (let g = lx_generation x; elapsed = le_elapsed (la_env a) in
      case cleanup_begin g (lx_cleanup x) of
        (Inl _, c1) \<Rightarrow> internal (x\<lparr>lx_cleanup := c1\<rparr>)
      | (Inr _, c1) \<Rightarrow>
      case accepted_failure g (from_terminal how0 err0 (lx_roles x) (last_category elapsed (lx_ledger x))) c1 of
        (Inl _, c2) \<Rightarrow> internal (x\<lparr>lx_cleanup := c2\<rparr>)
      | (Inr accepted, c2) \<Rightarrow>
          let how = (case accepted of None \<Rightarrow> how0 | Some f \<Rightarrow> of_terminal f);
              err = (case accepted of None \<Rightarrow> err0 | Some f \<Rightarrow> error_for_failure f err0) in
      case mark_terminal (lx_ledger x) of
        (Inl _, led) \<Rightarrow> internal (x\<lparr>lx_cleanup := c2, lx_ledger := led\<rparr>)
      | (Inr _, led) \<Rightarrow>
          let snap = budget_snapshot elapsed led;
              fallback = from_terminal how err (lx_roles x) (last_category elapsed led) in
      case freeze_failure g c2 of
        (Inl _, c3) \<Rightarrow> internal (x\<lparr>lx_cleanup := c3, lx_ledger := led\<rparr>)
      | (Inr frozen, c3) \<Rightarrow>
      case cleanup_finish g c3 of
        (Inl _, c4) \<Rightarrow> internal (x\<lparr>lx_cleanup := c4, lx_ledger := led\<rparr>)
      | (Inr _, c4) \<Rightarrow>
          let failure = (if frozen = None then fallback else frozen) in
      case cleanup_snapshot g c4 of
        Inl _ \<Rightarrow> internal (x\<lparr>lx_cleanup := c4, lx_ledger := led\<rparr>)
      | Inr _ \<Rightarrow>
      case terminalize_session g how (lx_session x) of
        (Inl e, s) \<Rightarrow> (Inl (map_state_error e), x\<lparr>lx_cleanup := c4, lx_ledger := led, lx_session := s\<rparr>)
      | (Inr _, s) \<Rightarrow>
          let y = x\<lparr>lx_cleanup := c4, lx_ledger := led, lx_session := s,
                    lx_events := take MAX_EVENTS (lx_events x @ [Ev_RunTerminal how])\<rparr>
          in (Inr (live_outcome a how err failure snap y), y))"

definition terminalize_pre_execution_failure ::
  "LiveOrchestrationError \<Rightarrow> live_ctx \<Rightarrow> LiveOrchestrationError \<times> live_ctx" where
  "terminalize_pre_execution_failure err x =
     (let g = lx_generation x in
      case cleanup_begin g (lx_cleanup x) of
        (Inl _, c1) \<Rightarrow> (LE_InternalCoordinatorFailure, x\<lparr>lx_cleanup := c1\<rparr>)
      | (Inr _, c1) \<Rightarrow>
      case mark_terminal (lx_ledger x) of
        (Inl _, led) \<Rightarrow> (LE_InternalCoordinatorFailure, x\<lparr>lx_cleanup := c1, lx_ledger := led\<rparr>)
      | (Inr _, led) \<Rightarrow>
      case cleanup_finish g c1 of
        (Inl _, c2) \<Rightarrow> (LE_InternalCoordinatorFailure, x\<lparr>lx_cleanup := c2, lx_ledger := led\<rparr>)
      | (Inr _, c2) \<Rightarrow>
      case terminalize_generation g Sess_Failed (lx_session x) of
        (Inl _, s) \<Rightarrow> (LE_InternalCoordinatorFailure, x\<lparr>lx_cleanup := c2, lx_ledger := led, lx_session := s\<rparr>)
      | (Inr _, s) \<Rightarrow> (err, x\<lparr>lx_cleanup := c2, lx_ledger := led, lx_session := s\<rparr>))"

section \<open>The stages\<close>

text \<open>A stage either ends the run with a result or hands the run on.\<close>

datatype live_step = Stop live_result | Go live_ctx

fun and_then :: "live_step \<Rightarrow> (live_ctx \<Rightarrow> live_step) \<Rightarrow> live_step" where
  "and_then (Stop r) k = Stop r"
| "and_then (Go x) k = k x"

text \<open>A stage runs as a registered child: the guard is completed when the stage's await returns, and
  dropped on the way out when completing fails.\<close>

definition with_child ::
  "CleanupChildKind \<Rightarrow> (CleanupChildGuard \<Rightarrow> live_ctx \<Rightarrow> 'r \<times> live_ctx) \<Rightarrow> ('r \<Rightarrow> live_ctx \<Rightarrow> live_step) \<Rightarrow>
   live_ctx \<Rightarrow> live_step" where
  "with_child kind body k x =
     (case register_child_guard (lx_generation x) kind (lx_cleanup x) of
        (Inl _, c) \<Rightarrow> Stop (internal (x\<lparr>lx_cleanup := c\<rparr>))
      | (Inr gd, c) \<Rightarrow>
          (case body gd (x\<lparr>lx_cleanup := c\<rparr>) of (r, y) \<Rightarrow>
             (case child_guard_complete gd (lx_cleanup y) of
                (Inl _, gd', c') \<Rightarrow> Stop (internal (y\<lparr>lx_cleanup := child_guard_drop gd' c'\<rparr>))
              | (Inr _, gd', c') \<Rightarrow> k r (y\<lparr>lx_cleanup := c'\<rparr>))))"

definition make_request ::
  "ResolvedExecutionPolicy \<Rightarrow> RoutingRole \<Rightarrow> string \<Rightarrow> string \<Rightarrow> string option \<Rightarrow> SubagentToolPolicy \<Rightarrow>
   SubagentRequest" where
  "make_request rp role task_id instruction ctx tool_policy =
     (let p = resolved_policy rp in
      \<lparr>sr_task_id = task_id, sr_parent_id = None, sr_role = role, sr_instruction = instruction,
       sr_context = ctx, sr_timeout = ep_task_timeout p, sr_max_output_tokens = ep_output_budget_tokens p,
       sr_depth = 1,
       sr_tool_policy = with_execution_limits (ep_max_provider_invocations p) (ep_max_tool_calls p)
                          (ep_max_tool_output_bytes p) tool_policy\<rparr>)"

definition run_single ::
  "SubagentRuntime \<Rightarrow> session_env \<Rightarrow> bool \<times> bool \<Rightarrow> SubagentRequest \<Rightarrow> live_ctx \<Rightarrow>
   (SubagentError, SubagentOutcome) result \<times> live_ctx" where
  "run_single rt env cancelled r x =
     (case run_subagent env rt (fst cancelled) (snd cancelled) r (to_shared x) of (out, sh) \<Rightarrow> (out, set_shared sh x))"

subsection \<open>Planner\<close>

definition planner_stage :: "live_run_args \<Rightarrow> SubagentRuntime \<Rightarrow> live_ctx \<Rightarrow> live_step" where
  "planner_stage a rt x =
     (let rq = la_request a; rp = la_policy a; env = la_env a in
      case lor_planning rq of
        Planning_Required instruction \<Rightarrow>
          with_child Child_Planner
            (\<lambda>_ y. case run_single rt (le_planner env) (le_planner_cancelled env)
                      (make_request rp Planner ''planner'' instruction (lor_context rq) (lor_approved_tool_policy rq))
                      (push_event (Ev_RoleStarted Planner) y)
                    of (out, z) \<Rightarrow> (out, await_end env 0 z))
            (\<lambda>out y.
               let z = count_role (role_from_single Planner out) y in
               if map_sum id so_status out = Inr SS_Completed then Go z
               else let w = read_cancel env 2 z in
                 Stop (if lx_cancelled w then finish_outcome a LT_Cancelled (Some LE_Cancellation) w
                       else finish_outcome a LT_Failed (Some LE_ExecutorBatchFailure) w))
            x
      | Planning_NotRequested \<Rightarrow>
          Go (push_event (Ev_RoleSkipped Planner Skip_NotRequested) (push_role (skipped Planner Skip_NotRequested) x)))"

subsection \<open>Executor batch\<close>

text \<open>The sessions of the batch run interleaved on the ledger and the registry. Their operations are
  given as two sequences; what no session does (ending the run, admitting tasks, touching the stage's
  own guard, which is the first) is left out, and when the batch returns every future has ended, so what
  they still hold is dropped.\<close>

fun session_budget_op :: "budget_op \<Rightarrow> bool" where
  "session_budget_op Op_MarkTerminal = False"
| "session_budget_op (Op_Context _ _) = False"
| "session_budget_op (Op_ExecutorTasks _ _) = False"
| "session_budget_op (Op_RepairAttempt _) = False"
| "session_budget_op _ = True"

definition drop_ledger_holdings :: "budget_sys \<Rightarrow> budget_op list" where
  "drop_ledger_holdings s =
     replicate (length (sys_reservations s)) (Op_DropProvider 0)
     @ replicate (length (sys_guards s)) (Op_GuardDrop 0) @ replicate (sys_tools s) Op_DropTool"

definition batch_ledger :: "budget_op list \<Rightarrow> ExecutionBudgetLedger \<Rightarrow> ExecutionBudgetLedger" where
  "batch_ledger ops led =
     (let s = foldl budget_apply \<lparr>sys_ledger = led, sys_reservations = [], sys_guards = [], sys_tools = 0\<rparr>
                (filter session_budget_op ops)
      in sys_ledger (foldl budget_apply s (drop_ledger_holdings s)))"

fun session_guard_op :: "guard_op \<Rightarrow> bool" where
  "session_guard_op (G_RegisterChild _ _) = True"
| "session_guard_op (G_RegisterReservation _ _) = True"
| "session_guard_op (G_CompleteChild i) = (i \<noteq> 0)"
| "session_guard_op (G_DropChild i) = (i \<noteq> 0)"
| "session_guard_op (G_Resolve _) = True"
| "session_guard_op (G_DropReservation _) = True"
| "session_guard_op _ = False"

definition drop_session_guards :: "cleanup_sys \<Rightarrow> guard_op list" where
  "drop_session_guards s =
     map G_DropChild [1..<length (gs_children s)] @ map G_DropReservation [0..<length (gs_reservations s)]"

definition batch_registry ::
  "CleanupChildGuard \<Rightarrow> guard_op list \<Rightarrow> OrchestrationCleanup \<Rightarrow> OrchestrationCleanup" where
  "batch_registry gd ops c =
     (let s = foldl guard_apply \<lparr>gs_cleanup = c, gs_children = [Some gd], gs_reservations = []\<rparr>
                (filter session_guard_op ops)
      in gs_cleanup (foldl guard_apply s (drop_session_guards s)))"

definition executor_task ::
  "LiveOrchestrationRequest \<Rightarrow> ResolvedExecutionPolicy \<Rightarrow> bool \<Rightarrow> PlannerTaskSpecification \<Rightarrow> SubagentTask" where
  "executor_task rq rp cancelled task =
     (let task_count = max (length (lor_tasks rq)) 1; p = resolved_policy rp;
          provider_budget = max (ep_max_provider_invocations p div task_count) 1;
          tool_budget = max (ep_max_tool_calls p div task_count) 1;
          tool_output_budget = max (ep_max_tool_output_bytes p div task_count) 1 in
      \<lparr>stk_request = make_request rp Executor (pts_task_id task) (pts_instruction task) (pts_context task)
         (with_execution_limits provider_budget tool_budget tool_output_budget (pts_tool_policy task)),
       stk_timeout_override = pts_timeout task, stk_cancelled = cancelled\<rparr>)"

fun map_batch_error :: "SubagentBatchError \<Rightarrow> LiveOrchestrationError" where
  "map_batch_error SBE_TaskCountExceeded = LE_ExecutorTasksExceedPolicyCeiling"
| "map_batch_error SBE_DuplicateTaskId = LE_InvalidTaskIdentifiers"
| "map_batch_error (SBE_InvalidTask _) = LE_InvalidTaskIdentifiers"
| "map_batch_error _ = LE_ExecutorBatchFailure"

definition executor_request ::
  "LiveOrchestrationRequest \<Rightarrow> ResolvedExecutionPolicy \<Rightarrow> bool \<Rightarrow> SubagentBatchRequest" where
  "executor_request rq rp cancelled =
     \<lparr>sbr_tasks = map (executor_task rq rp cancelled) (lor_tasks rq),
      sbr_policy = to_batch_policy rp (lor_failure_policy rq)\<rparr>"

definition run_executor ::
  "live_run_args \<Rightarrow> SubagentRuntime \<Rightarrow> CleanupChildGuard \<Rightarrow> live_ctx \<Rightarrow>
   (LiveOrchestrationError, SubagentBatchOutcome) result \<times> live_ctx" where
  "run_executor a rt gd x =
     (let env = la_env a in
      case run_batch rt (le_batch env) (executor_request (la_request a) (la_policy a) (lx_cancelled x)) of
        Inl e \<Rightarrow> (Inl (map_batch_error e), x)
      | Inr batch \<Rightarrow>
          (Inr batch,
           await_end env 1 (x\<lparr>lx_ledger := batch_ledger (le_batch_ledger env) (lx_ledger x),
                              lx_cleanup := batch_registry gd (le_batch_registry env) (lx_cleanup x)\<rparr>)))"

datatype executor_result =
  Exec_Refused | Exec_Error LiveOrchestrationError | Exec_Batch SubagentBatchOutcome

definition executor_failed :: "SubagentBatchOutcome \<Rightarrow> bool" where
  "executor_failed batch \<longleftrightarrow> list_ex (\<lambda>t. sto_state t \<in> {TS_Failed, TS_BudgetExhausted}) (sbo_tasks batch)"

definition executor_body ::
  "live_run_args \<Rightarrow> SubagentRuntime \<Rightarrow> CleanupChildGuard \<Rightarrow> live_ctx \<Rightarrow> executor_result \<times> live_ctx" where
  "executor_body a rt gd x =
     (case admit_executor_tasks (le_clock (la_env a) 1) (max (length (lor_tasks (la_request a))) 1) (lx_ledger x) of
        (Inl _, led) \<Rightarrow> (Exec_Refused, x\<lparr>lx_ledger := led\<rparr>)
      | (Inr _, led) \<Rightarrow>
          (case run_executor a rt gd (x\<lparr>lx_ledger := led\<rparr>) of
             (Inl e, y) \<Rightarrow> (Exec_Error e, y)
           | (Inr batch, y) \<Rightarrow> (Exec_Batch batch, y)))"

definition count_batch :: "SubagentBatchOutcome \<Rightarrow> live_ctx \<Rightarrow> live_ctx" where
  "count_batch batch x = count_role (role_from_batch batch)
     (x\<lparr>lx_peak_concurrency := sbo_peak_observed_concurrency batch\<rparr>)"

definition executor_stage ::
  "live_run_args \<Rightarrow> SubagentRuntime \<Rightarrow> (SubagentBatchOutcome \<Rightarrow> live_ctx \<Rightarrow> live_step) \<Rightarrow> live_ctx \<Rightarrow> live_step" where
  "executor_stage a rt k x =
     with_child Child_ExecutorBatch (executor_body a rt)
       (\<lambda>r y.
          case r of
            Exec_Refused \<Rightarrow> Stop (finish_outcome a LT_BudgetExhausted (Some LE_BudgetExhaustion) y)
          | Exec_Error e \<Rightarrow> Stop (finish_outcome a LT_Failed (Some e) y)
          | Exec_Batch batch \<Rightarrow>
              let z = read_cancel (la_env a) 3 (count_batch batch y) in
              if lx_cancelled z then Stop (finish_outcome a LT_Cancelled (Some LE_Cancellation) z)
              else k batch z)
       (push_event (Ev_RoleStarted Executor) (push_event Ev_ExecutorBatchStarted x))"

subsection \<open>Verifier\<close>

datatype VerificationResult =
  VR_Skipped LiveRoleSkipReason | VR_Accepted LiveRoleOutcome
  | VR_Rejected LiveRoleOutcome VerificationDecision | VR_Failed LiveRoleOutcome

definition verifier_verdict ::
  "LiveOrchestrationRequest \<Rightarrow> (SubagentError, SubagentOutcome) result \<Rightarrow> VerificationResult" where
  "verifier_verdict rq res =
     (case res of
        Inl _ \<Rightarrow> VR_Failed (failed_role Verifier ''verifier'')
      | Inr out \<Rightarrow>
          if so_status out = SS_Completed \<and> map_option trim (so_output out) = Some ''ACCEPT''
          then VR_Accepted (role_from_single Verifier (Inr out))
          else if so_status out = SS_Completed
               \<and> (case so_output out of None \<Rightarrow> False
                    | Some txt \<Rightarrow> take (length (''REJECT'' @ newline)) txt = ''REJECT'' @ newline)
          then VR_Rejected (role_from_single Verifier (Inr out))
                 (Decision_Rejected RFC_VerifierRejected
                    (case so_output out of None \<Rightarrow> ''verifier rejected'' | Some txt \<Rightarrow> txt)
                    (lor_repair_instruction rq))
          else VR_Failed (role_from_single Verifier (Inr out)))"

definition verify :: "live_run_args \<Rightarrow> SubagentRuntime \<Rightarrow> live_ctx \<Rightarrow> VerificationResult \<times> live_ctx" where
  "verify a rt x =
     (let rq = la_request a; rp = la_policy a; env = la_env a in
      if activation rp Verifier = Role_Disabled then (VR_Skipped Skip_Disabled, x)
      else case lor_verification rq of
          Verification_NotRequested \<Rightarrow> (VR_Skipped Skip_NotRequested, x)
        | Verification_Decision Decision_Accepted \<Rightarrow> (VR_Accepted (skipped Verifier Skip_NotRequested), x)
        | Verification_Decision (Decision_Rejected category reason repair_instruction) \<Rightarrow>
            (VR_Rejected (skipped Verifier Skip_NotRequested) (Decision_Rejected category reason repair_instruction), x)
        | Verification_Provider instruction \<Rightarrow>
            (case run_single rt (le_verifier env) (le_verifier_cancelled env)
                    (make_request rp Verifier ''verifier'' instruction (lor_context rq) (lor_approved_tool_policy rq)) x
             of (res, y) \<Rightarrow> (verifier_verdict rq res, await_end env 2 y)))"

text \<open>The continuation takes the rejection, if there is one.\<close>

definition verifier_stage ::
  "live_run_args \<Rightarrow> SubagentRuntime \<Rightarrow> (VerificationDecision option \<Rightarrow> live_ctx \<Rightarrow> live_step) \<Rightarrow> live_ctx \<Rightarrow> live_step" where
  "verifier_stage a rt k x =
     with_child Child_Verifier (\<lambda>_. verify a rt)
       (\<lambda>r y.
          case r of
            VR_Skipped reason \<Rightarrow>
              k None (push_event (Ev_RoleSkipped Verifier reason) (push_role (skipped Verifier reason) y))
          | VR_Accepted role \<Rightarrow> k None (push_event Ev_VerifierDecision (count_role role y))
          | VR_Rejected role decision \<Rightarrow> k (Some decision) (push_event Ev_VerifierDecision (count_role role y))
          | VR_Failed role \<Rightarrow>
              let z = read_cancel (la_env a) 4 (push_role role y) in
              Stop (if lx_cancelled z then finish_outcome a LT_Cancelled (Some LE_Cancellation) z
                    else finish_outcome a LT_Failed (Some LE_VerifierRuntimeFailure) z))
       (if verification_provider (lor_verification (la_request a)) then push_event (Ev_RoleStarted Verifier) x else x)"

subsection \<open>Repair\<close>

definition live_repair_policy ::
  "ResolvedExecutionPolicy \<Rightarrow> RoutingProfileRegistry \<Rightarrow> (SubagentRepairError, SubagentRepairPolicy) result" where
  "live_repair_policy rp profiles =
     res_bind (map_err (\<lambda>_. SRE_RouteMismatch) (active profiles)) (\<lambda>profile.
     res_bind (ok_or (bt_get (rp_assignments profile) Repair) SRE_RouteMismatch) (\<lambda>a.
     res_bind (map_err (\<lambda>_. SRE_PolicyInvalid)
                 (repair_policy rp \<lparr>srr_profile_id = rp_id profile, srr_role = Repair,
                    srr_provider_id = ra_provider_id a, srr_connection_id = ra_connection_id a,
                    srr_model_id = ra_model_id a\<rparr>)) (\<lambda>decision.
       case decision of
         RepairDecision_Disabled \<Rightarrow> Inl SRE_PolicyInvalid
       | RepairDecision_Enabled policy \<Rightarrow> Inr policy)))"

definition live_run_repair ::
  "live_run_args \<Rightarrow> SubagentRuntime \<Rightarrow> SubagentRepairFailureCategory \<Rightarrow> string \<Rightarrow> string \<Rightarrow> live_ctx \<Rightarrow>
   (SubagentRepairError, SubagentRepairOutcome) result \<times> live_ctx" where
  "live_run_repair a rt category reason instruction x =
     (let rq = la_request a; rp = la_policy a in
      case res_bind (live_repair_policy rp (rt_profiles rt)) (\<lambda>policy.
             res_bind (map_err (\<lambda>_. SRE_BudgetExhausted)
                 (repair_budget_new (srp_max_provider_invocations policy) (srp_max_tool_calls policy)
                    (srp_max_context_bytes policy) (srp_max_output_tokens policy))) (\<lambda>budget.
               Inr (policy, budget))) of
        Inl e \<Rightarrow> (Inl e, x)
      | Inr (policy, budget) \<Rightarrow>
          (case run_repair rt (le_repair (la_env a))
                  (make_request rp Repair ''repair'' (lor_instruction rq) (lor_context rq) (lor_approved_tool_policy rq))
                  policy (Eligible category) reason instruction budget (to_shared x)
           of (out, _, sh) \<Rightarrow> (out, await_end (la_env a) 3 (set_shared sh x))))"

fun repair_failure_end :: "LiveRoleState \<Rightarrow> LiveOrchestrationTerminal \<times> LiveOrchestrationError" where
  "repair_failure_end LR_Cancelled = (LT_Cancelled, LE_Cancellation)"
| "repair_failure_end LR_TimedOut = (LT_TimedOut, LE_Timeout)"
| "repair_failure_end LR_BudgetExhausted = (LT_BudgetExhausted, LE_BudgetExhaustion)"
| "repair_failure_end _ = (LT_Failed, LE_RepairFailed)"

definition finish_with ::
  "live_run_args \<Rightarrow> LiveOrchestrationTerminal \<times> LiveOrchestrationError \<Rightarrow> live_ctx \<Rightarrow> live_result" where
  "finish_with a e x = finish_outcome a (fst e) (Some (snd e)) x"

definition repair_body ::
  "live_run_args \<Rightarrow> SubagentRuntime \<Rightarrow> SubagentRepairFailureCategory \<Rightarrow> string \<Rightarrow> string \<Rightarrow> live_ctx \<Rightarrow>
   (SubagentRepairError, SubagentRepairOutcome) result option \<times> live_ctx" where
  "repair_body a rt category reason instruction x =
     (case admit_repair_attempt (le_clock (la_env a) 2) (lx_ledger x) of
        (Inl _, led) \<Rightarrow> (None, x\<lparr>lx_ledger := led\<rparr>)
      | (Inr _, led) \<Rightarrow>
          (case live_run_repair a rt category reason instruction (x\<lparr>lx_ledger := led\<rparr>) of (r, y) \<Rightarrow> (Some r, y)))"

definition repair_stage ::
  "live_run_args \<Rightarrow> SubagentRuntime \<Rightarrow> VerificationDecision option \<Rightarrow> live_ctx \<Rightarrow> live_step" where
  "repair_stage a rt rejection x =
     (let rp = la_policy a in
      case rejection of
        Some (Decision_Rejected category reason instruction) \<Rightarrow>
          let y = push_event Ev_RepairEligibilityEvaluated x in
          if activation rp Repair = Role_Disabled
          then Stop (finish_outcome a LT_Failed (Some LE_VerifierRejected)
                 (push_event (Ev_RoleSkipped Repair Skip_Disabled) (push_role (skipped Repair Skip_Disabled) y)))
          else with_child Child_Repair (\<lambda>_. repair_body a rt category reason instruction)
            (\<lambda>r z.
               case r of
                 None \<Rightarrow> Stop (finish_outcome a LT_BudgetExhausted (Some LE_BudgetExhaustion) z)
               | Some (Inl e) \<Rightarrow> Stop (finish_with a (repair_error_terminal e) (push_role (role_from_repair_error e) z))
               | Some (Inr out) \<Rightarrow>
                   let role = role_from_repair out; w = count_role role z in
                   if lro_state role = LR_Succeeded then Go w
                   else Stop (finish_with a (repair_failure_end (lro_state role)) w))
            (push_event Ev_RepairStarted y)
      | _ \<Rightarrow>
          let reason = (if activation rp Repair = Role_Disabled then Skip_Disabled else Skip_NoEligibleRepair) in
          Go (push_event (Ev_RoleSkipped Repair reason) (push_role (skipped Repair reason) x)))"

subsection \<open>The whole run\<close>

definition final_stage :: "live_run_args \<Rightarrow> SubagentBatchOutcome \<Rightarrow> live_ctx \<Rightarrow> live_step" where
  "final_stage a batch x =
     (let y = read_cancel (la_env a) 5 x in
      Stop (if lx_cancelled y then finish_outcome a LT_Cancelled (Some LE_Cancellation) y
        else if executor_failed batch
        then finish_outcome a LT_Failed
               (Some (if list_ex (\<lambda>t. sto_error t = Some SE_JoinFailure) (sbo_tasks batch)
                      then LE_ExecutorJoinFailure else LE_ExecutorBatchFailure)) y
        else finish_outcome a LT_Completed None y))"

definition running_stages :: "live_run_args \<Rightarrow> SubagentRuntime \<Rightarrow> live_ctx \<Rightarrow> live_step" where
  "running_stages a rt x =
     and_then (planner_stage a rt x) (executor_stage a rt (\<lambda>batch.
       verifier_stage a rt (\<lambda>rejection y.
         and_then (repair_stage a rt rejection y) (final_stage a batch))))"

fun step_result :: "live_step \<Rightarrow> live_result" where
  "step_result (Stop r) = r"
| "step_result (Go x) = internal x"

definition stop_pre_execution :: "LiveOrchestrationError \<Rightarrow> live_ctx \<Rightarrow> live_result" where
  "stop_pre_execution e x = (case terminalize_pre_execution_failure e x of (e', y) \<Rightarrow> (Inl e', y))"

definition with_state ::
  "(SessionExecutionPolicyState \<Rightarrow> unit session_answer) \<Rightarrow> (live_ctx \<Rightarrow> live_result) \<Rightarrow> live_ctx \<Rightarrow> live_result" where
  "with_state f k x =
     (case f (lx_session x) of
        (Inl e, s) \<Rightarrow> (Inl (map_state_error e), x\<lparr>lx_session := s\<rparr>)
      | (Inr _, s) \<Rightarrow> k (x\<lparr>lx_session := s\<rparr>))"

definition run_inner :: "LiveOrchestrationCoordinator \<Rightarrow> live_run_args \<Rightarrow> live_ctx \<Rightarrow> live_result" where
  "run_inner co a = with_state (session_transition Sess_Validating) (\<lambda>x0.
     let x = read_cancel (la_env a) 0 x0; rq = la_request a in
     if lx_cancelled x then finish_outcome a LT_Cancelled (Some LE_Cancellation) x
     else case registry_get (loc_profiles co) (la_profile_id a) of
         None \<Rightarrow> stop_pre_execution LE_MissingRoutingProfile x
       | Some profile \<Rightarrow>
           (case validate_routing (la_policy a) profile (loc_connections co) (lor_verification rq) (lor_planning rq) of
              Inl e \<Rightarrow> stop_pre_execution e x
            | Inr _ \<Rightarrow>
                with_state mark_policy_valid (\<lambda>x1.
                  let y = read_cancel (la_env a) 1 (push_event Ev_PolicyValidated x1) in
                  if lx_cancelled y then finish_outcome a LT_Cancelled (Some LE_Cancellation) y
                  else with_state (session_transition Sess_Running) (\<lambda>z.
                    step_result (running_stages a
                      \<lparr>rt_profiles = selected_registry (loc_profiles co) profile, rt_directory = loc_connections co\<rparr> z)) y)
                x))"

definition request_context_bytes :: "LiveOrchestrationRequest \<Rightarrow> nat" where
  "request_context_bytes rq =
     (let opt = (\<lambda>c. case c of None \<Rightarrow> 0 | Some v \<Rightarrow> length v) in
      saturating_add (saturating_add (length (lor_instruction rq)) (opt (lor_context rq)))
        (usize_sum (map (\<lambda>t. saturating_add (length (pts_instruction t)) (opt (pts_context t))) (lor_tasks rq))))"

definition live_policy ::
  "LiveOrchestrationRequest \<Rightarrow> SessionExecutionPolicyState \<Rightarrow> (LiveOrchestrationError, ResolvedExecutionPolicy) result" where
  "live_policy rq s =
     (case lor_policy rq of
        Some p \<Rightarrow> Inr p
      | None \<Rightarrow> map_err (\<lambda>_. LE_UnresolvedExecutionPolicy) (session_resolved_policy s))"

definition live_profile_id ::
  "LiveOrchestrationCoordinator \<Rightarrow> LiveOrchestrationRequest \<Rightarrow> SessionExecutionPolicyState \<Rightarrow>
   (LiveOrchestrationError, string) result" where
  "live_profile_id co rq s =
     ok_or (case lor_routing_profile_id rq of
              Some p \<Rightarrow> Some p
            | None \<Rightarrow>
                (case session_routing_profile_id s of
                   Inr (Some p) \<Rightarrow> Some p
                 | _ \<Rightarrow> reg_active_profile_id (loc_profiles co)))
       LE_MissingRoutingProfile"

definition live_prepare ::
  "LiveOrchestrationCoordinator \<Rightarrow> LiveOrchestrationRequest \<Rightarrow> SessionExecutionPolicyState \<Rightarrow>
   (LiveOrchestrationError, ResolvedExecutionPolicy \<times> string) result" where
  "live_prepare co rq s =
     res_bind (live_policy rq s) (\<lambda>rp.
     res_bind (live_profile_id co rq s) (\<lambda>pid.
     res_bind (live_validate_request rq rp) (\<lambda>_.
     res_bind (ensure (request_context_bytes rq \<le> ep_context_budget_bytes (resolved_policy rp))
                 (LE_BudgetExhaustionCategory InputOrContextLimit)) (\<lambda>_.
       Inr (rp, pid)))))"

definition live_ctx_new ::
  "SessionExecutionPolicyState \<Rightarrow> nat \<Rightarrow> ExecutionBudgetLedger \<Rightarrow> live_ctx" where
  "live_ctx_new s g led =
     \<lparr>lx_session = s, lx_ledger = led, lx_cleanup = cleanup_new g, lx_cancelled = False,
      lx_events = [Ev_RunPrepared], lx_roles = [], lx_peak_concurrency = 0, lx_provider_invocations = 0,
      lx_tool_calls = 0\<rparr>"

text \<open>The run with the state it leaves: the session, and the ledger and the registry when it started.\<close>

definition live_run ::
  "LiveOrchestrationCoordinator \<Rightarrow> live_env \<Rightarrow> LiveOrchestrationRequest \<Rightarrow> SessionExecutionPolicyState \<Rightarrow>
   (LiveOrchestrationError, LiveOrchestrationOutcome) result \<times> SessionExecutionPolicyState \<times> live_ctx option" where
  "live_run co env rq s =
     (case live_prepare co rq s of
        Inl e \<Rightarrow> (Inl e, s, None)
      | Inr (rp, pid) \<Rightarrow>
          (case begin_run s of
             (Inl e, s1) \<Rightarrow> (Inl (map_state_error e), s1, None)
           | (Inr g, s1) \<Rightarrow>
               (case reserve_context (le_clock env 0) (request_context_bytes rq) (new_for_generation rp g) of
                  (Inl _, led) \<Rightarrow> (Inl LE_BudgetExhaustion, s1, Some (live_ctx_new s1 g led))
                | (Inr _, led) \<Rightarrow>
                    (case run_inner co \<lparr>la_request = rq, la_policy = rp, la_profile_id = pid, la_env = env\<rparr>
                            (live_ctx_new s1 g led)
                     of (r, x) \<Rightarrow> (r, lx_session x, Some x)))))"

end
