(* ===== verification/Live_Run.thy ===== *)
theory Live_Run
  imports Live_Coordinator
begin

text \<open>
  What a live run guarantees: it leaves the session ended and ready for the next run, it keeps the
  ledger within the policy, it leaves no child or reservation behind, and it reports completion only
  when every role did its part. The proofs follow the invariant of the run's state through the stages.
\<close>

section \<open>The invariant of a run\<close>

text \<open>Which handle the registry holds: that of the stage in progress, or none.\<close>

definition only_child :: "nat option \<Rightarrow> OrchestrationCleanup \<Rightarrow> bool" where
  "only_child H c \<longleftrightarrow>
     (\<forall>h. bt_has (active_children (oc_state c)) h \<longleftrightarrow> H = Some h)
     \<and> provider_reservations (oc_state c) = [] \<and> tool_reservations (oc_state c) = []"

lemma only_child_holdings: "holdings c' = holdings c \<Longrightarrow> only_child H c' \<longleftrightarrow> only_child H c"
  by (simp add: only_child_def holdings_def)

lemma only_child_None: "only_child None c \<longleftrightarrow> nothing_held (oc_state c)"
  by (simp add: only_child_def nothing_held_def bt_empty_iff)

text \<open>The arbiter of a run that goes on: open, and holding at most the overall timeout.\<close>

definition arbiter_ok :: "nat \<Rightarrow> TerminalCauseArbiter \<Rightarrow> bool" where
  "arbiter_ok g a \<longleftrightarrow> tca_generation a = g \<and> \<not> tca_poisoned a \<and> \<not> tca_frozen a
     \<and> tca_accepted a \<in> {None, Some timeout_failure}"

definition registry_ok ::
  "nat option \<Rightarrow> nat \<Rightarrow> bool \<Rightarrow> OrchestrationCleanup \<Rightarrow> bool" where
  "registry_ok H g cancelled c \<longleftrightarrow>
     cleanup_inv c \<and> only_child H c \<and> oc_generation c = g \<and> \<not> oc_poisoned c
     \<and> \<not> cleanup_requested (oc_state c) \<and> \<not> cleanup_complete (oc_state c)
     \<and> arbiter_ok g (oc_cause_arbiter c) \<and> (tca_accepted (oc_cause_arbiter c) \<noteq> None \<longrightarrow> cancelled)"

definition ctx_ok ::
  "nat option \<Rightarrow> ExecutionBudgetLimits \<times> nat \<Rightarrow> live_ctx \<Rightarrow> bool" where
  "ctx_ok H L x \<longleftrightarrow> ledger_ok L [] 0 (lx_ledger x) \<and> registry_ok H (snd L) (lx_cancelled x) (lx_cleanup x)"

lemma lx_generation_ok: "ctx_ok H L x \<Longrightarrow> lx_generation x = snd L"
  by (auto simp: ctx_ok_def ledger_ok_def ledger_frame_def lx_generation_def)

lemma registry_ok_frame:
  assumes "registry_ok H g b c" "cleanup_frame c' = cleanup_frame c" "cleanup_inv c'" "only_child H' c'"
  shows "registry_ok H' g b c'"
  using assms by (auto simp: registry_ok_def cleanup_frame_def)

lemma ledger_ok_reserved:
  "ledger_ok L [] 0 b \<Longrightarrow> provider_reserved (led_state b) = 0 \<and> tool_reserved (led_state b) = 0 \<and> \<not> led_poisoned b"
  by (simp add: ledger_ok_def budget_inv_def provider_inv_def tool_inv_def Let_def)

lemma shared_settled:
  assumes "ctx_ok H L x"
  shows "settled (to_shared x) (to_shared x)"
proof -
  have "cleanup_inv (lx_cleanup x)" "provider_reserved (led_state (lx_ledger x)) = 0" "tool_reserved (led_state (lx_ledger x)) = 0"
    using assms ledger_ok_reserved [of L "lx_ledger x"] by (simp_all add: ctx_ok_def registry_ok_def)
  moreover have "0 < u64_max" by (simp add: u64_max_def)
  ultimately show ?thesis
    using owes_refl [of "to_shared x"] by (simp add: settled_def ledger_owes_def reserved_def to_shared_def)
qed

text \<open>A client that settles and keeps the ledger keeps the run's invariant.\<close>

lemma ctx_ok_client:
  assumes "ctx_ok H L x" "settled (to_shared x) sh"
    and "run_held L (Some (cleanup_frame (lx_cleanup x))) [] 0 sh"
  shows "ctx_ok H L (set_shared sh x)"
proof -
  obtain b' c' where sh: "sh_budget sh = Some b'" "sh_cleanup sh = Some c'" "holdings c' = holdings (lx_cleanup x)"
    using settled_holdings [OF assms(2), of "lx_ledger x" "lx_cleanup x"] by (auto simp: to_shared_def)
  have inv: "cleanup_inv c'" using assms(2) sh(2) by (simp add: settled_def owes_def to_shared_def)
  have held: "ledger_ok L [] 0 b'" "cleanup_frame c' = cleanup_frame (lx_cleanup x)"
    using assms(3) sh(1,2) by (simp_all add: run_held_def)
  have old: "registry_ok H (snd L) (lx_cancelled x) (lx_cleanup x)" using assms(1) by (simp add: ctx_ok_def)
  then have "only_child H c'" using only_child_holdings [OF sh(3)] by (simp add: registry_ok_def)
  then have "registry_ok H (snd L) (lx_cancelled x) c'" by (rule registry_ok_frame [OF old held(2) inv])
  then show ?thesis using held(1) sh(1,2) by (simp add: ctx_ok_def set_shared_def)
qed

lemma run_held_start: "ctx_ok H L x \<Longrightarrow> run_held L (Some (cleanup_frame (lx_cleanup x))) [] 0 (to_shared x)"
  by (simp add: ctx_ok_def run_held_def to_shared_def)

lemma run_single_ok:
  assumes "ctx_ok H L x" "run_single rt env cancelled r x = (out, y)"
  shows "ctx_ok H L y"
proof -
  obtain sh where sh: "run_subagent env rt (fst cancelled) (snd cancelled) r (to_shared x) = (out, sh)" "y = set_shared sh x"
    using assms(2) by (auto simp: run_single_def split: prod.splits)
  show ?thesis unfolding sh(2)
    by (rule ctx_ok_client [OF assms(1) run_subagent_settled [OF shared_settled [OF assms(1)] sh(1)]
          run_subagent_held [OF run_held_start [OF assms(1)] sh(1)]])
qed

text \<open>What a stage leaves alone besides.\<close>

definition same_run_state :: "live_ctx \<Rightarrow> live_ctx \<Rightarrow> bool" where
  "same_run_state x y \<longleftrightarrow> lx_session y = lx_session x \<and> lx_roles y = lx_roles x"

lemma set_shared_same [simp]: "same_run_state x (set_shared sh x)"
  by (simp add: same_run_state_def set_shared_def)

lemma same_run_state_trans: "same_run_state x y \<Longrightarrow> same_run_state y z \<Longrightarrow> same_run_state x z"
  by (simp add: same_run_state_def)

lemma run_single_same: "run_single rt env cancelled r x = (out, y) \<Longrightarrow> same_run_state x y"
  by (auto simp: run_single_def split: prod.splits)

lemma timeout_failure_fields [simp]:
  "of_kind timeout_failure = FK_TotalTimedOut" "of_terminal timeout_failure = LT_TimedOut"
  by (simp_all add: timeout_failure_def failure_of_kind_def)

lemma arbiter_submit_timeout:
  "arbiter_ok g a \<Longrightarrow> arbiter_ok g (snd (arbiter_submit g timeout_failure a))"
  by (auto simp: arbiter_ok_def arbiter_submit_def split: option.split)

lemma await_end_ok: "ctx_ok H L x \<Longrightarrow> ctx_ok H L (await_end env n x)"
  using arbiter_submit_timeout [of "snd L" "oc_cause_arbiter (lx_cleanup x)"] lx_generation_ok [of H L x]
  by (auto simp: await_end_def ctx_ok_def registry_ok_def submit_failure_def only_child_def cleanup_inv_def split: prod.split)

lemma await_end_same [simp]: "same_run_state x (await_end env n x)"
  by (simp add: same_run_state_def await_end_def)

lemma ctx_ok_frame [simp]:
  "ctx_ok H L (push_event e x) \<longleftrightarrow> ctx_ok H L x" "ctx_ok H L (push_role r x) \<longleftrightarrow> ctx_ok H L x"
  "ctx_ok H L (count_role r x) \<longleftrightarrow> ctx_ok H L x" "ctx_ok H L (count_batch batch x) \<longleftrightarrow> ctx_ok H L x"
  "ctx_ok H L (x\<lparr>lx_session := s\<rparr>) \<longleftrightarrow> ctx_ok H L x"
  by (simp_all add: ctx_ok_def push_event_def push_role_def count_role_def count_batch_def)

lemma read_cancel_ok: "ctx_ok H L x \<Longrightarrow> ctx_ok H L (read_cancel env n x)"
  by (auto simp: ctx_ok_def registry_ok_def read_cancel_def)

section \<open>A stage as a child\<close>

abbreviation handles_exhausted :: "live_ctx \<Rightarrow> bool" where
  "handles_exhausted x \<equiv> next_handle_value (oc_state (lx_cleanup x)) = u64_max"

lemma register_stage:
  assumes "registry_ok None g b c"
  obtains (exhausted) "register_child_guard g k c = (Inl (), c)" "next_handle_value (oc_state c) = u64_max"
  | (registered) h c' where "register_child_guard g k c = (Inr \<lparr>cg_generation = g, cg_handle = Some h\<rparr>, c')"
      "registry_ok (Some h) g b c'" "next_handle_value (oc_state c') = Suc (next_handle_value (oc_state c))"
proof -
  have ok: "\<not> oc_poisoned c" "g = oc_generation c" "\<not> cleanup_requested (oc_state c)" "\<not> cleanup_complete (oc_state c)"
    "cleanup_inv c" "only_child None c"
    using assms by (auto simp: registry_ok_def)
  show thesis
  proof (cases "next_handle_value (oc_state c) = u64_max")
    case True
    then show ?thesis
      using ok by (intro exhausted) (simp_all add: register_child_guard_def register_child_def with_cleanup_def next_handle_def)
  next
    case False
    then have "register_child_guard g k c \<noteq> (Inl (), c)"
      using ok by (auto simp: register_child_guard_def register_child_def with_cleanup_def next_handle_def cleanup_inv_def)
    then obtain h where h: "register_child g k c = (Inr h, c\<lparr>oc_state := (oc_state c)\<lparr>next_handle_value := h,
         active_children := bt_insert h k (active_children (oc_state c))\<rparr>\<rparr>)"
        "register_child_guard g k c = (Inr \<lparr>cg_generation = g, cg_handle = Some h\<rparr>, snd (register_child g k c))"
      using register_child_guard_cases [OF ok(1), of g k] by blast
    have "only_child (Some h) (snd (register_child g k c))"
      using ok(6) unfolding h(1) only_child_None by (auto simp: only_child_def nothing_held_def bt_has_def)
    then have "registry_ok (Some h) g b (snd (register_child g k c))"
      using registry_ok_frame [OF assms, where c' = "snd (register_child g k c)" and H' = "Some h"]
        register_child_inv [OF ok(5), of g k] by simp
    moreover have "next_handle_value (oc_state (snd (register_child g k c))) = Suc (next_handle_value (oc_state c))"
      using h(1) False ok by (auto simp: register_child_def with_cleanup_def next_handle_def Let_def split: if_splits)
    ultimately show ?thesis using h(2) registered by blast
  qed
qed

lemma complete_stage_child:
  assumes "registry_ok (Some h) g b c"
  obtains c' where "child_guard_complete \<lparr>cg_generation = g, cg_handle = Some h\<rparr> c =
      (Inr (), \<lparr>cg_generation = g, cg_handle = None\<rparr>, c')" "registry_ok None g b c'"
    "next_handle_value (oc_state c') = next_handle_value (oc_state c)"
proof -
  have ok: "\<not> oc_poisoned c" "g = oc_generation c" "cleanup_inv c" "only_child (Some h) c" "bt_wf (active_children (oc_state c))"
    using assms wf_registries(1) by (auto simp: registry_ok_def)
  then have has: "bt_has (active_children (oc_state c)) h" by (simp add: only_child_def)
  note fin = complete_child_owned [OF ok(3,1) has, folded ok(2)]
  have "only_child None (snd (complete_child g h c))"
    using ok(4,5) unfolding fin by (auto simp: only_child_def)
  then have "registry_ok None g b (snd (complete_child g h c))"
    using registry_ok_frame [OF assms, where c' = "snd (complete_child g h c)" and H' = None]
      complete_child_inv [OF ok(3), of g h] by simp
  then show thesis
    using fin by (intro that [of "snd (complete_child g h c)"]) (simp_all add: child_guard_complete_def)
qed

text \<open>A stage whose body keeps the invariant either runs into its continuation with the invariant
  restored, or could not be registered because all handles were used.\<close>

lemma with_child_rule:
  assumes ok: "ctx_ok None L x"
    and body: "\<And>h c r z. ctx_ok (Some h) L (x\<lparr>lx_cleanup := c\<rparr>) \<Longrightarrow> next_handle_value (oc_state c) = Suc (next_handle_value (oc_state (lx_cleanup x))) \<Longrightarrow>
      body \<lparr>cg_generation = snd L, cg_handle = Some h\<rparr> (x\<lparr>lx_cleanup := c\<rparr>) = (r, z) \<Longrightarrow>
      ctx_ok (Some h) L z \<and> same_run_state x z \<and> Q r z"
    and Q: "\<And>r z c. Q r z \<Longrightarrow> next_handle_value (oc_state c) = next_handle_value (oc_state (lx_cleanup z)) \<Longrightarrow> Q r (z\<lparr>lx_cleanup := c\<rparr>)"
  shows "(handles_exhausted x \<and> with_child kind body k x = Stop (internal x))
    \<or> (\<exists>r y. ctx_ok None L y \<and> same_run_state x y \<and> Q r y \<and> with_child kind body k x = k r y)"
proof -
  have reg: "registry_ok None (snd L) (lx_cancelled x) (lx_cleanup x)" "lx_generation x = snd L"
    using ok lx_generation_ok by (auto simp: ctx_ok_def)
  show ?thesis
  proof (cases rule: register_stage [OF reg(1), of kind])
    case 1
    then show ?thesis using reg(2) by (simp add: with_child_def)
  next
    case (2 h c')
    let ?gd = "\<lparr>cg_generation = snd L, cg_handle = Some h\<rparr>"
    obtain r z where z: "body ?gd (x\<lparr>lx_cleanup := c'\<rparr>) = (r, z)" by (cases "body ?gd (x\<lparr>lx_cleanup := c'\<rparr>)")
    have "ctx_ok (Some h) L (x\<lparr>lx_cleanup := c'\<rparr>)" using ok 2(2) by (simp add: ctx_ok_def)
    note bz = body [OF this 2(3) z]
    then have "registry_ok (Some h) (snd L) (lx_cancelled z) (lx_cleanup z)" by (simp add: ctx_ok_def)
    then obtain c'' where c: "child_guard_complete ?gd (lx_cleanup z) = (Inr (), \<lparr>cg_generation = snd L, cg_handle = None\<rparr>, c'')"
        "registry_ok None (snd L) (lx_cancelled z) c''" "next_handle_value (oc_state c'') = next_handle_value (oc_state (lx_cleanup z))"
      by (rule complete_stage_child)
    have "with_child kind body k x = k r (z\<lparr>lx_cleanup := c''\<rparr>)"
      using 2(1) reg(2) z c(1) by (simp add: with_child_def)
    moreover have "ctx_ok None L (z\<lparr>lx_cleanup := c''\<rparr>)" using bz c(2) by (simp add: ctx_ok_def)
    moreover have "same_run_state x (z\<lparr>lx_cleanup := c''\<rparr>)" using bz by (simp add: same_run_state_def)
    ultimately show ?thesis using Q [OF _ c(3)] bz by blast
  qed
qed

section \<open>The executor batch\<close>

lemma cleanup_frame_dest:
  "register_child_guard g k c = (r1, c') \<Longrightarrow> cleanup_frame c' = cleanup_frame c"
  "register_reservation_guard g k' c = (r2, c') \<Longrightarrow> cleanup_frame c' = cleanup_frame c"
  "child_guard_complete cg c = (r3, cg', c') \<Longrightarrow> cleanup_frame c' = cleanup_frame c"
  "reservation_guard_resolve rg c = (r4, rg', c') \<Longrightarrow> cleanup_frame c' = cleanup_frame c"
  by (metis cleanup_frame_guards snd_conv)+

lemma session_guard_op_keeps:
  assumes "session_guard_op op" "gs_children s = Some gd # cs"
  shows "(\<exists>cs'. gs_children (guard_apply s op) = Some gd # cs')
    \<and> cleanup_frame (gs_cleanup (guard_apply s op)) = cleanup_frame (gs_cleanup s)"
proof (cases op)
  case (G_CompleteChild i)
  then obtain j where "i = Suc j" using assms(1) by (cases i) auto
  then show ?thesis using G_CompleteChild assms(2)
    by (auto dest: cleanup_frame_dest split: option.split prod.split)
next
  case (G_DropChild i)
  then obtain j where "i = Suc j" using assms(1) by (cases i) auto
  then show ?thesis using G_DropChild assms(2) by (auto split: option.split)
qed (use assms in \<open>auto dest: cleanup_frame_dest split: option.split prod.split sum.split\<close>)

lemma session_guard_ops_keep:
  assumes "list_all session_guard_op ops" "gs_children s = Some gd # cs"
  shows "(\<exists>cs'. gs_children (foldl guard_apply s ops) = Some gd # cs')
    \<and> cleanup_frame (gs_cleanup (foldl guard_apply s ops)) = cleanup_frame (gs_cleanup s)"
  using assms
proof (induction ops arbitrary: s cs)
  case (Cons op ops)
  then obtain cs' where "gs_children (guard_apply s op) = Some gd # cs'"
      "cleanup_frame (gs_cleanup (guard_apply s op)) = cleanup_frame (gs_cleanup s)"
    using session_guard_op_keeps [of op s gd cs] by auto
  then show ?case using Cons.IH [of "guard_apply s op" cs'] Cons.prems(1) by simp
qed simp

lemma drop_child_slot:
  "gs_children (guard_apply s (G_DropChild i)) = (if i < length (gs_children s) then (gs_children s)[i := None] else gs_children s)"
  "gs_reservations (guard_apply s (G_DropChild i)) = gs_reservations s"
  by (auto simp: slot_def list_update_same_conv split: option.split) (metis list_update_id)+

lemma drop_reservation_slot:
  "gs_reservations (guard_apply s (G_DropReservation i))
     = (if i < length (gs_reservations s) then (gs_reservations s)[i := None] else gs_reservations s)"
  "gs_children (guard_apply s (G_DropReservation i)) = gs_children s"
  by (auto simp: slot_def split: option.split) (metis list_update_id)+

lemma drop_slots:
  "\<forall>i < length xs. (i \<in> set is \<longrightarrow> foldl (\<lambda>ys i. if i < length ys then ys[i := None] else ys) xs is ! i = None)
     \<and> (i \<notin> set is \<longrightarrow> foldl (\<lambda>ys i. if i < length ys then ys[i := None] else ys) xs is ! i = xs ! i)"
  "length (foldl (\<lambda>ys i. if i < length ys then ys[i := None] else ys) xs is) = length xs"
  by (induction "is" rule: rev_induct) (auto simp: nth_list_update)

abbreviation clear_slots :: "'a option list \<Rightarrow> nat list \<Rightarrow> 'a option list" where
  "clear_slots \<equiv> foldl (\<lambda>ys i. if i < length ys then ys[i := None] else ys)"

lemma drop_children_run:
  "gs_children (foldl guard_apply s (map G_DropChild js)) = clear_slots (gs_children s) js"
  "gs_reservations (foldl guard_apply s (map G_DropChild js)) = gs_reservations s"
  by (induction js rule: rev_induct) (simp_all add: drop_child_slot del: guard_apply.simps)

lemma drop_reservations_run:
  "gs_reservations (foldl guard_apply s (map G_DropReservation js)) = clear_slots (gs_reservations s) js"
  "gs_children (foldl guard_apply s (map G_DropReservation js)) = gs_children s"
  by (induction js rule: rev_induct) (simp_all add: drop_reservation_slot del: guard_apply.simps)

lemma drop_session_guards_slots:
  assumes "gs_children s = Some gd # cs"
  shows "\<exists>n m. gs_children (foldl guard_apply s (drop_session_guards s)) = Some gd # replicate n None
    \<and> gs_reservations (foldl guard_apply s (drop_session_guards s)) = replicate m None"
proof -
  let ?t = "foldl guard_apply s (drop_session_guards s)"
  have "gs_children ?t = clear_slots (gs_children s) [1..<length (gs_children s)]"
    "gs_reservations ?t = clear_slots (gs_reservations s) [0..<length (gs_reservations s)]"
    by (simp_all add: drop_session_guards_def drop_children_run drop_reservations_run)
  moreover have "clear_slots (Some gd # cs) [1..<length (Some gd # cs)] = Some gd # replicate (length cs) None"
    using drop_slots [of "Some gd # cs" "[1..<length (Some gd # cs)]"]
    by (intro nth_equalityI) (auto simp: nth_Cons' simp del: upt_Suc)
  moreover have "clear_slots (gs_reservations s) [0..<length (gs_reservations s)] = replicate (length (gs_reservations s)) None"
    using drop_slots [of "gs_reservations s" "[0..<length (gs_reservations s)]"] by (intro nth_equalityI) auto
  ultimately show ?thesis using assms by auto
qed

lemma drop_session_guards_ops: "list_all session_guard_op (drop_session_guards s)"
  by (auto simp: drop_session_guards_def list_all_iff)

lemma batch_registry_ok:
  assumes "registry_ok (Some h) g b c"
  shows "registry_ok (Some h) g b (batch_registry \<lparr>cg_generation = g, cg_handle = Some h\<rparr> ops c)"
proof -
  let ?gd = "\<lparr>cg_generation = g, cg_handle = Some h\<rparr>"
  define s0 where "s0 = \<lparr>gs_cleanup = c, gs_children = [Some ?gd], gs_reservations = []\<rparr>"
  define s where "s = foldl guard_apply s0 (filter session_guard_op ops)"
  define t where "t = foldl guard_apply s (drop_session_guards s)"
  have "guards_inv s0"
    using assms by (auto simp: s0_def guards_inv_def guards_current_def registry_ok_def only_child_def child_handles_def
        reservation_handles_def owns_def all_reservations bt_has_def)
  then have inv: "guards_inv t"
    using guards.inv_reaches [OF reaches_foldl] unfolding t_def s_def by blast
  have "gs_children s0 = [Some ?gd]" by (simp add: s0_def)
  then obtain cs where cs: "gs_children s = Some ?gd # cs" "cleanup_frame (gs_cleanup s) = cleanup_frame c"
    using session_guard_ops_keep [of "filter session_guard_op ops" s0 ?gd "[]"] by (auto simp: s_def s0_def list_all_iff)
  obtain n m where slots: "gs_children t = Some ?gd # replicate n None" "gs_reservations t = replicate m None"
    using drop_session_guards_slots [OF cs(1)] unfolding t_def by blast
  have frame: "cleanup_frame (gs_cleanup t) = cleanup_frame c"
    using session_guard_ops_keep [OF drop_session_guards_ops cs(1)] cs(2) by (simp add: t_def)
  have "only_child (Some h) (gs_cleanup t)"
    using inv slots
    by (auto simp: guards_inv_def owns_def only_child_def child_handles_def reservation_handles_def all_reservations bt_empty_iff
        split: if_splits)
  then have "registry_ok (Some h) g b (gs_cleanup t)"
    using registry_ok_frame [OF assms frame] inv by (simp add: guards_inv_def)
  then show ?thesis by (simp add: batch_registry_def t_def s_def s0_def Let_def)
qed

lemma drop_reservations_ledger:
  "length (sys_reservations s) = n \<Longrightarrow>
   (let t = foldl budget_apply s (replicate n (Op_DropProvider 0)) in
    sys_reservations t = [] \<and> sys_guards t = sys_guards s \<and> sys_tools t = sys_tools s)"
  by (induction n arbitrary: s) (simp_all add: Let_def remove_nth_def)

lemma drop_guards_ledger:
  "length (sys_guards s) = n \<Longrightarrow>
   (let t = foldl budget_apply s (replicate n (Op_GuardDrop 0)) in
    sys_reservations t = sys_reservations s \<and> sys_tools t = sys_tools s)"
  by (induction n arbitrary: s) (simp_all add: Let_def remove_nth_def)

lemma drop_tools_ledger:
  "sys_tools s = n \<Longrightarrow>
   (let t = foldl budget_apply s (replicate n Op_DropTool) in
    sys_reservations t = sys_reservations s \<and> sys_tools t = 0)"
  by (induction n arbitrary: s) (simp_all add: Let_def)

lemma drop_ledger_holdings_empty:
  "sys_reservations (foldl budget_apply s (drop_ledger_holdings s)) = []
   \<and> sys_tools (foldl budget_apply s (drop_ledger_holdings s)) = 0"
proof -
  let ?a = "foldl budget_apply s (replicate (length (sys_reservations s)) (Op_DropProvider 0))"
  let ?b = "foldl budget_apply ?a (replicate (length (sys_guards s)) (Op_GuardDrop 0))"
  let ?c = "foldl budget_apply ?b (replicate (sys_tools s) Op_DropTool)"
  have a: "sys_reservations ?a = []" "sys_guards ?a = sys_guards s" "sys_tools ?a = sys_tools s"
    using drop_reservations_ledger [OF refl, of s] by (simp_all add: Let_def)
  then have b: "sys_reservations ?b = []" "sys_tools ?b = sys_tools s"
    using drop_guards_ledger [of ?a "length (sys_guards s)"] by (simp_all add: Let_def)
  then have "sys_reservations ?c = []" "sys_tools ?c = 0"
    using drop_tools_ledger [of ?b "sys_tools s"] by (simp_all add: Let_def)
  then show ?thesis by (simp add: drop_ledger_holdings_def)
qed

lemma budget_run_frame: "ledger_frame (sys_ledger (foldl budget_apply s ops)) = ledger_frame (sys_ledger s)"
  by (induction ops rule: rev_induct) (simp_all add: budget_apply_frame)

lemma batch_ledger_ok: "ledger_ok L [] 0 led \<Longrightarrow> ledger_ok L [] 0 (batch_ledger ops led)"
proof -
  assume ok: "ledger_ok L [] 0 led"
  define s0 where "s0 = \<lparr>sys_ledger = led, sys_reservations = [], sys_guards = [], sys_tools = 0\<rparr>"
  define s where "s = foldl budget_apply s0 (filter session_budget_op ops)"
  define t where "t = foldl budget_apply s (drop_ledger_holdings s)"
  have "budget_inv s0" using ok by (simp add: ledger_ok_def s0_def)
  then have "budget_inv t" unfolding t_def s_def using budget.inv_reaches [OF reaches_foldl] by blast
  moreover have "t = \<lparr>sys_ledger = sys_ledger t, sys_reservations = [], sys_guards = sys_guards t, sys_tools = 0\<rparr>"
    using drop_ledger_holdings_empty [of s] by (cases t) (simp add: t_def)
  ultimately have "budget_inv \<lparr>sys_ledger = sys_ledger t, sys_reservations = [], sys_guards = [], sys_tools = 0\<rparr>"
    using budget_inv_guards [of "sys_ledger t" "[]" "sys_guards t" 0] by metis
  moreover have "ledger_frame (sys_ledger t) = L"
    using ok by (simp add: t_def s_def s0_def budget_run_frame ledger_ok_def)
  ultimately show ?thesis
    by (simp add: ledger_ok_def batch_ledger_def t_def s_def s0_def Let_def)
qed

lemma run_executor_ok:
  assumes "ctx_ok (Some h) L x" "run_executor a rt \<lparr>cg_generation = snd L, cg_handle = Some h\<rparr> x = (r, y)"
  shows "ctx_ok (Some h) L y \<and> same_run_state x y"
proof -
  let ?x = "x\<lparr>lx_ledger := batch_ledger (le_batch_ledger (la_env a)) (lx_ledger x),
      lx_cleanup := batch_registry \<lparr>cg_generation = snd L, cg_handle = Some h\<rparr> (le_batch_registry (la_env a)) (lx_cleanup x)\<rparr>"
  have "ctx_ok (Some h) L ?x" using assms(1) batch_ledger_ok batch_registry_ok by (simp add: ctx_ok_def)
  then have "ctx_ok (Some h) L (await_end (la_env a) 1 ?x)" by (rule await_end_ok)
  moreover have "same_run_state x (await_end (la_env a) 1 ?x)" by (simp add: same_run_state_def await_end_def)
  ultimately show ?thesis
    using assms by (auto simp: run_executor_def Let_def same_run_state_def split: sum.splits)
qed

lemma admit_tasks_ok: "ctx_ok H L x \<Longrightarrow> admit_executor_tasks t n (lx_ledger x) = (r, led) \<Longrightarrow> ctx_ok H L (x\<lparr>lx_ledger := led\<rparr>)"
  using metering_keeps(3) [of L "[]" 0 "lx_ledger x" t n] by (simp add: ctx_ok_def)

lemma admit_repair_ok: "ctx_ok H L x \<Longrightarrow> admit_repair_attempt t (lx_ledger x) = (r, led) \<Longrightarrow> ctx_ok H L (x\<lparr>lx_ledger := led\<rparr>)"
  using metering_keeps(4) [of L "[]" 0 "lx_ledger x" t] by (simp add: ctx_ok_def)

lemma executor_body_ok:
  assumes "ctx_ok (Some h) L x" "executor_body a rt \<lparr>cg_generation = snd L, cg_handle = Some h\<rparr> x = (r, y)"
  shows "ctx_ok (Some h) L y \<and> same_run_state x y"
proof -
  obtain u led where u: "admit_executor_tasks (le_clock (la_env a) 1) (max (length (lor_tasks (la_request a))) 1) (lx_ledger x) = (u, led)"
    by fastforce
  note ok = admit_tasks_ok [OF assms(1) u]
  obtain v z where v: "run_executor a rt \<lparr>cg_generation = snd L, cg_handle = Some h\<rparr> (x\<lparr>lx_ledger := led\<rparr>) = (v, z)"
    by fastforce
  have "ctx_ok (Some h) L z \<and> same_run_state x z"
    using run_executor_ok [OF ok v] by (simp add: same_run_state_def)
  then show ?thesis
    using assms(2) u v ok by (auto simp: executor_body_def same_run_state_def split: sum.splits)
qed

section \<open>Sessions of the other stages\<close>

lemma single_await_ok:
  assumes "ctx_ok H L x" "run_single rt env c q x = (out, z)"
  shows "ctx_ok H L (await_end e n z) \<and> same_run_state x (await_end e n z)"
  using await_end_ok [OF run_single_ok [OF assms]] same_run_state_trans [OF run_single_same [OF assms(2)] await_end_same] by blast

lemma verify_ok:
  assumes "ctx_ok H L x" "verify a rt x = (r, y)"
  shows "ctx_ok H L y \<and> same_run_state x y"
proof -
  have "same_run_state x x" by (simp add: same_run_state_def)
  then show ?thesis
    using assms single_await_ok [OF assms(1)]
    by (auto simp: verify_def Let_def split: if_splits VerificationContract.splits VerificationDecision.splits prod.splits dest!: single_await_ok [OF assms(1)])
qed

lemma planner_body_ok:
  assumes "ctx_ok H L x"
    and "(case run_single rt env c q (push_event e x) of (out, z) \<Rightarrow> (out, await_end env' n z)) = (r, y)"
  shows "ctx_ok H L y \<and> same_run_state x y"
proof -
  obtain z where z: "run_single rt env c q (push_event e x) = (r, z)" "y = await_end env' n z"
    using assms(2) by (auto split: prod.splits)
  have "ctx_ok H L (push_event e x)" using assms(1) by simp
  moreover have "same_run_state x (push_event e x)" by (simp add: same_run_state_def push_event_def)
  ultimately show ?thesis
    using single_await_ok [OF _ z(1), of H L env' n] same_run_state_trans unfolding z(2) by blast
qed

text \<open>What every session keeps, a repair run keeps, as it touches the shared state in no other way.\<close>

lemma repair_phase_preserves:
  assumes "\<And>env c1 c2 r x s s'. P s \<Longrightarrow> run_subagent env rt c1 c2 r s = (x, s') \<Longrightarrow> P s'"
    and "P sh" "repair_phase rt w initial policy reason ri first b sh = (out, b', sh')"
  shows "P sh'"
  using assms(2,3)
  by (auto simp: repair_phase_def repair_attempt_def Let_def split: sum.splits if_splits option.splits prod.splits intro: assms(1))

lemma run_repair_preserves:
  assumes step: "\<And>env c1 c2 r x s s'. P s \<Longrightarrow> run_subagent env rt c1 c2 r s = (x, s') \<Longrightarrow> P s'"
    and "P sh" "run_repair rt w initial policy el reason ri b sh = (out, b', sh')"
  shows "P sh'"
proof -
  obtain r sh1 where r: "run_subagent (rw_initial w) rt (fst (rw_initial_cancelled w)) (snd (rw_initial_cancelled w)) initial sh = (r, sh1)"
    by fastforce
  have P1: "P sh1" using step [OF assms(2) r] .
  have "sh' = sh \<or> sh' = sh1 \<or> (\<exists>first o1. repair_phase rt w initial policy reason ri first b sh1 = (o1, b', sh'))"
    using assms(3) r by (auto simp: run_repair_def Let_def split: sum.splits if_splits prod.splits)
  moreover have "P sh'" if "repair_phase rt w initial policy reason ri first b sh1 = (o1, b', sh')" for first o1
    using P1 that by (rule repair_phase_preserves [rotated]) (rule step)
  ultimately show ?thesis using assms(2) P1 by blast
qed

lemma run_subagent_settles_again:
  assumes "settled sh0 sh" "run_subagent env rt c1 c2 r sh = (x, sh')"
  shows "settled sh0 sh'"
  using assms session_loop_settled [of sh0]
  by (auto simp: run_subagent_def run_tool_session_def split: sum.splits prod.splits) (metis session_state.select_convs(6) snd_conv)

lemma live_run_repair_ok:
  assumes "ctx_ok H L x" "live_run_repair a rt category reason instruction x = (r, y)"
  shows "ctx_ok H L y \<and> same_run_state x y"
proof -
  have run: "ctx_ok H L (await_end e n (set_shared sh x)) \<and> same_run_state x (await_end e n (set_shared sh x))"
    if "run_repair rt w q policy el rs ri b (to_shared x) = (out, b', sh)" for w q policy el rs ri b out b' sh e n
  proof -
    have "settled (to_shared x) sh"
      using shared_settled [OF assms(1)] that by (rule run_repair_preserves [rotated]) (rule run_subagent_settles_again)
    moreover have "run_held L (Some (cleanup_frame (lx_cleanup x))) [] 0 sh"
      using run_held_start [OF assms(1)] that by (rule run_repair_preserves [rotated]) (rule run_subagent_held)
    ultimately show ?thesis
      using await_end_ok [OF ctx_ok_client [OF assms(1)]] same_run_state_trans [OF set_shared_same await_end_same] by blast
  qed
  have "same_run_state x x" by (simp add: same_run_state_def)
  then show ?thesis
    using assms by (auto simp: live_run_repair_def Let_def split: sum.splits prod.splits dest!: run)
qed

lemma repair_body_ok:
  assumes "ctx_ok H L x" "repair_body a rt category reason instruction x = (r, y)"
  shows "ctx_ok H L y \<and> same_run_state x y"
proof -
  obtain u led where u: "admit_repair_attempt (le_clock (la_env a) 2) (lx_ledger x) = (u, led)" by fastforce
  note ok = admit_repair_ok [OF assms(1) u]
  obtain v z where v: "live_run_repair a rt category reason instruction (x\<lparr>lx_ledger := led\<rparr>) = (v, z)" by fastforce
  have "ctx_ok H L z \<and> same_run_state x z" using live_run_repair_ok [OF ok v] by (simp add: same_run_state_def)
  then show ?thesis using assms(2) u v ok by (auto simp: repair_body_def same_run_state_def split: sum.splits)
qed

section \<open>The end of a run\<close>

definition session_at :: "nat \<Rightarrow> SessionExecutionStatus \<Rightarrow> live_ctx \<Rightarrow> bool" where
  "session_at g st x \<longleftrightarrow> \<not> ses_poisoned (lx_session x) \<and> sei_status (ses_inner (lx_session x)) = st
     \<and> sei_active_generation (ses_inner (lx_session x)) = Some g"

fun ended_status_of :: "LiveOrchestrationTerminal \<Rightarrow> SessionExecutionStatus" where
  "ended_status_of LT_Completed = Sess_Completed"
| "ended_status_of LT_Cancelled = Sess_Cancelled"
| "ended_status_of LT_TimedOut = Sess_TimedOut"
| "ended_status_of LT_Failed = Sess_Failed"
| "ended_status_of LT_BudgetExhausted = Sess_Failed"

text \<open>What an outcome reports of itself.\<close>

definition outcome_consistent :: "LiveOrchestrationOutcome \<Rightarrow> bool" where
  "outcome_consistent out \<longleftrightarrow>
     (loo_synthesis_permitted out \<longleftrightarrow> loo_terminal out = LT_Completed)
     \<and> (loo_failure out = None \<longleftrightarrow> loo_terminal out = LT_Completed)
     \<and> (\<forall>f. loo_failure out = Some f \<longrightarrow> of_terminal f = loo_terminal out)
     \<and> length (loo_events out) \<le> MAX_EVENTS"

definition session_ended :: "SessionExecutionStatus \<Rightarrow> SessionExecutionPolicyState \<Rightarrow> bool" where
  "session_ended st s \<longleftrightarrow> \<not> ses_poisoned s \<and> sei_status (ses_inner s) = st \<and> sei_active_generation (ses_inner s) = None"

definition run_closed :: "ExecutionBudgetLimits \<times> nat \<Rightarrow> live_ctx \<Rightarrow> bool" where
  "run_closed L x \<longleftrightarrow> ledger_ok L [] 0 (lx_ledger x) \<and> terminal (led_state (lx_ledger x))
     \<and> cleanup_complete (oc_state (lx_cleanup x)) \<and> nothing_held (oc_state (lx_cleanup x))"

text \<open>An overall timeout that was submitted stays the cause of the end; otherwise the candidate is
  accepted.\<close>

lemma from_terminal_terminal: "from_terminal how err rs b = Some f \<Longrightarrow> of_terminal f = how"
  by (cases how) (auto simp: failure_of_kind_def)

lemma from_terminal_None: "from_terminal how err rs b = None \<longleftrightarrow> how = LT_Completed"
  by (cases how) simp_all

lemma cause_priority_below_user: "k \<noteq> FK_UserCancelled \<Longrightarrow> cause_priority k \<le> 5"
  by (cases k) simp_all

definition settled_cause :: "TerminalCauseArbiter \<Rightarrow> OrchestrationFailure option \<Rightarrow> OrchestrationFailure option" where
  "settled_cause a candidate = (if tca_accepted a \<noteq> None then Some timeout_failure else candidate)"

lemma accepted_failure_ok:
  assumes "arbiter_ok g (oc_cause_arbiter c)"
  shows "accepted_failure g candidate c
    = (Inr (settled_cause (oc_cause_arbiter c) candidate),
       c\<lparr>oc_cause_arbiter := (oc_cause_arbiter c)\<lparr>tca_accepted := settled_cause (oc_cause_arbiter c) candidate\<rparr>\<rparr>)"
proof (cases candidate)
  case None
  then show ?thesis
    using assms by (auto simp: accepted_failure_def current_failure_def arbiter_current_def arbiter_ok_def settled_cause_def)
next
  case (Some f)
  have "cause_priority (of_kind f) \<le> 5 \<or> of_kind f = FK_UserCancelled" using cause_priority_below_user by blast
  then show ?thesis
    using assms Some
    by (auto simp: accepted_failure_def submit_failure_def arbiter_submit_def arbiter_ok_def settled_cause_def)
qed

lemma freeze_ok:
  assumes "tca_generation (oc_cause_arbiter c) = g" "\<not> tca_poisoned (oc_cause_arbiter c)"
  shows "freeze_failure g c = (Inr (tca_accepted (oc_cause_arbiter c)),
    c\<lparr>oc_cause_arbiter := (oc_cause_arbiter c)\<lparr>tca_frozen := True\<rparr>\<rparr>)"
  using assms by (simp add: freeze_failure_def arbiter_freeze_def)

lemma terminalize_session_ok:
  assumes "session_at g Sess_Running x \<or> (session_at g Sess_Validating x \<and> how \<in> {LT_Cancelled, LT_Failed})"
  obtains s where "terminalize_session g how (lx_session x) = (Inr (), s)" "session_ended (ended_status_of how) s"
  using assms
  by (cases how) (auto simp: terminalize_session_def session_at_def session_ended_def terminalize_generation_def with_session_def)

lemma cleanup_closes:
  assumes "registry_ok None g b c"
  shows "cleanup_begin g c = (Inr (), c\<lparr>oc_state := (oc_state c)\<lparr>cleanup_requested := True, cleanup_in_progress := True\<rparr>\<rparr>)"
    and "cleanup_finish g (c\<lparr>oc_state := (oc_state c)\<lparr>cleanup_requested := True, cleanup_in_progress := True\<rparr>, oc_cause_arbiter := a\<rparr>)
      = (Inr (), c\<lparr>oc_state := (oc_state c)\<lparr>cleanup_requested := True, cleanup_in_progress := False, cleanup_complete := True\<rparr>,
           oc_cause_arbiter := a\<rparr>)"
    and "nothing_held (oc_state c)" "cleanup_snapshot g (c\<lparr>oc_state := st, oc_cause_arbiter := a\<rparr>) \<noteq> Inl u"
  using assms unfolding registry_ok_def only_child_None
  by (auto simp: cleanup_begin_def cleanup_finish_def cleanup_snapshot_def with_cleanup_def nothing_held_def)

lemma mark_terminal_ok:
  assumes "ledger_ok L [] 0 led"
  obtains led' where "mark_terminal led = (Inr (), led')" "ledger_ok L [] 0 led'" "terminal (led_state led')"
    "led_last_exhaustion led' = led_last_exhaustion led"
  using assms metering_keeps(7) [OF assms] ledger_ok_reserved [OF assms] that [of "snd (mark_terminal led)"]
  by (simp add: mark_terminal_def)

lemma finish_outcome_ok:
  assumes ok: "ctx_ok None L x"
    and at: "session_at (snd L) Sess_Running x
      \<or> (session_at (snd L) Sess_Validating x \<and> how = LT_Cancelled \<and> tca_accepted (oc_cause_arbiter (lx_cleanup x)) = None)"
  obtains out y where "finish_outcome a how err x = (Inr out, y)"
    "loo_terminal out = (if tca_accepted (oc_cause_arbiter (lx_cleanup x)) = None then how else LT_TimedOut)"
    "session_ended (ended_status_of (loo_terminal out)) (lx_session y)"
    "run_closed L y" "outcome_consistent out" "loo_roles out = lx_roles x"
    "loo_peak_concurrency out = lx_peak_concurrency x" "loo_budget out = budget_snapshot (le_elapsed (la_env a)) (lx_ledger y)"
proof -
  let ?g = "snd L" and ?c = "lx_cleanup x" and ?a = "oc_cause_arbiter (lx_cleanup x)"
  have reg: "registry_ok None ?g (lx_cancelled x) ?c" and led: "ledger_ok L [] 0 (lx_ledger x)" and g: "lx_generation x = ?g"
    using ok lx_generation_ok by (auto simp: ctx_ok_def)
  have arb: "arbiter_ok ?g ?a" using reg by (simp add: registry_ok_def)
  define cause where "cause = settled_cause ?a (from_terminal how err (lx_roles x) (last_category (le_elapsed (la_env a)) (lx_ledger x)))"
  define how' where "how' = (case cause of None \<Rightarrow> how | Some f \<Rightarrow> of_terminal f)"
  define err' where "err' = (case cause of None \<Rightarrow> err | Some f \<Rightarrow> error_for_failure f err)"
  have how': "how' = (if tca_accepted ?a = None then how else LT_TimedOut)"
    by (auto simp: how'_def cause_def settled_cause_def from_terminal_terminal split: option.split)
  obtain led' where led': "mark_terminal (lx_ledger x) = (Inr (), led')" "ledger_ok L [] 0 led'" "terminal (led_state led')"
    using mark_terminal_ok [OF led] .
  obtain s where s: "terminalize_session ?g how' (lx_session x) = (Inr (), s)" "session_ended (ended_status_of how') s"
  proof (rule terminalize_session_ok [of ?g x how'])
    show "session_at ?g Sess_Running x \<or> session_at ?g Sess_Validating x \<and> how' \<in> {LT_Cancelled, LT_Failed}"
      using at how' by auto
  qed
  define a' where "a' = ?a\<lparr>tca_accepted := cause, tca_frozen := True\<rparr>"
  define c4 where "c4 = ?c\<lparr>oc_state := (oc_state ?c)\<lparr>cleanup_requested := True, cleanup_in_progress := False, cleanup_complete := True\<rparr>,
           oc_cause_arbiter := a'\<rparr>"
  define failure where "failure = (if cause = None then from_terminal how' err' (lx_roles x) (last_category (le_elapsed (la_env a)) led') else cause)"
  define y where "y = x\<lparr>lx_cleanup := c4, lx_ledger := led', lx_session := s,
      lx_events := take MAX_EVENTS (lx_events x @ [Ev_RunTerminal how'])\<rparr>"
  have arb1: "arbiter_ok ?g (oc_cause_arbiter (?c\<lparr>oc_state := st\<rparr>))" for st using arb by simp
  have frz: "freeze_failure ?g (?c\<lparr>oc_state := st, oc_cause_arbiter := ?a\<lparr>tca_accepted := cause\<rparr>\<rparr>)
      = (Inr cause, ?c\<lparr>oc_state := st, oc_cause_arbiter := a'\<rparr>)" for st
    using arb freeze_ok [of "?c\<lparr>oc_state := st, oc_cause_arbiter := ?a\<lparr>tca_accepted := cause\<rparr>\<rparr>" ?g]
    by (simp add: arbiter_ok_def a'_def)
  obtain snap where snap: "cleanup_snapshot ?g c4 = Inr snap"
    using cleanup_closes(4) [OF reg] unfolding c4_def by (metis sum.exhaust_sel)
  have acc: "accepted_failure ?g (from_terminal how err (lx_roles x) (last_category (le_elapsed (la_env a)) (lx_ledger x)))
      (?c\<lparr>oc_state := st\<rparr>) = (Inr cause, ?c\<lparr>oc_state := st, oc_cause_arbiter := ?a\<lparr>tca_accepted := cause\<rparr>\<rparr>)" for st
    using accepted_failure_ok [OF arb1] by (simp add: cause_def)
  have fin: "cleanup_finish ?g (?c\<lparr>oc_state := (oc_state ?c)\<lparr>cleanup_requested := True, cleanup_in_progress := True\<rparr>, oc_cause_arbiter := a'\<rparr>)
      = (Inr (), c4)"
    using cleanup_closes(2) [OF reg, of a'] by (simp add: c4_def)
  have res: "finish_outcome a how err x = (Inr (live_outcome a how' err' failure (budget_snapshot (le_elapsed (la_env a)) led') y), y)"
    unfolding finish_outcome_def Let_def g cleanup_closes(1) [OF reg] prod.case sum.case acc led'(1) frz fin snap
      how'_def [symmetric] err'_def [symmetric] s(1) failure_def [symmetric] last_category_def [symmetric] y_def [symmetric]
    by (rule refl)
  have "outcome_consistent (live_outcome a how' err' failure (budget_snapshot (le_elapsed (la_env a)) led') y)"
    using from_terminal_None [of how' err' "lx_roles x" "last_category (le_elapsed (la_env a)) led'"]
      from_terminal_None [of how err "lx_roles x" "last_category (le_elapsed (la_env a)) (lx_ledger x)"]
    by (auto simp: outcome_consistent_def live_outcome_def Let_def failure_def y_def how'_def cause_def settled_cause_def
        dest: from_terminal_terminal split: option.splits if_splits)
  moreover have "run_closed L y"
    using led' cleanup_closes(3) [OF reg] by (simp add: run_closed_def y_def c4_def nothing_held_def)
  ultimately show thesis
    using res how' s(2) by (intro that [of "live_outcome a how' err' failure (budget_snapshot (le_elapsed (la_env a)) led') y" y])
      (simp_all add: live_outcome_def Let_def y_def)
qed

section \<open>The stages keep the run's contract\<close>

abbreviation run_live :: "ExecutionBudgetLimits \<times> nat \<Rightarrow> live_ctx \<Rightarrow> bool" where
  "run_live L x \<equiv> ctx_ok None L x \<and> session_at (snd L) Sess_Running x"

text \<open>What a run ends with: an outcome over an ended session, an error before any role ran over a failed
  session, or the coordinator's internal failure when the registry had no handle left.\<close>

definition run_post ::
  "ExecutionBudgetLimits \<times> nat \<Rightarrow> (LiveRoleOutcome list \<Rightarrow> bool) \<Rightarrow> live_result \<Rightarrow> bool" where
  "run_post L P res \<longleftrightarrow>
     (case res of
        (Inr out, y) \<Rightarrow>
          session_ended (ended_status_of (loo_terminal out)) (lx_session y) \<and> run_closed L y
          \<and> outcome_consistent out \<and> (loo_terminal out = LT_Completed \<longrightarrow> P (loo_roles out))
      | (Inl e, y) \<Rightarrow>
          session_ended Sess_Failed (lx_session y) \<and> run_closed L y \<and> lx_roles y = []
          \<or> e = LE_InternalCoordinatorFailure \<and> handles_exhausted y \<and> ledger_ok L [] 0 (lx_ledger y))"

definition step_post ::
  "ExecutionBudgetLimits \<times> nat \<Rightarrow> (LiveRoleOutcome list \<Rightarrow> bool) \<Rightarrow> live_step \<Rightarrow> bool" where
  "step_post L P st \<longleftrightarrow> (\<exists>res. st = Stop res \<and> run_post L P res)"

lemma step_post_Stop [simp]: "step_post L P (Stop res) \<longleftrightarrow> run_post L P res"
  by (simp add: step_post_def)

lemma run_post_internal: "ctx_ok None L x \<Longrightarrow> handles_exhausted x \<Longrightarrow> run_post L P (internal x)"
  by (simp add: run_post_def internal_def ctx_ok_def)

lemma finish_post:
  assumes "run_live L x" "how = LT_Completed \<Longrightarrow> P (lx_roles x)"
  shows "run_post L P (finish_outcome a how err x)"
proof -
  obtain out y where "finish_outcome a how err x = (Inr out, y)"
    "loo_terminal out = (if tca_accepted (oc_cause_arbiter (lx_cleanup x)) = None then how else LT_TimedOut)"
    "session_ended (ended_status_of (loo_terminal out)) (lx_session y)" "run_closed L y" "outcome_consistent out"
    "loo_roles out = lx_roles x"
    using assms(1) by (elim conjE finish_outcome_ok [OF _ disjI1])
  then show ?thesis using assms(2) by (auto simp: run_post_def split: if_splits)
qed

lemma finish_failed:
  "ctx_ok None L x \<Longrightarrow> session_at (snd L) Sess_Running x \<Longrightarrow> how \<noteq> LT_Completed \<Longrightarrow>
   run_post L P (finish_outcome a how err x)"
  by (rule finish_post) simp_all

lemma session_at_same: "same_run_state x y \<Longrightarrow> session_at g st y \<longleftrightarrow> session_at g st x"
  by (simp add: same_run_state_def session_at_def)

lemma session_at_frame [simp]:
  "session_at g st (push_event e x) \<longleftrightarrow> session_at g st x" "session_at g st (push_role r x) \<longleftrightarrow> session_at g st x"
  "session_at g st (count_role r x) \<longleftrightarrow> session_at g st x" "session_at g st (count_batch batch x) \<longleftrightarrow> session_at g st x"
  "session_at g st (read_cancel env n x) \<longleftrightarrow> session_at g st x"
  by (simp_all add: session_at_def push_event_def push_role_def count_role_def count_batch_def read_cancel_def)

lemma roles_frame [simp]:
  "lx_roles (push_event e x) = lx_roles x" "lx_roles (push_role r x) = lx_roles x @ [r]"
  "lx_roles (count_role r x) = lx_roles x @ [r]" "lx_roles (count_batch batch x) = lx_roles x @ [role_from_batch batch]"
  "lx_roles (read_cancel env n x) = lx_roles x" "lx_session (read_cancel env n x) = lx_session x"
  "lx_cleanup (read_cancel env n x) = lx_cleanup x" "lx_cleanup (push_event e x) = lx_cleanup x"
  by (simp_all add: push_event_def push_role_def count_role_def count_batch_def read_cancel_def)

text \<open>A stage that runs as a child: only its continuation is left to show.\<close>

lemma stage_post:
  assumes "run_live L x"
    and body: "\<And>h y r z. ctx_ok (Some h) L y \<Longrightarrow> body \<lparr>cg_generation = snd L, cg_handle = Some h\<rparr> y = (r, z) \<Longrightarrow>
      ctx_ok (Some h) L z \<and> same_run_state y z \<and> Q r"
    and k: "\<And>r y. run_live L y \<Longrightarrow> lx_roles y = lx_roles x \<Longrightarrow> Q r \<Longrightarrow> R (k r y)"
    and stop: "\<And>y. run_live L y \<Longrightarrow> handles_exhausted y \<Longrightarrow> R (Stop (internal y))"
  shows "R (with_child kind body k x)"
proof -
  have "(handles_exhausted x \<and> with_child kind body k x = Stop (internal x))
    \<or> (\<exists>r y. ctx_ok None L y \<and> same_run_state x y \<and> Q r \<and> with_child kind body k x = k r y)"
  proof (rule with_child_rule [where Q = "\<lambda>r _. Q r"])
    show "ctx_ok (Some h) L z \<and> same_run_state x z \<and> Q r"
      if "ctx_ok (Some h) L (x\<lparr>lx_cleanup := c\<rparr>)"
        "body \<lparr>cg_generation = snd L, cg_handle = Some h\<rparr> (x\<lparr>lx_cleanup := c\<rparr>) = (r, z)" for h c r z
      using body [OF that] by (simp add: same_run_state_def)
  qed (use assms(1) in simp_all)
  then show ?thesis
  proof (elim disjE exE conjE)
    fix r y
    assume y: "ctx_ok None L y" "same_run_state x y" "Q r" "with_child kind body k x = k r y"
    then have "run_live L y" using assms(1) session_at_same [OF y(2)] by simp
    moreover have "lx_roles y = lx_roles x" using y(2) by (simp add: same_run_state_def)
    ultimately show ?thesis using k y(3,4) by simp
  qed (use assms(1) stop in simp)
qed

subsection \<open>Planner\<close>

definition planner_done :: "live_run_args \<Rightarrow> LiveRoleOutcome \<Rightarrow> bool" where
  "planner_done a r \<longleftrightarrow> lro_role r = Planner
     \<and> lro_state r = (if planning_required (lor_planning (la_request a)) then LR_Succeeded else LR_Skipped)"

lemma planner_role:
  "map_sum id so_status out = Inr SS_Completed \<Longrightarrow>
   lro_role (role_from_single r out) = r \<and> lro_state (role_from_single r out) = LR_Succeeded"
  by (cases out) (auto simp: role_from_single_def)

definition planner_post ::
  "live_run_args \<Rightarrow> ExecutionBudgetLimits \<times> nat \<Rightarrow> (LiveRoleOutcome list \<Rightarrow> bool) \<Rightarrow> LiveRoleOutcome list \<Rightarrow> live_step \<Rightarrow> bool" where
  "planner_post a L P rs st \<longleftrightarrow> step_post L P st
     \<or> (\<exists>y r. st = Go y \<and> run_live L y \<and> lx_roles y = rs @ [r] \<and> planner_done a r)"

lemma planner_post_Stop [simp]: "planner_post a L P rs (Stop res) \<longleftrightarrow> run_post L P res"
  by (simp add: planner_post_def)

lemma planner_stage_post:
  assumes "run_live L x"
  shows "planner_post a L P (lx_roles x) (planner_stage a rt x)"
proof (cases "lor_planning (la_request a)")
  case Planning_NotRequested
  then show ?thesis using assms by (simp add: planner_stage_def planner_post_def planner_done_def skipped_def)
next
  case (Planning_Required instruction)
  show ?thesis unfolding planner_stage_def Let_def Planning_Required PlanningContract.case
  proof (rule stage_post [OF assms, where Q = "\<lambda>_. True"])
    fix out y
    assume y: "run_live L y" "lx_roles y = lx_roles x"
    show "planner_post a L P (lx_roles x)
      (if map_sum id so_status out = Inr SS_Completed then Go (count_role (role_from_single Planner out) y)
       else Stop (if lx_cancelled (read_cancel (la_env a) 2 (count_role (role_from_single Planner out) y))
          then finish_outcome a LT_Cancelled (Some LE_Cancellation) (read_cancel (la_env a) 2 (count_role (role_from_single Planner out) y))
          else finish_outcome a LT_Failed (Some LE_ExecutorBatchFailure) (read_cancel (la_env a) 2 (count_role (role_from_single Planner out) y))))"
    proof (cases "map_sum id so_status out = Inr SS_Completed")
      case True
      then show ?thesis
        using y planner_role [OF True, of Planner] Planning_Required by (simp add: planner_post_def planner_done_def)
    qed (use y(1) in \<open>simp add: finish_failed read_cancel_ok\<close>)
  qed (use planner_body_ok in \<open>blast, simp add: run_post_internal\<close>)
qed


subsection \<open>Executor batch\<close>

definition executed_batch :: "live_run_args \<Rightarrow> SubagentRuntime \<Rightarrow> SubagentBatchOutcome \<Rightarrow> bool" where
  "executed_batch a rt batch \<longleftrightarrow>
     (\<exists>cancelled. run_batch rt (le_batch (la_env a)) (executor_request (la_request a) (la_policy a) cancelled) = Inr batch)"

lemma executor_body_batch: "executor_body a rt gd x = (Exec_Batch batch, y) \<Longrightarrow> executed_batch a rt batch"
  by (auto simp: executor_body_def run_executor_def executed_batch_def Let_def split: sum.splits prod.splits)

lemma executor_stage_post:
  assumes "run_live L x"
    and k: "\<And>batch y. run_live L y \<Longrightarrow> lx_roles y = lx_roles x @ [role_from_batch batch] \<Longrightarrow> executed_batch a rt batch \<Longrightarrow>
      step_post L P (k batch y)"
  shows "step_post L P (executor_stage a rt k x)"
  unfolding executor_stage_def
proof (rule stage_post [where L = L and Q = "\<lambda>r. \<forall>batch. r = Exec_Batch batch \<longrightarrow> executed_batch a rt batch"])
  fix h y r z
  assume y: "ctx_ok (Some h) L y" "executor_body a rt \<lparr>cg_generation = snd L, cg_handle = Some h\<rparr> y = (r, z)"
  show "ctx_ok (Some h) L z \<and> same_run_state y z \<and> (\<forall>batch. r = Exec_Batch batch \<longrightarrow> executed_batch a rt batch)"
    using executor_body_ok [OF y] executor_body_batch y(2) by auto
next
  fix r y
  assume y: "run_live L y" "lx_roles y = lx_roles (push_event (Ev_RoleStarted Executor) (push_event Ev_ExecutorBatchStarted x))"
    and r: "\<forall>batch. r = Exec_Batch batch \<longrightarrow> executed_batch a rt batch"
  have "run_live L (read_cancel (la_env a) 3 (count_batch batch y))" for batch using y(1) by (simp add: read_cancel_ok)
  then show "step_post L P
      (case r of Exec_Refused \<Rightarrow> Stop (finish_outcome a LT_BudgetExhausted (Some LE_BudgetExhaustion) y)
       | Exec_Error e \<Rightarrow> Stop (finish_outcome a LT_Failed (Some e) y)
       | Exec_Batch batch \<Rightarrow>
           let z = read_cancel (la_env a) 3 (count_batch batch y) in
           if lx_cancelled z then Stop (finish_outcome a LT_Cancelled (Some LE_Cancellation) z) else k batch z)"
    using y r k by (cases r) (simp_all add: finish_failed Let_def)
qed (use assms(1) in \<open>simp_all add: run_post_internal\<close>)

subsection \<open>Verifier\<close>

text \<open>What the verifier said, and what that asks of the repair.\<close>

fun verdict_role :: "VerificationResult \<Rightarrow> LiveRoleOutcome" where
  "verdict_role (VR_Skipped reason) = skipped Verifier reason"
| "verdict_role (VR_Accepted r) = r"
| "verdict_role (VR_Rejected r _) = r"
| "verdict_role (VR_Failed r) = r"

fun verdict_rejection :: "VerificationResult \<Rightarrow> VerificationDecision option" where
  "verdict_rejection (VR_Rejected _ d) = Some d"
| "verdict_rejection _ = None"

fun verdict_failed :: "VerificationResult \<Rightarrow> bool" where
  "verdict_failed (VR_Failed _) = True"
| "verdict_failed _ = False"

definition verified :: "live_run_args \<Rightarrow> SubagentRuntime \<Rightarrow> VerificationResult \<Rightarrow> bool" where
  "verified a rt v \<longleftrightarrow> (\<exists>x y. verify a rt x = (v, y))"

lemma verifier_stage_post:
  assumes "run_live L x"
    and k: "\<And>v y. run_live L y \<Longrightarrow> lx_roles y = lx_roles x @ [verdict_role v] \<Longrightarrow> verified a rt v \<Longrightarrow> \<not> verdict_failed v \<Longrightarrow>
      step_post L P (k (verdict_rejection v) y)"
  shows "step_post L P (verifier_stage a rt k x)"
  unfolding verifier_stage_def
proof (rule stage_post [where L = L and Q = "verified a rt"])
  fix h y r z
  assume y: "ctx_ok (Some h) L y" "verify a rt y = (r, z)"
  then show "ctx_ok (Some h) L z \<and> same_run_state y z \<and> verified a rt r"
    using verify_ok [OF y] by (auto simp: verified_def)
next
  fix v y
  assume y: "run_live L y" "lx_roles y = lx_roles (if verification_provider (lor_verification (la_request a))
        then push_event (Ev_RoleStarted Verifier) x else x)"
    and v: "verified a rt v"
  have roles: "lx_roles y = lx_roles x" using y(2) by (simp split: if_splits)
  have "\<not> verdict_failed v \<Longrightarrow> step_post L P (k (verdict_rejection v) z)"
    if "run_live L z" "lx_roles z = lx_roles y @ [verdict_role v]" for z
    using k [OF that(1) _ v] that(2) roles by simp
  then show "step_post L P
      (case v of
         VR_Skipped reason \<Rightarrow> k None (push_event (Ev_RoleSkipped Verifier reason) (push_role (skipped Verifier reason) y))
       | VR_Accepted r \<Rightarrow> k None (push_event Ev_VerifierDecision (count_role r y))
       | VR_Rejected r d \<Rightarrow> k (Some d) (push_event Ev_VerifierDecision (count_role r y))
       | VR_Failed r \<Rightarrow>
           let z = read_cancel (la_env a) 4 (push_role r y) in
           Stop (if lx_cancelled z then finish_outcome a LT_Cancelled (Some LE_Cancellation) z
                 else finish_outcome a LT_Failed (Some LE_VerifierRuntimeFailure) z))"
    using y(1) by (cases v) (simp_all add: finish_failed read_cancel_ok Let_def)
qed (use assms(1) in \<open>auto simp: run_post_internal\<close>)

lemma rejection_is_rejected:
  assumes "verified a rt v" "verdict_rejection v = Some d"
  shows "\<exists>category reason instruction. d = Decision_Rejected category reason instruction"
proof -
  obtain r x y where "verify a rt x = (VR_Rejected r d, y)"
    using assms by (cases v) (auto simp: verified_def)
  then show ?thesis
    by (auto simp: verify_def verifier_verdict_def Let_def
        split: if_splits VerificationContract.splits VerificationDecision.splits prod.splits sum.splits)
qed


subsection \<open>Repair\<close>

definition repair_done :: "VerificationDecision option \<Rightarrow> LiveRoleOutcome \<Rightarrow> bool" where
  "repair_done rejection r \<longleftrightarrow> lro_role r = Repair
     \<and> lro_state r = (if rejection = None then LR_Skipped else LR_Succeeded)"

definition repair_post ::
  "VerificationDecision option \<Rightarrow> ExecutionBudgetLimits \<times> nat \<Rightarrow> (LiveRoleOutcome list \<Rightarrow> bool) \<Rightarrow>
   LiveRoleOutcome list \<Rightarrow> live_step \<Rightarrow> bool" where
  "repair_post rejection L P rs st \<longleftrightarrow> step_post L P st
     \<or> (\<exists>y r. st = Go y \<and> run_live L y \<and> lx_roles y = rs @ [r] \<and> repair_done rejection r)"

lemma repair_post_Stop [simp]: "repair_post rejection L P rs (Stop res) \<longleftrightarrow> run_post L P res"
  by (simp add: repair_post_def)

lemma finish_with_failed:
  "ctx_ok None L x \<Longrightarrow> session_at (snd L) Sess_Running x \<Longrightarrow> fst e \<noteq> LT_Completed \<Longrightarrow> run_post L P (finish_with a e x)"
  by (simp add: finish_with_def finish_failed)

lemma repair_ends_failed [simp]:
  "fst (repair_error_terminal e) \<noteq> LT_Completed" "fst (repair_failure_end st) \<noteq> LT_Completed"
  by (cases e; simp) (cases st; simp)

lemma repair_role [simp]: "lro_role (role_from_repair out) = Repair"
  by (simp add: role_from_repair_def Let_def)

lemma repair_stage_post:
  assumes "run_live L x" "verified a rt v"
  shows "repair_post (verdict_rejection v) L P (lx_roles x) (repair_stage a rt (verdict_rejection v) x)"
proof (cases "verdict_rejection v")
  case None
  then show ?thesis using assms(1) by (simp add: repair_stage_def repair_post_def repair_done_def skipped_def Let_def)
next
  case (Some d)
  then obtain category reason instruction where d: "verdict_rejection v = Some (Decision_Rejected category reason instruction)"
    using rejection_is_rejected [OF assms(2)] by blast
  let ?y = "push_event Ev_RepairEligibilityEvaluated x"
  have stage: "repair_post (Some dec) L P (lx_roles x)
      (with_child Child_Repair (\<lambda>_. repair_body a rt category reason instruction)
        (\<lambda>r z. case r of
             None \<Rightarrow> Stop (finish_outcome a LT_BudgetExhausted (Some LE_BudgetExhaustion) z)
           | Some (Inl e) \<Rightarrow> Stop (finish_with a (repair_error_terminal e) (push_role (role_from_repair_error e) z))
           | Some (Inr out) \<Rightarrow>
               (let role = role_from_repair out; w = count_role role z in
                if lro_state role = LR_Succeeded then Go w else Stop (finish_with a (repair_failure_end (lro_state role)) w)))
        (push_event Ev_RepairStarted ?y))" for dec
  proof (rule stage_post [where L = L and Q = "\<lambda>_. True"])
    fix r z
    assume z: "run_live L z" "lx_roles z = lx_roles (push_event Ev_RepairStarted ?y)"
    show "repair_post (Some dec) L P (lx_roles x)
      (case r of
         None \<Rightarrow> Stop (finish_outcome a LT_BudgetExhausted (Some LE_BudgetExhaustion) z)
       | Some (Inl e) \<Rightarrow> Stop (finish_with a (repair_error_terminal e) (push_role (role_from_repair_error e) z))
       | Some (Inr out) \<Rightarrow>
           (let role = role_from_repair out; w = count_role role z in
            if lro_state role = LR_Succeeded then Go w else Stop (finish_with a (repair_failure_end (lro_state role)) w)))"
      using z by (auto simp: finish_failed finish_with_failed Let_def repair_post_def repair_done_def split: option.split sum.split)
  qed (use assms(1) repair_body_ok in \<open>auto simp: run_post_internal\<close>)
  show ?thesis
    using assms(1) stage unfolding d repair_stage_def Let_def option.case VerificationDecision.case
    by (simp add: finish_failed Let_def)
qed

subsection \<open>The whole run\<close>

text \<open>When a run completed: the planner did its part if it was asked to, no executor task failed or ran
  out of budget, and the verifier did not fail; what it rejected was repaired.\<close>

definition run_completed :: "live_run_args \<Rightarrow> SubagentRuntime \<Rightarrow> LiveRoleOutcome list \<Rightarrow> bool" where
  "run_completed a rt rs \<longleftrightarrow>
     (\<exists>planner batch v repair.
        rs = [planner, role_from_batch batch, verdict_role v, repair]
        \<and> planner_done a planner \<and> executed_batch a rt batch \<and> \<not> executor_failed batch
        \<and> verified a rt v \<and> \<not> verdict_failed v \<and> repair_done (verdict_rejection v) repair)"

lemma final_stage_post:
  assumes "run_live L x" "\<not> executor_failed batch \<Longrightarrow> P (lx_roles x)"
  shows "step_post L P (final_stage a batch x)"
  using assms by (simp add: final_stage_def Let_def finish_failed finish_post read_cancel_ok)

lemma running_stages_post:
  assumes "run_live L x" "lx_roles x = []"
  shows "step_post L (run_completed a rt) (running_stages a rt x)"
proof -
  let ?P = "run_completed a rt"
  have tail: "step_post L ?P (and_then (repair_stage a rt (verdict_rejection v) z) (final_stage a batch))"
    if z: "run_live L z" "lx_roles z = [planner, role_from_batch batch, verdict_role v]" "planner_done a planner"
      "executed_batch a rt batch" "verified a rt v" "\<not> verdict_failed v" for planner batch v z
  proof -
    consider "step_post L ?P (repair_stage a rt (verdict_rejection v) z)"
      | w r where "repair_stage a rt (verdict_rejection v) z = Go w" "run_live L w" "lx_roles w = lx_roles z @ [r]"
          "repair_done (verdict_rejection v) r"
      using repair_stage_post [OF z(1,5), of ?P] unfolding repair_post_def by blast
    then show ?thesis
    proof cases
      case 2
      have "\<not> executor_failed batch \<Longrightarrow> ?P (lx_roles w)"
        using 2(3,4) z unfolding run_completed_def by (intro exI [of _ planner] exI [of _ batch] exI [of _ v] exI [of _ r]) simp
      then show ?thesis using final_stage_post [OF 2(2)] 2(1) by simp
    qed (auto simp: step_post_def)
  qed
  have rest: "step_post L ?P (executor_stage a rt (\<lambda>batch. verifier_stage a rt (\<lambda>rejection y.
         and_then (repair_stage a rt rejection y) (final_stage a batch))) y)"
    if y: "run_live L y" "lx_roles y = [planner]" "planner_done a planner" for y planner
    using y(1)
  proof (rule executor_stage_post)
    fix batch z
    assume z: "run_live L z" "lx_roles z = lx_roles y @ [role_from_batch batch]" "executed_batch a rt batch"
    show "step_post L ?P (verifier_stage a rt (\<lambda>rejection y. and_then (repair_stage a rt rejection y) (final_stage a batch)) z)"
      using z(1)
    proof (rule verifier_stage_post)
      fix v w
      assume "run_live L w" "lx_roles w = lx_roles z @ [verdict_role v]" "verified a rt v" "\<not> verdict_failed v"
      then show "step_post L ?P (and_then (repair_stage a rt (verdict_rejection v) w) (final_stage a batch))"
        using tail y(2,3) z(2,3) by simp
    qed
  qed
  consider "step_post L ?P (planner_stage a rt x)"
    | y r where "planner_stage a rt x = Go y" "run_live L y" "lx_roles y = [r]" "planner_done a r"
    using planner_stage_post [OF assms(1), of a ?P rt] assms(2) unfolding planner_post_def by auto
  then show ?thesis
  proof cases
    case 2
    then show ?thesis using rest by (simp add: running_stages_def)
  qed (auto simp: running_stages_def step_post_def)
qed


lemma pre_execution_post:
  assumes "ctx_ok None L x" "session_at (snd L) Sess_Validating x" "lx_roles x = []"
  shows "run_post L P (stop_pre_execution e x)"
proof -
  let ?c = "lx_cleanup x"
  have reg: "registry_ok None (snd L) (lx_cancelled x) ?c" and led: "ledger_ok L [] 0 (lx_ledger x)" and g: "lx_generation x = snd L"
    using assms(1) lx_generation_ok by (auto simp: ctx_ok_def)
  obtain led' where led': "mark_terminal (lx_ledger x) = (Inr (), led')" "ledger_ok L [] 0 led'" "terminal (led_state led')"
    using mark_terminal_ok [OF led] .
  obtain s where s: "terminalize_generation (snd L) Sess_Failed (lx_session x) = (Inr (), s)" "session_ended Sess_Failed s"
    using assms(2) by (auto simp: session_at_def session_ended_def terminalize_generation_def with_session_def)
  have "stop_pre_execution e x = (Inl e, x\<lparr>lx_cleanup := ?c\<lparr>oc_state := (oc_state ?c)\<lparr>cleanup_requested := True,
      cleanup_in_progress := False, cleanup_complete := True\<rparr>\<rparr>, lx_ledger := led', lx_session := s\<rparr>)"
    using cleanup_closes(1) [OF reg] cleanup_closes(2) [OF reg, of "oc_cause_arbiter ?c"] led'(1) s(1) g
    by (simp add: stop_pre_execution_def terminalize_pre_execution_failure_def Let_def)
  then show ?thesis
    using led' s(2) assms(3) cleanup_closes(3) [OF reg] by (simp add: run_post_def run_closed_def nothing_held_def)
qed

lemma cancelled_early_post:
  assumes "ctx_ok None L x" "session_at (snd L) Sess_Validating x" "tca_accepted (oc_cause_arbiter (lx_cleanup x)) = None"
  shows "run_post L P (finish_outcome a LT_Cancelled err x)"
proof -
  obtain out y where "finish_outcome a LT_Cancelled err x = (Inr out, y)"
    "loo_terminal out = (if tca_accepted (oc_cause_arbiter (lx_cleanup x)) = None then LT_Cancelled else LT_TimedOut)"
    "session_ended (ended_status_of (loo_terminal out)) (lx_session y)" "run_closed L y" "outcome_consistent out"
    using assms by (elim finish_outcome_ok [where how = LT_Cancelled]) auto
  then show ?thesis by (auto simp: run_post_def split: if_splits)
qed

definition run_runtime :: "LiveOrchestrationCoordinator \<Rightarrow> RoutingProfile \<Rightarrow> SubagentRuntime" where
  "run_runtime co profile =
     \<lparr>rt_profiles = selected_registry (loc_profiles co) profile, rt_directory = loc_connections co\<rparr>"

definition routed_completion :: "LiveOrchestrationCoordinator \<Rightarrow> live_run_args \<Rightarrow> LiveRoleOutcome list \<Rightarrow> bool" where
  "routed_completion co a rs \<longleftrightarrow>
     (\<exists>profile. registry_get (loc_profiles co) (la_profile_id a) = Some profile
        \<and> validate_routing (la_policy a) profile (loc_connections co) (lor_verification (la_request a))
            (lor_planning (la_request a)) = Inr ()
        \<and> run_completed a (run_runtime co profile) rs)"

lemma run_post_mono: "run_post L P res \<Longrightarrow> (\<And>rs. P rs \<Longrightarrow> P' rs) \<Longrightarrow> run_post L P' res"
  by (auto simp: run_post_def split: prod.splits sum.splits)

lemma run_inner_post:
  assumes ok: "ctx_ok None L x" and at: "session_at (snd L) Sess_Preparing x"
    and start: "tca_accepted (oc_cause_arbiter (lx_cleanup x)) = None" "lx_roles x = []"
  shows "run_post L (routed_completion co a) (run_inner co a x)"
proof -
  let ?s = "(lx_session x)\<lparr>ses_inner := (ses_inner (lx_session x))\<lparr>sei_status := Sess_Validating\<rparr>\<rparr>"
  define x1 where "x1 = read_cancel (la_env a) 0 (x\<lparr>lx_session := ?s\<rparr>)"
  have step: "session_transition Sess_Validating (lx_session x) = (Inr (), ?s)"
    using at by (simp add: session_at_def session_transition_def with_session_def)
  have x1: "ctx_ok None L x1" "session_at (snd L) Sess_Validating x1" "tca_accepted (oc_cause_arbiter (lx_cleanup x1)) = None"
    "lx_roles x1 = []"
    using ok at start by (simp_all add: x1_def read_cancel_ok session_at_def)
  define s2 where "s2 = (lx_session x1)\<lparr>ses_inner := (ses_inner (lx_session x1))\<lparr>sei_validation := Validation_Valid\<rparr>\<rparr>"
  define y where "y = read_cancel (la_env a) 1 (push_event Ev_PolicyValidated (x1\<lparr>lx_session := s2\<rparr>))"
  have valid: "mark_policy_valid (lx_session x1) = (Inr (), s2)"
    using x1(2) by (simp add: s2_def session_at_def mark_policy_valid_def with_session_def)
  have "session_at (snd L) Sess_Validating (x1\<lparr>lx_session := s2\<rparr>)" using x1(2) by (simp add: s2_def session_at_def)
  then have y: "ctx_ok None L y" "session_at (snd L) Sess_Validating y" "tca_accepted (oc_cause_arbiter (lx_cleanup y)) = None"
    "lx_roles y = []"
    using x1 by (simp_all add: y_def read_cancel_ok)
  define s3 where "s3 = (lx_session y)\<lparr>ses_inner := (ses_inner (lx_session y))\<lparr>sei_status := Sess_Running\<rparr>\<rparr>"
  have run: "session_transition Sess_Running (lx_session y) = (Inr (), s3)" "run_live L (y\<lparr>lx_session := s3\<rparr>)"
    using y(1,2) by (simp_all add: s3_def session_at_def session_transition_def with_session_def)
  have stages: "run_post L (routed_completion co a) (step_result (running_stages a (run_runtime co profile) (y\<lparr>lx_session := s3\<rparr>)))"
    if "registry_get (loc_profiles co) (la_profile_id a) = Some profile"
      "validate_routing (la_policy a) profile (loc_connections co) (lor_verification (la_request a)) (lor_planning (la_request a)) = Inr ()"
    for profile
  proof -
    obtain res where "running_stages a (run_runtime co profile) (y\<lparr>lx_session := s3\<rparr>) = Stop res"
      "run_post L (run_completed a (run_runtime co profile)) res"
      using running_stages_post [OF run(2), of a "run_runtime co profile"] y(4) by (auto simp: step_post_def)
    then show ?thesis using that by (auto simp: routed_completion_def elim: run_post_mono)
  qed
  have inner: "with_state mark_policy_valid (\<lambda>x1.
      let y = read_cancel (la_env a) 1 (push_event Ev_PolicyValidated x1) in
      if lx_cancelled y then finish_outcome a LT_Cancelled (Some LE_Cancellation) y
      else with_state (session_transition Sess_Running) (\<lambda>z. step_result (running_stages a rt z)) y) x1
    = (if lx_cancelled y then finish_outcome a LT_Cancelled (Some LE_Cancellation) y
       else step_result (running_stages a rt (y\<lparr>lx_session := s3\<rparr>)))" for rt
    unfolding with_state_def valid prod.case sum.case Let_def y_def [symmetric] run(1) by (rule refl)
  show ?thesis
    using cancelled_early_post [OF x1(1-3)] cancelled_early_post [OF y(1-3)] pre_execution_post [OF x1(1,2,4)] stages
    unfolding run_inner_def inner unfolding with_state_def step prod.case sum.case Let_def x1_def [symmetric]
    by (simp add: inner [unfolded with_state_def Let_def] run_runtime_def split: option.split sum.split)
qed


section \<open>A run from its request\<close>

lemma context_admitted:
  assumes "live_prepare co rq s = Inr (rp, pid)" "resolve_mode sel = Inr rp"
    and "fst t < ep_batch_timeout (resolved_policy rp)"
  obtains led where "reserve_context t (request_context_bytes rq) (new_for_generation rp g) = (Inr (), led)"
    "executor_tasks_admitted (led_state led) = 0" "\<not> terminal (led_state led)" "\<not> led_poisoned led"
    "led_limits led = from_resolved rp"
proof -
  have bytes: "request_context_bytes rq \<le> max_context_bytes (from_resolved rp)"
    using assms(1) by (auto simp: live_prepare_def from_resolved_def Let_def res_bind_def ensure_def split: sum.splits if_splits)
  moreover have "max_context_bytes (from_resolved rp) < u64_max"
    using limits_small_resolved [OF assms(2)] by (simp add: limits_small_def)
  ultimately have "saturating_add 0 (request_context_bytes rq) \<le> max_context_bytes (from_resolved rp)"
    by (simp add: saturating_add_def)
  moreover have "fst t < max_elapsed (from_resolved rp)" using assms(3) by (simp add: from_resolved_def Let_def)
  ultimately show thesis
    using that by (simp add: reserve_context_def with_ledger_def open_ledger_def check_elapsed_def new_for_generation_def
        ledger_zero_def Let_def)
qed

lemma run_start:
  assumes "resolve_mode sel = Inr rp" "begin_run s = (Inr g, s1)"
    and "reserve_context t n (new_for_generation rp g) = (Inr u, led)"
  shows "ctx_ok None (from_resolved rp, g) (live_ctx_new s1 g led)" "session_at g Sess_Preparing (live_ctx_new s1 g led)"
    "tca_accepted (oc_cause_arbiter (lx_cleanup (live_ctx_new s1 g led))) = None" "lx_roles (live_ctx_new s1 g led) = []"
    "next_handle_value (oc_state (lx_cleanup (live_ctx_new s1 g led))) = 0" "\<not> lx_cancelled (live_ctx_new s1 g led)"
proof -
  have "ledger_ok (from_resolved rp, g) [] 0 (new_for_generation rp g)"
    using budget_inv_new [OF assms(1), of g] by (simp add: ledger_ok_def ledger_frame_def sys_new_def new_for_generation_def)
  from metering_keeps(5) [OF this, of t n] have led: "ledger_ok (from_resolved rp, g) [] 0 led" using assms(3) by simp
  have "cleanup_inv (cleanup_new g)" using cleanup.inv_run [of "cleanup_new g" "[]"] by auto
  then have "registry_ok None g False (cleanup_new g)"
    by (simp add: registry_ok_def only_child_None nothing_held_def arbiter_ok_def cleanup_new_def arbiter_new_def)
  then show "ctx_ok None (from_resolved rp, g) (live_ctx_new s1 g led)" using led by (simp add: ctx_ok_def live_ctx_new_def)
  show "session_at g Sess_Preparing (live_ctx_new s1 g led)"
    using assms(2) by (auto simp: session_at_def live_ctx_new_def begin_run_def with_session_def Let_def split: if_splits prod.splits)
qed (simp_all add: live_ctx_new_def cleanup_new_def arbiter_new_def)

lemma live_run_post:
  assumes "live_prepare co rq s = Inr (rp, pid)" "resolve_mode sel = Inr rp" "begin_run s = (Inr g, s1)"
    and "fst (le_clock env 0) < ep_batch_timeout (resolved_policy rp)" "live_run co env rq s = (r, s', fin)"
  obtains x where "fin = Some x" "s' = lx_session x"
    "run_post (from_resolved rp, g) (routed_completion co \<lparr>la_request = rq, la_policy = rp, la_profile_id = pid, la_env = env\<rparr>) (r, x)"
proof -
  let ?a = "\<lparr>la_request = rq, la_policy = rp, la_profile_id = pid, la_env = env\<rparr>"
  obtain led where led: "reserve_context (le_clock env 0) (request_context_bytes rq) (new_for_generation rp g) = (Inr (), led)"
    using context_admitted [OF assms(1,2,4)] .
  note start = run_start [OF assms(2,3) led]
  have "run_post (from_resolved rp, g) (routed_completion co ?a) (run_inner co ?a (live_ctx_new s1 g led))"
    by (rule run_inner_post) (use start in simp_all)
  moreover obtain r' x where x: "run_inner co ?a (live_ctx_new s1 g led) = (r', x)" by fastforce
  moreover have "live_run co env rq s = (r', lx_session x, Some x)"
    by (simp add: live_run_def assms(1,3) led x)
  ultimately show thesis using that [of x] assms(5) by simp
qed

end
