(* ===== verification/Live_Guarantees.thy ===== *)
theory Live_Guarantees
  imports Live_Run
begin

text \<open>
  The guarantees of the live coordinator's \<open>run\<close> as statements about whole runs: how they leave the
  session, the ledger and the registry, what completion means, and that an undisturbed run completes.
\<close>

section \<open>Undisturbed runs\<close>

text \<open>A guard operation uses at most one handle.\<close>

lemma register_child_handles:
  "register_child_guard g k c = (r, c') \<Longrightarrow> next_handle_value (oc_state c') \<le> Suc (next_handle_value (oc_state c))"
  by (auto simp: register_child_guard_def register_child_def with_cleanup_def next_handle_def Let_def
      split: if_splits prod.splits sum.splits)

lemma register_reservation_handles:
  assumes "register_reservation_guard g k c = (r, c')"
  shows "next_handle_value (oc_state c') \<le> Suc (next_handle_value (oc_state c))"
  using assms by (cases k) (auto simp: register_reservation_guard_def register_reservation_def with_cleanup_def next_handle_def Let_def
      split: if_splits prod.splits sum.splits)

lemma release_handles [simp]:
  "next_handle_value (oc_state (snd (complete_child g h c))) = next_handle_value (oc_state c)"
  "next_handle_value (oc_state (snd (resolve_reservation g k h c))) = next_handle_value (oc_state c)"
  "next_handle_value (oc_state (child_guard_drop cg c)) = next_handle_value (oc_state c)"
  "next_handle_value (oc_state (reservation_guard_drop rg c)) = next_handle_value (oc_state c)"
proof -
  show child: "next_handle_value (oc_state (snd (complete_child g h c))) = next_handle_value (oc_state c)" for g h
    by (simp add: complete_child_def with_cleanup_def)
  show res: "next_handle_value (oc_state (snd (resolve_reservation g k h c))) = next_handle_value (oc_state c)" for g k h
    by (cases k) (simp_all add: resolve_reservation_def with_cleanup_def)
  show "next_handle_value (oc_state (child_guard_drop cg c)) = next_handle_value (oc_state c)"
    by (simp add: child_guard_drop_def child split: option.split)
  show "next_handle_value (oc_state (reservation_guard_drop rg c)) = next_handle_value (oc_state c)"
    by (simp add: reservation_guard_drop_def res split: option.split)
qed

lemma release_handles_eq:
  "complete_child g h c = (r1, c') \<Longrightarrow> next_handle_value (oc_state c') = next_handle_value (oc_state c)"
  "resolve_reservation g k h c = (r2, c') \<Longrightarrow> next_handle_value (oc_state c') = next_handle_value (oc_state c)"
  by (metis release_handles(1) snd_conv) (metis release_handles(2) snd_conv)

lemma close_handles:
  "child_guard_complete cg c = (r1, cg', c') \<Longrightarrow> next_handle_value (oc_state c') = next_handle_value (oc_state c)"
  "reservation_guard_resolve rg c = (r2, rg', c') \<Longrightarrow> next_handle_value (oc_state c') = next_handle_value (oc_state c)"
  by (auto simp: child_guard_complete_def reservation_guard_resolve_def dest: release_handles_eq
      split: option.splits prod.splits sum.splits)

abbreviation sys_handles :: "cleanup_sys \<Rightarrow> nat" where
  "sys_handles s \<equiv> next_handle_value (oc_state (gs_cleanup s))"

lemma session_op_handles: "session_guard_op op \<Longrightarrow> sys_handles (guard_apply s op) \<le> Suc (sys_handles s)"
  by (cases op) (auto dest: register_child_handles register_reservation_handles close_handles split: option.split prod.split sum.split)

lemma session_ops_handles:
  "list_all session_guard_op ops \<Longrightarrow> sys_handles (foldl guard_apply s ops) \<le> sys_handles s + length ops"
proof (induction ops arbitrary: s)
  case (Cons op ops)
  then have "sys_handles (foldl guard_apply (guard_apply s op) ops) \<le> sys_handles (guard_apply s op) + length ops"
    "sys_handles (guard_apply s op) \<le> Suc (sys_handles s)"
    using session_op_handles [of op s] by simp_all
  then have "sys_handles (foldl guard_apply (guard_apply s op) ops) \<le> sys_handles s + length (op # ops)"
    unfolding length_Cons by linarith
  then show ?case by simp
qed simp

lemma drop_ops_handles:
  "sys_handles (foldl guard_apply s (map G_DropChild js)) = sys_handles s"
  "sys_handles (foldl guard_apply s (map G_DropReservation js)) = sys_handles s"
  by (induction js arbitrary: s) (auto split: option.split)

lemma batch_registry_handles:
  "next_handle_value (oc_state (batch_registry gd ops c)) \<le> next_handle_value (oc_state c) + length ops"
proof -
  let ?s = "\<lparr>gs_cleanup = c, gs_children = [Some gd], gs_reservations = []\<rparr>"
  have "sys_handles (foldl guard_apply ?s (filter session_guard_op ops)) \<le> next_handle_value (oc_state c) + length (filter session_guard_op ops)"
    using session_ops_handles [of "filter session_guard_op ops" ?s] by (simp add: list_all_iff)
  also have "\<dots> \<le> next_handle_value (oc_state c) + length ops" by simp
  finally show ?thesis by (simp add: batch_registry_def Let_def drop_session_guards_def drop_ops_handles)
qed

text \<open>The stages of a run that nothing disturbs, with the registry's handles counted.\<close>

lemma no_cause: "ctx_ok H L x \<Longrightarrow> \<not> lx_cancelled x \<Longrightarrow> tca_accepted (oc_cause_arbiter (lx_cleanup x)) = None"
  by (auto simp: ctx_ok_def registry_ok_def)

abbreviation handles :: "live_ctx \<Rightarrow> nat" where
  "handles x \<equiv> next_handle_value (oc_state (lx_cleanup x))"

lemma with_child_runs:
  assumes "run_live L x" "handles x < u64_max"
    and body: "\<And>h c r z. ctx_ok (Some h) L (x\<lparr>lx_cleanup := c\<rparr>) \<Longrightarrow> next_handle_value (oc_state c) = Suc (handles x) \<Longrightarrow>
      body \<lparr>cg_generation = snd L, cg_handle = Some h\<rparr> (x\<lparr>lx_cleanup := c\<rparr>) = (r, z) \<Longrightarrow>
      ctx_ok (Some h) L z \<and> same_run_state x z \<and> r = result \<and> \<not> lx_cancelled z \<and> handles z \<le> n"
  shows "\<exists>y. with_child kind body k x = k result y \<and> run_live L y \<and> lx_roles y = lx_roles x \<and> \<not> lx_cancelled y \<and> handles y \<le> n"
proof -
  have "(handles_exhausted x \<and> with_child kind body k x = Stop (internal x))
    \<or> (\<exists>r y. ctx_ok None L y \<and> same_run_state x y \<and> (r = result \<and> \<not> lx_cancelled y \<and> handles y \<le> n) \<and> with_child kind body k x = k r y)"
    by (rule with_child_rule [where Q = "\<lambda>r y. r = result \<and> \<not> lx_cancelled y \<and> handles y \<le> n"]) (use assms(1) body in simp_all)
  then obtain y where y: "ctx_ok None L y" "same_run_state x y" "\<not> lx_cancelled y" "handles y \<le> n" "with_child kind body k x = k result y"
    using assms(2) by auto
  moreover have "session_at (snd L) Sess_Running y" using assms(1) session_at_same [OF y(2)] by simp
  moreover have "lx_roles y = lx_roles x" using y(2) by (simp add: same_run_state_def)
  ultimately show ?thesis by blast
qed

lemma executor_stage_runs:
  assumes "run_live L x" "\<not> lx_cancelled x" "handles x < u64_max"
    and "admit_executor_tasks (le_clock (la_env a) 1) (max (length (lor_tasks (la_request a))) 1) (lx_ledger x) = (Inr (), led)"
    and "run_batch rt (le_batch (la_env a)) (executor_request (la_request a) (la_policy a) False) = Inr batch"
    and "le_timeout (la_env a) = None" "\<not> le_cancel (la_env a) 3"
  shows "\<exists>y. executor_stage a rt k x = k batch y \<and> run_live L y \<and> \<not> lx_cancelled y
    \<and> handles y \<le> Suc (handles x) + length (le_batch_registry (la_env a))"
proof -
  let ?x = "push_event (Ev_RoleStarted Executor) (push_event Ev_ExecutorBatchStarted x)"
    and ?n = "Suc (handles x) + length (le_batch_registry (la_env a))"
  let ?k = "\<lambda>r y. case r of
            Exec_Refused \<Rightarrow> Stop (finish_outcome a LT_BudgetExhausted (Some LE_BudgetExhaustion) y)
          | Exec_Error e \<Rightarrow> Stop (finish_outcome a LT_Failed (Some e) y)
          | Exec_Batch batch \<Rightarrow>
              let z = read_cancel (la_env a) 3 (count_batch batch y) in
              if lx_cancelled z then Stop (finish_outcome a LT_Cancelled (Some LE_Cancellation) z)
              else k batch z"
  have ev: "lx_ledger ?x = lx_ledger x" "lx_cancelled ?x = lx_cancelled x" by (simp_all add: push_event_def)
  have live: "run_live L ?x" "handles ?x < u64_max" using assms(1,3) by simp_all
  have "\<exists>y. with_child Child_ExecutorBatch (executor_body a rt) ?k ?x = ?k (Exec_Batch batch) y \<and> run_live L y
      \<and> lx_roles y = lx_roles ?x \<and> \<not> lx_cancelled y \<and> handles y \<le> ?n"
  proof (rule with_child_runs [OF live])
    fix h c r z
    let ?gd = "\<lparr>cg_generation = snd L, cg_handle = Some h\<rparr>"
    assume b: "ctx_ok (Some h) L (?x\<lparr>lx_cleanup := c\<rparr>)" "next_handle_value (oc_state c) = Suc (handles ?x)"
      "executor_body a rt ?gd (?x\<lparr>lx_cleanup := c\<rparr>) = (r, z)"
    have z: "r = Exec_Batch batch" "z = ?x\<lparr>lx_ledger := batch_ledger (le_batch_ledger (la_env a)) led,
        lx_cleanup := batch_registry ?gd (le_batch_registry (la_env a)) c\<rparr>"
      using b(3) assms(2,4,5,6) by (auto simp: executor_body_def run_executor_def ev await_end_def Let_def)
    then show "ctx_ok (Some h) L z \<and> same_run_state ?x z \<and> r = Exec_Batch batch \<and> \<not> lx_cancelled z \<and> handles z \<le> ?n"
      using executor_body_ok [OF b(1,3)] assms(2) b(2) batch_registry_handles [of ?gd "le_batch_registry (la_env a)" c]
      by (simp add: same_run_state_def ev)
  qed
  then obtain y where y: "executor_stage a rt k x = ?k (Exec_Batch batch) y" "run_live L y" "\<not> lx_cancelled y" "handles y \<le> ?n"
    unfolding executor_stage_def by blast
  have "\<not> lx_cancelled (read_cancel (la_env a) 3 (count_batch batch y))"
    using y(3) assms(7) by (simp add: read_cancel_def count_batch_def count_role_def push_role_def)
  moreover have "lx_cleanup (count_batch batch y) = lx_cleanup y" by (simp add: count_batch_def count_role_def push_role_def)
  ultimately show ?thesis
    using y by (intro exI [of _ "read_cancel (la_env a) 3 (count_batch batch y)"]) (simp add: read_cancel_ok)
qed

text \<open>A request that asks for no provider verification: it has none, or brings its acceptance.\<close>

fun verification_settled :: "VerificationContract \<Rightarrow> bool" where
  "verification_settled Verification_NotRequested = True"
| "verification_settled (Verification_Decision Decision_Accepted) = True"
| "verification_settled _ = False"

lemma verify_settled:
  assumes "verification_settled (lor_verification (la_request a))"
  obtains v where "\<forall>x. verify a rt x = (v, x)" "verdict_rejection v = None" "\<not> verdict_failed v"
proof (cases "activation (la_policy a) Verifier = Role_Disabled")
  case True
  then show thesis using that [of "VR_Skipped Skip_Disabled"] by (simp add: verify_def)
next
  case False
  show thesis
  proof (cases "lor_verification (la_request a) = Verification_NotRequested")
    case True
    then show thesis using False that [of "VR_Skipped Skip_NotRequested"] by (simp add: verify_def)
  next
    case no: False
    then have "lor_verification (la_request a) = Verification_Decision Decision_Accepted"
      using assms by (cases "lor_verification (la_request a)" rule: verification_settled.cases) auto
    then show thesis using False that [of "VR_Accepted (skipped Verifier Skip_NotRequested)"] by (simp add: verify_def)
  qed
qed

lemma verifier_stage_runs:
  assumes "run_live L x" "\<not> lx_cancelled x" "handles x < u64_max" "verification_settled (lor_verification (la_request a))"
  shows "\<exists>y. verifier_stage a rt k x = k None y \<and> run_live L y \<and> \<not> lx_cancelled y"
proof -
  obtain v where v: "\<forall>x. verify a rt x = (v, x)" "verdict_rejection v = None" "\<not> verdict_failed v"
    using verify_settled [OF assms(4), of rt] .
  have plain: "\<not> verification_provider (lor_verification (la_request a))"
    using assms(4) by (cases "lor_verification (la_request a)") auto
  let ?k = "\<lambda>r y. case r of
            VR_Skipped reason \<Rightarrow>
              k None (push_event (Ev_RoleSkipped Verifier reason) (push_role (skipped Verifier reason) y))
          | VR_Accepted role \<Rightarrow> k None (push_event Ev_VerifierDecision (count_role role y))
          | VR_Rejected role decision \<Rightarrow> k (Some decision) (push_event Ev_VerifierDecision (count_role role y))
          | VR_Failed role \<Rightarrow>
              let z = read_cancel (la_env a) 4 (push_role role y) in
              Stop (if lx_cancelled z then finish_outcome a LT_Cancelled (Some LE_Cancellation) z
                    else finish_outcome a LT_Failed (Some LE_VerifierRuntimeFailure) z)"
  have "\<exists>y. with_child Child_Verifier (\<lambda>_. verify a rt) ?k x = ?k v y \<and> run_live L y \<and> lx_roles y = lx_roles x
      \<and> \<not> lx_cancelled y \<and> handles y \<le> Suc (handles x)"
    by (rule with_child_runs [OF assms(1,3)]) (use assms(2) v(1) in \<open>auto simp: same_run_state_def\<close>)
  then obtain y where y: "verifier_stage a rt k x = ?k v y" "run_live L y" "\<not> lx_cancelled y"
    using plain unfolding verifier_stage_def by auto
  have keep: "lx_cancelled (push_event e z) = lx_cancelled z" "lx_cancelled (push_role r z) = lx_cancelled z"
    "lx_cancelled (count_role r z) = lx_cancelled z" for e r z by (simp_all add: push_event_def push_role_def count_role_def)
  have "\<exists>z. ?k v y = k None z \<and> run_live L z \<and> \<not> lx_cancelled z"
  proof (cases v)
    case (VR_Skipped reason)
    then show ?thesis using y(2,3)
      by (intro exI [of _ "push_event (Ev_RoleSkipped Verifier reason) (push_role (skipped Verifier reason) y)"]) (simp add: keep)
  next
    case (VR_Accepted role)
    then show ?thesis using y(2,3) by (intro exI [of _ "push_event Ev_VerifierDecision (count_role role y)"]) (simp add: keep)
  qed (use v(2,3) in simp_all)
  then show ?thesis unfolding y(1) .
qed

lemma run_inner_completes:
  assumes ok: "ctx_ok None L x" "session_at (snd L) Sess_Preparing x" "lx_roles x = []" "handles x = 0" "\<not> lx_cancelled x"
    and quiet: "\<And>n. \<not> le_cancel (la_env a) n" "le_timeout (la_env a) = None"
    and profile: "registry_get (loc_profiles co) (la_profile_id a) = Some profile"
      "validate_routing (la_policy a) profile (loc_connections co) (lor_verification (la_request a)) (lor_planning (la_request a)) = Inr ()"
    and plain: "lor_planning (la_request a) = Planning_NotRequested" "verification_settled (lor_verification (la_request a))"
    and admitted: "admit_executor_tasks (le_clock (la_env a) 1) (max (length (lor_tasks (la_request a))) 1) (lx_ledger x) = (Inr (), led)"
    and batch: "run_batch (run_runtime co profile) (le_batch (la_env a)) (executor_request (la_request a) (la_policy a) False) = Inr batch"
      "\<not> executor_failed batch"
    and short: "length (le_batch_registry (la_env a)) + 1 < u64_max"
  obtains out y where "run_inner co a x = (Inr out, y)" "loo_terminal out = LT_Completed"
proof -
  let ?rt = "run_runtime co profile"
  define s1 where "s1 = (lx_session x)\<lparr>ses_inner := (ses_inner (lx_session x))\<lparr>sei_status := Sess_Validating\<rparr>\<rparr>"
  define s2 where "s2 = s1\<lparr>ses_inner := (ses_inner s1)\<lparr>sei_validation := Validation_Valid\<rparr>\<rparr>"
  define s3 where "s3 = s2\<lparr>ses_inner := (ses_inner s2)\<lparr>sei_status := Sess_Running\<rparr>\<rparr>"
  define z where "z = (push_event Ev_PolicyValidated (x\<lparr>lx_session := s1\<rparr>\<lparr>lx_session := s2\<rparr>))\<lparr>lx_session := s3\<rparr>"
  have steps: "session_transition Sess_Validating (lx_session x) = (Inr (), s1)" "mark_policy_valid s1 = (Inr (), s2)"
    "session_transition Sess_Running s2 = (Inr (), s3)"
    using ok(2) by (simp_all add: s1_def s2_def s3_def session_at_def session_transition_def mark_policy_valid_def with_session_def)
  have nocancel: "read_cancel (la_env a) n y = y" for n y using quiet(1) by (simp add: read_cancel_def)
  have run: "run_inner co a x = step_result (running_stages a ?rt z)"
    using steps profile ok(5)
    by (simp add: run_inner_def with_state_def nocancel z_def run_runtime_def push_event_def Let_def)
  have z: "run_live L z" "\<not> lx_cancelled z" "handles z < u64_max" "lx_ledger z = lx_ledger x" "lx_roles z = []"
    using ok by (simp_all add: z_def s1_def s2_def s3_def session_at_def push_event_def ctx_ok_def u64_max_def)
  define z1 where "z1 = push_event (Ev_RoleSkipped Planner Skip_NotRequested) (push_role (skipped Planner Skip_NotRequested) z)"
  have z1: "run_live L z1" "\<not> lx_cancelled z1" "handles z1 < u64_max" "lx_ledger z1 = lx_ledger x" "handles z1 = 0"
    using z ok(4) by (simp_all add: z1_def push_event_def push_role_def z_def ctx_ok_def session_at_def)
  let ?v = "\<lambda>batch. verifier_stage a ?rt (\<lambda>rejection y. and_then (repair_stage a ?rt rejection y) (final_stage a batch))"
  obtain z2 where z2: "executor_stage a ?rt ?v z1 = ?v batch z2" "run_live L z2" "\<not> lx_cancelled z2"
    "handles z2 \<le> Suc (handles z1) + length (le_batch_registry (la_env a))"
    using executor_stage_runs [OF z1(1-3) _ batch(1) quiet(2) quiet(1), of led ?v] admitted z1(4) by auto
  have "handles z2 < u64_max" using z2(4) z1(5) short by simp
  then obtain z3 where z3: "?v batch z2 = and_then (repair_stage a ?rt None z3) (final_stage a batch)" "run_live L z3" "\<not> lx_cancelled z3"
    using verifier_stage_runs [OF z2(2,3) _ plain(2), of ?rt "\<lambda>rejection y. and_then (repair_stage a ?rt rejection y) (final_stage a batch)"]
    by blast
  obtain w where w: "repair_stage a ?rt None z3 = Go w" "run_live L w" "\<not> lx_cancelled w"
    using z3(2,3) that by (simp add: repair_stage_def Let_def push_event_def push_role_def ctx_ok_def session_at_def)
  have none: "tca_accepted (oc_cause_arbiter (lx_cleanup w)) = None" using w(2,3) no_cause by blast
  have "\<exists>out y. finish_outcome a LT_Completed None w = (Inr out, y) \<and> loo_terminal out = LT_Completed"
    by (rule finish_outcome_ok [of L w LT_Completed a None]) (use w(2) none in auto)
  then obtain out y where fin: "finish_outcome a LT_Completed None w = (Inr out, y)" "loo_terminal out = LT_Completed"
    by blast
  have "running_stages a ?rt z = Stop (Inr out, y)"
    using z2(1) z3(1) w(1,3) fin(1) batch(2) plain(1)
    by (simp add: running_stages_def planner_stage_def z1_def [symmetric] final_stage_def nocancel Let_def)
  then show thesis using that run fin(2) by simp
qed

text \<open>From the request: nothing is planned, verification is settled, no one cancels, no timer fires and the
  batch ends without a failed task.\<close>

definition undisturbed :: "live_env \<Rightarrow> bool" where
  "undisturbed env \<longleftrightarrow> (\<forall>n. \<not> le_cancel env n) \<and> le_timeout env = None
     \<and> length (le_batch_registry env) + 1 < u64_max"

lemma tasks_admitted:
  assumes "resolve_mode sel = Inr rp" "n \<le> ep_max_subagents (resolved_policy rp)"
    and "fst t < ep_batch_timeout (resolved_policy rp)"
    and "executor_tasks_admitted (led_state led) = 0" "\<not> terminal (led_state led)" "\<not> led_poisoned led" "led_limits led = from_resolved rp"
  obtains led' where "admit_executor_tasks t (max n 1) led = (Inr (), led')"
proof -
  have p: "1 \<le> ep_max_subagents (resolved_policy rp)" "0 < ep_max_concurrency (resolved_policy rp)"
    using resolved_ok(2) [OF assms(1)] by (auto simp: ceilings_ok_def)
  have small: "ep_max_subagents (resolved_policy rp) < u64_max"
    using limits_small_resolved [OF assms(1)] by (simp add: limits_small_def from_resolved_def Let_def)
  have "saturating_add 0 (max n 1) \<le> ep_max_subagents (resolved_policy rp)"
    using p(1) small assms(2) by (simp add: saturating_add_def)
  then show thesis
    using that p(2) assms(3-) by (simp add: admit_executor_tasks_def with_ledger_def open_ledger_def check_elapsed_def from_resolved_def Let_def)
qed

lemma quiet_run_completes:
  assumes prep: "live_prepare co rq s = Inr (rp, pid)" "resolve_mode sel = Inr rp" "begin_run s = (Inr g, s1)"
    and time: "fst (le_clock env 0) < ep_batch_timeout (resolved_policy rp)" "fst (le_clock env 1) < ep_batch_timeout (resolved_policy rp)"
    and quiet: "undisturbed env"
    and plain: "lor_planning rq = Planning_NotRequested" "verification_settled (lor_verification rq)"
    and profile: "registry_get (loc_profiles co) pid = Some profile"
      "validate_routing rp profile (loc_connections co) (lor_verification rq) (lor_planning rq) = Inr ()"
    and batch: "run_batch (run_runtime co profile) (le_batch env) (executor_request rq rp False) = Inr batch" "\<not> executor_failed batch"
  shows "\<exists>out s' x. live_run co env rq s = (Inr out, s', Some x) \<and> loo_terminal out = LT_Completed"
proof -
  let ?a = "\<lparr>la_request = rq, la_policy = rp, la_profile_id = pid, la_env = env\<rparr>"
  obtain led where led: "reserve_context (le_clock env 0) (request_context_bytes rq) (new_for_generation rp g) = (Inr (), led)"
    "executor_tasks_admitted (led_state led) = 0" "\<not> terminal (led_state led)" "\<not> led_poisoned led" "led_limits led = from_resolved rp"
    using context_admitted [OF prep(1,2) time(1)] .
  have "length (lor_tasks rq) \<le> ep_max_subagents (resolved_policy rp)"
    using prep(1) by (auto simp: live_prepare_def live_validate_request_def res_bind_def split: sum.splits if_splits)
  then obtain led' where led': "admit_executor_tasks (le_clock env 1) (max (length (lor_tasks rq)) 1) led = (Inr (), led')"
    using tasks_admitted [OF prep(2) _ time(2) led(2-5)] by blast
  note start = run_start [OF prep(2,3) led(1)]
  have env: "\<And>n. \<not> le_cancel env n" "le_timeout env = None" "length (le_batch_registry env) + 1 < u64_max"
    using quiet by (auto simp: undisturbed_def)
  have ledger: "lx_ledger (live_ctx_new s1 g led) = led" by (simp add: live_ctx_new_def)
  have "\<exists>out y. run_inner co ?a (live_ctx_new s1 g led) = (Inr out, y) \<and> loo_terminal out = LT_Completed"
    by (rule run_inner_completes [of "(from_resolved rp, g)" "live_ctx_new s1 g led" ?a co profile led' batch])
      (use start env profile plain led' ledger batch in simp_all)
  then show ?thesis by (auto simp: live_run_def prep led(1))
qed

section \<open>Properties\<close>


text \<open>C4: Whatever the roles do, in whatever order the executor tasks interleave and however the run
  ends, the run's ledger stays within the policy, and unless the registry ran out of handles the run
  hands back everything: no reservation is open, no child or reservation is registered, the cleanup is
  complete and the ledger admits nothing more.\<close>

theorem live_run_within_policy:
  assumes "live_prepare co rq s = Inr (rp, pid)" "resolve_mode sel = Inr rp" "begin_run s = (Inr g, s1)"
    and "fst (le_clock env 0) < ep_batch_timeout (resolved_policy rp)" "live_run co env rq s = (r, s', fin)"
  shows "\<exists>x. fin = Some x \<and>
    (let st = led_state (lx_ledger x); p = resolved_policy rp; c = oc_state (lx_cleanup x) in
       provider_started st \<le> ep_max_provider_invocations p \<and> tool_started st \<le> ep_max_tool_calls p
       \<and> context_bytes_consumed st \<le> ep_context_budget_bytes p \<and> output_tokens_consumed st \<le> ep_output_budget_tokens p
       \<and> tool_output_bytes st \<le> ep_max_tool_output_bytes p \<and> executor_tasks_admitted st \<le> ep_max_subagents p
       \<and> repair_attempts_admitted st \<le> ep_max_repair_attempts p
       \<and> provider_reserved st = 0 \<and> tool_reserved st = 0
       \<and> (terminal st \<and> cleanup_complete c \<and> active_children c = [] \<and> provider_reservations c = [] \<and> tool_reservations c = []
          \<or> r = Inl LE_InternalCoordinatorFailure \<and> next_handle_value c = u64_max))"
proof -
  let ?L = "(from_resolved rp, g)"
  from assms obtain x where x: "fin = Some x" "s' = lx_session x"
    "run_post ?L (routed_completion co \<lparr>la_request = rq, la_policy = rp, la_profile_id = pid, la_env = env\<rparr>) (r, x)"
    by (rule live_run_post)
  have led: "ledger_ok ?L [] 0 (lx_ledger x)"
    and closed: "run_closed ?L x \<or> r = Inl LE_InternalCoordinatorFailure \<and> handles_exhausted x"
    using x(3) by (auto simp: run_post_def run_closed_def split: sum.splits)
  have "budget_inv \<lparr>sys_ledger = lx_ledger x, sys_reservations = [], sys_guards = [], sys_tools = 0\<rparr>"
    "led_limits (lx_ledger x) = from_resolved rp"
    using led by (simp_all add: ledger_ok_def ledger_frame_def)
  then have "provider_started (led_state (lx_ledger x)) \<le> max_provider_invocations (from_resolved rp)"
    "provider_reserved (led_state (lx_ledger x)) = 0" "tool_reserved (led_state (lx_ledger x)) = 0"
    "tool_started (led_state (lx_ledger x)) \<le> max_tool_calls (from_resolved rp)"
    "metered_inv (from_resolved rp) (led_state (lx_ledger x))"
    by (simp_all add: budget_inv_def provider_inv_def tool_inv_def Let_def)
  then show ?thesis
    using x(1) closed by (auto simp: from_resolved_def Let_def metered_inv_def run_closed_def nothing_held_def)
qed

text \<open>C5: What completion means. A run that reports completion ran on an enabled profile whose routes it
  had validated; its roles are exactly planner, executor, verifier and repair in this order; the planner
  succeeded if the request asked for it; the executor's report is that of a batch over the request's own
  tasks in which no task failed or ran out of budget; the verifier did not fail, and when it rejected the
  work a repair succeeded, otherwise none ran.\<close>

theorem live_run_completed_meaning:
  assumes "live_prepare co rq s = Inr (rp, pid)" "resolve_mode sel = Inr rp" "begin_run s = (Inr g, s1)"
    and "fst (le_clock env 0) < ep_batch_timeout (resolved_policy rp)" "live_run co env rq s = (Inr out, s', fin)"
    and "loo_terminal out = LT_Completed"
  shows "\<exists>profile planner batch cancelled x y v repair.
    let a = \<lparr>la_request = rq, la_policy = rp, la_profile_id = pid, la_env = env\<rparr>;
        rt = \<lparr>rt_profiles = selected_registry (loc_profiles co) profile, rt_directory = loc_connections co\<rparr> in
    registry_get (loc_profiles co) pid = Some profile
    \<and> validate_routing rp profile (loc_connections co) (lor_verification rq) (lor_planning rq) = Inr ()
    \<and> loo_roles out = [planner, role_from_batch batch, verdict_role v, repair]
    \<and> lro_role planner = Planner
    \<and> lro_state planner = (if planning_required (lor_planning rq) then LR_Succeeded else LR_Skipped)
    \<and> run_batch rt (le_batch env) (executor_request rq rp cancelled) = Inr batch
    \<and> list_all (\<lambda>t. sto_state t \<noteq> TS_Failed \<and> sto_state t \<noteq> TS_BudgetExhausted) (sbo_tasks batch)
    \<and> verify a rt x = (v, y) \<and> \<not> verdict_failed v
    \<and> lro_role repair = Repair
    \<and> lro_state repair = (if verdict_rejection v = None then LR_Skipped else LR_Succeeded)"
proof -
  let ?a = "\<lparr>la_request = rq, la_policy = rp, la_profile_id = pid, la_env = env\<rparr>"
  from assms(1-5) obtain x where "run_post (from_resolved rp, g) (routed_completion co ?a) (Inr out, x)"
    by (rule live_run_post)
  then have "routed_completion co ?a (loo_roles out)" using assms(6) by (simp add: run_post_def)
  then obtain profile where p: "registry_get (loc_profiles co) pid = Some profile"
    "validate_routing rp profile (loc_connections co) (lor_verification rq) (lor_planning rq) = Inr ()"
    "run_completed ?a (run_runtime co profile) (loo_roles out)"
    by (auto simp: routed_completion_def)
  from p(3) obtain planner batch v repair where c: "loo_roles out = [planner, role_from_batch batch, verdict_role v, repair]"
    "planner_done ?a planner" "executed_batch ?a (run_runtime co profile) batch" "\<not> executor_failed batch"
    "verified ?a (run_runtime co profile) v" "\<not> verdict_failed v" "repair_done (verdict_rejection v) repair"
    unfolding run_completed_def by blast
  obtain cancelled x y where "run_batch (run_runtime co profile) (le_batch env) (executor_request rq rp cancelled) = Inr batch"
    "verify ?a (run_runtime co profile) x = (v, y)"
    using c(3,5) by (auto simp: executed_batch_def verified_def)
  moreover have "list_all (\<lambda>t. sto_state t \<noteq> TS_Failed \<and> sto_state t \<noteq> TS_BudgetExhausted) (sbo_tasks batch)"
    using c(4) by (auto simp: executor_failed_def list_all_iff list_ex_iff)
  ultimately show ?thesis
    using p(1,2) c(1,2,6,7) unfolding Let_def planner_done_def repair_done_def run_runtime_def
    by (intro exI [of _ profile] exI [of _ planner] exI [of _ batch] exI [of _ cancelled] exI [of _ x] exI [of _ y]
        exI [of _ v] exI [of _ repair]) simp
qed


section \<open>A run of one task\<close>

text \<open>The fast mode on the example profile, with the task's session ending with \<open>x\<close>.\<close>

definition demo_live_request :: LiveOrchestrationRequest where
  "demo_live_request =
     \<lparr>lor_run_id = ''run'', lor_policy = None, lor_routing_profile_id = None, lor_instruction = ''do'',
      lor_context = None,
      lor_tasks = [\<lparr>pts_task_id = ''t1'', pts_instruction = ''do'', pts_context = None,
                    pts_tool_policy = small_tool_policy, pts_timeout = None\<rparr>],
      lor_planning = Planning_NotRequested, lor_verification = Verification_NotRequested,
      lor_failure_policy = ContinueIndependent, lor_repair_instruction = '''',
      lor_approved_tool_policy = small_tool_policy, lor_overall_timeout = None\<rparr>"

definition demo_live_env :: "SubagentOutcome \<Rightarrow> live_env" where
  "demo_live_env x =
     \<lparr>le_cancel = (\<lambda>_. False), le_timeout = None, le_clock = (\<lambda>_. (0, 0)), le_elapsed = 0,
      le_planner = demo_session, le_planner_cancelled = (False, False),
      le_batch = demo_batch_env (End_Outcome x), le_batch_ledger = [], le_batch_registry = [],
      le_verifier = demo_session, le_verifier_cancelled = (False, False),
      le_repair = demo_repair_world\<rparr>"

definition demo_coordinator :: LiveOrchestrationCoordinator where
  "demo_coordinator = \<lparr>loc_profiles = demo_registry, loc_connections = add_codex demo_accounts []\<rparr>"

definition fast_policy :: ResolvedExecutionPolicy where
  "fast_policy = \<lparr>resolved_selected_mode = Select_Fast, resolved_source = Source_BuiltIn BuiltIn_Fast,
     resolved_policy = builtin BuiltIn_Fast\<rparr>"

definition demo_live_session :: SessionExecutionPolicyState where
  "demo_live_session =
     \<lparr>ses_inner =
        \<lparr>sei_strategy = Mode_Manual, sei_selected_mode = Select_Fast, sei_resolved_policy = fast_policy,
         sei_resolved_orchestration_policy =
           \<lparr>rop_strategy = Mode_Manual, rop_execution = fast_policy, rop_availability = Strategy_Available\<rparr>,
         sei_routing_profile_id = None, sei_source = PS_Default, sei_validation = Validation_Unresolved,
         sei_status = Sess_Idle, sei_next_generation = 0, sei_active_generation = None,
         sei_routing_update_in_progress = False\<rparr>,
      ses_poisoned = False\<rparr>"

lemma fast_resolves: "resolve_mode Select_Fast = Inr fast_policy"
  unfolding fast_policy_def by (rule resolve_builtin) simp

lemma demo_session_new: "with_strategy_selection Mode_Manual Select_Fast PS_Default = Inr demo_live_session"
  by (simp add: demo_live_session_def with_strategy_selection_def orchestration_resolve_def fast_resolves)

lemma demo_session_fields:
  "\<not> ses_poisoned demo_live_session" "sei_resolved_policy (ses_inner demo_live_session) = fast_policy"
  "sei_routing_profile_id (ses_inner demo_live_session) = None" "sei_status (ses_inner demo_live_session) = Sess_Idle"
  "sei_next_generation (ses_inner demo_live_session) = 0" "\<not> sei_routing_update_in_progress (ses_inner demo_live_session)"
  by (simp_all add: demo_live_session_def)

lemma fast_limits:
  "ep_max_subagents (resolved_policy fast_policy) = 1" "ep_max_concurrency (resolved_policy fast_policy) = 1"
  "ep_max_provider_invocations (resolved_policy fast_policy) = 1" "ep_max_tool_calls (resolved_policy fast_policy) = 4"
  "ep_max_tool_output_bytes (resolved_policy fast_policy) = 32768" "ep_context_budget_bytes (resolved_policy fast_policy) = 4096"
  "ep_batch_timeout (resolved_policy fast_policy) = secs 30" "ep_task_timeout (resolved_policy fast_policy) = secs 30"
  "ep_output_budget_tokens (resolved_policy fast_policy) = 1000"
  by (simp_all add: fast_policy_def make_policy_def)

lemma demo_prepared: "live_prepare demo_coordinator demo_live_request demo_live_session = Inr (fast_policy, ''prod'')"
proof -
  have pid: "live_profile_id demo_coordinator demo_live_request demo_live_session = Inr ''prod''"
    by (simp add: live_profile_id_def demo_live_request_def demo_coordinator_def session_routing_profile_id_def with_session_def
        demo_session_fields demo_registry_active)
  have "live_policy demo_live_request demo_live_session = Inr fast_policy"
    by (simp add: live_policy_def demo_live_request_def session_resolved_policy_def with_session_def demo_session_fields)
  moreover have "live_validate_request demo_live_request fast_policy = Inr ()"
    by (simp add: live_validate_request_def demo_live_request_def fast_limits MAX_RUN_ID_BYTES_def MAX_INSTRUCTION_BYTES_def)
  moreover have "request_context_bytes demo_live_request \<le> 4096"
    by (simp add: request_context_bytes_def demo_live_request_def saturating_add_def usize_sum_def u64_max_def wrapping_add_def Let_def)
  ultimately show ?thesis by (simp add: live_prepare_def pid fast_limits)
qed

lemma demo_begins: "\<exists>s1. begin_run demo_live_session = (Inr 1, s1)"
  by (simp add: begin_run_def with_session_def demo_session_fields u64_max_def Let_def)

lemma demo_profile_stored: "registry_get demo_registry ''prod'' = Some demo_profile" "selected_registry demo_registry demo_profile = demo_registry"
  by code_simp+

lemma fast_activation: "activation fast_policy Main \<noteq> Role_Disabled" "activation fast_policy Executor \<noteq> Role_Disabled"
  by (simp_all add: activation_def resolved_role_def policy_index_def fast_policy_def make_policy_def role_policy_def less_RoutingRole_def)

lemma demo_routes_valid:
  "validate_routing fast_policy demo_profile (add_codex demo_accounts []) Verification_NotRequested Planning_NotRequested = Inr ()"
proof -
  have "is_ok (directory_validate_assignment (add_codex demo_accounts []) (demo_assignment ''work''))" by code_simp
  then obtain m where m: "directory_validate_assignment (add_codex demo_accounts []) (demo_assignment ''work'') = Inr m"
    by (cases "directory_validate_assignment (add_codex demo_accounts []) (demo_assignment ''work'')") simp_all
  have a: "bt_get (rp_assignments demo_profile) Main = Some (demo_assignment ''work'')"
    "bt_get (rp_assignments demo_profile) Executor = Some demo_pool_assignment"
    "ra_enabled (demo_assignment ''work'')" "ra_enabled demo_pool_assignment" "ra_pool_id (demo_assignment ''work'') = None"
    "ra_pool_id demo_pool_assignment = Some ''team''" "rp_enabled demo_profile" by code_simp+
  have "remdups_adj (sort (needed_roles fast_policy Verification_NotRequested Planning_NotRequested)) = [Main, Executor]"
    by (simp add: needed_roles_def less_eq_RoutingRole_def less_RoutingRole_def)
  then show ?thesis using a m fast_activation by (simp add: validate_routing_def validate_live_route_def)
qed

text \<open>The batch of the example: its only task ends as \<open>x\<close> says.\<close>

definition demo_executor_request :: SubagentRequest where
  "demo_executor_request =
     \<lparr>sr_task_id = ''t1'', sr_parent_id = None, sr_role = Executor, sr_instruction = ''do'', sr_context = None,
      sr_timeout = secs 30, sr_max_output_tokens = 1000, sr_depth = 1,
      sr_tool_policy = small_tool_policy\<lparr>tp_budget := small_session_budget\<lparr>sb_max_provider_turns := 1\<rparr>\<rparr>\<rparr>"

lemma demo_executor_batch:
  "executor_request demo_live_request fast_policy False =
     \<lparr>sbr_tasks = [\<lparr>stk_request = demo_executor_request, stk_timeout_override = None, stk_cancelled = False\<rparr>],
      sbr_policy = to_batch_policy fast_policy ContinueIndependent\<rparr>"
  by (simp add: executor_request_def executor_task_def make_request_def demo_live_request_def demo_executor_request_def
      with_execution_limits_def small_tool_policy_def small_session_budget_def fast_limits Let_def)

lemma demo_executor_routed:
  "validate_for_batch (run_runtime demo_coordinator demo_profile) demo_executor_request = Inr ''prod''"
proof -
  have "\<not> is_blank ''t1''" "\<not> is_blank ''do''" by code_simp+
  then have "validate_request demo_executor_request = Inr ()"
    by (simp add: validate_request_def demo_executor_request_def small_tool_policy_def small_session_budget_def
        SUBAGENT_MAX_TASK_ID_BYTES_def SUBAGENT_MAX_INSTRUCTION_BYTES_def SUBAGENT_MIN_TIMEOUT_def
        SUBAGENT_MAX_TIMEOUT_def SUBAGENT_MIN_OUTPUT_TOKENS_def SUBAGENT_MAX_OUTPUT_TOKENS_def secs_def)
  moreover have "active demo_registry = Inr demo_profile" "bt_get (rp_assignments demo_profile) Executor = Some demo_pool_assignment"
    by code_simp+
  then have "route_assignment (run_runtime demo_coordinator demo_profile) demo_executor_request = Inr (demo_profile, demo_pool_assignment)"
    by (simp add: route_assignment_def run_runtime_def demo_coordinator_def demo_executor_request_def demo_profile_stored
        demo_pool_assignment_def)
  moreover have "rp_id demo_profile = ''prod''" by code_simp
  ultimately show ?thesis by (simp add: validate_for_batch_def resolved_route_def)
qed

lemma demo_live_batch:
  "\<exists>batch. run_batch (run_runtime demo_coordinator demo_profile) (demo_batch_env (End_Outcome x))
       (executor_request demo_live_request fast_policy False) = Inr batch
     \<and> map sto_state (sbo_tasks batch) = [task_state (so_status x)]"
proof -
  let ?rt = "run_runtime demo_coordinator demo_profile" and ?env = "demo_batch_env (End_Outcome x)"
    and ?req = "executor_request demo_live_request fast_policy False"
  have valid: "batch_validate ?rt ?req = Inr ()"
    unfolding demo_executor_batch
    by (simp add: batch_validate_def to_batch_policy_def fast_limits demo_executor_routed task_budget_def Let_def)
      (simp add: demo_executor_request_def small_session_budget_def SUBAGENT_BATCH_MAX_CONCURRENCY_def secs_def)
  have "let out = batch_outcome ?env ?req (final_state ?env ?req) in
     map sto_state (sbo_tasks out) = [task_state (so_status x)] \<and> sbo_peak_observed_concurrency out = 1
     \<and> (task_state (so_status x) \<in> {TS_Completed, TS_TimedOut} \<longrightarrow> sbo_status out = BS_Completed)"
  proof (rule single_task_outcome)
    show "aggregate_reserve reservation_default
        \<lparr>stk_request = demo_executor_request, stk_timeout_override = None, stk_cancelled = False\<rparr> (sbr_policy ?req)
      = Some \<lparr>ar_provider_turns = 1, ar_tool_calls = 2, ar_tool_output_bytes = 16\<rparr>"
      by (simp add: demo_executor_batch aggregate_reserve_def reservation_default_def task_budget_def demo_executor_request_def
          small_session_budget_def to_batch_policy_def fast_limits saturating_add_def u64_max_def Let_def)
  qed (simp_all add: demo_executor_batch to_batch_policy_def fast_limits Let_def)
  then show ?thesis by (simp add: run_batch_def valid Let_def)
qed

text \<open>The whole run of the example, with a completed or a timed out task: it completes.\<close>

lemma demo_undisturbed: "undisturbed (demo_live_env x)"
  by (simp add: undisturbed_def demo_live_env_def u64_max_def)

lemma demo_plain:
  "lor_planning demo_live_request = Planning_NotRequested" "verification_settled (lor_verification demo_live_request)"
  "lor_verification demo_live_request = Verification_NotRequested"
  by (simp_all add: demo_live_request_def)

lemma demo_clock: "fst (le_clock (demo_live_env x) n) < ep_batch_timeout (resolved_policy fast_policy)"
  by (simp add: demo_live_env_def fast_limits secs_def)

lemma demo_env_batch: "le_batch (demo_live_env x) = demo_batch_env (End_Outcome x)"
  by (simp add: demo_live_env_def)

lemma demo_routing:
  "registry_get (loc_profiles demo_coordinator) ''prod'' = Some demo_profile"
  "validate_routing fast_policy demo_profile (loc_connections demo_coordinator) (lor_verification demo_live_request)
     (lor_planning demo_live_request) = Inr ()"
  unfolding demo_coordinator_def LiveOrchestrationCoordinator.select_convs demo_plain(1,3)
  by (rule demo_profile_stored(1), rule demo_routes_valid)

lemma demo_live_run:
  assumes "task_state (so_status x) \<noteq> TS_Failed" "task_state (so_status x) \<noteq> TS_BudgetExhausted"
  shows "\<exists>out s' y. live_run demo_coordinator (demo_live_env x) demo_live_request demo_live_session = (Inr out, s', Some y)
     \<and> loo_terminal out = LT_Completed"
proof -
  obtain batch where batch: "run_batch (run_runtime demo_coordinator demo_profile) (demo_batch_env (End_Outcome x))
       (executor_request demo_live_request fast_policy False) = Inr batch" "map sto_state (sbo_tasks batch) = [task_state (so_status x)]"
    using demo_live_batch [of x] by (elim exE conjE)
  obtain s1 where s1: "begin_run demo_live_session = (Inr 1, s1)" using demo_begins by (elim exE)
  obtain t where "sbo_tasks batch = [t]" "sto_state t = task_state (so_status x)"
    using batch(2) by (cases "sbo_tasks batch") simp_all
  then have "\<not> executor_failed batch" using assms by (simp add: executor_failed_def)
  then show ?thesis
    using quiet_run_completes [OF demo_prepared fast_resolves s1 demo_clock demo_clock demo_undisturbed demo_plain(1,2) demo_routing]
      batch(1) unfolding demo_env_batch by iprover
qed

text \<open>Two error paths that leave something behind: a timed out task does not count as failed, so the run
  reports completion; and a run whose context is refused by the clock returns without ending the session.\<close>

lemma timed_out_task_run_completes:
  assumes "so_status x = SS_TimedOut"
  shows "\<exists>out s' y. live_run demo_coordinator (demo_live_env x) demo_live_request demo_live_session = (Inr out, s', Some y)
     \<and> loo_terminal out = LT_Completed"
  by (rule demo_live_run) (simp_all add: assms)

lemma refused_context_leaves_run_active:
  assumes "live_prepare co rq s = Inr (rp, pid)" "begin_run s = (Inr g, s1)"
    and "ep_batch_timeout (resolved_policy rp) \<le> fst (le_clock env 0)"
  shows "\<exists>x. live_run co env rq s = (Inl LE_BudgetExhaustion, s1, Some x) \<and> sei_status (ses_inner s1) = Sess_Preparing
     \<and> fst (reset_to_idle s1) = Inl ResetWhileActive"
proof -
  have "\<exists>e led. reserve_context (le_clock env 0) n (new_for_generation rp g) = (Inl e, led)" for n
    using assms(3) by (simp add: reserve_context_def with_ledger_def open_ledger_def check_elapsed_def exhaustion_def
        new_for_generation_def ledger_zero_def from_resolved_def Let_def)
  then obtain e led where "reserve_context (le_clock env 0) (request_context_bytes rq) (new_for_generation rp g) = (Inl e, led)"
    by blast
  moreover have "\<not> ses_poisoned s1 \<and> sei_status (ses_inner s1) = Sess_Preparing"
    using assms(2) by (auto simp: begin_run_def with_session_def Let_def split: if_splits)
  ultimately show ?thesis using assms(1,2) by (simp add: live_run_def reset_to_idle_def with_session_def)
qed

section \<open>Witnesses\<close>

lemma demo_outcome_exists: obtains x :: SubagentOutcome where "so_status x = SS_Completed"
  by (metis SubagentOutcome.select_convs(8))

lemma demo_run_started:
  obtains x s1 out s' y where "begin_run demo_live_session = (Inr 1, s1)"
    "live_run demo_coordinator (demo_live_env x) demo_live_request demo_live_session = (Inr out, s', Some y)"
    "loo_terminal out = LT_Completed" "so_status x = SS_Completed"
proof -
  obtain x :: SubagentOutcome where x: "so_status x = SS_Completed" by (rule demo_outcome_exists)
  obtain s1 where s1: "begin_run demo_live_session = (Inr 1, s1)" using demo_begins by (elim exE)
  have "task_state (so_status x) \<noteq> TS_Failed" "task_state (so_status x) \<noteq> TS_BudgetExhausted" by (simp_all add: x)
  from demo_live_run [OF this] show thesis using that s1 x by (elim exE conjE) 
qed


theorem live_run_within_policy_witness:
  "\<exists>x out s' y. live_run demo_coordinator (demo_live_env x) demo_live_request demo_live_session = (Inr out, s', Some y)
     \<and> provider_started (led_state (lx_ledger y)) \<le> 1 \<and> tool_started (led_state (lx_ledger y)) \<le> 4
     \<and> cleanup_complete (oc_state (lx_cleanup y)) \<and> active_children (oc_state (lx_cleanup y)) = []"
proof -
  obtain x s1 out s' y where run: "begin_run demo_live_session = (Inr 1, s1)"
    "live_run demo_coordinator (demo_live_env x) demo_live_request demo_live_session = (Inr out, s', Some y)"
    by (rule demo_run_started)
  from live_run_within_policy [OF demo_prepared fast_resolves run(1) demo_clock run(2)]
  have "provider_started (led_state (lx_ledger y)) \<le> 1 \<and> tool_started (led_state (lx_ledger y)) \<le> 4
     \<and> cleanup_complete (oc_state (lx_cleanup y)) \<and> active_children (oc_state (lx_cleanup y)) = []"
    by (simp add: fast_limits Let_def)
  then show ?thesis using run(2) by iprover
qed

theorem live_run_completed_meaning_witness:
  "\<exists>x out s' y batch. live_run demo_coordinator (demo_live_env x) demo_live_request demo_live_session = (Inr out, s', Some y)
     \<and> loo_terminal out = LT_Completed \<and> length (loo_roles out) = 4 \<and> loo_roles out ! 1 = role_from_batch batch
     \<and> lro_state (loo_roles out ! 0) = LR_Skipped"
proof -
  obtain x s1 out s' y where run: "begin_run demo_live_session = (Inr 1, s1)"
    "live_run demo_coordinator (demo_live_env x) demo_live_request demo_live_session = (Inr out, s', Some y)"
    "loo_terminal out = LT_Completed" by (rule demo_run_started)
  have plan: "lor_planning demo_live_request = Planning_NotRequested" by (simp add: demo_live_request_def)
  from live_run_completed_meaning [OF demo_prepared fast_resolves run(1) demo_clock run(2,3)]
  obtain planner batch v repair where "loo_roles out = [planner, role_from_batch batch, verdict_role v, repair]"
    "lro_state planner = LR_Skipped" unfolding Let_def plan by auto
  then have "length (loo_roles out) = 4 \<and> loo_roles out ! 1 = role_from_batch batch \<and> lro_state (loo_roles out ! 0) = LR_Skipped"
    by simp
  then show ?thesis using run(2,3) by iprover
qed


end
