(* ===== verification/Turn_Result.thy ===== *)
theory Turn_Result
  imports Live_Guarantees
begin

text \<open>
  The user-facing result of a run (\<open>turn_result.rs\<close>): bounded responses and the translation of the
  coordinator's outcome. Whether the observation of the run reports its cleanup complete is an
  argument, as observations are not modelled.
\<close>

section \<open>Responses\<close>

definition MAX_USER_FACING_RESPONSE_BYTES :: nat where
  "MAX_USER_FACING_RESPONSE_BYTES = 32 * 1024"

type_synonym UserFacingResponse = string

record UserFacingResponseError =
  ufe_actual_bytes :: nat
  ufe_max_bytes :: nat

definition UserFacingResponse_new :: "string \<Rightarrow> (UserFacingResponseError, UserFacingResponse) result" where
  "UserFacingResponse_new msg =
     (if length msg > MAX_USER_FACING_RESPONSE_BYTES
      then Inl \<lparr>ufe_actual_bytes = length msg, ufe_max_bytes = MAX_USER_FACING_RESPONSE_BYTES\<rparr>
      else Inr msg)"

definition with_prefix :: "string \<Rightarrow> UserFacingResponse \<Rightarrow> (UserFacingResponseError, UserFacingResponse) result" where
  "with_prefix prefix r =
     (let available = saturating_sub MAX_USER_FACING_RESPONSE_BYTES (length prefix);
          stop = boundary_below r (min (length r) available)
      in UserFacingResponse_new (prefix @ take stop r))"

text \<open>The static texts; the \<open>unreachable!\<close> of \<open>response\<close> is the empty response.\<close>

definition static_response :: "string \<Rightarrow> UserFacingResponse" where
  "static_response msg = (case UserFacingResponse_new msg of Inr r \<Rightarrow> r | Inl _ \<Rightarrow> [])"

section \<open>Results\<close>

record OrchestrationOperationalMetadata =
  om_run_id :: string
  om_provider_invocations :: nat
  om_tool_calls :: nat
  om_peak_concurrency :: nat
  om_synthesis_permitted :: bool
  om_cleanup_complete :: bool

record OrchestrationEvidence =
  oe_terminal :: LiveOrchestrationTerminal
  oe_failure :: "OrchestrationFailure option"
  oe_role_count :: nat

datatype OrchestrationPartialCause = ResponseUnavailable | VerificationRejected | RepairExhausted

datatype OrchestrationCleanupFailure = Cleanup_Incomplete

datatype turn_verdict =
  Turn_Completed UserFacingResponse
| Turn_Partial UserFacingResponse OrchestrationPartialCause
| Turn_Failed OrchestrationFailure UserFacingResponse
| Turn_Cancelled UserFacingResponse
| Turn_TimedOut UserFacingResponse
| Turn_BudgetExhausted BudgetExhaustionCategory UserFacingResponse
| Turn_CleanupIncomplete OrchestrationCleanupFailure UserFacingResponse

text \<open>Every variant carries the metadata and the evidence.\<close>

record OrchestrationTurnResult =
  tr_verdict :: turn_verdict
  tr_metadata :: OrchestrationOperationalMetadata
  tr_evidence :: OrchestrationEvidence

definition failure_kind :: "LiveOrchestrationOutcome \<Rightarrow> OrchestrationFailureKind" where
  "failure_kind out =
     (case loo_terminal_error out of
        Some LE_VerifierRejected \<Rightarrow> FK_VerifierRejected
      | Some LE_VerifierRuntimeFailure \<Rightarrow> FK_VerifierProviderFailure
      | Some LE_ExecutorBatchFailure \<Rightarrow> FK_ExecutorBatchFailure
      | Some LE_ExecutorJoinFailure \<Rightarrow> FK_ExecutorJoinFailure
      | Some LE_RepairFailed \<Rightarrow> FK_RepairFailed
      | Some LE_Cancellation \<Rightarrow> FK_UserCancelled
      | Some LE_Timeout \<Rightarrow> FK_TotalTimedOut
      | Some (LE_BudgetExhaustionCategory c) \<Rightarrow> FK_BudgetExhausted c
      | _ \<Rightarrow> FK_InternalCoordinatorFailure)"

definition or_static :: "UserFacingResponse option \<Rightarrow> string \<Rightarrow> UserFacingResponse" where
  "or_static candidate msg = (case candidate of Some r \<Rightarrow> r | None \<Rightarrow> static_response msg)"

definition failed_verdict :: "LiveOrchestrationOutcome \<Rightarrow> UserFacingResponse option \<Rightarrow> turn_verdict" where
  "failed_verdict out candidate =
     (let failure =
            (case loo_failure out of
               Some f \<Rightarrow> f
             | None \<Rightarrow> \<lparr>of_kind = failure_kind out, of_retryability = Retry_Unknown, of_role = None, of_tool = None,
                       of_terminal = loo_terminal out\<rparr>)
      in if of_kind failure = FK_RepairFailed
         then Turn_Partial (or_static candidate ''The work completed partially, but repair did not finish.'') RepairExhausted
         else Turn_Failed failure (static_response
                (case of_kind failure of
                   FK_VerifierRejected \<Rightarrow> ''The orchestration failed verification.''
                 | FK_RepairFailed \<Rightarrow> ''The orchestration could not repair the verification failure.''
                 | _ \<Rightarrow> ''The orchestration failed before completion.'')))"

definition turn_verdict_of :: "bool \<Rightarrow> LiveOrchestrationOutcome \<Rightarrow> UserFacingResponse option \<Rightarrow> turn_verdict" where
  "turn_verdict_of complete out candidate =
     (if \<not> complete
      then Turn_CleanupIncomplete Cleanup_Incomplete
             (static_response ''The orchestration finished, but cleanup did not complete.'')
      else case loo_terminal out of
          LT_Completed \<Rightarrow>
            if loo_synthesis_permitted out
            then Turn_Completed (or_static candidate ''The orchestration completed without an additional response.'')
            else Turn_Partial (or_static candidate ''The orchestration completed, but no final response was available.'')
                   ResponseUnavailable
        | LT_Cancelled \<Rightarrow> Turn_Cancelled (static_response ''The orchestration was cancelled.'')
        | LT_TimedOut \<Rightarrow> Turn_TimedOut (static_response ''The orchestration timed out.'')
        | LT_BudgetExhausted \<Rightarrow>
            Turn_BudgetExhausted
              (case loo_budget_exhaustion_category out of Some c \<Rightarrow> c | None \<Rightarrow> TotalProviderInvocations)
              (static_response ''The orchestration reached its execution budget.'')
        | LT_Failed \<Rightarrow> failed_verdict out candidate)"

definition build_turn_result ::
  "bool \<Rightarrow> LiveOrchestrationOutcome \<Rightarrow> UserFacingResponse option \<Rightarrow> OrchestrationTurnResult" where
  "build_turn_result complete out candidate =
     \<lparr>tr_verdict = turn_verdict_of complete out candidate,
      tr_metadata =
        \<lparr>om_run_id = loo_run_id out, om_provider_invocations = loo_provider_invocations out,
         om_tool_calls = loo_tool_calls out, om_peak_concurrency = loo_peak_concurrency out,
         om_synthesis_permitted = loo_synthesis_permitted out, om_cleanup_complete = complete\<rparr>,
      tr_evidence =
        \<lparr>oe_terminal = loo_terminal out, oe_failure = loo_failure out, oe_role_count = length (loo_roles out)\<rparr>\<rparr>"

section \<open>Bounds\<close>

fun verdict_text :: "turn_verdict \<Rightarrow> UserFacingResponse" where
  "verdict_text (Turn_Completed r) = r"
| "verdict_text (Turn_Partial r _) = r"
| "verdict_text (Turn_Failed _ r) = r"
| "verdict_text (Turn_Cancelled r) = r"
| "verdict_text (Turn_TimedOut r) = r"
| "verdict_text (Turn_BudgetExhausted _ r) = r"
| "verdict_text (Turn_CleanupIncomplete _ r) = r"

lemma static_response_bounded: "length (static_response msg) \<le> MAX_USER_FACING_RESPONSE_BYTES"
  by (simp add: static_response_def UserFacingResponse_new_def)

lemma static_response_exact: "length msg \<le> MAX_USER_FACING_RESPONSE_BYTES \<Longrightarrow> static_response msg = msg"
  by (simp add: static_response_def UserFacingResponse_new_def)

lemma turn_text_bounded:
  assumes "\<And>r. candidate = Some r \<Longrightarrow> length r \<le> MAX_USER_FACING_RESPONSE_BYTES"
  shows "length (verdict_text (tr_verdict (build_turn_result c out candidate))) \<le> MAX_USER_FACING_RESPONSE_BYTES"
proof -
  have "length (or_static candidate msg) \<le> MAX_USER_FACING_RESPONSE_BYTES" for msg
    using assms static_response_bounded by (cases candidate) (simp_all add: or_static_def)
  then show ?thesis
    using static_response_bounded
    by (cases "loo_terminal out") (simp_all add: build_turn_result_def turn_verdict_of_def failed_verdict_def Let_def)
qed

text \<open>Prefixing cuts the response at a character boundary, and fails only for an oversized prefix.\<close>

lemma with_prefix_ok:
  assumes "length prefix \<le> MAX_USER_FACING_RESPONSE_BYTES"
  shows "\<exists>n \<le> length r. with_prefix prefix r = Inr (prefix @ take n r) \<and> is_char_boundary r n
    \<and> length (prefix @ take n r) \<le> MAX_USER_FACING_RESPONSE_BYTES"
proof -
  let ?n = "boundary_below r (min (length r) (saturating_sub MAX_USER_FACING_RESPONSE_BYTES (length prefix)))"
  have n: "?n \<le> length r" "?n \<le> MAX_USER_FACING_RESPONSE_BYTES - length prefix"
    using boundary_below_le [of r "min (length r) (saturating_sub MAX_USER_FACING_RESPONSE_BYTES (length prefix))"]
    by (simp_all add: saturating_sub_def)
  then show ?thesis
    using assms boundary_below_boundary by (intro exI [of _ ?n]) (simp add: with_prefix_def UserFacingResponse_new_def Let_def)
qed

section \<open>The result of a run\<close>

text \<open>What the user is told of a run that ended as \<open>how\<close>, its cleanup reported complete.\<close>

definition faithful_verdict :: "LiveOrchestrationOutcome \<Rightarrow> turn_verdict \<Rightarrow> bool" where
  "faithful_verdict out v \<longleftrightarrow>
     (case loo_terminal out of
        LT_Completed \<Rightarrow> (\<exists>r. v = Turn_Completed r)
      | LT_Cancelled \<Rightarrow> (\<exists>r. v = Turn_Cancelled r)
      | LT_TimedOut \<Rightarrow> (\<exists>r. v = Turn_TimedOut r)
      | LT_BudgetExhausted \<Rightarrow> (\<exists>c r. v = Turn_BudgetExhausted c r)
      | LT_Failed \<Rightarrow>
          (\<exists>f. loo_failure out = Some f
             \<and> (if of_kind f = FK_RepairFailed then \<exists>r. v = Turn_Partial r RepairExhausted else \<exists>r. v = Turn_Failed f r)))"

lemma consistent_verdict:
  assumes "outcome_consistent out"
  shows "faithful_verdict out (turn_verdict_of True out candidate)"
proof (cases "loo_terminal out")
  case LT_Failed
  then obtain f where "loo_failure out = Some f" using assms by (cases "loo_failure out") (auto simp: outcome_consistent_def)
  then show ?thesis using LT_Failed by (simp add: faithful_verdict_def turn_verdict_of_def failed_verdict_def Let_def)
qed (use assms in \<open>simp_all add: faithful_verdict_def turn_verdict_of_def outcome_consistent_def\<close>)



end
