(* ===== verification/Spec2Isabelle.thy ===== *)
theory Spec2Isabelle
  imports Sequential_Workflow Provider_Failure Pool_Rotation Session_Accounting Role_Capabilities
    Repair_Batch Strategy_Routing Turn_Result
begin

text \<open>
  \<^bold>\<open>The Syndrid orchestration control plane.\<close> The repository is a terminal coding agent with an
  orchestration layer of its own: it routes the roles of a run (planner, executor, verifier, repair)
  to provider accounts, admits every provider call and tool call against an execution budget, runs
  subagents with a small set of repository tools, one by one or in batches, and supervises a plan,
  execute, verify and repair workflow. This development models that layer: the crate \<open>codex-rs/orchestration\<close> and the
  module \<open>codex-rs/core/src/syndrid_orchestration\<close>. File names below are relative to these two.

  \<^bold>\<open>How the parts interact.\<close> A routing profile assigns each role a connection or a named account pool;
  pools are resolved against the account registries and, when they rotate, against a cursor that is
  reserved and committed; provider failures put a connection into cooldown. An execution mode
  resolves to a policy, which fixes the limits of the run's budget ledger and the limits of every
  subagent. A subagent session asks the ledger for each provider turn and each tool call, registers
  both with the cleanup registry of the run, executes tools confined to the workspace and ends with
  an outcome. The executor's tasks run as a batch of such sessions under shared aggregate limits, and a
  rejected result may be repaired once within limits of its own. The live coordinator puts the parts
  together: it begins a run of the session, validates the request and its routes, runs planner,
  executor batch, verifier and repair as registered children over one ledger and one registry, and
  ends the run with the terminal cause arbitrated from the failures submitted by its parts.

  \<^bold>\<open>Theories.\<close>
  \<^item> \<open>Syn_Prelude\<close>: results, loops that may return early, saturating and wrapping 64-bit arithmetic,
    UTF-8 white space and control characters, the locales \<open>transition_system\<close> and
    \<open>terminating_system\<close> with the invariant and finality arguments every state machine shares.
  \<^item> \<open>BTree_Map\<close>: \<open>BTreeMap\<close> and \<open>BTreeSet\<close> as ascending association lists; the locale \<open>ordered_map\<close>
    is their contract.
  \<^item> \<open>Orch_Domain\<close> (\<open>ids.rs\<close>, \<open>agent.rs\<close>, \<open>budget.rs\<close>, \<open>permissions.rs\<close>, \<open>routing.rs\<close> and others of the crate): bounded
    identifiers and texts, permission envelopes, budgets, routes, handoffs.
  \<^item> \<open>Sequential_Workflow\<close> (\<open>sequential.rs\<close>): the coordinator's record and its
    operations, refined to an abstract automaton of stages; success means verified, runs are bounded
    and final states stay.
  \<^item> \<open>Provider_Accounts\<close> (\<open>provider_connection.rs\<close>, \<open>codex_accounts.rs\<close>, \<open>omniroute.rs\<close>): connections,
    account registry and its file, credential references and the credential store, OmniRoute
    connections and endpoints, model catalogues.
  \<^item> \<open>Account_Pools\<close> (\<open>account_pools.rs\<close>): named pools, resolution, readiness and the file format.
  \<^item> \<open>Pool_Rotation\<close> (\<open>rotation_state.rs\<close>): round-robin cursors with transactional reservations.
  \<^item> \<open>Provider_Failure\<close> (\<open>provider_failure.rs\<close>, \<open>cooldown_state.rs\<close>): classification of failures and
    cooldowns, compared with a log of what was recorded.
  \<^item> \<open>Routing_Profiles\<close> (\<open>routing_profiles.rs\<close>, \<open>routing_pool_bindings.rs\<close>): profiles, the registry,
    the connection directory and the resolution of pool-bound roles.
  \<^item> \<open>Execution_Modes\<close> (\<open>execution_modes.rs\<close> and the policy types of \<open>subagent_repair.rs\<close> and
    \<open>subagent_batch.rs\<close>): modes, their policies and what validation establishes.
  \<^item> \<open>Execution_Budget\<close> (\<open>execution_budget.rs\<close>, \<open>execution_budget_accounting.rs\<close>,
    \<open>execution_budget_reservations.rs\<close>): the ledger with its reservations and guards; the locale
    \<open>metered_resource\<close> is the contract of a bounded counter, interpreted five times.
  \<^item> \<open>Subagent_Tools\<close> (\<open>subagent_tools.rs\<close>): tool policies, path containment, the read, search and
    git-status tools over a finite file-system tree.
  \<^item> \<open>Orch_Cleanup\<close> (\<open>orchestration_cleanup.rs\<close>, the arbiter of \<open>orchestration_failure.rs\<close>): handles,
    guards, completion, and the choice of the terminal cause.
  \<^item> \<open>Subagent_Runtime\<close> (\<open>subagent.rs\<close>, types of \<open>invocation.rs\<close>): validation, routing and the tool
    session, a loop whose termination is proved from the provider turns it uses up.
  \<^item> \<open>Session_Accounting\<close>: the session over the ledger and the cleanup registry together.
  \<^item> \<open>Role_Capabilities\<close> (\<open>role_capabilities.rs\<close>): what each role may do, the explicit file and what
    loading it can grant at most.
  \<^item> \<open>Task_Set\<close>, \<open>Subagent_Batch\<close> (\<open>subagent_batch.rs\<close>): the set of spawned tasks and the scheduler that
    admits, joins and settles them; every task is accounted for, concurrency and aggregates stay bounded.
  \<^item> \<open>Subagent_Repair\<close>, \<open>Repair_Batch\<close> (\<open>subagent_repair.rs\<close>): one repair attempt after a failed or
    rejected result, its reservations over a shared budget, and batches of such runs.
  \<^item> \<open>Session_Execution\<close> (\<open>session_execution.rs\<close>, \<open>orchestration_policy.rs\<close>): the session's selections,
    its status and the generations of its runs; selections are frozen while a run is active and every
    session can run again.
  \<^item> \<open>Live_Outcome\<close> (\<open>live_coordinator_types.rs\<close>, \<open>live_coordinator_mapping.rs\<close>,
    \<open>orchestration_failure.rs\<close>): requests, role outcomes and the classification of failures.
  \<^item> \<open>Run_Ledger\<close>: what a session keeps of the run's ledger and registry it shares with others.
  \<^item> \<open>Live_Coordinator\<close> (\<open>live_coordinator.rs\<close>, \<open>live_coordinator_stages.rs\<close>,
    \<open>live_coordinator_validation.rs\<close>): validation, the stages and the end of a run.
  \<^item> \<open>Live_Run\<close>: the invariant of a run's state, kept by every stage, and the contract of a run's end.
  \<^item> \<open>Live_Guarantees\<close>: whole runs end the session, stay within the policy, hand everything back,
    report completion only for what completion means, and complete when nothing disturbs them.
  \<^item> \<open>Strategy_Routing\<close> (\<open>strategy_candidates.rs\<close>, \<open>routing_recommendation.rs\<close>,
    \<open>automatic_routing.rs\<close>): candidates in configured order; the automatic decision is the first eligible one.
  \<^item> \<open>Turn_Result\<close> (\<open>turn_result.rs\<close>): what the user is told of a run is what the run reported.

  \<^bold>\<open>Conventions.\<close> A struct is a \<open>record\<close> with prefixed fields, an enum a \<open>datatype\<close>, \<open>Result\<close> a sum with
  the error on the left. Strings are their UTF-8 bytes. Counters of type \<open>usize\<close> and \<open>u64\<close> are natural
  numbers; where the code adds without a check the release build wraps and the model writes
  \<open>wrapping_add\<close>. An operation on \<open>&mut self\<close> returns its result with the state it leaves. A mutex that
  may be poisoned is a flag of the state it protects. Values with a destructor (reservations, guards)
  are owned by a system state, and dropping one is an operation of its own, so interleavings are
  sequences of operations. The sessions of an executor batch reach the ledger and the registry of a live
  run in this form: two arbitrary sequences of the operations a session may perform.

  \<^bold>\<open>Parameters.\<close> Code outside the repository is an argument: the SHA-256 digest, URL parsing, JSON
  decoding, path canonicalisation, the git process, the credential store's backend, the provider's
  answers, the branches taken at await points and the clock readings. Hypotheses about them are
  stated where they are used (canonicalisation is idempotent, the digest does not collide).

  \<^bold>\<open>Bounds and fuel.\<close> No definition uses fuel. Loops are structural recursions over the list they
  iterate, or functions with a termination proof: the trimming loops by the length of the text, UTF-8
  validation by the bytes left, a tool session by the provider turns left, a batch by the tasks to come
  and to join.

  \<^bold>\<open>Not modelled.\<close> The HTTP clients and OAuth flows of the providers, the native keyring, the progress
  observations of a run, the production assembly and the asynchronous executor itself are I/O around
  the modelled operations; what the executor decides at an await is an argument. The crate
  \<open>orchestration-adapter\<close> has records for an adapter that is still to come. The terminal user
  interface, the application server, sandboxing, patch application and the other crates of the upstream agent are outside the control plane. Display
  strings, \<open>Debug\<close> implementations and plain accessors are left out unless an operation returns them.
\<close>

end
